(* ===== verification/Prelude.thy ===== *)
theory Prelude
  imports Complex_Main "HOL-Library.AList" "HOL-Library.Char_ord" "HOL-Library.List_Lexorder"
    "HOL-Library.Code_Target_Numeral"
begin

text \<open>
  What every component shares: the exceptions of the Python code as values of a sum type and the
  sequencing of computations that may raise; Python strings as UTF-8 byte strings; dictionaries as
  association lists in insertion order; the named collections of facts the component proofs use.
\<close>

named_theorems res_simps \<open>how sequencing acts on results\<close>
named_theorems dict_simps \<open>lookups after dictionary operations\<close>

section \<open>Exceptions and results\<close>

text \<open>
  The exceptions the code raises or catches. The argument is the text \<open>str(exc)\<close> of the exception;
  \<open>OtherExc\<close> carries the type name as well and stands for every class the code does not name.
\<close>

datatype exn =
    ValueError string
  | TypeError string
  | KeyError string
  | IndexError string
  | AttributeError string
  | OverflowError string
  | RecursionError string
  | TimeoutError string
  | OtherExc string string

type_synonym 'a res = "exn + 'a"

fun exn_type :: "exn \<Rightarrow> string" where
  "exn_type (ValueError _) = ''ValueError''"
| "exn_type (TypeError _) = ''TypeError''"
| "exn_type (KeyError _) = ''KeyError''"
| "exn_type (IndexError _) = ''IndexError''"
| "exn_type (AttributeError _) = ''AttributeError''"
| "exn_type (OverflowError _) = ''OverflowError''"
| "exn_type (RecursionError _) = ''RecursionError''"
| "exn_type (TimeoutError _) = ''TimeoutError''"
| "exn_type (OtherExc t _) = t"

fun exn_str :: "exn \<Rightarrow> string" where
  "exn_str (ValueError m) = m"
| "exn_str (TypeError m) = m"
| "exn_str (KeyError m) = CHR 0x27 # m @ [CHR 0x27]"
| "exn_str (IndexError m) = m"
| "exn_str (AttributeError m) = m"
| "exn_str (OverflowError m) = m"
| "exn_str (RecursionError m) = m"
| "exn_str (TimeoutError m) = m"
| "exn_str (OtherExc _ m) = m"

fun is_value_error :: "exn \<Rightarrow> bool" where
  "is_value_error (ValueError _) = True"
| "is_value_error _ = False"

text \<open>Sequencing: the first exception ends the computation.\<close>

definition rbind :: "'a res \<Rightarrow> ('a \<Rightarrow> 'b res) \<Rightarrow> 'b res" where
  "rbind m f = (case m of Inl e \<Rightarrow> Inl e | Inr x \<Rightarrow> f x)"

lemma rbind_Inl [simp, res_simps]: "rbind (Inl e) f = Inl e"
  by (simp add: rbind_def)

lemma rbind_Inr [simp, res_simps]: "rbind (Inr x) f = f x"
  by (simp add: rbind_def)

lemma rbind_eq_Inr [res_simps]: "rbind m f = Inr y \<longleftrightarrow> (\<exists>x. m = Inr x \<and> f x = Inr y)"
  by (cases m) auto

lemma rbind_eq_Inl [res_simps]:
  "rbind m f = Inl e \<longleftrightarrow> m = Inl e \<or> (\<exists>x. m = Inr x \<and> f x = Inl e)"
  by (cases m) auto

lemma rbind_assoc: "rbind (rbind m f) g = rbind m (\<lambda>x. rbind (f x) g)"
  by (cases m) auto

lemma rbind_cong [fundef_cong]:
  "m = m' \<Longrightarrow> (\<And>x. m' = Inr x \<Longrightarrow> f x = f' x) \<Longrightarrow> rbind m f = rbind m' f'"
  by (cases m') auto

text \<open>\<open>any(p(x) for x in xs)\<close> and a list comprehension, where the body may raise.\<close>

fun rany :: "('a \<Rightarrow> bool res) \<Rightarrow> 'a list \<Rightarrow> bool res" where
  "rany p [] = Inr False"
| "rany p (x # xs) = rbind (p x) (\<lambda>b. if b then Inr True else rany p xs)"

fun rmap :: "('a \<Rightarrow> 'b res) \<Rightarrow> 'a list \<Rightarrow> 'b list res" where
  "rmap f [] = Inr []"
| "rmap f (x # xs) = rbind (f x) (\<lambda>y. rbind (rmap f xs) (\<lambda>ys. Inr (y # ys)))"

text \<open>A \<open>for\<close> loop whose body updates a state and may raise.\<close>

fun rfold :: "('a \<Rightarrow> 's \<Rightarrow> 's res) \<Rightarrow> 'a list \<Rightarrow> 's \<Rightarrow> 's res" where
  "rfold f [] s = Inr s"
| "rfold f (x # xs) s = rbind (f x s) (\<lambda>s'. rfold f xs s')"

text \<open>\<open>if b: raise e\<close>, and \<open>x or y\<close> where testing either may raise.\<close>

definition raise_if :: "bool \<Rightarrow> exn \<Rightarrow> unit res" where
  "raise_if b e = (if b then Inl e else Inr ())"

definition ror :: "bool res \<Rightarrow> bool res \<Rightarrow> bool res" where
  "ror x y = rbind x (\<lambda>b. if b then Inr True else y)"

lemma raise_if_Inr [res_simps]: "raise_if b e = Inr u \<longleftrightarrow> \<not> b"
  by (simp add: raise_if_def)

lemma raise_if_Inl [res_simps]: "raise_if b e = Inl x \<longleftrightarrow> b \<and> x = e"
  by (auto simp: raise_if_def)

lemma raise_if_False [simp]: "raise_if False e = Inr ()"
  by (simp add: raise_if_def)

lemma raise_if_True [simp]: "raise_if True e = Inl e"
  by (simp add: raise_if_def)

lemma ror_False [res_simps]: "ror x y = Inr False \<longleftrightarrow> x = Inr False \<and> y = Inr False"
  by (cases x) (auto simp: ror_def)

lemma ror_True [simp]: "ror (Inr True) y = Inr True"
  by (simp add: ror_def)

lemma ror_pass [simp]: "ror (Inr False) y = y"
  by (simp add: ror_def)

lemma ror_Inl [simp]: "ror (Inl e) y = Inl e"
  by (simp add: ror_def)

lemma rany_pure: "rany (\<lambda>x. Inr (p x)) xs = Inr (\<exists>x\<in>set xs. p x)"
  by (induction xs) auto

lemma rany_FalseD: "rany p xs = Inr False \<Longrightarrow> x \<in> set xs \<Longrightarrow> p x = Inr False"
  by (induction xs) (auto simp: res_simps split: if_splits)

lemma rany_False: "rany p xs = Inr False \<longleftrightarrow> (\<forall>x\<in>set xs. p x = Inr False)"
  by (induction xs) (auto simp: res_simps split: if_splits)

lemma rmap_length: "rmap f xs = Inr ys \<Longrightarrow> length ys = length xs"
  by (induction xs arbitrary: ys) (auto simp: res_simps)

lemma rmap_pure: "rmap (\<lambda>x. Inr (f x)) xs = Inr (map f xs)"
  by (induction xs) auto

lemma rfold_unit: "rfold (\<lambda>x u. f x) xs () = Inr () \<longleftrightarrow> (\<forall>x\<in>set xs. f x = Inr ())"
  by (induction xs) (auto simp: res_simps)

lemma rfold_Inl: "rfold f xs s = Inl e \<Longrightarrow> \<exists>x\<in>set xs. \<exists>t. f x t = Inl e"
  by (induction xs arbitrary: s) (auto simp: res_simps)

lemma rfold_append: "rfold f (xs @ ys) s = rbind (rfold f xs s) (rfold f ys)"
proof (induction xs arbitrary: s)
  case (Cons x xs)
  then show ?case by (cases "f x s") simp_all
qed simp

text \<open>An invariant of the loop body is an invariant of the loop.\<close>

lemma rfold_invariant:
  assumes "rfold f xs s = Inr t" and "P s"
    and "\<And>x u v. x \<in> set xs \<Longrightarrow> P u \<Longrightarrow> f x u = Inr v \<Longrightarrow> P v"
  shows "P t"
  using assms
  by (induction xs arbitrary: s) (auto simp: res_simps)

section \<open>Strings\<close>

text \<open>
  A Python string is a sequence of code points. The model holds its UTF-8 encoding, so
  \<open>len(s.encode())\<close> is \<open>length s\<close> and a code point is a leading byte with its continuation bytes
  (\<open>utf8_chars\<close>); \<open>len(s)\<close> counts those. Byte order and code point order agree in UTF-8, so
  \<open>sorted\<close> on strings is \<open>sort\<close> here. Lone surrogates, which have no encoding, are not modelled.
\<close>

definition is_cont :: "char \<Rightarrow> bool" where
  "is_cont c = (128 \<le> (of_char c :: nat) \<and> (of_char c :: nat) < 192)"

definition conts :: "char \<Rightarrow> string \<Rightarrow> string" where
  "conts c cs = (if 192 \<le> (of_char c :: nat) then takeWhile is_cont cs else [])"

function utf8_chars :: "string \<Rightarrow> string list" where
  "utf8_chars [] = []"
| "utf8_chars (c # cs) = (c # conts c cs) # utf8_chars (drop (length (conts c cs)) cs)"
  by pat_completeness auto
termination
  by (relation "measure length") auto

lemma conts_append_drop [simp]: "conts c cs @ drop (length (conts c cs)) cs = cs"
  by (simp add: conts_def dropWhile_eq_drop [symmetric])

definition py_len :: "string \<Rightarrow> nat" where
  "py_len s = length (utf8_chars s)"

text \<open>\<open>s[:n]\<close> and \<open>s[-n:]\<close> for a non-negative literal \<open>n\<close>.\<close>

definition py_take :: "nat \<Rightarrow> string \<Rightarrow> string" where
  "py_take n s = concat (take n (utf8_chars s))"

definition py_last :: "nat \<Rightarrow> string \<Rightarrow> string" where
  "py_last n s = (let cs = utf8_chars s in
     if n = 0 then s else concat (drop (length cs - n) cs))"

lemma concat_utf8_chars [simp]: "concat (utf8_chars s) = s"
  by (induction s rule: utf8_chars.induct) auto

lemma utf8_chars_nonempty: "[] \<notin> set (utf8_chars s)"
  by (induction s rule: utf8_chars.induct) auto

lemma py_len_le: "py_len s \<le> length s"
proof (induction s rule: utf8_chars.induct)
  case (2 c cs)
  then show ?case by (simp add: py_len_def)
qed (simp add: py_len_def)

lemma py_len_0 [simp]: "py_len s = 0 \<longleftrightarrow> s = []"
  by (cases s) (auto simp: py_len_def)

lemma utf8_chars_ascii: "\<forall>c\<in>set s. \<not> is_cont c \<Longrightarrow> utf8_chars s = map (\<lambda>c. [c]) s"
proof (induction s)
  case (Cons c cs)
  have "conts c cs = []"
    using Cons.prems by (cases cs) (simp_all add: conts_def)
  with Cons show ?case by simp
qed simp

text \<open>On text without continuation bytes (ASCII in particular) code points are bytes.\<close>

lemma py_len_ascii: "\<forall>c\<in>set s. \<not> is_cont c \<Longrightarrow> py_len s = length s"
  by (simp add: py_len_def utf8_chars_ascii)

lemma py_take_ascii: "\<forall>c\<in>set s. \<not> is_cont c \<Longrightarrow> py_take n s = take n s"
  by (simp add: py_take_def utf8_chars_ascii take_map)

lemma length_concat_take_le: "length (concat (take n xs)) \<le> length (concat xs)"
proof (induction xs arbitrary: n)
  case (Cons x xs)
  then show ?case by (cases n) auto
qed simp

lemma length_py_take_le: "length (py_take n s) \<le> length s"
  using length_concat_take_le [of n "utf8_chars s"] by (simp add: py_take_def)

lemma utf8_drop: "utf8_chars (concat (drop k (utf8_chars s))) = drop k (utf8_chars s)"
proof (induction s arbitrary: k rule: utf8_chars.induct)
  case (2 c cs)
  then show ?case by (cases k) simp_all
qed simp

lemma conts_take: "conts c (conts c cs @ concat (take k (utf8_chars (drop (length (conts c cs)) cs)))) = conts c cs"
proof (cases "192 \<le> (of_char c :: nat)")
  case True
  let ?r = "dropWhile is_cont cs"
  let ?t = "concat (take k (utf8_chars ?r))"
  have "concat (take k (utf8_chars r)) = [] \<or> hd (concat (take k (utf8_chars r))) = hd r \<and> r \<noteq> []" for r
    by (cases r; cases k) auto
  then have "?t = [] \<or> hd ?t = hd ?r \<and> ?r \<noteq> []" .
  then have "?t = [] \<or> \<not> is_cont (hd ?t)" using hd_dropWhile [of is_cont cs] by metis
  moreover have "takeWhile is_cont (takeWhile is_cont cs @ t) = takeWhile is_cont cs" if "t = [] \<or> \<not> is_cont (hd t)" for t
    using that by (cases t) (auto simp: takeWhile_append takeWhile_tail dest: set_takeWhileD)
  ultimately have "takeWhile is_cont (takeWhile is_cont cs @ ?t) = takeWhile is_cont cs" by blast
  with True show ?thesis by (simp add: conts_def dropWhile_eq_drop [symmetric])
qed (simp add: conts_def)

lemma utf8_take: "utf8_chars (concat (take k (utf8_chars s))) = take k (utf8_chars s)"
proof (induction s arbitrary: k rule: utf8_chars.induct)
  case (2 c cs)
  then show ?case by (cases k) (simp_all add: conts_take)
qed simp

lemma py_len_take: "py_len (py_take n s) \<le> n"
  by (simp add: py_len_def py_take_def utf8_take)

text \<open>
  \<open>str.strip()\<close> removes the code points Python calls white space at both ends: the ASCII ones, NEL,
  NO-BREAK SPACE and the separators of the general categories Zs, Zl and Zp.
\<close>

definition py_spaces :: "string list" where
  "py_spaces =
     map (\<lambda>n. [char_of (n :: nat)]) [9, 10, 11, 12, 13, 28, 29, 30, 31, 32]
     @ map (map (char_of :: nat \<Rightarrow> char))
         ([[194, 133], [194, 160], [225, 154, 128], [226, 128, 168], [226, 128, 169],
           [226, 128, 175], [226, 129, 159], [227, 128, 128]]
          @ map (\<lambda>n. [226, 128, n]) [128, 129, 130, 131, 132, 133, 134, 135, 136, 137, 138])"

definition py_strip :: "string \<Rightarrow> string" where
  "py_strip s = (let sp = (\<lambda>c. c \<in> set py_spaces) in
     concat (rev (dropWhile sp (rev (dropWhile sp (utf8_chars s))))))"

text \<open>\<open>str.lower()\<close> on ASCII letters; the letters outside ASCII are kept as they are.\<close>

definition ascii_lower :: "string \<Rightarrow> string" where
  "ascii_lower = map (\<lambda>c. let n = (of_char c :: nat) in if 65 \<le> n \<and> n \<le> 90 then char_of (n + 32) else c)"

text \<open>\<open>sub in s\<close>, \<open>s.startswith(p)\<close>, \<open>s.split(sep)\<close> for one separator character, \<open>sep.join(xs)\<close>.\<close>

fun prefix_of :: "string \<Rightarrow> string \<Rightarrow> bool" where
  "prefix_of [] s = True"
| "prefix_of (p # ps) [] = False"
| "prefix_of (p # ps) (c # cs) = (p = c \<and> prefix_of ps cs)"

fun contains :: "string \<Rightarrow> string \<Rightarrow> bool" where
  "contains p [] = (p = [])"
| "contains p (c # cs) = (prefix_of p (c # cs) \<or> contains p cs)"

fun split_on :: "char \<Rightarrow> string \<Rightarrow> string list" where
  "split_on d [] = [[]]"
| "split_on d (c # cs) =
     (if c = d then [] # split_on d cs
      else case split_on d cs of [] \<Rightarrow> [[c]] | w # ws \<Rightarrow> (c # w) # ws)"

fun join :: "string \<Rightarrow> string list \<Rightarrow> string" where
  "join sep [] = []"
| "join sep [x] = x"
| "join sep (x # y # zs) = x @ sep @ join sep (y # zs)"

lemma prefix_of_append [simp]: "prefix_of p (p @ s)"
  by (induction p) auto

lemma prefix_of_iff: "prefix_of p s \<longleftrightarrow> (\<exists>t. s = p @ t)"
  by (induction p s rule: prefix_of.induct) auto

lemma split_on_nonempty [simp]: "split_on d s \<noteq> []"
  by (cases s) (auto split: list.splits)

lemma length_split_on: "length (split_on d s) = Suc (count_list s d)"
  by (induction s) (auto split: list.splits)

lemma join_split_on: "join [d] (split_on d s) = s"
proof (induction s)
  case (Cons c cs)
  obtain w ws where w: "split_on d cs = w # ws" by (cases "split_on d cs") auto
  with Cons show ?case by (cases ws) auto
qed simp

text \<open>Decimal rendering of integers, \<open>str(n)\<close>.\<close>

abbreviation nl :: string where
  "nl \<equiv> [CHR 0x0A]"

text \<open>The UTF-8 bytes of the en dash in messages.\<close>

definition dash :: string where
  "dash = [CHR 0xE2, CHR 0x80, CHR 0x93]"

definition digit_char :: "nat \<Rightarrow> char" where
  "digit_char d = char_of (48 + d)"

fun nat_str :: "nat \<Rightarrow> string" where
  "nat_str n = (if n < 10 then [digit_char n] else nat_str (n div 10) @ [digit_char (n mod 10)])"

declare nat_str.simps [simp del]

definition int_str :: "int \<Rightarrow> string" where
  "int_str i = (if i < 0 then CHR ''-'' # nat_str (nat (- i)) else nat_str (nat i))"

definition is_digit :: "char \<Rightarrow> bool" where
  "is_digit c = (48 \<le> (of_char c :: nat) \<and> (of_char c :: nat) \<le> 57)"

definition digit_val :: "char \<Rightarrow> nat" where
  "digit_val c = of_char c - 48"

definition digits_val :: "string \<Rightarrow> nat" where
  "digits_val s = foldl (\<lambda>a c. 10 * a + digit_val c) 0 s"

lemma of_char_digit_char: "d < 10 \<Longrightarrow> (of_char (digit_char d) :: nat) = 48 + d"
  by (simp add: digit_char_def)

lemma digits_val_append: "digits_val (s @ [c]) = 10 * digits_val s + digit_val c"
  by (simp add: digits_val_def)

lemma nat_str_digits: "list_all is_digit (nat_str n)"
proof (induction n rule: nat_str.induct)
  case (1 n)
  have "is_digit (digit_char d)" if "d < 10" for d
    using that by (simp add: is_digit_def of_char_digit_char)
  with 1 show ?case by (subst nat_str.simps) auto
qed

lemma digits_val_nat_str [simp]: "digits_val (nat_str n) = n"
proof (induction n rule: nat_str.induct)
  case (1 n)
  show ?case
  proof (cases "n < 10")
    case True
    then show ?thesis
      by (subst nat_str.simps) (simp add: digits_val_def digit_val_def of_char_digit_char)
  next
    case False
    have "n mod 10 < 10" by simp
    with False 1 show ?thesis
      by (subst nat_str.simps) (simp add: digits_val_append digit_val_def of_char_digit_char)
  qed
qed

lemma nat_str_inj: "nat_str m = nat_str n \<Longrightarrow> m = n"
  by (metis digits_val_nat_str)

lemma nat_str_inj_iff [simp]: "nat_str m = nat_str n \<longleftrightarrow> m = n"
  using nat_str_inj by blast

lemma nat_str_nonempty [simp]: "nat_str n \<noteq> []"
  by (subst nat_str.simps) simp

section \<open>Dictionaries\<close>

text \<open>
  A Python dict keeps insertion order, and an update of a key that is there keeps its place: an
  association list with \<open>AList.update\<close> and \<open>AList.delete\<close>. The values of a dict have distinct keys.
\<close>

abbreviation dset :: "'k \<Rightarrow> 'v \<Rightarrow> ('k \<times> 'v) list \<Rightarrow> ('k \<times> 'v) list" where
  "dset \<equiv> AList.update"

abbreviation dpop :: "'k \<Rightarrow> ('k \<times> 'v) list \<Rightarrow> ('k \<times> 'v) list" where
  "dpop \<equiv> AList.delete"

abbreviation keys :: "('k \<times> 'v) list \<Rightarrow> 'k list" where
  "keys d \<equiv> map fst d"

abbreviation wf_dict :: "('k \<times> 'v) list \<Rightarrow> bool" where
  "wf_dict d \<equiv> distinct (keys d)"

definition has_key :: "('k \<times> 'v) list \<Rightarrow> 'k \<Rightarrow> bool" where
  "has_key d k = (k \<in> set (keys d))"

text \<open>\<open>d.get(k, x)\<close> and \<open>d[k]\<close>.\<close>

definition dget_or :: "('k \<times> 'v) list \<Rightarrow> 'k \<Rightarrow> 'v \<Rightarrow> 'v" where
  "dget_or d k x = (case map_of d k of None \<Rightarrow> x | Some v \<Rightarrow> v)"

definition dsub :: "(string \<times> 'v) list \<Rightarrow> string \<Rightarrow> 'v res" where
  "dsub d k = (case map_of d k of None \<Rightarrow> Inl (KeyError k) | Some v \<Rightarrow> Inr v)"

text \<open>\<open>{**d, **e}\<close> and \<open>d.update(e)\<close>.\<close>

definition dupd :: "('k \<times> 'v) list \<Rightarrow> ('k \<times> 'v) list \<Rightarrow> ('k \<times> 'v) list" where
  "dupd d e = fold (\<lambda>(k, v). dset k v) e d"

lemma has_key_iff: "has_key d k \<longleftrightarrow> map_of d k \<noteq> None"
  by (auto simp: has_key_def map_of_eq_None_iff)

lemma has_key_SomeI: "map_of d k = Some v \<Longrightarrow> has_key d k"
  by (simp add: has_key_iff)

lemma map_of_dset [dict_simps]: "map_of (dset k v d) = (map_of d)(k \<mapsto> v)"
  by (simp add: update_conv')

lemma map_of_dpop [dict_simps]: "map_of (dpop k d) = (map_of d)(k := None)"
  by (rule ext) (simp add: delete_conv')

lemma map_of_dupd [dict_simps]: "map_of (dupd d e) = map_of d ++ map_of (rev e)"
proof -
  have "map_of (fold (\<lambda>(k, v). dset k v) e d) = map_of d ++ map_of (rev e)"
    by (induction e arbitrary: d) (auto simp: map_of_dset)
  then show ?thesis by (simp add: dupd_def)
qed

lemma map_of_dupd_wf: "wf_dict e \<Longrightarrow> map_of (dupd d e) = map_of d ++ map_of e"
proof -
  assume "wf_dict e"
  then have "map_of (rev e) = map_of e" by (intro map_of_inject_set [THEN iffD2]) (auto simp: rev_map [symmetric])
  then show ?thesis by (simp add: map_of_dupd)
qed

lemma set_dset_subset: "set (dset k v d) \<subseteq> insert (k, v) (set d)"
  by (induction d) auto

lemma keys_dset: "keys (dset k v d) = (if k \<in> set (keys d) then keys d else keys d @ [k])"
  by (induction d) auto

lemma wf_dset [simp]: "wf_dict d \<Longrightarrow> wf_dict (dset k v d)"
  by (simp add: distinct_update)

lemma wf_dupd [simp]: "wf_dict d \<Longrightarrow> wf_dict (dupd d e)"
  unfolding dupd_def by (induction e arbitrary: d) (auto simp: split_beta)

lemma wf_dpop [simp]: "wf_dict d \<Longrightarrow> wf_dict (dpop k d)"
  by (simp add: distinct_delete)

lemma set_keys_dupd [simp]: "set (keys (dupd d e)) = set (keys d) \<union> set (keys e)"
  unfolding dupd_def by (induction e arbitrary: d) (auto simp: split_beta dom_update)

lemma dsub_eq_Inr [simp]: "dsub d k = Inr v \<longleftrightarrow> map_of d k = Some v"
  by (auto simp: dsub_def split: option.splits)

lemma dsub_eq_Inl: "dsub d k = Inl e \<longleftrightarrow> map_of d k = None \<and> e = KeyError k"
  by (auto simp: dsub_def split: option.splits)

lemma dsub_Some [simp]: "map_of d k = Some v \<Longrightarrow> dsub d k = Inr v"
  by simp

lemma dget_or_Some [simp]: "map_of d k = Some v \<Longrightarrow> dget_or d k x = v"
  by (simp add: dget_or_def)

lemma dget_or_None [simp]: "map_of d k = None \<Longrightarrow> dget_or d k x = x"
  by (simp add: dget_or_def)

lemma dupd_disjoint:
  "wf_dict e \<Longrightarrow> set (keys d) \<inter> set (keys e) = {} \<Longrightarrow> dupd d e = d @ e"
proof (induction e arbitrary: d)
  case Nil
  then show ?case by (simp add: dupd_def)
next
  case (Cons p e)
  obtain k v where p: "p = (k, v)" by (cases p)
  with Cons.prems have "k \<notin> set (keys d)" by auto
  then have u: "dset k v d = d @ [(k, v)]" by (induction d) auto
  have "dupd (d @ [(k, v)]) e = (d @ [(k, v)]) @ e"
    using Cons.prems p by (intro Cons.IH) auto
  with u p show ?case by (simp add: dupd_def)
qed

end
