(* ===== verification/PyFloat.thy ===== *)
theory PyFloat
  imports Prelude
begin

text \<open>
  Python floats: IEEE double precision with round to nearest, ties to even. A finite float is held
  as the rational it denotes; \<open>fl\<close> rounds an exact result to a double, so an arithmetic step of the
  code is \<open>fl\<close> of the exact operation and \<open>math.fsum\<close> is \<open>fl\<close> of the exact sum. The sign of a zero is
  not kept. The lemmas bound the rounding error.
\<close>

datatype pyfloat = Fin rat | PInf | NInf | NaN

definition pow2 :: "int \<Rightarrow> rat" where
  "pow2 e = (if 0 \<le> e then 2 ^ nat e else 1 / 2 ^ nat (- e))"

fun bit_count :: "nat \<Rightarrow> int" where
  "bit_count n = (if n = 0 then 0 else 1 + bit_count (n div 2))"

declare bit_count.simps [simp del]

text \<open>The exponent \<open>e\<close> with \<open>2^e \<le> x < 2^(e+1)\<close>, for a positive \<open>x\<close>.\<close>

definition ilog2 :: "rat \<Rightarrow> int" where
  "ilog2 x = (let (n, d) = quotient_of x; e = bit_count (nat n) - bit_count (nat d)
              in if pow2 e \<le> x then e else e - 1)"

text \<open>Python's \<open>round(x)\<close> of a number to an integer.\<close>

definition round_even :: "rat \<Rightarrow> int" where
  "round_even x = (let f = \<lfloor>x\<rfloor>; r = x - of_int f in
     if r < 1/2 then f else if 1/2 < r then f + 1 else if even f then f else f + 1)"

definition ulp :: "rat \<Rightarrow> rat" where
  "ulp x = pow2 (max (ilog2 \<bar>x\<bar> - 52) (-1074))"

definition fl :: "rat \<Rightarrow> rat" where
  "fl x = (if x = 0 then 0 else of_int (round_even (x / ulp x)) * ulp x)"

text \<open>A rounded result beyond the largest double is an infinity.\<close>

definition mk_float :: "rat \<Rightarrow> pyfloat" where
  "mk_float x = (let r = fl x in
     if 2 ^ 1024 \<le> r then PInf else if r \<le> - (2 ^ 1024) then NInf else Fin r)"

text \<open>Converting an int to float raises when the rounded value is out of range.\<close>

definition int_too_large :: "int \<Rightarrow> bool" where
  "int_too_large i = (2 ^ 1024 \<le> \<bar>fl (of_int i)\<bar>)"

text \<open>Comparisons; every comparison with a NaN is false.\<close>

fun f_le :: "pyfloat \<Rightarrow> pyfloat \<Rightarrow> bool" where
  "f_le (Fin a) (Fin b) = (a \<le> b)"
| "f_le NaN b = False"
| "f_le a NaN = False"
| "f_le NInf b = True"
| "f_le a PInf = True"
| "f_le a b = False"

fun f_eq :: "pyfloat \<Rightarrow> pyfloat \<Rightarrow> bool" where
  "f_eq (Fin a) (Fin b) = (a = b)"
| "f_eq PInf PInf = True"
| "f_eq NInf NInf = True"
| "f_eq a b = False"

definition f_lt :: "pyfloat \<Rightarrow> pyfloat \<Rightarrow> bool" where
  "f_lt a b = (f_le a b \<and> \<not> f_eq a b)"

fun f_finite :: "pyfloat \<Rightarrow> bool" where
  "f_finite (Fin _) = True"
| "f_finite _ = False"

lemma f_finite_iff: "f_finite f \<longleftrightarrow> (\<exists>r. f = Fin r)"
  by (cases f) auto

lemma f_lt_Fin [simp]: "f_lt (Fin a) (Fin b) \<longleftrightarrow> a < b"
  by (auto simp: f_lt_def)

section \<open>Rounding error\<close>

lemma pow2_pos [simp]: "0 < pow2 e"
  by (simp add: pow2_def)

lemma pow2_powi: "pow2 e = 2 powi e"
  unfolding pow2_def power_int_def by (simp add: power_inverse inverse_eq_divide power_one_over)

lemma pow2_nonneg [simp]: "0 \<le> pow2 e"
  by (rule less_imp_le) simp

lemma pow2_mono: "a \<le> b \<Longrightarrow> pow2 a \<le> pow2 b"
  unfolding pow2_powi by (rule power_int_increasing) auto

lemma pow2_add: "pow2 (a + b) = pow2 a * pow2 b"
  unfolding pow2_powi by (rule power_int_add) simp

lemma pow2_of_nat: "pow2 (int n) = 2 ^ n"
  by (simp add: pow2_def)

lemma ulp_pos [simp]: "0 < ulp x"
  by (simp add: ulp_def)

lemma ulp_nonneg [simp]: "0 \<le> ulp x"
  by (rule less_imp_le) simp

lemma bit_count_nonneg [simp]: "0 \<le> bit_count n"
proof (induction n rule: bit_count.induct)
  case (1 n)
  then show ?case by (subst bit_count.simps) auto
qed

lemma round_even_error: "\<bar>of_int (round_even x) - x\<bar> \<le> 1/2"
proof -
  define r where "r = x - of_int \<lfloor>x\<rfloor>"
  have r: "0 \<le> r" "r < 1" "x = of_int \<lfloor>x\<rfloor> + r" unfolding r_def by linarith+
  have "round_even x = (if r < 1/2 then \<lfloor>x\<rfloor> else if 1/2 < r then \<lfloor>x\<rfloor> + 1
      else if even \<lfloor>x\<rfloor> then \<lfloor>x\<rfloor> else \<lfloor>x\<rfloor> + 1)"
    by (simp add: round_even_def r_def Let_def)
  with r show ?thesis by (auto split: if_splits)
qed

lemma round_even_int [simp]: "round_even (of_int i) = i"
  by (simp add: round_even_def)

lemma round_even_nonneg: "0 \<le> x \<Longrightarrow> 0 \<le> round_even x"
  unfolding round_even_def Let_def by (auto simp: le_floor_iff intro: add_nonneg_nonneg)

lemma fl_0 [simp]: "fl 0 = 0"
  by (simp add: fl_def)

lemma fl_error_ulp: "\<bar>fl x - x\<bar> \<le> ulp x / 2"
proof (cases "x = 0")
  case True
  then show ?thesis using ulp_pos [of 0] by simp
next
  case False
  define q where "q = ulp x"
  have q: "0 < q" by (simp add: q_def)
  have "fl x - x = (of_int (round_even (x / q)) - x / q) * q"
    using q False by (simp add: fl_def q_def [symmetric] field_simps)
  then have "\<bar>fl x - x\<bar> = \<bar>of_int (round_even (x / q)) - x / q\<bar> * q"
    using q by (simp add: abs_mult)
  also have "\<dots> \<le> 1/2 * q"
    using round_even_error [of "x / q"] q by (intro mult_right_mono) auto
  finally show ?thesis by (simp add: q_def)
qed

lemma fl_nonneg: "0 \<le> x \<Longrightarrow> 0 \<le> fl x"
proof -
  assume x: "0 \<le> x"
  have "0 \<le> x / ulp x" using x ulp_pos [of x] by simp
  then have "0 \<le> round_even (x / ulp x)" by (rule round_even_nonneg)
  then show ?thesis using ulp_pos [of x] by (simp add: fl_def)
qed

lemma bit_count_bounds: "0 < n \<Longrightarrow> pow2 (bit_count n - 1) \<le> of_nat n \<and> of_nat n < pow2 (bit_count n)"
proof (induction n rule: bit_count.induct)
  case (1 n)
  show ?case
  proof (cases "n = 1")
    case True
    then show ?thesis by (simp add: bit_count.simps pow2_def)
  next
    case False
    with "1.prems" have m: "0 < n div 2" by simp
    with "1.IH" "1.prems" have ih: "pow2 (bit_count (n div 2) - 1) \<le> of_nat (n div 2)"
        "of_nat (n div 2) < pow2 (bit_count (n div 2))" by auto
    have b: "bit_count n = 1 + bit_count (n div 2)"
      using "1.prems" by (simp add: bit_count.simps [of n])
    have double: "pow2 (1 + e) = 2 * pow2 e" for e
      by (simp add: pow2_add) (simp add: pow2_def)
    have half: "pow2 (bit_count (n div 2)) = 2 * pow2 (bit_count (n div 2) - 1)"
      using double [of "bit_count (n div 2) - 1"] by simp
    have lo: "2 * (of_nat (n div 2) :: rat) \<le> of_nat n"
      by (metis of_nat_le_iff of_nat_mult of_nat_numeral times_div_less_eq_dividend)
    have nn: "0 \<le> bit_count (n div 2)" by simp
    have "n div 2 < 2 ^ nat (bit_count (n div 2))"
    proof -
      have "(of_nat (n div 2) :: rat) < of_nat (2 ^ nat (bit_count (n div 2)))"
        using ih(2) nn by (simp add: pow2_def)
      then show ?thesis by (simp only: of_nat_less_iff)
    qed
    then have "n < 2 * 2 ^ nat (bit_count (n div 2))" by simp
    then have "(of_nat n :: rat) < of_nat (2 * 2 ^ nat (bit_count (n div 2)))"
      by (simp only: of_nat_less_iff)
    then have hi: "(of_nat n :: rat) < 2 * pow2 (bit_count (n div 2))"
      using nn by (simp add: pow2_def)
    show ?thesis using lo hi ih(1) half by (simp add: b double)
  qed
qed

lemma ilog2_le: "0 < x \<Longrightarrow> pow2 (ilog2 x) \<le> x"
proof -
  assume x: "0 < x"
  obtain n d where nd: "quotient_of x = (n, d)" by (cases "quotient_of x")
  have d: "0 < d" using nd quotient_of_denom_pos by blast
  have xq: "x = of_int n / of_int d" using nd by (rule quotient_of_div)
  have n: "0 < n" using x xq d by (metis divide_le_0_iff not_less of_int_0_less_iff of_int_le_0_iff less_imp_le)
  define bn bd where "bn = bit_count (nat n)" and "bd = bit_count (nat d)"
  have bn: "pow2 (bn - 1) \<le> of_int n"
    using bit_count_bounds [of "nat n"] n by (simp add: bn_def)
  have bd: "of_int d < pow2 bd"
    using bit_count_bounds [of "nat d"] d by (simp add: bd_def)
  have "pow2 (bn - bd - 1) * of_int d \<le> pow2 (bn - bd - 1) * pow2 bd"
    using bd by (intro mult_left_mono) (auto intro: less_imp_le)
  also have "\<dots> = pow2 (bn - 1)" by (simp add: pow2_add [symmetric])
  finally have "pow2 (bn - bd - 1) \<le> x"
    using bn d by (simp add: xq le_divide_eq)
  then show ?thesis
    by (simp add: ilog2_def nd Let_def bn_def bd_def)
qed

lemma fl_error: "\<bar>fl x - x\<bar> \<le> \<bar>x\<bar> / 2 ^ 53 + 1 / 2 ^ 1075"
proof (cases "x = 0")
  case False
  then have x: "0 < \<bar>x\<bar>" by simp
  have p: "pow2 (ilog2 \<bar>x\<bar> - 52) = pow2 (ilog2 \<bar>x\<bar>) / 2 ^ 52"
    using pow2_add [of "ilog2 \<bar>x\<bar>" "-52"] by (simp add: pow2_def)
  have "ulp x \<le> pow2 (ilog2 \<bar>x\<bar> - 52) + pow2 (-1074)"
    using pow2_pos [of "ilog2 \<bar>x\<bar> - 52"] pow2_pos [of "-1074"]
    unfolding ulp_def by (simp add: max_def)
  also have "pow2 (ilog2 \<bar>x\<bar> - 52) \<le> \<bar>x\<bar> / 2 ^ 52"
    using ilog2_le [OF x] by (simp add: p divide_right_mono)
  finally have "ulp x / 2 \<le> \<bar>x\<bar> / 2 ^ 53 + 1 / 2 ^ 1075"
    by (simp add: pow2_def)
  with fl_error_ulp [of x] show ?thesis by (rule order_trans)
qed simp

text \<open>An integer below \<open>2 ^ 53\<close> is a double, so arithmetic on small integers is exact.\<close>

lemma fl_int: "\<bar>n\<bar> < 2 ^ 53 \<Longrightarrow> fl (of_int n) = of_int n"
proof (cases "n = 0")
  case False
  assume small: "\<bar>n\<bar> < 2 ^ 53"
  let ?x = "of_int n :: rat"
  define e where "e = max (ilog2 \<bar>?x\<bar> - 52) (-1074)"
  have "\<bar>?x\<bar> < 2 ^ 53" using small of_int_less_iff [of "\<bar>n\<bar>" "2 ^ 53", where ?'a = rat] by simp
  then have "\<not> 53 \<le> ilog2 \<bar>?x\<bar>"
    using False ilog2_le [of "\<bar>?x\<bar>"] pow2_mono [of 53 "ilog2 \<bar>?x\<bar>"] by (auto simp: pow2_def)
  then have e: "e \<le> 0" by (simp add: e_def)
  then have ulp: "ulp ?x = 1 / 2 ^ nat (- e)"
    by (cases "e = 0") (auto simp: ulp_def e_def [symmetric] pow2_def)
  then have "?x / ulp ?x = of_int (n * 2 ^ nat (- e))" by simp
  then have "round_even (?x / ulp ?x) = n * 2 ^ nat (- e)" by (simp only: round_even_int)
  then show ?thesis using False ulp by (simp add: fl_def)
qed simp

lemma mk_float_small [code]:
  "mk_float x = (if x = of_int \<lfloor>x\<rfloor> \<and> \<bar>x\<bar> < 9007199254740992 then Fin x else
     let r = fl x in if 2 ^ 1024 \<le> r then PInf else if r \<le> - (2 ^ 1024) then NInf else Fin r)"
proof (cases "x = of_int \<lfloor>x\<rfloor> \<and> \<bar>x\<bar> < 9007199254740992")
  case True
  then obtain n where n: "x = of_int n" by blast
  with True have "rat_of_int \<bar>n\<bar> < rat_of_int (2 ^ 53)" by simp
  then have "\<bar>n\<bar> < 2 ^ 53" by (simp only: of_int_less_iff)
  then have "fl x = x" by (simp add: n fl_int)
  moreover have "(9007199254740992 :: rat) \<le> 2 ^ 1024" by simp
  ultimately show ?thesis using True by (auto simp: mk_float_def Let_def)
qed (auto simp: mk_float_def)

lemma int_too_largeI: "2 ^ 1025 \<le> i \<Longrightarrow> int_too_large i"
proof -
  assume "2 ^ 1025 \<le> i"
  then have "of_int (2 ^ 1025) \<le> (of_int i :: rat)" by (simp only: of_int_le_iff)
  moreover have "of_int (2 ^ 1025) = (2 * 2 ^ 1024 :: rat)" by simp
  ultimately have i: "2 * 2 ^ 1024 \<le> (of_int i :: rat)" by (simp only:)
  have t: "(1::rat) / 2 ^ 1075 \<le> 1" by simp
  have b: "(4::rat) \<le> 2 ^ 1024" by simp
  have q: "\<bar>of_int i\<bar> / 2 ^ 53 \<le> (of_int i :: rat) / 4" using i by simp
  have "\<bar>fl (of_int i) - of_int i\<bar> \<le> of_int i / 4 + 1" using fl_error [of "of_int i"] q t by linarith
  then have "2 ^ 1024 \<le> \<bar>fl (of_int i)\<bar>" using i b by linarith
  then show ?thesis by (simp only: int_too_large_def)
qed

end
