(* ===== verification/PyValue.thy ===== *)
theory PyValue
  imports PyFloat
begin

text \<open>
  The dynamic values the code handles: what \<open>json.loads\<close> produces. Truth values, equality as Python
  compares (numbers by value, dicts without order), attribute access on dicts, and \<open>json.dumps\<close>.
\<close>

datatype jval =
    JNull
  | JBool bool
  | JInt int
  | JFloat pyfloat
  | JStr string
  | JList "jval list"
  | JObj "(string \<times> jval) list"

type_synonym dict = "(string \<times> jval) list"

section \<open>Type tests and truth\<close>

fun is_str :: "jval \<Rightarrow> bool" where
  "is_str (JStr _) = True"
| "is_str _ = False"

fun is_list :: "jval \<Rightarrow> bool" where
  "is_list (JList _) = True"
| "is_list _ = False"

fun is_obj :: "jval \<Rightarrow> bool" where
  "is_obj (JObj _) = True"
| "is_obj _ = False"

text \<open>\<open>type(v) in (int, float)\<close>, which leaves out bool, and \<open>type(v) is int\<close>.\<close>

fun is_num :: "jval \<Rightarrow> bool" where
  "is_num (JInt _) = True"
| "is_num (JFloat _) = True"
| "is_num _ = False"

fun is_int :: "jval \<Rightarrow> bool" where
  "is_int (JInt _) = True"
| "is_int _ = False"

lemma is_str_iff: "is_str v \<longleftrightarrow> (\<exists>s. v = JStr s)" by (cases v) auto
lemma is_list_iff: "is_list v \<longleftrightarrow> (\<exists>xs. v = JList xs)" by (cases v) auto
lemma is_obj_iff: "is_obj v \<longleftrightarrow> (\<exists>d. v = JObj d)" by (cases v) auto
lemma is_num_iff: "is_num v \<longleftrightarrow> (\<exists>i. v = JInt i) \<or> (\<exists>f. v = JFloat f)" by (cases v) auto
lemma is_int_iff: "is_int v \<longleftrightarrow> (\<exists>i. v = JInt i)" by (cases v) auto

fun truthy :: "jval \<Rightarrow> bool" where
  "truthy JNull = False"
| "truthy (JBool b) = b"
| "truthy (JInt i) = (i \<noteq> 0)"
| "truthy (JFloat f) = (f \<noteq> Fin 0)"
| "truthy (JStr s) = (s \<noteq> [])"
| "truthy (JList xs) = (xs \<noteq> [])"
| "truthy (JObj d) = (d \<noteq> [])"

text \<open>\<open>a or b\<close>.\<close>

definition py_or :: "jval \<Rightarrow> jval \<Rightarrow> jval" where
  "py_or a b = (if truthy a then a else b)"

text \<open>The text of a string value; the contents of a dict or a list (empty for another type).\<close>

fun str_of :: "jval \<Rightarrow> string" where
  "str_of (JStr s) = s"
| "str_of _ = []"

fun obj_of :: "jval \<Rightarrow> dict" where
  "obj_of (JObj d) = d"
| "obj_of _ = []"

fun list_of :: "jval \<Rightarrow> jval list" where
  "list_of (JList xs) = xs"
| "list_of _ = []"

section \<open>Dictionary access\<close>

text \<open>\<open>d.get(k)\<close>.\<close>

definition dget :: "dict \<Rightarrow> string \<Rightarrow> jval" where
  "dget d k = dget_or d k JNull"

lemma dget_Some [simp]: "map_of d k = Some v \<Longrightarrow> dget d k = v"
  by (simp add: dget_def)

lemma dget_None [simp]: "map_of d k = None \<Longrightarrow> dget d k = JNull"
  by (simp add: dget_def)

lemma dget_Cons [simp]: "dget ((k, v) # d) k' = (if k = k' then v else dget d k')"
  by (simp add: dget_def dget_or_def)

lemma dget_Nil [simp]: "dget [] k = JNull"
  by (simp add: dget_def)

lemma dget_dset [dict_simps]: "dget (dset k v d) k' = (if k = k' then v else dget d k')"
  by (simp add: dget_def dget_or_def map_of_dset)

lemma dget_dpop [dict_simps]: "dget (dpop k d) k' = (if k = k' then JNull else dget d k')"
  by (simp add: dget_def dget_or_def map_of_dpop)

lemma dget_nonkey: "k \<notin> set (keys d) \<Longrightarrow> dget d k = JNull"
  by (simp add: dget_def dget_or_def map_of_eq_None_iff [THEN iffD2])

lemma dget_dupd_fresh [simp]: "k \<notin> set (keys e) \<Longrightarrow> dget (dupd d e) k = dget d k"
  unfolding dupd_def by (induction e arbitrary: d) (auto simp: dget_dset)

lemma dget_dupd_Cons: "dget (dupd d ((k, v) # e)) k' = dget (dupd (dset k v d) e) k'"
  by (simp add: dupd_def)

lemma dget_dupd: "wf_dict e \<Longrightarrow> dget (dupd d e) k = (if k \<in> set (keys e) then dget e k else dget d k)"
  using has_key_iff [of e k]
  by (cases "map_of e k") (simp_all add: has_key_def dget_def dget_or_def map_of_dupd_wf map_add_def)

lemma dget_nonnull: "dget d k \<noteq> JNull \<Longrightarrow> map_of d k = Some (dget d k)"
  by (cases "map_of d k") auto

text \<open>\<open>x.get(k)\<close> on a value that need not be a dict.\<close>

definition type_name :: "jval \<Rightarrow> string" where
  "type_name v = (case v of JNull \<Rightarrow> ''NoneType'' | JBool _ \<Rightarrow> ''bool'' | JInt _ \<Rightarrow> ''int''
     | JFloat _ \<Rightarrow> ''float'' | JStr _ \<Rightarrow> ''str'' | JList _ \<Rightarrow> ''list'' | JObj _ \<Rightarrow> ''dict'')"

definition attr_err :: "jval \<Rightarrow> string \<Rightarrow> exn" where
  "attr_err v a = AttributeError (CHR 0x27 # type_name v @ CHR 0x27 # '' object has no attribute ''
      @ CHR 0x27 # a @ [CHR 0x27])"

definition vget :: "jval \<Rightarrow> string \<Rightarrow> jval res" where
  "vget v k = (case v of JObj d \<Rightarrow> Inr (dget d k) | _ \<Rightarrow> Inl (attr_err v ''get''))"

text \<open>\<open>k in d\<close> and \<open>d.get(k)\<close> for a key that is a value: lists and dicts are not hashable.\<close>

definition unhashable :: "jval \<Rightarrow> bool" where
  "unhashable v = (is_list v \<or> is_obj v)"

definition unhashable_err :: "jval \<Rightarrow> exn" where
  "unhashable_err v = TypeError (''unhashable type: '' @ CHR 0x27 # type_name v @ [CHR 0x27])"

definition key_in :: "jval \<Rightarrow> dict \<Rightarrow> bool res" where
  "key_in k d = (if unhashable k then Inl (unhashable_err k)
     else case k of JStr s \<Rightarrow> Inr (has_key d s) | _ \<Rightarrow> Inr False)"

definition get_key :: "dict \<Rightarrow> jval \<Rightarrow> jval res" where
  "get_key d k = (if unhashable k then Inl (unhashable_err k)
     else case k of JStr s \<Rightarrow> Inr (dget d s) | _ \<Rightarrow> Inr JNull)"

text \<open>What \<open>for x in v\<close> visits.\<close>

definition py_iter :: "jval \<Rightarrow> jval list res" where
  "py_iter v = (case v of
     JList xs \<Rightarrow> Inr xs
   | JStr s \<Rightarrow> Inr (map JStr (utf8_chars s))
   | JObj d \<Rightarrow> Inr (map JStr (keys d))
   | _ \<Rightarrow> Inl (TypeError (CHR 0x27 # type_name v @ CHR 0x27 # '' object is not iterable'')))"

lemma py_iter_list [simp]: "py_iter (JList xs) = Inr xs"
  by (simp add: py_iter_def)

section \<open>Numbers\<close>

text \<open>The number a value stands for in comparisons and equality: bool is a subclass of int.\<close>

fun num_of :: "jval \<Rightarrow> pyfloat option" where
  "num_of (JBool b) = Some (Fin (if b then 1 else 0))"
| "num_of (JInt i) = Some (Fin (of_int i))"
| "num_of (JFloat f) = Some f"
| "num_of _ = None"

text \<open>
  \<open>math.isfinite(v)\<close> converts to a float first, so an int beyond the float range raises
  \<open>OverflowError\<close>, which is not a \<open>ValueError\<close>.
\<close>

definition py_isfinite :: "jval \<Rightarrow> bool res" where
  "py_isfinite v = (case v of
     JInt i \<Rightarrow> if int_too_large i then Inl (OverflowError ''int too large to convert to float'') else Inr True
   | JBool b \<Rightarrow> Inr True
   | JFloat f \<Rightarrow> Inr (f_finite f)
   | _ \<Rightarrow> Inl (TypeError (''must be real number, not '' @ type_name v)))"

text \<open>\<open>lo <= v <= hi\<close> for a number \<open>v\<close> (false on other types, where the code has tested the type).\<close>

definition num_between :: "rat \<Rightarrow> jval \<Rightarrow> rat \<Rightarrow> bool" where
  "num_between lo v hi = (case num_of v of None \<Rightarrow> False | Some f \<Rightarrow> f_le (Fin lo) f \<and> f_le f (Fin hi))"

definition num_ge :: "jval \<Rightarrow> rat \<Rightarrow> bool" where
  "num_ge v lo = (case num_of v of None \<Rightarrow> False | Some f \<Rightarrow> f_le (Fin lo) f)"

text \<open>The rational of a finite number value.\<close>

definition rat_of :: "jval \<Rightarrow> rat" where
  "rat_of v = (case num_of v of Some (Fin r) \<Rightarrow> r | _ \<Rightarrow> 0)"

lemma num_between_finite: "num_between lo v hi \<Longrightarrow> lo \<le> rat_of v \<and> rat_of v \<le> hi"
  by (auto simp: num_between_def rat_of_def split: option.splits pyfloat.splits)

section \<open>Equality\<close>

fun py_eq :: "jval \<Rightarrow> jval \<Rightarrow> bool"
and eq_list :: "jval list \<Rightarrow> jval list \<Rightarrow> bool"
and eq_items :: "dict \<Rightarrow> dict \<Rightarrow> bool" where
  "py_eq JNull b = (b = JNull)"
| "py_eq (JBool x) b = (case num_of b of None \<Rightarrow> False | Some f \<Rightarrow> f_eq (Fin (if x then 1 else 0)) f)"
| "py_eq (JInt i) b = (case num_of b of None \<Rightarrow> False | Some f \<Rightarrow> f_eq (Fin (of_int i)) f)"
| "py_eq (JFloat g) b = (case num_of b of None \<Rightarrow> False | Some f \<Rightarrow> f_eq g f)"
| "py_eq (JStr s) b = (b = JStr s)"
| "py_eq (JList xs) b = (case b of JList ys \<Rightarrow> eq_list xs ys | _ \<Rightarrow> False)"
| "py_eq (JObj d) b = (case b of JObj e \<Rightarrow> length d = length e \<and> eq_items d e | _ \<Rightarrow> False)"
| "eq_list [] ys = (ys = [])"
| "eq_list (x # xs) ys = (case ys of [] \<Rightarrow> False | y # ys' \<Rightarrow> py_eq x y \<and> eq_list xs ys')"
| "eq_items [] e = True"
| "eq_items ((k, v) # d) e =
     ((case map_of e k of None \<Rightarrow> False | Some w \<Rightarrow> py_eq v w) \<and> eq_items d e)"

text \<open>Depth and well-formedness (distinct keys everywhere), by the same recursion.\<close>

fun jdepth :: "jval \<Rightarrow> nat"
and depth_list :: "jval list \<Rightarrow> nat"
and depth_items :: "dict \<Rightarrow> nat" where
  "jdepth (JList xs) = depth_list xs"
| "jdepth (JObj d) = depth_items d"
| "jdepth JNull = 0"
| "jdepth (JBool _) = 0"
| "jdepth (JInt _) = 0"
| "jdepth (JFloat _) = 0"
| "jdepth (JStr _) = 0"
| "depth_list [] = 0"
| "depth_list (x # xs) = max (Suc (jdepth x)) (depth_list xs)"
| "depth_items [] = 0"
| "depth_items ((k, v) # d) = max (Suc (jdepth v)) (depth_items d)"

fun wf_val :: "jval \<Rightarrow> bool"
and wf_list :: "jval list \<Rightarrow> bool"
and wf_items :: "dict \<Rightarrow> bool" where
  "wf_val (JList xs) = wf_list xs"
| "wf_val (JObj d) = (wf_dict d \<and> wf_items d)"
| "wf_val JNull = True"
| "wf_val (JBool _) = True"
| "wf_val (JInt _) = True"
| "wf_val (JFloat _) = True"
| "wf_val (JStr _) = True"
| "wf_list [] = True"
| "wf_list (x # xs) = (wf_val x \<and> wf_list xs)"
| "wf_items [] = True"
| "wf_items ((k, v) # d) = (wf_val v \<and> wf_items d)"

lemma wf_list_all: "wf_list xs \<longleftrightarrow> (\<forall>x\<in>set xs. wf_val x)"
  by (induction xs) auto

lemma wf_items_all: "wf_items d \<longleftrightarrow> (\<forall>(k, v)\<in>set d. wf_val v)"
  by (induction d) auto

lemma wf_dget: "wf_val (JObj d) \<Longrightarrow> wf_val (dget d k)"
  by (cases "map_of d k") (auto simp: wf_items_all dest: map_of_SomeD)

lemma wf_dget_obj: "wf_val (JObj d) \<Longrightarrow> dget d k = JObj e \<Longrightarrow> wf_dict e"
  using wf_dget [of d k] by simp

lemma depth_list_le: "depth_list xs \<le> n \<longleftrightarrow> (\<forall>x\<in>set xs. jdepth x < n)"
  by (induction xs) auto

lemma depth_items_le: "depth_items d \<le> n \<longleftrightarrow> (\<forall>(k, v)\<in>set d. jdepth v < n)"
  by (induction d) auto

text \<open>A value without a NaN equals itself.\<close>

fun nan_free :: "jval \<Rightarrow> bool"
and nan_free_list :: "jval list \<Rightarrow> bool"
and nan_free_items :: "dict \<Rightarrow> bool" where
  "nan_free (JList xs) = nan_free_list xs"
| "nan_free (JObj d) = nan_free_items d"
| "nan_free (JFloat f) = f_finite f"
| "nan_free JNull = True"
| "nan_free (JBool _) = True"
| "nan_free (JInt _) = True"
| "nan_free (JStr _) = True"
| "nan_free_list [] = True"
| "nan_free_list (x # xs) = (nan_free x \<and> nan_free_list xs)"
| "nan_free_items [] = True"
| "nan_free_items ((k, v) # d) = (nan_free v \<and> nan_free_items d)"

lemma eq_items_weaken: "k \<notin> set (keys d) \<Longrightarrow> eq_items d e \<Longrightarrow> eq_items d ((k, v) # e)"
  by (induction d) auto

lemma py_eq_refl:
  "wf_val v \<Longrightarrow> nan_free v \<Longrightarrow> py_eq v v"
  "wf_list xs \<Longrightarrow> nan_free_list xs \<Longrightarrow> eq_list xs xs"
  "wf_dict d \<Longrightarrow> wf_items d \<Longrightarrow> nan_free_items d \<Longrightarrow> eq_items d d"
proof (induction v and xs and d rule: wf_val_wf_list_wf_items.induct)
  case (11 k v d)
  then have "eq_items d ((k, v) # d)" by (intro eq_items_weaken) auto
  with 11 show ?case by simp
qed (auto simp: f_finite_iff)

section \<open>json.dumps\<close>

definition hex_digit :: "nat \<Rightarrow> char" where
  "hex_digit n = (if n < 10 then char_of (48 + n) else char_of (87 + n))"

definition u_escape :: "nat \<Rightarrow> string" where
  "u_escape n = CHR 0x5C # CHR ''u'' # map hex_digit [n div 4096 mod 16, n div 256 mod 16, n div 16 mod 16, n mod 16]"

definition code_point :: "string \<Rightarrow> nat" where
  "code_point cs = (case map (of_char :: char \<Rightarrow> nat) cs of
     [a] \<Rightarrow> a
   | [a, b] \<Rightarrow> a mod 32 * 64 + b mod 64
   | [a, b, c] \<Rightarrow> a mod 16 * 4096 + b mod 64 * 64 + c mod 64
   | [a, b, c, d] \<Rightarrow> a mod 8 * 262144 + b mod 64 * 4096 + c mod 64 * 64 + d mod 64
   | _ \<Rightarrow> 65533)"

text \<open>One code point of a string literal: the short escapes, control characters, and (\<open>ensure_ascii\<close>)
  everything beyond printable ASCII, as one \<open>\u\<close> escape or a surrogate pair.\<close>

definition escape_ascii :: "bool \<Rightarrow> char \<Rightarrow> string" where
  "escape_ascii ascii c = (let n = (of_char c :: nat) in
     if n = 34 then [CHR 0x5C, CHR 0x22]
     else if n = 92 then [CHR 0x5C, CHR 0x5C]
     else if n = 10 then CHR 0x5C # ''n''
     else if n = 13 then CHR 0x5C # ''r''
     else if n = 9 then CHR 0x5C # ''t''
     else if n = 12 then CHR 0x5C # ''f''
     else if n = 8 then CHR 0x5C # ''b''
     else if n < 32 \<or> (ascii \<and> 127 \<le> n) then u_escape n
     else [c])"

definition escape_char :: "bool \<Rightarrow> string \<Rightarrow> string" where
  "escape_char ascii cs = (case cs of
     [c] \<Rightarrow> escape_ascii ascii c
   | _ \<Rightarrow> let n = code_point cs in
       if \<not> ascii then cs
       else if n < 65536 then u_escape n
       else u_escape (55296 + (n - 65536) div 1024 mod 1024) @ u_escape (56320 + (n - 65536) mod 1024))"

definition json_str :: "bool \<Rightarrow> string \<Rightarrow> string" where
  "json_str ascii s = CHR 0x22 # concat (map (escape_char ascii) (utf8_chars s)) @ [CHR 0x22]"

text \<open>
  \<open>float.__repr__\<close>: the shortest decimal that reads back as the same double, with an exponent when
  the decimal point would fall outside the digits by far.
\<close>

definition pow10 :: "int \<Rightarrow> rat" where
  "pow10 e = (if 0 \<le> e then 10 ^ nat e else 1 / 10 ^ nat (- e))"

definition ilog10 :: "rat \<Rightarrow> int" where
  "ilog10 x = (let (n, d) = quotient_of x;
                   e = int (length (nat_str (nat n))) - int (length (nat_str (nat d)))
               in if pow10 e \<le> x then e else e - 1)"

definition repr_candidates :: "rat \<Rightarrow> nat \<Rightarrow> int list" where
  "repr_candidates x n = (let q = pow10 (ilog10 x - int n + 1); m = \<lfloor>x / q\<rfloor>
     in filter (\<lambda>c. fl (of_int c * q) = x)
          (if x / q - of_int m \<le> 1/2 then [m, m + 1] else [m + 1, m]))"

fun shortest_from :: "nat \<Rightarrow> nat \<Rightarrow> rat \<Rightarrow> int \<times> int" where
  "shortest_from 0 n x = (\<lfloor>x\<rfloor>, 0)"
| "shortest_from (Suc fuel) n x =
     (case repr_candidates x n of
        c # _ \<Rightarrow> (c, ilog10 x - int n + 1)
      | [] \<Rightarrow> shortest_from fuel (Suc n) x)"

definition float_digits :: "rat \<Rightarrow> string \<times> int" where
  "float_digits x = (let (m, e) = shortest_from 17 1 x; ds = nat_str (nat m)
     in (rev (dropWhile (\<lambda>c. c = CHR ''0'') (rev ds)), int (length ds) + e))"

definition exp_str :: "int \<Rightarrow> string" where
  "exp_str e = (if e < 0 then ''e-'' else ''e+'') @
     (let s = nat_str (nat \<bar>e\<bar>) in if length s < 2 then CHR ''0'' # s else s)"

definition pos_repr :: "rat \<Rightarrow> string" where
  "pos_repr x = (let (ds, p) = float_digits x; n = int (length ds) in
     if p \<le> -4 \<or> 16 < p then
       (case ds of [] \<Rightarrow> ''0'' | [c] \<Rightarrow> [c] | c # cs \<Rightarrow> c # CHR ''.'' # cs) @ exp_str (p - 1)
     else if p \<le> 0 then ''0.'' @ replicate (nat (- p)) (CHR ''0'') @ ds
     else if n \<le> p then ds @ replicate (nat (p - n)) (CHR ''0'') @ ''.0''
     else take (nat p) ds @ ''.'' @ drop (nat p) ds)"

definition float_repr :: "pyfloat \<Rightarrow> string" where
  "float_repr f = (case f of
     Fin x \<Rightarrow> if x = 0 then ''0.0'' else if x < 0 then CHR ''-'' # pos_repr (- x) else pos_repr x
   | PInf \<Rightarrow> ''Infinity'' | NInf \<Rightarrow> ''-Infinity'' | NaN \<Rightarrow> ''NaN'')"

text \<open>\<open>json.dumps(v, ensure_ascii=ascii, separators=(isep, ksep))\<close>.\<close>

fun dumps :: "bool \<Rightarrow> string \<Rightarrow> string \<Rightarrow> jval \<Rightarrow> string"
and dumps_list :: "bool \<Rightarrow> string \<Rightarrow> string \<Rightarrow> jval list \<Rightarrow> string list"
and dumps_items :: "bool \<Rightarrow> string \<Rightarrow> string \<Rightarrow> dict \<Rightarrow> string list" where
  "dumps a i k JNull = ''null''"
| "dumps a i k (JBool b) = (if b then ''true'' else ''false'')"
| "dumps a i k (JInt n) = int_str n"
| "dumps a i k (JFloat f) = float_repr f"
| "dumps a i k (JStr s) = json_str a s"
| "dumps a i k (JList xs) = ''['' @ join i (dumps_list a i k xs) @ '']''"
| "dumps a i k (JObj d) = ''{'' @ join i (dumps_items a i k d) @ ''}''"
| "dumps_list a i k [] = []"
| "dumps_list a i k (x # xs) = dumps a i k x # dumps_list a i k xs"
| "dumps_items a i k [] = []"
| "dumps_items a i k ((n, v) # d) = (json_str a n @ k @ dumps a i k v) # dumps_items a i k d"

text \<open>\<open>allow_nan=False\<close> raises on a NaN or an infinity anywhere in the value.\<close>

definition dumps_strict :: "bool \<Rightarrow> string \<Rightarrow> string \<Rightarrow> jval \<Rightarrow> string res" where
  "dumps_strict a i k v =
     (if nan_free v then Inr (dumps a i k v)
      else Inl (ValueError ''Out of range float values are not JSON compliant''))"

text \<open>The default separators of \<open>json.dumps\<close>.\<close>

definition json_dumps :: "jval \<Rightarrow> string" where
  "json_dumps v = dumps True '', '' '': '' v"

lemma dumps_nonempty: "dumps a i k v \<noteq> []"
proof (cases v)
  case (JFloat f)
  have "pos_repr x \<noteq> []" for x
    by (auto simp: pos_repr_def exp_str_def Let_def split: prod.splits list.splits)
  with JFloat show ?thesis by (cases f) (auto simp: float_repr_def)
qed (auto simp: int_str_def json_str_def)

end
