(* ===== verification/JsonText.thy ===== *)
theory JsonText
  imports PyValue
begin

text \<open>
  \<open>json.loads\<close>: a recursive-descent reader of JSON text with the \<open>object_pairs_hook\<close> as an argument,
  called when an object is complete, so inner objects come first. Every syntax error is one
  \<open>ValueError\<close> (the position in the message is not kept); the interpreter's recursion limit is not
  modelled. The main lemma is that reading a compact rendering gives the value back.
\<close>

abbreviation json_error :: exn where
  "json_error \<equiv> ValueError ''invalid JSON''"

definition is_ws :: "char \<Rightarrow> bool" where
  "is_ws c = (c = CHR '' '' \<or> c = CHR 0x09 \<or> c = CHR 0x0A \<or> c = CHR 0x0D)"

abbreviation skip_ws :: "string \<Rightarrow> string" where
  "skip_ws s \<equiv> dropWhile is_ws s"

section \<open>String literals\<close>

definition hex_val :: "char \<Rightarrow> nat option" where
  "hex_val c = (let n = (of_char c :: nat) in
     if 48 \<le> n \<and> n \<le> 57 then Some (n - 48)
     else if 97 \<le> n \<and> n \<le> 102 then Some (n - 87)
     else if 65 \<le> n \<and> n \<le> 70 then Some (n - 55)
     else None)"

fun hex4 :: "string \<Rightarrow> nat option" where
  "hex4 (a # b # c # d # r) =
     (case (hex_val a, hex_val b, hex_val c, hex_val d) of
        (Some w, Some x, Some y, Some z) \<Rightarrow> Some (4096 * w + 256 * x + 16 * y + z)
      | _ \<Rightarrow> None)"
| "hex4 _ = None"

definition utf8_encode :: "nat \<Rightarrow> string" where
  "utf8_encode n =
     (if n < 128 then [char_of n]
      else if n < 2048 then [char_of (192 + n div 64), char_of (128 + n mod 64)]
      else if n < 65536 then
        [char_of (224 + n div 4096), char_of (128 + n div 64 mod 64), char_of (128 + n mod 64)]
      else [char_of (240 + n div 262144), char_of (128 + n div 4096 mod 64),
            char_of (128 + n div 64 mod 64), char_of (128 + n mod 64)])"

text \<open>The code point of a \<open>\u\<close> escape and how many characters it takes: a surrogate pair is one.\<close>

definition unicode_escape :: "string \<Rightarrow> (nat \<times> nat) option" where
  "unicode_escape r = (case hex4 r of
     None \<Rightarrow> None
   | Some hi \<Rightarrow>
       if 55296 \<le> hi \<and> hi < 56320 \<and> take 2 (drop 4 r) = [CHR 0x5C, CHR ''u'']
       then (case hex4 (drop 6 r) of
               Some lo \<Rightarrow> if 56320 \<le> lo \<and> lo < 57344
                 then Some (65536 + (hi - 55296) * 1024 + (lo - 56320), 10) else Some (hi, 4)
             | None \<Rightarrow> None)
       else Some (hi, 4))"

definition simple_escape :: "char \<Rightarrow> char option" where
  "simple_escape e =
     (if e = CHR 0x22 \<or> e = CHR 0x5C \<or> e = CHR ''/'' then Some e
      else if e = CHR ''n'' then Some (CHR 0x0A)
      else if e = CHR ''r'' then Some (CHR 0x0D)
      else if e = CHR ''t'' then Some (CHR 0x09)
      else if e = CHR ''f'' then Some (CHR 0x0C)
      else if e = CHR ''b'' then Some (CHR 0x08)
      else None)"

text \<open>The text after an opening quote: the contents and what follows the closing quote.\<close>

function read_str :: "string \<Rightarrow> (string \<times> string) res" where
  "read_str [] = Inl json_error"
| "read_str (c # cs) =
     (if c = CHR 0x22 then Inr ([], cs)
      else if c = CHR 0x5C then
        (case cs of
           [] \<Rightarrow> Inl json_error
         | e # r \<Rightarrow>
             if e = CHR ''u'' then
               (case unicode_escape r of
                  None \<Rightarrow> Inl json_error
                | Some (n, k) \<Rightarrow> rbind (read_str (drop k r)) (\<lambda>(t, r'). Inr (utf8_encode n @ t, r')))
             else
               (case simple_escape e of
                  None \<Rightarrow> Inl json_error
                | Some c' \<Rightarrow> rbind (read_str r) (\<lambda>(t, r'). Inr (c' # t, r'))))
      else if (of_char c :: nat) < 32 then Inl json_error
      else rbind (read_str cs) (\<lambda>(t, r'). Inr (c # t, r')))"
  by pat_completeness auto
termination
  by (relation "measure length") auto

declare read_str.simps(2) [simp del]

section \<open>Numbers\<close>

definition read_int_part :: "string \<Rightarrow> string" where
  "read_int_part s = (case s of
     [] \<Rightarrow> []
   | c # r \<Rightarrow> if c = CHR ''0'' then ''0'' else takeWhile is_digit s)"

definition read_frac :: "string \<Rightarrow> string" where
  "read_frac s = (case s of
     c # r \<Rightarrow> if c = CHR ''.'' \<and> takeWhile is_digit r \<noteq> [] then c # takeWhile is_digit r else []
   | [] \<Rightarrow> [])"

definition read_exp :: "string \<Rightarrow> string" where
  "read_exp s = (case s of
     c # r \<Rightarrow>
       if c = CHR ''e'' \<or> c = CHR ''E'' then
         (let sg = (case r of d # _ \<Rightarrow> if d = CHR ''+'' \<or> d = CHR ''-'' then [d] else [] | [] \<Rightarrow> []);
              ds = takeWhile is_digit (drop (length sg) r)
          in if ds = [] then [] else c # sg @ ds)
       else []
   | [] \<Rightarrow> [])"

definition exp_value :: "string \<Rightarrow> int" where
  "exp_value e = (let ds = filter is_digit e in
     if CHR ''-'' \<in> set e then - int (digits_val ds) else int (digits_val ds))"

text \<open>Python refuses to convert integer literals of more than 4300 digits.\<close>

definition read_num :: "string \<Rightarrow> (jval \<times> string) res" where
  "read_num s =
     (let neg = (case s of c # _ \<Rightarrow> c = CHR ''-'' | [] \<Rightarrow> False);
          s1 = (if neg then drop 1 s else s);
          ip = read_int_part s1; s2 = drop (length ip) s1;
          fp = read_frac s2; s3 = drop (length fp) s2;
          ep = read_exp s3; s4 = drop (length ep) s3;
          sgn = (if neg then -1 else 1)
      in if ip = [] then Inl json_error
         else if fp = [] \<and> ep = [] then
           (if 4300 < length ip then Inl (ValueError ''Exceeds the limit (4300 digits) for integer string conversion'')
            else Inr (JInt (sgn * int (digits_val ip)), s4))
         else Inr (JFloat (mk_float (of_int sgn * of_nat (digits_val (ip @ drop 1 fp))
                     * pow10 (exp_value ep - int (length fp - 1)))), s4))"

section \<open>Values\<close>

type_synonym hook = "dict \<Rightarrow> jval res"

text \<open>\<open>dict(pairs)\<close>, the default: a later duplicate key wins.\<close>

definition default_hook :: hook where
  "default_hook ps = Inr (JObj (dupd [] ps))"

function read_value :: "hook \<Rightarrow> string \<Rightarrow> (jval \<times> string) res"
and read_elems :: "hook \<Rightarrow> string \<Rightarrow> (jval list \<times> string) res"
and read_members :: "hook \<Rightarrow> string \<Rightarrow> (dict \<times> string) res" where
  "read_value h s =
     (case s of
        [] \<Rightarrow> Inl json_error
      | c # cs \<Rightarrow>
          if c = CHR 0x22 then rbind (read_str cs) (\<lambda>(t, r). Inr (JStr t, r))
          else if c = CHR ''{'' then
            (if take 1 (skip_ws cs) = ''}'' then rbind (h []) (\<lambda>v. Inr (v, drop 1 (skip_ws cs)))
             else rbind (read_members h (skip_ws cs)) (\<lambda>(ps, r). rbind (h ps) (\<lambda>v. Inr (v, r))))
          else if c = CHR ''['' then
            (if take 1 (skip_ws cs) = '']'' then Inr (JList [], drop 1 (skip_ws cs))
             else rbind (read_elems h (skip_ws cs)) (\<lambda>(xs, r). Inr (JList xs, r)))
          else if take 4 s = ''null'' then Inr (JNull, drop 4 s)
          else if take 4 s = ''true'' then Inr (JBool True, drop 4 s)
          else if take 5 s = ''false'' then Inr (JBool False, drop 5 s)
          else if take 3 s = ''NaN'' then Inr (JFloat NaN, drop 3 s)
          else if take 8 s = ''Infinity'' then Inr (JFloat PInf, drop 8 s)
          else if take 9 s = ''-Infinity'' then Inr (JFloat NInf, drop 9 s)
          else read_num s)"
| "read_elems h s =
     rbind (read_value h s) (\<lambda>(v, r).
       (case skip_ws r of
          c # cs \<Rightarrow>
            if c = CHR '','' then
              (if length (skip_ws cs) < length s
               then rbind (read_elems h (skip_ws cs)) (\<lambda>(vs, r'). Inr (v # vs, r'))
               else Inl json_error)
            else if c = CHR '']'' then Inr ([v], cs)
            else Inl json_error
        | [] \<Rightarrow> Inl json_error))"
| "read_members h s =
     (case s of
        q # s1 \<Rightarrow>
          if q = CHR 0x22 then
            rbind (read_str s1) (\<lambda>(k, s2).
              (case skip_ws s2 of
                 d # s3 \<Rightarrow>
                   if d = CHR '':'' \<and> length (skip_ws s3) < length s then
                     rbind (read_value h (skip_ws s3)) (\<lambda>(v, r).
                       (case skip_ws r of
                          c # cs \<Rightarrow>
                            if c = CHR '','' then
                              (if length (skip_ws cs) < length s
                               then rbind (read_members h (skip_ws cs)) (\<lambda>(ps, r'). Inr ((k, v) # ps, r'))
                               else Inl json_error)
                            else if c = CHR ''}'' then Inr ([(k, v)], cs)
                            else Inl json_error
                        | [] \<Rightarrow> Inl json_error))
                   else Inl json_error
               | [] \<Rightarrow> Inl json_error))
          else Inl json_error
      | [] \<Rightarrow> Inl json_error)"
  by pat_completeness auto
termination
  by (relation "measure (\<lambda>x. case x of Inl (h, s) \<Rightarrow> 2 * length s
        | Inr (Inl (h, s)) \<Rightarrow> 2 * length s + 1 | Inr (Inr (h, s)) \<Rightarrow> 2 * length s + 1)")
     (auto simp: less_Suc_eq_le length_dropWhile_le)

declare read_value.simps [simp del] read_elems.simps [simp del] read_members.simps [simp del]

definition json_loads :: "hook \<Rightarrow> string \<Rightarrow> jval res" where
  "json_loads h s =
     (if take 3 s = map char_of [239 :: nat, 187, 191] then Inl json_error
      else rbind (read_value h (skip_ws s)) (\<lambda>(v, r).
        if skip_ws r = [] then Inr v else Inl json_error))"

section \<open>Reading back a compact rendering\<close>

lemma hex_val_digit: "n < 16 \<Longrightarrow> hex_val (hex_digit n) = Some n"
  by (auto simp: hex_val_def hex_digit_def Let_def)

lemma unicode_escape_u_escape:
  assumes "n < 32"
  shows "unicode_escape (drop 2 (u_escape n) @ r) = Some (n, 4)"
proof -
  have "n div 4096 mod 16 = 0" "n div 256 mod 16 = 0" "n div 16 mod 16 = n div 16"
      "16 * (n div 16) + n mod 16 = n" "n div 16 < 16" "n mod 16 < 16"
    using assms by auto
  then show ?thesis
    using assms by (simp add: unicode_escape_def u_escape_def hex_val_digit)
qed

lemma char_code: "(of_char c :: nat) = n \<Longrightarrow> c = char_of n"
  by auto

lemma read_str_escape_ascii:
  "read_str (escape_ascii False c @ r) = rbind (read_str r) (\<lambda>(t, r'). Inr (c # t, r'))"
proof -
  let ?n = "of_char c :: nat"
  show ?thesis
  proof (cases "?n \<in> {34, 92, 10, 13, 9, 12, 8}")
    case True
    then have "c \<in> {CHR 0x22, CHR 0x5C, CHR 0x0A, CHR 0x0D, CHR 0x09, CHR 0x0C, CHR 0x08}"
      by (auto dest!: char_code simp: char_of_eq_iff)
    then show ?thesis
      by (auto simp: escape_ascii_def read_str.simps(2) simple_escape_def)
  next
    case False
    show ?thesis
    proof (cases "?n < 32")
      case True
      have e: "escape_ascii False c = CHR 0x5C # CHR ''u'' # drop 2 (u_escape ?n)"
        using False True by (simp add: escape_ascii_def Let_def u_escape_def)
      have "drop 4 (drop 2 (u_escape ?n) @ r) = r" by (simp add: u_escape_def)
      with True show ?thesis
        by (simp add: e read_str.simps(2) unicode_escape_u_escape utf8_encode_def split: prod.splits)
    next
      case False2: False
      have "escape_ascii False c = [c]" using False False2 by (simp add: escape_ascii_def Let_def)
      moreover have "c \<noteq> CHR 0x22" "c \<noteq> CHR 0x5C" using False by auto
      ultimately show ?thesis using False2 by (simp add: read_str.simps(2))
    qed
  qed
qed

lemma read_str_copy:
  "\<forall>c\<in>set cs. 128 \<le> (of_char c :: nat) \<Longrightarrow>
   read_str (cs @ r) = rbind (read_str r) (\<lambda>(t, r'). Inr (cs @ t, r'))"
proof (induction cs)
  case Nil
  then show ?case by (cases "read_str r") auto
next
  case (Cons c cs)
  then have "c \<noteq> CHR 0x22" "c \<noteq> CHR 0x5C" "\<not> (of_char c :: nat) < 32" by auto
  with Cons show ?case
    by (cases "read_str r") (auto simp: read_str.simps(2))
qed

lemma set_conts_ge: "x \<in> set (conts c cs) \<Longrightarrow> 128 \<le> (of_char x :: nat)"
  by (auto simp: conts_def is_cont_def split: if_splits dest: set_takeWhileD)

lemma read_str_escape_char:
  "read_str (escape_char False (c # conts c cs) @ r) =
     rbind (read_str r) (\<lambda>(t, r'). Inr ((c # conts c cs) @ t, r'))"
proof (cases "conts c cs")
  case Nil
  then show ?thesis by (simp add: escape_char_def read_str_escape_ascii)
next
  case (Cons x xs)
  then have "192 \<le> (of_char c :: nat)" by (auto simp: conts_def split: if_splits)
  then have "\<forall>y\<in>set (c # conts c cs). 128 \<le> (of_char y :: nat)"
    using set_conts_ge [of _ c cs] by auto
  then have "read_str ((c # conts c cs) @ r) = rbind (read_str r) (\<lambda>(t, r'). Inr ((c # conts c cs) @ t, r'))"
    by (rule read_str_copy)
  with Cons show ?thesis by (simp add: escape_char_def)
qed

lemma read_str_literal:
  "read_str (concat (map (escape_char False) (utf8_chars s)) @ CHR 0x22 # r) = Inr (s, r)"
proof (induction s rule: utf8_chars.induct)
  case 1
  then show ?case by (simp add: read_str.simps(2))
next
  case (2 c cs)
  then show ?case
    by (simp add: read_str_escape_char)
qed

text \<open>A text that may follow a value: a number must not run on into it.\<close>

definition ends_value :: "string \<Rightarrow> bool" where
  "ends_value r = (case r of [] \<Rightarrow> True
     | c # _ \<Rightarrow> \<not> is_digit c \<and> c \<noteq> CHR ''.'' \<and> c \<noteq> CHR ''e'' \<and> c \<noteq> CHR ''E'')"

lemma takeWhile_digits_append:
  "list_all is_digit ds \<Longrightarrow> ends_value r \<Longrightarrow> takeWhile is_digit (ds @ r) = ds"
  by (cases r) (auto simp: ends_value_def list_all_iff takeWhile_append)

lemma digit_char_zero: "d < 10 \<Longrightarrow> digit_char d = CHR ''0'' \<Longrightarrow> d = 0"
  using of_char_digit_char [of d] by simp

lemma nat_str_leading_zero: "hd (nat_str n) = CHR ''0'' \<Longrightarrow> n = 0"
proof (induction n rule: nat_str.induct)
  case (1 n)
  show ?case
  proof (cases "n < 10")
    case True
    with "1.prems" show ?thesis
      by (simp add: nat_str.simps [of n] digit_char_zero)
  next
    case False
    have "hd (nat_str n) = hd (nat_str (n div 10))"
      using False by (simp add: nat_str.simps [of n])
    with "1" False have "n div 10 = 0" by simp
    with False show ?thesis by simp
  qed
qed

lemma read_int_part_nat_str: "ends_value r \<Longrightarrow> read_int_part (nat_str n @ r) = nat_str n"
proof (cases "n = 0")
  case True
  moreover have "digit_char 0 = CHR ''0''" by (simp add: digit_char_def char_of_eq_iff)
  ultimately show ?thesis by (simp add: read_int_part_def nat_str.simps)
next
  case False
  assume r: "ends_value r"
  obtain c cs where c: "nat_str n = c # cs" by (cases "nat_str n") auto
  with False nat_str_leading_zero [of n] have "c \<noteq> CHR ''0''" by auto
  moreover have "takeWhile is_digit (nat_str n @ r) = nat_str n"
    using nat_str_digits r by (rule takeWhile_digits_append)
  ultimately show ?thesis using c by (simp add: read_int_part_def)
qed

lemma read_frac_ends [simp]: "ends_value r \<Longrightarrow> read_frac r = []"
  by (cases r) (auto simp: ends_value_def read_frac_def)

lemma read_exp_ends [simp]: "ends_value r \<Longrightarrow> read_exp r = []"
  by (cases r) (auto simp: ends_value_def read_exp_def)

lemma hd_nat_str_not_minus: "nat_str n = c # cs \<Longrightarrow> c \<noteq> CHR ''-''"
  using nat_str_digits [of n] by (auto simp: is_digit_def)

lemma read_num_int_str:
  assumes "length (nat_str (nat \<bar>i\<bar>)) \<le> 4300" and "ends_value r"
  shows "read_num (int_str i @ r) = Inr (JInt i, r)"
proof (cases "i < 0")
  case True
  with assms show ?thesis
    by (simp add: read_num_def int_str_def Let_def read_int_part_nat_str)
next
  case False
  obtain c cs where c: "nat_str (nat i) = c # cs" by (cases "nat_str (nat i)") auto
  have m: "c \<noteq> CHR ''-''" using c by (rule hd_nat_str_not_minus)
  have "read_int_part (c # cs @ r) = c # cs"
    using read_int_part_nat_str [OF assms(2), of "nat i"] c by simp
  moreover have "digits_val (c # cs) = nat i" using digits_val_nat_str [of "nat i"] c by simp
  moreover have "length (c # cs) \<le> 4300" using assms(1) False c by simp
  ultimately show ?thesis
    using m False assms(2) by (simp add: read_num_def int_str_def c Let_def)
qed

text \<open>The values the lemma is about: no floats, and integers Python converts.\<close>

fun int_json :: "jval \<Rightarrow> bool"
and int_json_list :: "jval list \<Rightarrow> bool"
and int_json_items :: "dict \<Rightarrow> bool" where
  "int_json (JList xs) = int_json_list xs"
| "int_json (JObj d) = (wf_dict d \<and> int_json_items d)"
| "int_json (JFloat f) = False"
| "int_json (JInt i) = (length (nat_str (nat \<bar>i\<bar>)) \<le> 4300)"
| "int_json JNull = True"
| "int_json (JBool _) = True"
| "int_json (JStr _) = True"
| "int_json_list [] = True"
| "int_json_list (x # xs) = (int_json x \<and> int_json_list xs)"
| "int_json_items [] = True"
| "int_json_items ((k, v) # d) = (int_json v \<and> int_json_items d)"

abbreviation compact :: "jval \<Rightarrow> string" where
  "compact \<equiv> dumps False '','' '':''"

text \<open>A rendering starts with a character that is neither white space nor a closing bracket.\<close>

definition starts_value :: "string \<Rightarrow> bool" where
  "starts_value s = (case s of [] \<Rightarrow> False
     | c # _ \<Rightarrow> \<not> is_ws c \<and> c \<noteq> CHR '']'' \<and> c \<noteq> CHR ''}'')"

lemma starts_value_append: "starts_value s \<Longrightarrow> starts_value (s @ r)"
  by (auto simp: starts_value_def split: list.splits)

lemma starts_valueD:
  assumes "starts_value s"
  shows "skip_ws s = s" and "take (Suc 0) s \<noteq> '']''" and "take (Suc 0) s \<noteq> ''}''"
  using assms by (auto simp: starts_value_def split: list.splits)

lemma compact_starts:
  assumes "int_json v"
  shows "starts_value (compact v @ r)"
proof (cases v)
  case (JInt i)
  show ?thesis
  proof (cases "i < 0")
    case True
    with JInt show ?thesis by (simp add: int_str_def is_ws_def starts_value_def)
  next
    case False
    obtain c cs where c: "nat_str (nat i) = c # cs" by (cases "nat_str (nat i)") auto
    then have "is_digit c" using nat_str_digits [of "nat i"] by simp
    with JInt False c show ?thesis by (auto simp: int_str_def is_digit_def is_ws_def starts_value_def)
  qed
qed (use assms in \<open>auto simp: is_ws_def json_str_def starts_value_def\<close>)

lemma join_Cons: "join sep (x # xs) = x @ (if xs = [] then [] else sep @ join sep xs)"
  by (cases xs) auto

text \<open>A hook that keeps objects with distinct keys as they are.\<close>

definition keeps_distinct :: "hook \<Rightarrow> bool" where
  "keeps_distinct h = (\<forall>d. wf_dict d \<longrightarrow> h d = Inr (JObj d))"

lemma dumps_list_nonempty [simp]: "dumps_list a i k xs = [] \<longleftrightarrow> xs = []"
  by (cases xs) auto

lemma dumps_items_nonempty [simp]: "dumps_items a i k xs = [] \<longleftrightarrow> xs = []"
  by (cases xs) auto

lemma read_value_int:
  assumes "length (nat_str (nat \<bar>i\<bar>)) \<le> 4300" and "ends_value r"
  shows "read_value h (int_str i @ r) = Inr (JInt i, r)"
proof -
  obtain c cs where c: "int_str i = c # cs" by (cases "int_str i") (auto simp: int_str_def split: if_splits)
  have d: "is_digit c \<or> c = CHR ''-'' \<and> (\<exists>d ds. cs = d # ds \<and> is_digit d)"
  proof (cases "i < 0")
    case True
    obtain d ds where n: "nat_str (nat (- i)) = d # ds" by (cases "nat_str (nat (- i))") auto
    then have "is_digit d" using nat_str_digits [of "nat (- i)"] by simp
    moreover have "c = CHR ''-''" "cs = d # ds" using True c n by (auto simp: int_str_def)
    ultimately show ?thesis by simp
  next
    case False
    with c nat_str_digits [of "nat i"] show ?thesis by (auto simp: int_str_def)
  qed
  then have ne: "c \<noteq> CHR 0x22" "c \<noteq> CHR ''{''" "c \<noteq> CHR ''[''" "c \<noteq> CHR ''n''" "c \<noteq> CHR ''t''"
      "c \<noteq> CHR ''f''" "c \<noteq> CHR ''N''" "c \<noteq> CHR ''I''"
    by (auto simp: is_digit_def)
  have "take 9 (c # cs @ r) \<noteq> ''-Infinity''"
  proof
    assume "take 9 (c # cs @ r) = ''-Infinity''"
    then have "c = CHR ''-''" and "take 8 (cs @ r) = ''Infinity''" by simp_all
    moreover from this(1) d obtain e es where "cs = e # es" "is_digit e"
      by (auto simp: is_digit_def)
    ultimately show False by (simp add: is_digit_def)
  qed
  with ne have "read_value h (int_str i @ r) = read_num (int_str i @ r)"
    unfolding c by (auto simp: read_value.simps [of h "c # cs @ r"])
  with read_num_int_str [OF assms] show ?thesis by simp
qed

lemma ends_value_close [simp]:
  "ends_value (CHR '']'' # r)" "ends_value (CHR ''}'' # r)" "ends_value (CHR '','' # r)" "ends_value []"
  by (simp_all add: ends_value_def is_digit_def)

lemma list_text_starts:
  "int_json_list xs \<Longrightarrow> xs \<noteq> [] \<Longrightarrow> starts_value (join '','' (dumps_list False '','' '':'' xs) @ r)"
  by (cases xs) (simp_all add: join_Cons compact_starts)

lemma items_text_starts:
  "d \<noteq> [] \<Longrightarrow> starts_value (join '','' (dumps_items False '','' '':'' d) @ r)"
  by (cases d) (auto simp: join_Cons json_str_def starts_value_def is_ws_def)

lemma read_value_list:
  "starts_value s \<Longrightarrow> read_value h (CHR ''['' # s) = rbind (read_elems h s) (\<lambda>(xs, r). Inr (JList xs, r))"
  by (simp add: read_value.simps [of h "CHR ''['' # s"] starts_valueD)

lemma read_value_obj:
  "starts_value s \<Longrightarrow> read_value h (CHR ''{'' # s) =
     rbind (read_members h s) (\<lambda>(ps, r). rbind (h ps) (\<lambda>v. Inr (v, r)))"
  by (simp add: read_value.simps [of h "CHR ''{'' # s"] starts_valueD)

lemma read_elems_last: "read_value h s = Inr (v, CHR '']'' # r) \<Longrightarrow> read_elems h s = Inr ([v], r)"
  by (simp add: read_elems.simps [of h s] is_ws_def)

lemma read_elems_more:
  "read_value h s = Inr (v, CHR '','' # u) \<Longrightarrow> starts_value u \<Longrightarrow> length u < length s \<Longrightarrow>
   read_elems h s = rbind (read_elems h u) (\<lambda>(vs, r'). Inr (v # vs, r'))"
  by (simp add: read_elems.simps [of h s] is_ws_def starts_valueD)

lemma read_members_last:
  "read_str q = Inr (k, CHR '':'' # t) \<Longrightarrow> starts_value t \<Longrightarrow> length t \<le> length q \<Longrightarrow>
   read_value h t = Inr (v, CHR ''}'' # r) \<Longrightarrow> read_members h (CHR 0x22 # q) = Inr ([(k, v)], r)"
  by (simp add: read_members.simps [of h "CHR 0x22 # q"] is_ws_def starts_valueD)

lemma read_members_more:
  "read_str q = Inr (k, CHR '':'' # t) \<Longrightarrow> starts_value t \<Longrightarrow> length t \<le> length q \<Longrightarrow>
   read_value h t = Inr (v, CHR '','' # u) \<Longrightarrow> starts_value u \<Longrightarrow> length u \<le> length q \<Longrightarrow>
   read_members h (CHR 0x22 # q) = rbind (read_members h u) (\<lambda>(ps, r'). Inr ((k, v) # ps, r'))"
  by (simp add: read_members.simps [of h "CHR 0x22 # q"] is_ws_def starts_valueD)

lemma read_compact:
  "int_json v \<Longrightarrow> keeps_distinct h \<Longrightarrow> ends_value r \<Longrightarrow> read_value h (compact v @ r) = Inr (v, r)"
  "int_json_list xs \<Longrightarrow> keeps_distinct h \<Longrightarrow> xs \<noteq> [] \<Longrightarrow>
     read_elems h (join '','' (dumps_list False '','' '':'' xs) @ '']'' @ r) = Inr (xs, r)"
  "int_json_items d \<Longrightarrow> keeps_distinct h \<Longrightarrow> d \<noteq> [] \<Longrightarrow>
     read_members h (join '','' (dumps_items False '','' '':'' d) @ ''}'' @ r) = Inr (d, r)"
proof (induction v and xs and d arbitrary: r and r and r rule: int_json_int_json_list_int_json_items.induct)
  case (1 xs)
  show ?case
  proof (cases "xs = []")
    case False
    with 1 list_text_starts [of xs "CHR '']'' # r"] show ?thesis
      by (simp add: read_value_list)
  qed (simp add: read_value.simps is_ws_def)
next
  case (2 d)
  show ?case
  proof (cases "d = []")
    case False
    with 2 items_text_starts [of d "CHR ''}'' # r"] show ?thesis
      by (simp add: read_value_obj keeps_distinct_def)
  qed (use 2 in \<open>simp add: read_value.simps is_ws_def keeps_distinct_def\<close>)
next
  case (3 f)
  then show ?case by simp
next
  case (4 i)
  then show ?case by (simp add: read_value_int)
next
  case 5
  then show ?case by (simp add: read_value.simps)
next
  case (6 b)
  then show ?case by (simp add: read_value.simps)
next
  case (7 s)
  then show ?case by (simp add: read_value.simps json_str_def read_str_literal)
next
  case 8
  then show ?case by simp
next
  case (9 x xs)
  show ?case
  proof (cases "xs = []")
    case True
    with 9 show ?thesis by (simp add: read_elems_last)
  next
    case False
    let ?u = "join '','' (dumps_list False '','' '':'' xs) @ CHR '']'' # r"
    have "read_elems h (compact x @ CHR '','' # ?u) = rbind (read_elems h ?u) (\<lambda>(vs, r'). Inr (x # vs, r'))"
      using 9 False by (intro read_elems_more) (simp_all add: list_text_starts)
    with 9 False show ?thesis by (simp add: join_Cons)
  qed
next
  case 10
  then show ?case by simp
next
  case (11 k v d)
  let ?k = "concat (map (escape_char False) (utf8_chars k))"
  have key: "read_str (?k @ CHR 0x22 # t) = Inr (k, t)" for t by (rule read_str_literal)
  show ?case
  proof (cases "d = []")
    case True
    let ?s3 = "compact v @ CHR ''}'' # r"
    have "read_members h (CHR 0x22 # ?k @ CHR 0x22 # CHR '':'' # ?s3) = Inr ([(k, v)], r)"
      using 11 by (intro read_members_last [where t = ?s3]) (simp_all add: compact_starts key)
    with True show ?thesis by (simp add: json_str_def)
  next
    case False
    let ?u = "join '','' (dumps_items False '','' '':'' d) @ CHR ''}'' # r"
    let ?s3 = "compact v @ CHR '','' # ?u"
    have "read_members h (CHR 0x22 # ?k @ CHR 0x22 # CHR '':'' # ?s3)
        = rbind (read_members h ?u) (\<lambda>(ps, r'). Inr ((k, v) # ps, r'))"
      using 11 False
      by (intro read_members_more [where t = ?s3]) (simp_all add: compact_starts items_text_starts key)
    with 11 False show ?thesis by (simp add: json_str_def join_Cons)
  qed
qed

text \<open>The whole text: \<open>json.loads\<close> of a compact rendering is the value that was rendered.\<close>

lemma loads_compact:
  assumes "int_json v" and "keeps_distinct h"
  shows "json_loads h (compact v) = Inr v"
proof -
  have st: "starts_value (compact v)" using compact_starts [OF assms(1), of "[]"] by simp
  have rv: "read_value h (compact v) = Inr (v, [])"
    using read_compact(1) [OF assms, of "[]"] by simp
  have "take 3 (compact v) \<noteq> map char_of [239 :: nat, 187, 191]"
  proof
    assume bom: "take 3 (compact v) = map char_of [239 :: nat, 187, 191]"
    then obtain c cs where c: "compact v = c # cs" by (cases "compact v") auto
    with bom have o: "(of_char c :: nat) = 239" by auto
    show False
    proof (cases v)
      case (JInt i)
      then show ?thesis
        using o c nat_str_digits [of "nat i"] by (auto simp: int_str_def is_digit_def split: if_splits)
    qed (use o c assms(1) in \<open>auto simp: json_str_def split: if_splits\<close>)
  qed
  then show ?thesis by (simp add: json_loads_def starts_valueD [OF st] rv)
qed

end
