(* ===== verification/FlowData.thy ===== *)
theory FlowData
  imports JsonText
begin

text \<open>
  \<open>flow_data.py\<close>: the bounded JSON operations of the data nodes of a flow: \<open>union\<close>, \<open>project\<close>,
  \<open>select\<close> and \<open>overlay\<close>, the size and depth bound on every value that enters a flow, and the compact
  JSON text. Values are \<open>jval\<close>, a node is the dict of its fields. The locale \<open>checker\<close> is the contract
  of the validating functions: they return their argument or raise.
\<close>

section \<open>The interface of a validator\<close>

locale checker =
  fixes chk :: "'a \<Rightarrow> 'a res"
  assumes chk_same: "chk v = Inr w \<Longrightarrow> w = v"
begin

lemma chk_Inr_iff: "chk v = Inr w \<longleftrightarrow> chk v = Inr v \<and> w = v"
  using chk_same by auto

lemma chk_idem: "chk v = Inr w \<Longrightarrow> chk w = Inr w"
  using chk_same by auto

lemma chk_bind: "rbind (chk v) f = Inr y \<longleftrightarrow> chk v = Inr v \<and> f v = Inr y"
  using chk_same by (auto simp: res_simps)

lemma chk_twice: "rbind (chk v) chk = chk v"
  by (cases "chk v") (auto dest: chk_idem)

lemma chk_map: "rmap chk vs = Inr ws \<Longrightarrow> ws = vs"
  by (induction vs arbitrary: ws) (auto simp: res_simps dest: chk_same)

end

section \<open>Definitions\<close>

definition MAX_BYTES :: nat where
  "MAX_BYTES = 1048576"

text \<open>\<open>is_typed\<close>: whether a flow uses any typed-data construct.\<close>

definition typed_keys :: "string list" where
  "typed_keys = [''output_format'', ''skip_empty'', ''on_error'', ''context'', ''max_tokens'', ''timeout_ms'']"

definition is_typed :: "jval \<Rightarrow> bool" where
  "is_typed flow =
     (let nodes = (case flow of JList [_, JObj d] \<Rightarrow> d | _ \<Rightarrow> [])
      in list_ex (\<lambda>(_, n). case n of
           JObj f \<Rightarrow> dget f ''kind'' = JStr ''data'' \<or> dget f ''kind'' = JStr ''decision''
             \<or> list_ex (has_key f) typed_keys
         | _ \<Rightarrow> False) nodes)"

definition encode :: "jval \<Rightarrow> string res" where
  "encode v = dumps_strict False '','' '':'' v"

text \<open>The nested \<open>depth\<close> of \<open>bounded\<close>: it raises as soon as a level beyond 32 is visited.\<close>

fun too_deep :: "jval \<Rightarrow> nat \<Rightarrow> bool"
and too_deep_list :: "jval list \<Rightarrow> nat \<Rightarrow> bool"
and too_deep_items :: "dict \<Rightarrow> nat \<Rightarrow> bool" where
  "too_deep (JObj d) level = (32 < level \<or> too_deep_items d level)"
| "too_deep (JList xs) level = (32 < level \<or> too_deep_list xs level)"
| "too_deep JNull level = (32 < level)"
| "too_deep (JBool _) level = (32 < level)"
| "too_deep (JInt _) level = (32 < level)"
| "too_deep (JFloat _) level = (32 < level)"
| "too_deep (JStr _) level = (32 < level)"
| "too_deep_list [] level = False"
| "too_deep_list (x # xs) level = (too_deep x (level + 1) \<or> too_deep_list xs level)"
| "too_deep_items [] level = False"
| "too_deep_items ((k, v) # d) level = (too_deep v (level + 1) \<or> too_deep_items d level)"

definition bounded :: "jval \<Rightarrow> jval res" where
  "bounded v =
     (if too_deep v 0 then Inl (ValueError ''flow data exceeds depth limit'')
      else rbind (encode v) (\<lambda>t.
        if MAX_BYTES < length t then Inl (ValueError ''flow data exceeds 1 MiB'') else Inr v))"

text \<open>The hook \<open>unique\<close> of \<open>decode\<close>, then \<open>decode\<close>.\<close>

definition unique :: hook where
  "unique ps = rbind
     (rfold (\<lambda>(k, v) result. if has_key result k then Inl (ValueError ''duplicate JSON key'')
                             else Inr (dset k v result)) ps [])
     (\<lambda>result. Inr (JObj result))"

definition decode :: "string \<Rightarrow> jval res" where
  "decode text = rbind (json_loads unique text) bounded"

definition records :: "jval \<Rightarrow> dict res" where
  "records v = (case v of
     JObj d \<Rightarrow>
       if 128 < length d \<or> list_ex (\<lambda>k. \<not> (1 \<le> length k \<and> length k \<le> 128)) (keys d)
       then Inl (ValueError ''expected at most 128 keyed records'') else Inr d
   | _ \<Rightarrow> Inl (ValueError ''expected at most 128 keyed records''))"

text \<open>\<open>parts[i]\<close>.\<close>

definition part_at :: "jval list \<Rightarrow> nat \<Rightarrow> jval res" where
  "part_at parts i = (if i < length parts then Inr (parts ! i) else Inl (IndexError ''list index out of range''))"

definition run_union :: "jval list \<Rightarrow> jval res" where
  "run_union parts = rbind
     (rfold (\<lambda>part result. rbind (records part) (\<lambda>p.
        if list_ex (has_key result) (keys p) then Inl (ValueError ''duplicate union key'')
        else Inr (dupd result p))) parts [])
     (\<lambda>result. rbind (records (JObj result)) (\<lambda>r. Inr (JObj r)))"

definition project_step :: "jval \<Rightarrow> jval \<Rightarrow> jval res" where
  "project_step key value = (case value of
     JObj d \<Rightarrow> rbind (key_in key d) (\<lambda>b.
       if b then get_key d key else Inl (ValueError ''missing projection key''))
   | _ \<Rightarrow> Inl (ValueError ''missing projection key''))"

definition run_project :: "dict \<Rightarrow> jval list \<Rightarrow> jval res" where
  "run_project node parts =
     rbind (part_at parts 0) (\<lambda>value.
     rbind (dsub node ''path'') (\<lambda>path.
     rbind (py_iter path) (\<lambda>ks. rfold project_step ks value)))"

definition select_keeps :: "dict \<Rightarrow> dict \<Rightarrow> string \<Rightarrow> bool res" where
  "select_keeps node other k = (case dget other k of
     JObj o_k \<Rightarrow>
       rbind (dsub node ''field'') (\<lambda>f.
       rbind (get_key o_k f) (\<lambda>x.
       rbind (dsub node ''equals'') (\<lambda>e. Inr (py_eq x e))))
   | _ \<Rightarrow> Inr False)"

fun run_select :: "dict \<Rightarrow> dict \<Rightarrow> dict \<Rightarrow> dict res" where
  "run_select node [] other = Inr []"
| "run_select node ((k, v) # base) other =
     rbind (select_keeps node other k) (\<lambda>b.
     rbind (run_select node base other) (\<lambda>r. Inr (if b then (k, v) # r else r)))"

text \<open>\<open>n <= limit\<close> and \<open>n >= limit\<close> for a byte count and a field of the node.\<close>

definition not_comparable :: "string \<Rightarrow> jval \<Rightarrow> exn" where
  "not_comparable op v = TypeError (CHR 0x27 # op @ CHR 0x27 # '' not supported between instances of ''
      @ CHR 0x27 # ''int'' @ CHR 0x27 # '' and '' @ CHR 0x27 # type_name v @ [CHR 0x27])"

definition int_le :: "nat \<Rightarrow> jval \<Rightarrow> bool res" where
  "int_le n v = (case num_of v of None \<Rightarrow> Inl (not_comparable ''<='' v) | Some f \<Rightarrow> Inr (f_le (Fin (of_nat n)) f))"

definition int_ge :: "nat \<Rightarrow> jval \<Rightarrow> bool res" where
  "int_ge n v = (case num_of v of None \<Rightarrow> Inl (not_comparable ''>='' v) | Some f \<Rightarrow> Inr (f_le f (Fin (of_nat n))))"

definition when_in :: "dict \<Rightarrow> string \<Rightarrow> (jval \<Rightarrow> bool res) \<Rightarrow> bool \<Rightarrow> bool res" where
  "when_in node k f accept = (if accept \<and> has_key node k then f (dget node k) else Inr accept)"

text \<open>Whether the overlay takes the replacement for a key: the tests of the loop body in order.\<close>

definition overlay_accepts :: "dict \<Rightarrow> dict \<Rightarrow> string \<Rightarrow> jval \<Rightarrow> bool res" where
  "overlay_accepts node other key value =
     (let replacement = dget other key in
      rbind (when_in node ''max_string_bytes''
        (\<lambda>m. if is_str replacement then int_le (length (str_of replacement)) m else Inr False)
        (has_key other key)) (\<lambda>accept.
      rbind (when_in node ''min_string_bytes''
        (\<lambda>m. if is_str replacement then int_ge (length (str_of replacement)) m else Inr False)
        accept) (\<lambda>accept.
      Inr (if accept \<and> truthy (dget node ''only_shrink'')
           then is_str replacement \<and> is_str value \<and> length (str_of replacement) < length (str_of value)
           else accept))))"

fun overlay_items :: "dict \<Rightarrow> dict \<Rightarrow> dict \<Rightarrow> dict \<Rightarrow> dict res" where
  "overlay_items node other removed [] = Inr []"
| "overlay_items node other removed ((key, value) # base) =
     (if has_key removed key then overlay_items node other removed base
      else rbind (overlay_accepts node other key value) (\<lambda>accept.
           rbind (overlay_items node other removed base) (\<lambda>r.
             Inr ((key, if accept then dget other key else value) # r))))"

definition keys_within :: "dict \<Rightarrow> dict \<Rightarrow> bool" where
  "keys_within d e = list_all (has_key e) (keys d)"

definition run_overlay :: "dict \<Rightarrow> jval list \<Rightarrow> dict \<Rightarrow> dict \<Rightarrow> jval res" where
  "run_overlay node parts base other =
     rbind (if length parts = 3 then rbind (part_at parts 2) records else Inr []) (\<lambda>removed.
       if \<not> keys_within other base \<or> \<not> keys_within removed base
       then Inl (ValueError ''unknown overlay key'')
       else rbind (overlay_items node other removed base) (\<lambda>r. Inr (JObj r)))"

text \<open>\<open>run\<close> of \<open>flow_data.py\<close>, the dispatch on the node's operation.\<close>

definition run_data :: "dict \<Rightarrow> jval list \<Rightarrow> jval res" where
  "run_data node parts =
     rbind (dsub node ''operation'') (\<lambda>op.
       if op = JStr ''union'' then run_union parts
       else if op = JStr ''project'' then run_project node parts
       else rbind (rbind (part_at parts 0) records) (\<lambda>base.
            rbind (rbind (part_at parts 1) records) (\<lambda>other.
              if op = JStr ''select'' then rbind (run_select node base other) (\<lambda>r. Inr (JObj r))
              else if op \<noteq> JStr ''overlay'' then Inl (ValueError ''unknown data operation'')
              else run_overlay node parts base other)))"

section \<open>Bounds and encoding\<close>

lemma too_deep_iff:
  "too_deep v l \<longleftrightarrow> 32 < l + jdepth v"
  "xs \<noteq> [] \<Longrightarrow> too_deep_list xs l \<longleftrightarrow> 32 < l + depth_list xs"
  "d \<noteq> [] \<Longrightarrow> too_deep_items d l \<longleftrightarrow> 32 < l + depth_items d"
proof (induction v l and xs l and d l rule: too_deep_too_deep_list_too_deep_items.induct)
  case (1 d l)
  then show ?case by (cases d) auto
next
  case (2 xs l)
  then show ?case by (cases xs) auto
next
  case (9 x xs l)
  then show ?case by (cases xs) auto
next
  case (11 k v d l)
  then show ?case by (cases d) auto
qed auto

lemma encode_Inr: "encode v = Inr t \<longleftrightarrow> nan_free v \<and> t = compact v"
  by (auto simp: encode_def dumps_strict_def)

lemma bounded_Inr:
  "bounded v = Inr w \<longleftrightarrow> w = v \<and> jdepth v \<le> 32 \<and> nan_free v \<and> length (compact v) \<le> MAX_BYTES"
  by (auto simp: bounded_def too_deep_iff(1) res_simps encode_Inr not_less)

lemma rfold_unique:
  "wf_dict (acc @ ps) \<Longrightarrow>
   rfold (\<lambda>(k, v) result. if has_key result k then Inl (ValueError ''duplicate JSON key'')
                          else Inr (dset k v result)) ps acc = Inr (acc @ ps)"
proof (induction ps arbitrary: acc)
  case (Cons p ps)
  obtain k v where p: "p = (k, v)" by (cases p)
  with Cons.prems have k: "\<not> has_key acc k" by (auto simp: has_key_def)
  then have "dset k v acc = acc @ [(k, v)]" by (induction acc) (auto simp: has_key_def)
  with Cons k p show ?case by simp
qed simp

lemma unique_keeps: "keeps_distinct unique"
  using rfold_unique [where acc = "[] :: dict"] by (simp add: keeps_distinct_def unique_def)

lemma unique_distinct: "unique ps = Inr v \<Longrightarrow> wf_dict ps \<and> v = JObj ps"
proof -
  let ?f = "\<lambda>(k, v) result. if has_key result k then Inl (ValueError ''duplicate JSON key'') else Inr (dset k v result)"
  have gen: "wf_dict (acc @ ps)" if "rfold ?f ps acc = Inr r" and "wf_dict acc" for acc r
    using that
  proof (induction ps arbitrary: acc)
    case (Cons p ps)
    obtain k v where p: "p = (k, v)" by (cases p)
    with Cons.prems have k: "\<not> has_key acc k" by (auto split: if_splits)
    then have d: "dset k v acc = acc @ [(k, v)]" by (induction acc) (auto simp: has_key_def)
    have "wf_dict ((acc @ [(k, v)]) @ ps)"
      using Cons.prems p k d by (intro Cons.IH) (auto simp: has_key_def)
    with p show ?case by simp
  qed simp
  assume "unique ps = Inr v"
  then obtain r where r: "rfold ?f ps [] = Inr r" "v = JObj r"
    by (auto simp: unique_def res_simps)
  with gen [of "[]"] rfold_unique [of "[]" ps] show ?thesis by auto
qed

interpretation bounded_chk: checker bounded
  by unfold_locales (simp add: bounded_Inr)

text \<open>
  C32. Reading back the compact text of a bounded value gives the value: for data without floats and
  with distinct object keys, \<open>decode(encode(v)) == v\<close>, whatever strings, nesting and integers it holds.
\<close>

theorem decode_encode:
  assumes "int_json v" and "bounded v = Inr v"
  shows "rbind (encode v) decode = Inr v"
proof -
  from assms(2) have "encode v = Inr (compact v)" by (simp add: bounded_Inr encode_Inr)
  moreover have "json_loads unique (compact v) = Inr v"
    using assms(1) unique_keeps by (rule loads_compact)
  ultimately show ?thesis using assms(2) by (simp add: decode_def)
qed

theorem decode_encode_witness:
  "rbind (encode (JObj [(''a'', JList [JInt 7, JStr ''x'', JNull])])) decode
   = Inr (JObj [(''a'', JList [JInt 7, JStr ''x'', JNull])])"
proof (rule decode_encode)
  show "int_json (JObj [(''a'', JList [JInt 7, JStr ''x'', JNull])])" by code_simp
  show "bounded (JObj [(''a'', JList [JInt 7, JStr ''x'', JNull])])
    = Inr (JObj [(''a'', JList [JInt 7, JStr ''x'', JNull])])" by code_simp
qed

section \<open>Records and union\<close>

definition is_records :: "dict \<Rightarrow> bool" where
  "is_records d = (length d \<le> 128 \<and> (\<forall>k\<in>set (keys d). 1 \<le> length k \<and> length k \<le> 128))"

lemma records_Inr: "records v = Inr d \<longleftrightarrow> v = JObj d \<and> is_records d"
  by (cases v) (auto simp: records_def is_records_def list_ex_iff)

lemma records_error: "records v = Inl e \<Longrightarrow> is_value_error e"
  by (cases v) (auto simp: records_def split: if_splits)

interpretation records_chk: checker "\<lambda>v. rbind (records v) (\<lambda>d. Inr (JObj d))"
  by unfold_locales (auto simp: res_simps records_Inr)

lemma ex_map_JObj_Cons:
  "(\<exists>ds. JObj p # parts = map JObj ds \<and> Q ds) \<longleftrightarrow> (\<exists>ds. parts = map JObj ds \<and> Q (p # ds))"
  by (auto simp: Cons_eq_map_conv)

lemma union_loop:
  "wf_dict acc \<Longrightarrow> \<forall>p\<in>set parts. wf_val p \<Longrightarrow>
   rfold (\<lambda>part result. rbind (records part) (\<lambda>p.
        if list_ex (has_key result) (keys p) then Inl (ValueError ''duplicate union key'')
        else Inr (dupd result p))) parts acc = Inr r \<longleftrightarrow>
   (\<exists>ds. parts = map JObj ds \<and> (\<forall>d\<in>set ds. is_records d) \<and> r = acc @ concat ds \<and> wf_dict r)"
  (is "_ \<Longrightarrow> _ \<Longrightarrow> rfold ?f _ _ = _ \<longleftrightarrow> _")
proof (induction parts arbitrary: acc)
  case Nil
  then show ?case by auto
next
  case (Cons part parts)
  show ?case
  proof (cases "records part")
    case (Inl e)
    then have "\<not> (\<exists>d. part = JObj d \<and> is_records d)" by (metis records_Inr sum.distinct(1))
    with Inl show ?thesis by (auto simp: map_eq_Cons_conv Cons_eq_map_conv)
  next
    case (Inr p)
    then have p: "part = JObj p" "is_records p" by (simp_all add: records_Inr)
    with Cons.prems have wp: "wf_dict p" by simp
    show ?thesis
    proof (cases "list_ex (has_key acc) (keys p)")
      case True
      then obtain k where "k \<in> set (keys acc)" "k \<in> set (keys p)"
        by (auto simp: list_ex_iff has_key_def)
      then have no: "\<not> wf_dict (acc @ p @ x)" for x by auto
      have "rfold ?f (part # parts) acc = Inl (ValueError ''duplicate union key'')"
        using True Inr by simp
      moreover have "\<not> (\<exists>ds. part # parts = map JObj ds \<and> (\<forall>d\<in>set ds. is_records d)
          \<and> r = acc @ concat ds \<and> wf_dict r)"
        using no p by (auto simp only: Cons_eq_map_conv jval.inject concat.simps)
      ultimately show ?thesis by simp
    next
      case False
      then have dis: "set (keys acc) \<inter> set (keys p) = {}" by (force simp: list_ex_iff has_key_def)
      have "wf_dict (acc @ p)" using dis wp Cons.prems(1) by auto
      moreover have "rfold ?f (part # parts) acc = rfold ?f parts (acc @ p)"
        using False Inr dupd_disjoint [OF wp dis] by simp
      ultimately show ?thesis
        using Cons.IH [of "acc @ p"] Cons.prems(2) p by (simp add: ex_map_JObj_Cons)
    qed
  qed
qed

text \<open>
  The union of data nodes succeeds exactly when every part is a dict of at most 128 keyed records,
  no key occurs twice in all parts together and the whole has at most 128 records; the result is then
  the parts one after the other, in input order, with nothing lost or overwritten.
\<close>

lemma union_concat:
  assumes "\<forall>p\<in>set parts. wf_val p" and "dget node ''operation'' = JStr ''union''"
  shows "run_data node parts = Inr v \<longleftrightarrow>
    (\<exists>ds. parts = map JObj ds \<and> (\<forall>d\<in>set ds. is_records d) \<and> wf_dict (concat ds)
       \<and> is_records (concat ds) \<and> v = JObj (concat ds))"
proof -
  have "map_of node ''operation'' = Some (JStr ''union'')"
    using dget_nonnull [of node "''operation''"] assms(2) by simp
  then have "run_data node parts = run_union parts" by (simp add: run_data_def)
  moreover have "run_union parts = Inr v \<longleftrightarrow>
    (\<exists>ds. parts = map JObj ds \<and> (\<forall>d\<in>set ds. is_records d) \<and> wf_dict (concat ds)
       \<and> is_records (concat ds) \<and> v = JObj (concat ds))"
    using union_loop [of "[]" parts] assms(1)
    by (auto simp: run_union_def res_simps records_Inr)
  ultimately show ?thesis by simp
qed

section \<open>Project, select and overlay\<close>

lemma dget_JStrD: "dget d k = JStr x \<Longrightarrow> dsub d k = Inr (JStr x)"
  using dget_nonnull [of d k] by (simp only: dsub_eq_Inr jval.distinct not_False_eq_True)

text \<open>What a projection means: walking a path of keys through nested dicts.\<close>

fun lookup_path :: "jval \<Rightarrow> string list \<Rightarrow> jval option" where
  "lookup_path v [] = Some v"
| "lookup_path v (k # ks) = (case v of
     JObj d \<Rightarrow> (case map_of d k of None \<Rightarrow> None | Some w \<Rightarrow> lookup_path w ks)
   | _ \<Rightarrow> None)"

lemma project_steps:
  "rfold project_step (map JStr ks) v =
     (case lookup_path v ks of Some w \<Rightarrow> Inr w | None \<Rightarrow> Inl (ValueError ''missing projection key''))"
proof (induction ks arbitrary: v)
  case (Cons k ks)
  show ?case
  proof (cases v)
    case (JObj d)
    with Cons show ?thesis
      by (cases "map_of d k")
        (auto simp: project_step_def key_in_def get_key_def unhashable_def has_key_iff)
  qed (simp_all add: project_step_def)
qed simp

text \<open>
  A projection is path lookup in the first input: it returns the value the path leads to, and
  raises \<open>missing projection key\<close> exactly when a key is absent or a value on the way is no dict.
\<close>

lemma project_lookup:
  assumes "dget node ''operation'' = JStr ''project''"
    and "dget node ''path'' = JList (map JStr ks)"
  shows "run_data node (v # rest) =
    (case lookup_path v ks of Some w \<Rightarrow> Inr w | None \<Rightarrow> Inl (ValueError ''missing projection key''))"
proof -
  have "map_of node ''path'' = Some (JList (map JStr ks))"
    using dget_nonnull [of node "''path''"] assms(2) by simp
  with assms(1) show ?thesis
    by (simp add: run_data_def run_project_def part_at_def project_steps dget_JStrD)
qed

definition selects :: "string \<Rightarrow> jval \<Rightarrow> dict \<Rightarrow> string \<Rightarrow> bool" where
  "selects f e other k = (case dget other k of JObj d \<Rightarrow> py_eq (dget d f) e | _ \<Rightarrow> False)"

lemma run_select_filter:
  assumes "map_of node ''field'' = Some (JStr f)" and "map_of node ''equals'' = Some e"
  shows "run_select node base other = Inr (filter (\<lambda>(k, v). selects f e other k) base)"
proof (induction base)
  case (Cons p base)
  obtain k v where p: "p = (k, v)" by (cases p)
  have "select_keeps node other k = Inr (selects f e other k)"
    using assms by (auto simp: select_keeps_def selects_def get_key_def unhashable_def split: jval.splits)
  with Cons p show ?case by simp
qed simp

text \<open>
  Select keeps, in order and unchanged, the records of the first input whose record in the second
  input has the node's field equal to the node's value; for two valid inputs it cannot fail.
\<close>

lemma select_filter:
  assumes "dget node ''operation'' = JStr ''select''"
    and "map_of node ''field'' = Some (JStr f)" and "map_of node ''equals'' = Some e"
    and "is_records base" and "is_records other"
  shows "run_data node (JObj base # JObj other # rest) =
    Inr (JObj (filter (\<lambda>(k, v). selects f e other k) base))"
  using assms run_select_filter [OF assms(2,3), of base other]
  by (simp add: run_data_def part_at_def records_Inr [THEN iffD2] dget_JStrD)

text \<open>The constraints a node puts on a replacement \<open>w\<close> of a value \<open>v\<close>.\<close>

definition fits :: "dict \<Rightarrow> jval \<Rightarrow> jval \<Rightarrow> bool" where
  "fits node v w =
     ((has_key node ''max_string_bytes'' \<longrightarrow>
         is_str w \<and> int_le (length (str_of w)) (dget node ''max_string_bytes'') = Inr True)
    \<and> (has_key node ''min_string_bytes'' \<longrightarrow>
         is_str w \<and> int_ge (length (str_of w)) (dget node ''min_string_bytes'') = Inr True)
    \<and> (truthy (dget node ''only_shrink'') \<longrightarrow>
         is_str w \<and> is_str v \<and> length (str_of w) < length (str_of v)))"

lemma overlay_accepts_fits:
  "overlay_accepts node other k v = Inr b \<Longrightarrow> b = (has_key other k \<and> fits node v (dget other k))"
  by (auto simp: overlay_accepts_def when_in_def fits_def Let_def res_simps split: if_splits)

definition overlaid :: "dict \<Rightarrow> dict \<Rightarrow> string \<times> jval \<Rightarrow> string \<times> jval" where
  "overlaid node other p = (fst p,
     if has_key other (fst p) \<and> fits node (snd p) (dget other (fst p)) then dget other (fst p) else snd p)"

lemma overlay_items_map:
  "overlay_items node other removed base = Inr r \<Longrightarrow>
   r = map (overlaid node other) (filter (\<lambda>p. \<not> has_key removed (fst p)) base)"
proof (induction base arbitrary: r)
  case (Cons p base)
  obtain k v where p: "p = (k, v)" by (cases p)
  with Cons show ?case
    by (auto simp: res_simps overlaid_def split: if_splits dest!: overlay_accepts_fits)
qed simp

lemma overlay_run:
  assumes "dget node ''operation'' = JStr ''overlay''"
  shows "run_data node parts =
    rbind (rbind (part_at parts 0) records) (\<lambda>base.
    rbind (rbind (part_at parts 1) records) (\<lambda>other. run_overlay node parts base other))"
  using assms by (simp add: run_data_def dget_JStrD)

text \<open>
  An overlay that succeeds drops exactly the removed keys, keeps the order of the base, and
  changes a record only to the replacement given for its own key, only where that replacement meets
  every declared constraint (byte limits, strictly shorter text); no key is ever added.
\<close>

lemma overlay_constrained:
  assumes "dget node ''operation'' = JStr ''overlay''"
    and "run_data node [JObj base, JObj other, JObj removed] = Inr v"
  shows "v = JObj (map (overlaid node other) (filter (\<lambda>p. \<not> has_key removed (fst p)) base))
    \<and> set (keys other) \<subseteq> set (keys base) \<and> set (keys removed) \<subseteq> set (keys base)"
  using assms(2)
  by (auto simp: overlay_run [OF assms(1)] part_at_def res_simps records_Inr run_overlay_def
        keys_within_def list_all_iff has_key_def split: if_splits dest!: overlay_items_map)

text \<open>The bytes of the text values of a dict.\<close>

definition text_bytes :: "dict \<Rightarrow> nat" where
  "text_bytes d = sum_list (map (\<lambda>p. length (str_of (snd p))) d)"

lemma overlaid_shrinks:
  "truthy (dget node ''only_shrink'') \<Longrightarrow>
   length (str_of (snd (overlaid node other p))) \<le> length (str_of (snd p))"
  by (auto simp: overlaid_def fits_def)

text \<open>
  With \<open>only_shrink\<close> an overlay, with or without removals, never makes the text of the records
  longer in total: compaction cannot grow what it compacts.
\<close>

lemma overlay_only_shrinks:
  assumes "dget node ''operation'' = JStr ''overlay''" and "truthy (dget node ''only_shrink'')"
    and "run_data node (JObj base # JObj other # more) = Inr v"
  shows "text_bytes (obj_of v) \<le> text_bytes base"
proof -
  obtain removed r where "overlay_items node other removed base = Inr r" and v: "v = JObj r"
    using assms(3)
    by (auto simp: overlay_run [OF assms(1)] part_at_def res_simps records_Inr run_overlay_def
          split: if_splits)
  then have r: "r = map (overlaid node other) (filter (\<lambda>p. \<not> has_key removed (fst p)) base)"
    by (intro overlay_items_map)
  have "text_bytes (map (overlaid node other) (filter P base)) \<le> text_bytes base" for P
    using overlaid_shrinks [OF assms(2)]
    by (induction base) (auto simp: text_bytes_def intro: add_mono trans_le_add2)
  with r v show ?thesis by simp
qed

end
