(* ===== verification/PyNum.thy ===== *)
theory PyNum
  imports PyValue
begin

text \<open>
  Arithmetic and comparison on values: ints are exact, an operation with a float converts the other
  operand and rounds once, booleans count as 0 and 1, other types raise \<open>TypeError\<close>. (The code applies
  these operators to numbers only; sequence operands are not modelled.)
\<close>

section \<open>Floats\<close>

fun f_neg :: "pyfloat \<Rightarrow> pyfloat" where
  "f_neg (Fin x) = Fin (- x)"
| "f_neg PInf = NInf"
| "f_neg NInf = PInf"
| "f_neg NaN = NaN"

fun f_add :: "pyfloat \<Rightarrow> pyfloat \<Rightarrow> pyfloat" where
  "f_add (Fin x) (Fin y) = mk_float (x + y)"
| "f_add NaN y = NaN"
| "f_add x NaN = NaN"
| "f_add PInf NInf = NaN"
| "f_add NInf PInf = NaN"
| "f_add PInf y = PInf"
| "f_add NInf y = NInf"
| "f_add (Fin x) y = y"

definition f_sub :: "pyfloat \<Rightarrow> pyfloat \<Rightarrow> pyfloat" where
  "f_sub x y = f_add x (f_neg y)"

definition inf_sign :: "bool \<Rightarrow> pyfloat" where
  "inf_sign p = (if p then PInf else NInf)"

fun f_mul :: "pyfloat \<Rightarrow> pyfloat \<Rightarrow> pyfloat" where
  "f_mul (Fin x) (Fin y) = mk_float (x * y)"
| "f_mul NaN y = NaN"
| "f_mul x NaN = NaN"
| "f_mul (Fin x) PInf = (if x = 0 then NaN else inf_sign (0 < x))"
| "f_mul (Fin x) NInf = (if x = 0 then NaN else inf_sign (x < 0))"
| "f_mul PInf (Fin y) = (if y = 0 then NaN else inf_sign (0 < y))"
| "f_mul NInf (Fin y) = (if y = 0 then NaN else inf_sign (y < 0))"
| "f_mul PInf y = y"
| "f_mul NInf y = f_neg y"

definition zero_division :: exn where
  "zero_division = OtherExc ''ZeroDivisionError'' ''division by zero''"

fun f_div :: "pyfloat \<Rightarrow> pyfloat \<Rightarrow> pyfloat res" where
  "f_div x (Fin y) = (if y = 0 then Inl zero_division else case x of
     Fin a \<Rightarrow> Inr (mk_float (a / y)) | NaN \<Rightarrow> Inr NaN
   | PInf \<Rightarrow> Inr (inf_sign (0 < y)) | NInf \<Rightarrow> Inr (inf_sign (y < 0)))"
| "f_div x NaN = Inr NaN"
| "f_div (Fin x) y = Inr (Fin 0)"
| "f_div x y = Inr NaN"

section \<open>Numbers of either type\<close>

definition float_of_int :: "int \<Rightarrow> pyfloat res" where
  "float_of_int i = (if int_too_large i then Inl (OverflowError ''int too large to convert to float'')
     else Inr (Fin (fl (of_int i))))"

fun to_float :: "jval \<Rightarrow> pyfloat res" where
  "to_float (JBool b) = Inr (Fin (if b then 1 else 0))"
| "to_float (JInt i) = float_of_int i"
| "to_float (JFloat f) = Inr f"
| "to_float v = Inl (TypeError ''unsupported operand type(s)'')"

fun as_int :: "jval \<Rightarrow> int option" where
  "as_int (JBool b) = Some (if b then 1 else 0)"
| "as_int (JInt i) = Some i"
| "as_int v = None"

definition arith ::
  "(int \<Rightarrow> int \<Rightarrow> int) \<Rightarrow> (pyfloat \<Rightarrow> pyfloat \<Rightarrow> pyfloat) \<Rightarrow> jval \<Rightarrow> jval \<Rightarrow> jval res" where
  "arith iop fop a b = (case (as_int a, as_int b) of
     (Some i, Some j) \<Rightarrow> Inr (JInt (iop i j))
   | _ \<Rightarrow> rbind (to_float a) (\<lambda>x. rbind (to_float b) (\<lambda>y. Inr (JFloat (fop x y)))))"

definition py_add :: "jval \<Rightarrow> jval \<Rightarrow> jval res" where
  "py_add = arith (+) f_add"

definition py_sub :: "jval \<Rightarrow> jval \<Rightarrow> jval res" where
  "py_sub = arith (-) f_sub"

definition py_mul :: "jval \<Rightarrow> jval \<Rightarrow> jval res" where
  "py_mul = arith (*) f_mul"

text \<open>True division of two ints rounds the exact quotient.\<close>

definition py_div :: "jval \<Rightarrow> jval \<Rightarrow> jval res" where
  "py_div a b = (case (as_int a, as_int b) of
     (Some i, Some j) \<Rightarrow>
       if j = 0 then Inl zero_division
       else (case mk_float (of_int i / of_int j) of
           Fin q \<Rightarrow> Inr (JFloat (Fin q))
         | _ \<Rightarrow> Inl (OverflowError ''integer division result too large for a float''))
   | _ \<Rightarrow> rbind (to_float a) (\<lambda>x. rbind (to_float b) (\<lambda>y. rbind (f_div x y) (\<lambda>q. Inr (JFloat q)))))"

definition py_lt :: "jval \<Rightarrow> jval \<Rightarrow> bool res" where
  "py_lt a b = (case (num_of a, num_of b) of
     (Some x, Some y) \<Rightarrow> Inr (f_lt x y)
   | _ \<Rightarrow> (case (a, b) of
       (JStr s, JStr t) \<Rightarrow> Inr (s < t)
     | _ \<Rightarrow> Inl (TypeError (CHR 0x27 # ''<'' @ CHR 0x27 # '' not supported between instances of ''
         @ CHR 0x27 # type_name a @ CHR 0x27 # '' and '' @ CHR 0x27 # type_name b @ [CHR 0x27]))))"

definition py_le :: "jval \<Rightarrow> jval \<Rightarrow> bool res" where
  "py_le a b = (case (num_of a, num_of b) of
     (Some x, Some y) \<Rightarrow> Inr (f_le x y)
   | _ \<Rightarrow> (case (a, b) of
       (JStr s, JStr t) \<Rightarrow> Inr (s \<le> t)
     | _ \<Rightarrow> Inl (TypeError (CHR 0x27 # ''<='' @ CHR 0x27 # '' not supported between instances of ''
         @ CHR 0x27 # type_name a @ CHR 0x27 # '' and '' @ CHR 0x27 # type_name b @ [CHR 0x27]))))"

text \<open>\<open>max(a, b)\<close> and \<open>min(a, b)\<close> keep the first of two equal values.\<close>

definition py_max :: "jval \<Rightarrow> jval \<Rightarrow> jval res" where
  "py_max a b = rbind (py_lt a b) (\<lambda>l. Inr (if l then b else a))"

definition py_min :: "jval \<Rightarrow> jval \<Rightarrow> jval res" where
  "py_min a b = rbind (py_lt b a) (\<lambda>l. Inr (if l then b else a))"

text \<open>A float literal of the source.\<close>

definition lit :: "rat \<Rightarrow> jval" where
  "lit x = JFloat (Fin (fl x))"

section \<open>Facts\<close>

lemma mk_float_exact: "fl x = r \<Longrightarrow> - (10 ^ 9) \<le> r \<Longrightarrow> r \<le> 10 ^ 9 \<Longrightarrow> mk_float x = Fin r"
proof -
  assume "fl x = r" "- (10 ^ 9) \<le> r" "r \<le> 10 ^ 9"
  moreover have "(10 :: rat) ^ 9 < 2 ^ 1024" by simp
  ultimately show ?thesis by (simp add: mk_float_def Let_def del: power_numeral)
qed

lemma arith_int [simp]: "arith iop fop (JInt i) (JInt j) = Inr (JInt (iop i j))"
  by (simp add: arith_def)

lemma arith_num: "arith iop fop a b = Inr c \<Longrightarrow> is_num c"
  by (auto simp: arith_def res_simps split: option.splits)

lemmas py_num = arith_num [of "(+)" f_add, folded py_add_def] arith_num [of "(-)" f_sub, folded py_sub_def]
  arith_num [of "(*)" f_mul, folded py_mul_def]

lemma py_div_num: "py_div a b = Inr c \<Longrightarrow> \<exists>f. c = JFloat f"
  by (auto simp: py_div_def res_simps split: option.splits pyfloat.splits if_splits)

lemma py_max_ge:
  assumes "py_max (JInt i) b = Inr c" and "num_of b = Some (Fin x)"
  shows "of_int i \<le> rat_of c"
  using assms by (auto simp: py_max_def py_lt_def rat_of_def f_lt_def res_simps split: if_splits)

end
