(* ===== verification/PyText.thy ===== *)
theory PyText
  imports PyNum
begin

text \<open>
  Text of values and values of text: \<open>repr\<close> and \<open>str\<close>, and what \<open>int(s)\<close>, \<open>float(s)\<close> and the conversions
  built on them read. Digits and letters are ASCII.
\<close>

section \<open>repr and str\<close>

text \<open>
  \<open>str(v)\<close> inside an f-string. For strings within containers \<open>repr\<close> picks the quote and escapes
  control characters; characters beyond ASCII are taken as printable.
\<close>

definition repr_char :: "char \<Rightarrow> char \<Rightarrow> string" where
  "repr_char q c = (let n = (of_char c :: nat) in
     if c = q \<or> n = 92 then [CHR 0x5C, c]
     else if n = 10 then CHR 0x5C # ''n'' else if n = 13 then CHR 0x5C # ''r''
     else if n = 9 then CHR 0x5C # ''t''
     else if n < 32 \<or> n = 127 then CHR 0x5C # CHR ''x'' # map hex_digit [n div 16, n mod 16]
     else [c])"

definition str_repr :: "string \<Rightarrow> string" where
  "str_repr s = (let q = (if CHR 0x27 \<in> set s \<and> CHR 0x22 \<notin> set s then CHR 0x22 else CHR 0x27)
     in q # concat (map (repr_char q) s) @ [q])"

fun py_repr :: "jval \<Rightarrow> string"
and repr_list :: "jval list \<Rightarrow> string list"
and repr_items :: "dict \<Rightarrow> string list" where
  "py_repr JNull = ''None''"
| "py_repr (JBool b) = (if b then ''True'' else ''False'')"
| "py_repr (JInt i) = int_str i"
| "py_repr (JFloat f) = (case f of PInf \<Rightarrow> ''inf'' | NInf \<Rightarrow> ''-inf'' | NaN \<Rightarrow> ''nan'' | _ \<Rightarrow> float_repr f)"
| "py_repr (JStr s) = str_repr s"
| "py_repr (JList xs) = ''['' @ join '', '' (repr_list xs) @ '']''"
| "py_repr (JObj d) = ''{'' @ join '', '' (repr_items d) @ ''}''"
| "repr_list [] = []"
| "repr_list (x # xs) = py_repr x # repr_list xs"
| "repr_items [] = []"
| "repr_items ((k, v) # d) = (str_repr k @ '': '' @ py_repr v) # repr_items d"

definition py_str :: "jval \<Rightarrow> string" where
  "py_str v = (case v of JStr s \<Rightarrow> s | _ \<Rightarrow> py_repr v)"

section \<open>Numbers read from text\<close>

text \<open>Digits with single underscores between them; the result is their value's digits.\<close>

fun digit_run :: "string \<Rightarrow> bool \<Rightarrow> string option" where
  "digit_run [] after = (if after then Some [] else None)"
| "digit_run (c # cs) after =
     (if is_digit c then map_option ((#) c) (digit_run cs True)
      else if c = CHR ''_'' \<and> after then digit_run cs False else None)"

definition read_sign :: "string \<Rightarrow> bool \<times> string" where
  "read_sign s = (case s of
     [] \<Rightarrow> (False, [])
   | c # cs \<Rightarrow> if c = CHR ''-'' then (True, cs) else if c = CHR ''+'' then (False, cs) else (False, s))"

definition int_of_text :: "string \<Rightarrow> int res" where
  "int_of_text s = (case read_sign (py_strip s) of (neg, ds) \<Rightarrow>
     (case digit_run ds False of
        None \<Rightarrow> Inl (ValueError (''invalid literal for int() with base 10: '' @ str_repr s))
      | Some xs \<Rightarrow>
          if 4300 < length xs then Inl (ValueError ''Exceeds the limit (4300 digits) for integer string conversion'')
          else Inr (if neg then - int (digits_val xs) else int (digits_val xs))))"

definition is_exp_char :: "char \<Rightarrow> bool" where
  "is_exp_char c = (c = CHR ''e'' \<or> c = CHR ''E'')"

text \<open>Mantissa digits before and after the point: an empty side is allowed, not both.\<close>

definition opt_run :: "string \<Rightarrow> string option" where
  "opt_run s = (if s = [] then Some [] else digit_run s False)"

definition decimal_of_text :: "string \<Rightarrow> rat option" where
  "decimal_of_text s =
     (let m = takeWhile (\<lambda>c. \<not> is_exp_char c) s; r = drop (length m) s;
          whole = takeWhile (\<lambda>c. c \<noteq> CHR ''.'') m; frac = drop (length whole + 1) m
      in case (opt_run whole, opt_run frac,
            if r = [] then Some (0 :: int)
            else (case read_sign (tl r) of (neg, ds) \<Rightarrow>
              map_option (\<lambda>xs. if neg then - int (digits_val xs) else int (digits_val xs)) (digit_run ds False))) of
           (Some a, Some b, Some e) \<Rightarrow>
             if a = [] \<and> b = [] then None
             else Some (of_nat (digits_val (a @ b)) * pow10 (e - int (length b)))
         | _ \<Rightarrow> None)"

definition float_of_text :: "string \<Rightarrow> pyfloat res" where
  "float_of_text s = (case read_sign (py_strip s) of (neg, t) \<Rightarrow>
     let l = ascii_lower t; signed = (\<lambda>f. if neg then f_neg f else f) in
     if l = ''inf'' \<or> l = ''infinity'' then Inr (signed PInf)
     else if l = ''nan'' then Inr NaN
     else (case decimal_of_text t of
         None \<Rightarrow> Inl (ValueError (''could not convert string to float: '' @ str_repr s))
       | Some x \<Rightarrow> Inr (signed (mk_float x))))"

text \<open>\<open>float(v)\<close> and \<open>int(v)\<close> of a value; \<open>int\<close> of a float truncates towards zero.\<close>

definition float_of :: "jval \<Rightarrow> pyfloat res" where
  "float_of v = (case v of
     JStr s \<Rightarrow> float_of_text s
   | JBool b \<Rightarrow> to_float v | JInt i \<Rightarrow> to_float v | JFloat f \<Rightarrow> to_float v
   | _ \<Rightarrow> Inl (TypeError (''float() argument must be a string or a real number, not '' @ CHR 0x27 # type_name v @ [CHR 0x27])))"

definition trunc :: "rat \<Rightarrow> int" where
  "trunc x = (if 0 \<le> x then \<lfloor>x\<rfloor> else \<lceil>x\<rceil>)"

definition int_of :: "jval \<Rightarrow> int res" where
  "int_of v = (case v of
     JStr s \<Rightarrow> int_of_text s
   | JBool b \<Rightarrow> Inr (if b then 1 else 0) | JInt i \<Rightarrow> Inr i
   | JFloat (Fin x) \<Rightarrow> Inr (trunc x)
   | JFloat NaN \<Rightarrow> Inl (ValueError ''cannot convert float NaN to integer'')
   | JFloat _ \<Rightarrow> Inl (OverflowError ''cannot convert float infinity to integer'')
   | _ \<Rightarrow> Inl (TypeError (''int() argument must be a string, a bytes-like object or a real number, not '' @ CHR 0x27 # type_name v @ [CHR 0x27])))"

text \<open>The text of a non-negative integer reads back, with or without surrounding blanks stripped.\<close>

lemma digit_run_digits: "list_all is_digit ds \<Longrightarrow> digit_run ds after = (if ds = [] \<and> \<not> after then None else Some ds)"
  by (induction ds arbitrary: after) auto

end
