(* ===== verification/FlowRunner.thy ===== *)
theory FlowRunner
  imports FlowData PyText
begin

text \<open>
  \<open>flow_runner.py\<close>: the schedule of an admitted flow (\<open>topo_order\<close>), how a node sees its inputs
  (\<open>_part_view\<close>, \<open>assemble\<close>), and the loop that runs the nodes (\<open>run_flow\<close>). The router call of a node
  and the clock are arguments: they act on a world of any type. Nodes are dicts whose \<open>inputs\<close> are
  lists of node ids, as admission (outside this repository) makes them.
\<close>

section \<open>The graph and its schedule\<close>

type_synonym nodes = "(string \<times> dict) list"

text \<open>\<open>_nodes\<close>: the list form \<open>["flow", nodes]\<close> or the dict form.\<close>

definition flow_nodes :: "jval \<Rightarrow> nodes res" where
  "flow_nodes flow =
     rbind (case flow of
         JList xs \<Rightarrow> rbind (part_at xs 1) (\<lambda>v. Inr (py_or v (JObj [])))
       | JObj d \<Rightarrow> Inr (py_or (dget d ''nodes'') (JObj []))
       | _ \<Rightarrow> Inl (attr_err flow ''get''))
     (\<lambda>v. case v of
         JObj d \<Rightarrow> rmap (\<lambda>(k, n). case n of JObj f \<Rightarrow> Inr (k, f) | _ \<Rightarrow> Inl (attr_err n ''get'')) d
       | _ \<Rightarrow> Inl (attr_err v ''items''))"

definition kind_of :: "dict \<Rightarrow> jval" where
  "kind_of node = dget node ''kind''"

text \<open>\<open>node.get("inputs") or []\<close>.\<close>

definition node_inputs :: "dict \<Rightarrow> string list" where
  "node_inputs node = map str_of (list_of (dget node ''inputs''))"

text \<open>\<open>_endpoints\<close>: the last input node and the last output node.\<close>

fun endpoints :: "nodes \<Rightarrow> string option \<Rightarrow> string option \<Rightarrow> string option \<times> string option" where
  "endpoints [] src sink = (src, sink)"
| "endpoints ((nid, node) # ns) src sink =
     (if kind_of node = JStr ''input'' then endpoints ns (Some nid) sink
      else if kind_of node = JStr ''output'' then endpoints ns src (Some nid)
      else endpoints ns src sink)"

text \<open>The in-degrees and successor lists of Kahn's algorithm, built edge by edge.\<close>

type_synonym degrees = "(string \<times> int) list"
type_synonym succs = "(string \<times> string list) list"

definition add_edge :: "string \<Rightarrow> string \<Rightarrow> degrees \<times> succs \<Rightarrow> (degrees \<times> succs) res" where
  "add_edge nid pre g = (case g of (indeg, succ) \<Rightarrow>
     (case map_of succ pre of
        None \<Rightarrow> Inl (KeyError pre)
      | Some ss \<Rightarrow> Inr (dset nid (dget_or indeg nid 0 + 1) indeg, dset pre (ss @ [nid]) succ)))"

definition build_graph :: "nodes \<Rightarrow> (degrees \<times> succs) res" where
  "build_graph nodes =
     rfold (\<lambda>(nid, node). rfold (add_edge nid) (node_inputs node)) nodes
       (map (\<lambda>p. (fst p, 0)) nodes, map (\<lambda>p. (fst p, [])) nodes)"

text \<open>One pass over the successors of a scheduled node: count down, collect the ids that reach 0.\<close>

fun relax :: "string list \<Rightarrow> degrees \<Rightarrow> string list \<Rightarrow> degrees \<times> string list" where
  "relax [] indeg newly = (indeg, newly)"
| "relax (b # bs) indeg newly =
     (let d = dget_or indeg b 0 - 1
      in relax bs (dset b d indeg) (if d = 0 then newly @ [b] else newly))"

definition waiting :: "degrees \<Rightarrow> nat" where
  "waiting indeg = length (filter (\<lambda>p. 0 < snd p) indeg)"

lemma waiting_dset:
  "waiting (dset b (dget_or indeg b 0 - 1) indeg) + (if dget_or indeg b 0 = 1 then 1 else 0) \<le> waiting indeg"
  by (induction indeg) (auto simp: waiting_def dget_or_def)

lemma relax_waiting:
  "relax bs indeg newly = (indeg', newly') \<Longrightarrow>
   waiting indeg' + length newly' \<le> waiting indeg + length newly"
proof (induction bs arbitrary: indeg newly)
  case (Cons b bs)
  let ?d = "dget_or indeg b 0 - 1"
  have "waiting indeg' + length newly' \<le>
      waiting (dset b ?d indeg) + length (if ?d = 0 then newly @ [b] else newly)"
    using Cons.prems by (intro Cons.IH) (simp add: Let_def)
  with waiting_dset [of b indeg] show ?case by (auto split: if_splits)
qed simp

function kahn :: "succs \<Rightarrow> string list \<Rightarrow> degrees \<Rightarrow> string list \<Rightarrow> string list" where
  "kahn succ [] indeg order = order"
| "kahn succ (nid # queue) indeg order =
     (case relax (dget_or succ nid []) indeg [] of (indeg', newly) \<Rightarrow>
        kahn succ (if newly \<noteq> [] then sort (queue @ newly) else queue) indeg' (order @ [nid]))"
  by pat_completeness auto
termination
  by (relation "measure (\<lambda>(succ, queue, indeg, order). waiting indeg + length queue)")
    (auto dest!: relax_waiting [OF sym])

definition topo_order :: "nodes \<Rightarrow> string list res" where
  "topo_order nodes = rbind (build_graph nodes) (\<lambda>(indeg, succ).
     Inr (kahn succ (sort (map fst (filter (\<lambda>p. snd p = 0) indeg))) indeg []))"

section \<open>What a node sees of its inputs\<close>

text \<open>\<open>_part_view\<close>: the text of a predecessor and, below it, the tool calls it proposed.\<close>

definition call_line :: "jval \<Rightarrow> string res" where
  "call_line tc =
     rbind (vget tc ''function'') (\<lambda>f.
     rbind (vget (py_or f (JObj [])) ''name'') (\<lambda>name.
     rbind (vget (py_or f (JObj [])) ''arguments'') (\<lambda>arguments.
       Inr (''- '' @ py_str name @ ''('' @ py_str arguments @ '')''))))"

definition part_view :: "dict \<Rightarrow> string res" where
  "part_view part =
     rbind (if has_key part ''data'' then encode (dget part ''data'')
            else Inr (str_of (py_or (dget part ''text'') (JStr [])))) (\<lambda>text.
     let tcs = dget part ''tool_calls'' in
     if \<not> truthy tcs then Inr text
     else rbind (py_iter tcs) (\<lambda>calls.
          rbind (rmap call_line calls) (\<lambda>lines.
            let block = ''[proposed tool calls]'' @ nl @ join nl lines in
            Inr (if text \<noteq> [] then text @ nl @ nl @ block else block))))"

text \<open>\<open>re.sub(r"\$(\d+)", ...)\<close> over the template, for ASCII digits.\<close>

definition template_ref :: "dict list \<Rightarrow> string \<Rightarrow> string res" where
  "template_ref parts ds =
     (if 4300 < length ds then Inl (ValueError ''Exceeds the limit (4300 digits) for integer string conversion'')
      else let i = digits_val ds in
        if 0 < i \<and> i \<le> length parts then part_view (parts ! (i - 1)) else Inr [])"

function subst_template :: "dict list \<Rightarrow> string \<Rightarrow> string res" where
  "subst_template parts [] = Inr []"
| "subst_template parts (c # cs) =
     (let ds = takeWhile is_digit cs in
      if c = CHR ''$'' \<and> ds \<noteq> [] then
        rbind (template_ref parts ds) (\<lambda>t.
        rbind (subst_template parts (drop (length ds) cs)) (\<lambda>r. Inr (t @ r)))
      else rbind (subst_template parts cs) (\<lambda>r. Inr (c # r)))"
  by pat_completeness auto
termination
  by (relation "measure (\<lambda>(parts, s). length s)") auto

fun number_sections :: "nat \<Rightarrow> string list \<Rightarrow> string list" where
  "number_sections i [] = []"
| "number_sections i (t # ts) = (''[input '' @ nat_str i @ '']'' @ nl @ t) # number_sections (Suc i) ts"

definition assemble :: "dict \<Rightarrow> dict list \<Rightarrow> string res" where
  "assemble node parts =
     (let template = dget node ''template'' in
      if truthy template then subst_template parts (str_of template)
      else case parts of
        [p] \<Rightarrow> part_view p
      | _ \<Rightarrow> rbind (rmap part_view parts) (\<lambda>ts. Inr (join (nl @ nl) (number_sections 1 ts))))"

section \<open>The run\<close>

text \<open>
  The environment of a run: the clock, and the router call of a node under a time budget
  (\<open>asyncio.timeout\<close> when there is one), which may raise.
\<close>

record 'w env =
  clock :: "'w \<Rightarrow> rat \<times> 'w"
  run_node :: "string \<Rightarrow> dict \<Rightarrow> jval \<Rightarrow> rat option \<Rightarrow> 'w \<Rightarrow> dict res \<times> 'w"

type_synonym outputs = "(string option \<times> dict) list"

definition EMPTY :: dict where
  "EMPTY = [(''text'', JStr []), (''tool_calls'', JNull)]"

definition value_of :: "dict \<Rightarrow> jval" where
  "value_of p = (if has_key p ''data'' then dget p ''data'' else dget_or p ''text'' (JStr []))"

definition parts_of :: "outputs \<Rightarrow> dict \<Rightarrow> dict list" where
  "parts_of out node =
     map (\<lambda>pre. dupd [(''id'', JStr pre)] (dget_or out (Some pre) EMPTY)) (node_inputs node)"

definition is_empty_container :: "jval \<Rightarrow> bool" where
  "is_empty_container v = ((is_obj v \<or> is_list v) \<and> \<not> truthy v)"

definition skip_trace :: jval where
  "skip_trace = JObj [(''skipped'', JBool True), (''cost_reported'', JInt 0)]"

definition free_trace :: jval where
  "free_trace = JObj [(''cost_reported'', JInt 0)]"

text \<open>The call inside the \<open>try\<close>: skip, data operation, or the router within what is left of the deadline.\<close>

definition node_call ::
  "'w env \<Rightarrow> rat option \<Rightarrow> string \<Rightarrow> dict \<Rightarrow> dict list \<Rightarrow> jval list \<Rightarrow> bool \<Rightarrow> 'w \<Rightarrow> dict res \<times> 'w" where
  "node_call env deadline nid node parts values skipped w =
     (if skipped then
        (rbind (part_at values 0) (\<lambda>v.
           Inr [(''ok'', JBool True), (''data'', v), (''node_trace'', skip_trace)]), w)
      else if kind_of node = JStr ''data'' then
        (rbind (run_data node values) (\<lambda>v.
           Inr [(''ok'', JBool True), (''data'', v), (''node_trace'', free_trace)]), w)
      else
        (case (if kind_of node = JStr ''decision''
               then Inr (case values of [v] \<Rightarrow> v | _ \<Rightarrow> JList values)
               else rbind (assemble node parts) (\<lambda>t. Inr (JStr t))) of
           Inl e \<Rightarrow> (Inl e, w)
         | Inr prompt \<Rightarrow>
             (case deadline of
                None \<Rightarrow> run_node env nid node prompt None w
              | Some d \<Rightarrow>
                  (case clock env w of (now, w') \<Rightarrow>
                     if fl (d - now) \<le> 0 then
                       (Inr [(''ok'', JBool False), (''error'', JStr ''flow_deadline''),
                             (''node_trace'', skip_trace)], w')
                     else run_node env nid node prompt (Some (fl (d - now))) w'))))"

text \<open>
  The checks after the call: typed generations are decoded, data is bounded and its text is its
  encoding. They update \<open>result\<close> in place, so the exception comes with the result reached so far.
\<close>

definition decode_result :: "dict \<Rightarrow> bool \<Rightarrow> dict \<Rightarrow> exn option \<times> dict" where
  "decode_result node skipped result =
     (if truthy (dget result ''ok'') \<and> dget node ''output_format'' = JStr ''json'' \<and> \<not> skipped then
        (if truthy (dget result ''tool_calls'') \<or> dget result ''finish_reason'' = JStr ''length''
         then (Some (ValueError ''typed generation must return complete JSON without tool calls''), result)
         else (case decode (str_of (py_or (dget result ''text'') (JStr []))) of
                 Inl e \<Rightarrow> (Some e, result)
               | Inr v \<Rightarrow> (None, dset ''data'' v result)))
      else (None, result))"

definition bound_result :: "dict \<Rightarrow> exn option \<times> dict" where
  "bound_result result =
     (if has_key result ''data'' then
        (case rbind (bounded (dget result ''data'')) encode of
           Inl e \<Rightarrow> (Some e, result)
         | Inr t \<Rightarrow> (None, dset ''text'' (JStr t) result))
      else (None, result))"

definition check_result :: "dict \<Rightarrow> bool \<Rightarrow> dict \<Rightarrow> exn option \<times> dict" where
  "check_result node skipped result =
     (case decode_result node skipped result of
        (Some e, r) \<Rightarrow> (Some e, r)
      | (None, r) \<Rightarrow> bound_result r)"

fun caught :: "exn \<Rightarrow> bool" where
  "caught (ValueError _) = True"
| "caught (TypeError _) = True"
| "caught (KeyError _) = True"
| "caught (RecursionError _) = True"
| "caught (TimeoutError _) = True"
| "caught _ = False"

text \<open>\<open>except (ValueError, ...) as exc\<close>: an error of the node becomes a failed result.\<close>

definition fail_result :: "exn \<Rightarrow> dict \<Rightarrow> dict" where
  "fail_result e result =
     dupd result [(''ok'', JBool False),
       (''error'', JStr (if exn_str e \<noteq> [] then exn_str e else exn_type e))]"

definition try_node ::
  "'w env \<Rightarrow> rat option \<Rightarrow> string \<Rightarrow> dict \<Rightarrow> dict list \<Rightarrow> jval list \<Rightarrow> bool \<Rightarrow> 'w \<Rightarrow> dict res \<times> 'w" where
  "try_node env deadline nid node parts values skipped w =
     (let result0 = (if kind_of node = JStr ''data'' then [(''node_trace'', free_trace)] else [])
      in case node_call env deadline nid node parts values skipped w of
           (Inl e, w') \<Rightarrow> (if caught e then Inr (fail_result e result0) else Inl e, w')
         | (Inr result, w') \<Rightarrow>
             (case check_result node skipped result of
                (None, r) \<Rightarrow> (Inr r, w')
              | (Some e, r) \<Rightarrow> (if caught e then Inr (fail_result e r) else Inl e, w')))"

text \<open>\<open>**(x or {})\<close> of a value that should be a dict.\<close>

definition or_empty_dict :: "jval \<Rightarrow> dict res" where
  "or_empty_dict v = (if \<not> truthy v then Inr [] else case v of
     JObj d \<Rightarrow> Inr d
   | _ \<Rightarrow> Inl (TypeError (CHR 0x27 # type_name v @ CHR 0x27 # '' object is not a mapping'')))"

text \<open>\<open>on_error: "input"\<close>: a failed node passes its first input through instead of failing the flow.\<close>

definition input_fallback :: "dict \<Rightarrow> jval list \<Rightarrow> dict \<Rightarrow> dict res" where
  "input_fallback node values result =
     (if \<not> truthy (dget result ''ok'') \<and> dget node ''on_error'' = JStr ''input'' then
        rbind (part_at values 0) (\<lambda>v.
        rbind (encode v) (\<lambda>t.
        rbind (or_empty_dict (dget result ''node_trace'')) (\<lambda>tr.
          Inr (dupd result [(''ok'', JBool True), (''data'', v), (''text'', JStr t), (''tool_calls'', JNull),
            (''node_trace'', JObj (dupd tr [(''fallback'', JStr ''input''), (''error'', dget result ''error'')]))]))))
      else Inr result)"

definition trace_entry :: "string \<Rightarrow> dict \<Rightarrow> dict \<Rightarrow> jval res" where
  "trace_entry nid node result =
     rbind (or_empty_dict (dget result ''node_trace'')) (\<lambda>tr.
       Inr (JObj (dupd [(''node'', JStr nid), (''kind'', kind_of node),
                        (''inputs'', JList (map JStr (node_inputs node)))] tr)))"

definition node_output :: "dict \<Rightarrow> dict" where
  "node_output result =
     [(''text'', py_or (dget result ''text'') (JStr [])), (''tool_calls'', py_or (dget result ''tool_calls'') JNull)]
     @ (if has_key result ''data'' then [(''data'', dget result ''data'')] else [])"

text \<open>
  The outcome of one node: go on with new outputs and trace, or stop the flow with its failed result.
\<close>

datatype 'w step = Go outputs "jval list" 'w | Stop dict 'w | Raise exn 'w

definition fail_flow :: "string \<Rightarrow> dict \<Rightarrow> jval list \<Rightarrow> dict" where
  "fail_flow nid result trace =
     [(''ok'', JBool False), (''failed_node'', JStr nid), (''text'', JStr []), (''tool_calls'', JNull),
      (''error'', dget result ''error''), (''trace'', JList trace)]"

definition output_source :: "dict \<Rightarrow> string res" where
  "output_source node = rbind (dsub node ''inputs'') (\<lambda>v.
     rbind (part_at (list_of v) 0) (\<lambda>p. Inr (str_of p)))"

definition flow_step ::
  "'w env \<Rightarrow> rat option \<Rightarrow> string \<Rightarrow> dict \<Rightarrow> outputs \<Rightarrow> jval list \<Rightarrow> 'w \<Rightarrow> 'w step" where
  "flow_step env deadline nid node out trace w =
     (if kind_of node = JStr ''input'' then Go out trace w
      else if kind_of node = JStr ''output'' then
        (case output_source node of
           Inl e \<Rightarrow> Raise e w
         | Inr pre \<Rightarrow> Go (dset (Some nid) (dget_or out (Some pre) EMPTY) out) trace w)
      else
        (let parts = parts_of out node; values = map value_of parts in
         if truthy (dget node ''skip_empty'') \<and> values = []
         then Raise (IndexError ''list index out of range'') w
         else let skipped = (truthy (dget node ''skip_empty'') \<and> is_empty_container (hd values)) in
           (case try_node env deadline nid node parts values skipped w of
              (Inl e, w') \<Rightarrow> Raise e w'
            | (Inr r, w') \<Rightarrow>
                (case rbind (input_fallback node values r) (\<lambda>result.
                        rbind (trace_entry nid node result) (\<lambda>te. Inr (result, te))) of
                   Inl e \<Rightarrow> Raise e w'
                 | Inr (result, te) \<Rightarrow>
                     (let trace' = trace @ [te] in
                      if \<not> truthy (dget result ''ok'') then Stop (fail_flow nid result trace') w'
                      else Go (dset (Some nid) (node_output result) out) trace' w')))))"

fun flow_loop ::
  "'w env \<Rightarrow> rat option \<Rightarrow> nodes \<Rightarrow> string list \<Rightarrow> outputs \<Rightarrow> jval list \<Rightarrow> 'w \<Rightarrow> 'w step" where
  "flow_loop env deadline nodes [] out trace w = Go out trace w"
| "flow_loop env deadline nodes (nid # order) out trace w =
     (case flow_step env deadline nid (dget_or nodes nid []) out trace w of
        Go out' trace' w' \<Rightarrow> flow_loop env deadline nodes order out' trace' w'
      | s \<Rightarrow> s)"

definition initial_outputs :: "string option \<Rightarrow> string \<Rightarrow> jval \<Rightarrow> outputs res" where
  "initial_outputs src input_text input_data =
     (if input_data = JNull then Inr [(src, [(''text'', JStr input_text), (''tool_calls'', JNull)])]
      else rbind (bounded input_data) (\<lambda>v. rbind (encode input_data) (\<lambda>t.
             Inr [(src, [(''data'', v), (''text'', JStr t), (''tool_calls'', JNull)])])))"

definition final_result :: "string option \<Rightarrow> outputs \<Rightarrow> jval list \<Rightarrow> dict" where
  "final_result sink out trace =
     (let final = dget_or out sink EMPTY in
      [(''ok'', JBool True), (''text'', dget final ''text''), (''tool_calls'', dget final ''tool_calls'')]
      @ (if has_key final ''data'' then [(''data'', dget final ''data'')] else [])
      @ [(''trace'', JList trace)])"

definition run_flow ::
  "'w env \<Rightarrow> jval \<Rightarrow> string \<Rightarrow> jval \<Rightarrow> rat option \<Rightarrow> 'w \<Rightarrow> dict res \<times> 'w" where
  "run_flow env flow input_text input_data timeout_seconds w =
     (case flow_nodes flow of
        Inl e \<Rightarrow> (Inl e, w)
      | Inr nodes \<Rightarrow>
          (case (case timeout_seconds of None \<Rightarrow> (None, w)
                 | Some t \<Rightarrow> (case clock env w of (now, w') \<Rightarrow> (Some (fl (now + t)), w'))) of
             (deadline, w1) \<Rightarrow>
               (case endpoints nodes None None of
                  (src, sink) \<Rightarrow>
                    (case rbind (initial_outputs src input_text input_data) (\<lambda>out.
                            rbind (topo_order nodes) (\<lambda>order. Inr (out, order))) of
                       Inl e \<Rightarrow> (Inl e, w1)
                     | Inr (out, order) \<Rightarrow>
                         (case flow_loop env deadline nodes order out [] w1 of
                            Raise e w' \<Rightarrow> (Inl e, w')
                          | Stop r w' \<Rightarrow> (Inr r, w')
                          | Go out' trace w' \<Rightarrow> (Inr (final_result sink out' trace), w'))))))"

end
