(* ===== verification/FlowSchedule.thy ===== *)
theory FlowSchedule
  imports FlowRunner "HOL-Library.While_Combinator"
begin

text \<open>
  Correctness of \<open>topo_order\<close>: the schedule has no duplicates, every node comes after all its inputs,
  and every node of an acyclic graph is in it. The locale \<open>scheduler\<close> states what the run relies on.
\<close>

section \<open>The interface of a scheduler\<close>

definition ins :: "nodes \<Rightarrow> string \<Rightarrow> string list" where
  "ins nodes n = node_inputs (dget_or nodes n [])"

definition follows :: "(string \<Rightarrow> string list) \<Rightarrow> string list \<Rightarrow> bool" where
  "follows f order = (\<forall>pre n post. order = pre @ n # post \<longrightarrow> set (f n) \<subseteq> set pre)"

lemma follows_Nil [simp]: "follows f []"
  by (simp add: follows_def)

lemma follows_snoc: "follows f (order @ [n]) \<longleftrightarrow> follows f order \<and> set (f n) \<subseteq> set order"
proof
  assume r: "follows f (order @ [n])"
  have "set (f m) \<subseteq> set pre" if "order = pre @ m # post" for pre m post
    using r that by (auto simp: follows_def)
  then show "follows f order \<and> set (f n) \<subseteq> set order" using r by (auto simp: follows_def)
next
  assume "follows f order \<and> set (f n) \<subseteq> set order"
  then show "follows f (order @ [n])"
    by (auto simp: follows_def append_eq_append_conv2 append_eq_Cons_conv Cons_eq_append_conv)
qed

locale scheduler =
  fixes schedule :: "nodes \<Rightarrow> string list res"
  assumes sched_distinct: "schedule ns = Inr order \<Longrightarrow> wf_dict ns \<Longrightarrow> distinct order"
    and sched_ids: "schedule ns = Inr order \<Longrightarrow> wf_dict ns \<Longrightarrow> set order \<subseteq> set (keys ns)"
    and sched_follows: "schedule ns = Inr order \<Longrightarrow> wf_dict ns \<Longrightarrow> follows (ins ns) order"
    and sched_closed: "schedule ns = Inr order \<Longrightarrow> wf_dict ns \<Longrightarrow> n \<in> set (keys ns) \<Longrightarrow>
        set (ins ns n) \<subseteq> set order \<Longrightarrow> n \<in> set order"
begin

lemma before:
  assumes "schedule ns = Inr (pre @ n # post)" and "wf_dict ns" and "p \<in> set (ins ns n)"
  shows "p \<in> set pre \<and> p \<noteq> n"
proof -
  have "p \<in> set pre" using sched_follows [OF assms(1,2)] assms(3) by (auto simp: follows_def)
  moreover have "n \<notin> set pre" using sched_distinct [OF assms(1,2)] by simp
  ultimately show ?thesis by auto
qed

text \<open>With a rank that grows along every edge, everything is scheduled.\<close>

lemma acyclic_complete:
  fixes rank :: "string \<Rightarrow> nat"
  assumes s: "schedule ns = Inr order" and wf: "wf_dict ns"
    and inside: "\<And>n p. n \<in> set (keys ns) \<Longrightarrow> p \<in> set (ins ns n) \<Longrightarrow> p \<in> set (keys ns) \<and> rank p < rank n"
  shows "set order = set (keys ns)"
proof -
  have "n \<in> set (keys ns) \<Longrightarrow> n \<in> set order" for n
  proof (induction "rank n" arbitrary: n rule: less_induct)
    case less
    then have "set (ins ns n) \<subseteq> set order" using inside by blast
    with less.prems show ?case using sched_closed [OF s wf] by blast
  qed
  then show ?thesis using sched_ids [OF s wf] by blast
qed

end

section \<open>The graph\<close>

lemma dget_or_dset: "dget_or (dset k v d) k' x = (if k' = k then v else dget_or d k' x)"
  by (simp add: dget_or_def map_of_dset)

lemma ins_None: "map_of ns n = None \<Longrightarrow> ins ns n = []"
  by (simp add: ins_def node_inputs_def)

lemma ins_ids: "p \<in> set (ins ns n) \<Longrightarrow> n \<in> set (keys ns)"
  using ins_None [of ns n] by (cases "map_of ns n") (auto dest: map_of_SomeD intro: rev_image_eqI)

lemma add_edge_pair:
  "add_edge nid p (indeg, succ) = (case map_of succ p of
     None \<Rightarrow> Inl (KeyError p)
   | Some ss \<Rightarrow> Inr (dset nid (dget_or indeg nid 0 + 1) indeg, dset p (ss @ [nid]) succ))"
  by (simp add: add_edge_def)

lemma add_edges:
  "rfold (add_edge nid) ps (indeg, succ) = Inr (indeg', succ') \<Longrightarrow>
   set ps \<subseteq> set (keys succ) \<and> set (keys succ') = set (keys succ)
   \<and> (nid \<in> set (keys indeg) \<longrightarrow> keys indeg' = keys indeg)
   \<and> (\<forall>n. dget_or indeg' n 0 = dget_or indeg n 0 + (if n = nid then int (length ps) else 0))
   \<and> (\<forall>p n. count_list (dget_or succ' p []) n
        = count_list (dget_or succ p []) n + (if n = nid then count_list ps p else 0))"
proof (induction ps arbitrary: indeg succ)
  case Nil
  then show ?case by auto
next
  case (Cons p ps)
  from Cons.prems obtain ss where ss: "map_of succ p = Some ss"
    and rest: "rfold (add_edge nid) ps (dset nid (dget_or indeg nid 0 + 1) indeg, dset p (ss @ [nid]) succ)
       = Inr (indeg', succ')"
    by (auto simp: add_edge_pair res_simps split: option.splits)
  then have p: "p \<in> set (keys succ)" by (metis domI dom_map_of_conv_image_fst list.set_map)
  from Cons.IH [OF rest] p ss show ?case
    by (auto simp: dget_or_dset keys_dset dom_update)
qed

lemma build_edges:
  "rfold (\<lambda>(nid, node). rfold (add_edge nid) (node_inputs node)) ns (indeg, succ) = Inr (indeg', succ') \<Longrightarrow>
   wf_dict ns \<Longrightarrow> set (keys ns) \<subseteq> set (keys indeg) \<Longrightarrow>
   keys indeg' = keys indeg \<and> (\<forall>n. set (ins ns n) \<subseteq> set (keys succ))
   \<and> (\<forall>n. dget_or indeg' n 0 = dget_or indeg n 0 + int (length (ins ns n)))
   \<and> (\<forall>p n. count_list (dget_or succ' p []) n = count_list (dget_or succ p []) n + count_list (ins ns n) p)"
proof (induction ns arbitrary: indeg succ)
  case Nil
  then show ?case by (auto simp: ins_None)
next
  case (Cons x ns)
  obtain nid node where x: "x = (nid, node)" by (cases x)
  from Cons.prems(1) x obtain indeg1 succ1
    where e: "rfold (add_edge nid) (node_inputs node) (indeg, succ) = Inr (indeg1, succ1)"
      and rest: "rfold (\<lambda>(nid, node). rfold (add_edge nid) (node_inputs node)) ns (indeg1, succ1)
          = Inr (indeg', succ')"
    by (auto simp: res_simps)
  note a = add_edges [OF e]
  have k: "keys indeg1 = keys indeg" using a x Cons.prems(3) by simp
  have i: "ins ((nid, node) # ns) n = (if n = nid then node_inputs node else ins ns n)" for n
    by (simp add: ins_def dget_or_def)
  have z: "ins ns nid = []" using Cons.prems(2) x by (intro ins_None) (auto simp: map_of_eq_None_iff)
  have wf: "wf_dict ns" and sub: "set (keys ns) \<subseteq> set (keys indeg1)"
    using Cons.prems(2,3) x k by auto
  note ih = Cons.IH [OF rest wf sub]
  show ?case unfolding x
  proof (intro conjI allI)
    show "keys indeg' = keys indeg" using ih k by simp
  next
    fix n show "set (ins ((nid, node) # ns) n) \<subseteq> set (keys succ)"
      using ih a by (simp add: i)
  next
    fix n show "dget_or indeg' n 0 = dget_or indeg n 0 + int (length (ins ((nid, node) # ns) n))"
      using ih a z by (simp add: i)
  next
    fix p n show "count_list (dget_or succ' p []) n
        = count_list (dget_or succ p []) n + count_list (ins ((nid, node) # ns) n) p"
      using ih a z by (simp add: i)
  qed
qed

lemma build_graph_spec:
  assumes "build_graph ns = Inr (indeg, succ)" and "wf_dict ns"
  shows "keys indeg = keys ns" and "set (ins ns n) \<subseteq> set (keys ns)"
    and "dget_or indeg n 0 = int (length (ins ns n))"
    and "count_list (dget_or succ p []) n = count_list (ins ns n) p"
proof -
  have 0: "dget_or (map (\<lambda>p. (fst p, x)) ns) n x = x" for n :: string and x :: 'c
    by (induction ns) (auto simp: dget_or_def)
  have "set (keys ns) \<subseteq> set (keys (map (\<lambda>p. (fst p, 0 :: int)) ns))" by force
  note b = build_edges [OF assms(1) [unfolded build_graph_def] assms(2) this]
  show "keys indeg = keys ns" using b by (simp add: comp_def)
  show "set (ins ns n) \<subseteq> set (keys ns)" using b by (simp add: image_image)
  show "dget_or indeg n 0 = int (length (ins ns n))" using b by (simp add: 0)
  show "count_list (dget_or succ p []) n = count_list (ins ns n) p" using b by (simp add: 0)
qed

lemma build_graph_ok:
  assumes "\<And>n p. n \<in> set (keys ns) \<Longrightarrow> p \<in> set (ins ns n) \<Longrightarrow> p \<in> set (keys ns)" and "wf_dict ns"
  shows "\<exists>g. build_graph ns = Inr g"
proof -
  have edges: "\<exists>g'. rfold (add_edge nid) ps (indeg, succ) = Inr g' \<and> set (keys (snd g')) = set (keys succ)"
    if "set ps \<subseteq> set (keys succ)" for nid ps and indeg succ
    using that
  proof (induction ps arbitrary: indeg succ)
    case (Cons p ps)
    then have p: "p \<in> fst ` set succ" by simp
    then obtain ss where ss: "map_of succ p = Some ss" by (auto dest: weak_map_of_SomeI)
    have "fst ` set (dset p (ss @ [nid]) succ) = fst ` set succ"
      using p by (simp add: dom_update insert_absorb)
    with Cons.prems Cons.IH [of "dset p (ss @ [nid]) succ" "dset nid (dget_or indeg nid 0 + 1) indeg"] ss
    show ?case by (simp add: add_edge_pair)
  qed auto
  have nodes: "\<exists>g'. rfold (\<lambda>(nid, node). rfold (add_edge nid) (node_inputs node)) ms (indeg, succ) = Inr g'"
    if "\<forall>(k, node)\<in>set ms. set (node_inputs node) \<subseteq> set (keys succ)" for ms indeg succ
    using that
  proof (induction ms arbitrary: indeg succ)
    case (Cons m ms)
    obtain nid node where m: "m = (nid, node)" by (cases m)
    with Cons.prems edges [of "node_inputs node" succ nid indeg] obtain indeg1 succ1
      where "rfold (add_edge nid) (node_inputs node) (indeg, succ) = Inr (indeg1, succ1)"
        and "set (keys succ1) = set (keys succ)" by auto
    with Cons m show ?case by auto
  qed auto
  have "set (node_inputs node) \<subseteq> set (keys ns)" if "(k, node) \<in> set ns" for k node
  proof -
    have "map_of ns k = Some node" using that assms(2) by simp
    then have "ins ns k = node_inputs node" by (simp add: ins_def)
    moreover have "k \<in> set (keys ns)" using that by force
    ultimately show ?thesis using assms(1) [of k] by auto
  qed
  then show ?thesis
    unfolding build_graph_def by (intro nodes) (auto simp: image_image)
qed

section \<open>Kahn's loop\<close>

lemma relax_spec:
  "relax bs indeg newly = (indeg', newly') \<Longrightarrow>
   (\<forall>n. dget_or indeg' n 0 = dget_or indeg n 0 - int (count_list bs n))
   \<and> set newly' = set newly \<union> {n. 1 \<le> dget_or indeg n 0 \<and> dget_or indeg n 0 \<le> int (count_list bs n)}
   \<and> (distinct newly \<longrightarrow> (\<forall>n\<in>set newly. dget_or indeg n 0 \<le> 0) \<longrightarrow> distinct newly')"
proof (induction bs arbitrary: indeg newly)
  case Nil
  then show ?case by auto
next
  case (Cons b bs)
  let ?d = "dget_or indeg b 0 - 1"
  from Cons.prems have "relax bs (dset b ?d indeg) (if ?d = 0 then newly @ [b] else newly) = (indeg', newly')"
    by (simp add: Let_def)
  note ih = Cons.IH [OF this]
  have c: "int (count_list (b # bs) n) = (if n = b then 1 else 0) + int (count_list bs n)" for n
    by simp
  let ?g = "\<lambda>n. dget_or (dset b ?d indeg) n 0"
  have g: "?g n = dget_or indeg n 0 - (if n = b then 1 else 0)" for n
    by (simp add: dget_or_dset)
  have s1: "set newly' = set (if ?d = 0 then newly @ [b] else newly)
      \<union> {n. 1 \<le> ?g n \<and> ?g n \<le> int (count_list bs n)}" using ih by blast
  have hit: "n \<in> (if ?d = 0 then {b} else {}) \<union> {n. 1 \<le> ?g n \<and> ?g n \<le> int (count_list bs n)}
      \<longleftrightarrow> 1 \<le> dget_or indeg n 0 \<and> dget_or indeg n 0 \<le> int (count_list (b # bs) n)" for n
  proof (cases "n = b")
    case True
    have "(?d = 0 \<or> 1 \<le> ?d \<and> ?d \<le> int (count_list bs b))
        \<longleftrightarrow> 1 \<le> dget_or indeg b 0 \<and> dget_or indeg b 0 \<le> 1 + int (count_list bs b)" by arith
    then show ?thesis unfolding True c Un_iff mem_Collect_eq g [of b] by auto
  next
    case False
    then show ?thesis unfolding c Un_iff mem_Collect_eq g [of n] by simp
  qed
  have "set newly' = set newly \<union> {n. 1 \<le> dget_or indeg n 0 \<and> dget_or indeg n 0 \<le> int (count_list (b # bs) n)}"
  proof -
    have "set newly' = set newly \<union> ((if ?d = 0 then {b} else {}) \<union> {n. 1 \<le> ?g n \<and> ?g n \<le> int (count_list bs n)})"
      unfolding s1 by (cases "?d = 0") simp_all
    also have "(if ?d = 0 then {b} else {}) \<union> {n. 1 \<le> ?g n \<and> ?g n \<le> int (count_list bs n)}
        = {n. 1 \<le> dget_or indeg n 0 \<and> dget_or indeg n 0 \<le> int (count_list (b # bs) n)}"
      using hit by (intro set_eqI) (simp only: mem_Collect_eq)
    finally show ?thesis .
  qed
  moreover have "distinct newly'" if "distinct newly" and low: "\<forall>n\<in>set newly. dget_or indeg n 0 \<le> 0"
  proof -
    have "distinct (if ?d = 0 then newly @ [b] else newly)" using that by auto
    moreover have "\<forall>n\<in>set (if ?d = 0 then newly @ [b] else newly). ?g n \<le> 0"
      using low by (auto simp: g)
    ultimately show ?thesis using ih by blast
  qed
  moreover have "dget_or indeg' n 0 = dget_or indeg n 0 - int (count_list (b # bs) n)" for n
    using ih by (simp add: g c del: count_list.simps)
  ultimately show ?case by blast
qed

definition open_inputs :: "nodes \<Rightarrow> string list \<Rightarrow> string \<Rightarrow> int" where
  "open_inputs ns order n = int (length (filter (\<lambda>p. p \<notin> set order) (ins ns n)))"

lemma open_inputs_snoc:
  "nid \<notin> set order \<Longrightarrow>
   open_inputs ns (order @ [nid]) n = open_inputs ns order n - int (count_list (ins ns n) nid)"
proof -
  assume "nid \<notin> set order"
  then have "int (length (filter (\<lambda>p. p \<notin> set (order @ [nid])) xs))
      = int (length (filter (\<lambda>p. p \<notin> set order) xs)) - int (count_list xs nid)" for xs
    by (induction xs) auto
  then show ?thesis by (simp add: open_inputs_def)
qed

lemma open_inputs_0: "open_inputs ns order n = 0 \<longleftrightarrow> set (ins ns n) \<subseteq> set order"
  by (auto simp: open_inputs_def filter_empty_conv)

definition kahn_inv :: "nodes \<Rightarrow> string list \<Rightarrow> degrees \<Rightarrow> string list \<Rightarrow> bool" where
  "kahn_inv ns queue indeg order =
     ((\<forall>n. dget_or indeg n 0 = open_inputs ns order n)
      \<and> distinct (order @ queue) \<and> set (order @ queue) \<subseteq> set (keys ns)
      \<and> (\<forall>n\<in>set (keys ns). n \<in> set (order @ queue) \<longleftrightarrow> open_inputs ns order n = 0)
      \<and> follows (ins ns) order)"

definition schedule_ok :: "nodes \<Rightarrow> string list \<Rightarrow> bool" where
  "schedule_ok ns order =
     (distinct order \<and> set order \<subseteq> set (keys ns) \<and> follows (ins ns) order
      \<and> (\<forall>n\<in>set (keys ns). set (ins ns n) \<subseteq> set order \<longrightarrow> n \<in> set order))"

lemma kahn_step:
  assumes inv: "kahn_inv ns (nid # queue) indeg order"
    and succ: "\<And>n. count_list (dget_or succ nid []) n = count_list (ins ns n) nid"
    and rel: "relax (dget_or succ nid []) indeg [] = (indeg', newly)"
  shows "kahn_inv ns (if newly \<noteq> [] then sort (queue @ newly) else queue) indeg' (order @ [nid])"
proof -
  note r = relax_spec [OF rel]
  have nid: "nid \<notin> set order" "nid \<in> set (keys ns)" using inv by (auto simp: kahn_inv_def)
  have op: "open_inputs ns (order @ [nid]) n = open_inputs ns order n - int (count_list (ins ns n) nid)" for n
    using nid(1) by (rule open_inputs_snoc)
  have deg: "dget_or indeg' n 0 = open_inputs ns (order @ [nid]) n" for n
    using r inv op succ by (simp add: kahn_inv_def)
  have nonneg: "0 \<le> open_inputs ns (order @ [nid]) n" for n by (simp add: open_inputs_def)
  have new: "n \<in> set newly \<longleftrightarrow> open_inputs ns order n \<noteq> 0 \<and> open_inputs ns (order @ [nid]) n = 0" for n
  proof -
    have "n \<in> set newly \<longleftrightarrow> 1 \<le> open_inputs ns order n \<and> open_inputs ns order n \<le> int (count_list (ins ns n) nid)"
      using r inv succ by (simp add: kahn_inv_def)
    moreover have "0 \<le> open_inputs ns order n" by (simp add: open_inputs_def)
    ultimately show ?thesis using nonneg [of n] op [of n] by linarith
  qed
  have newids: "n \<in> set newly \<Longrightarrow> n \<in> set (keys ns)" for n
  proof -
    assume "n \<in> set newly"
    with new have "open_inputs ns order n \<noteq> 0" by simp
    then obtain p where "p \<in> set (ins ns n)" by (auto simp: open_inputs_def filter_empty_conv)
    then show ?thesis by (rule ins_ids)
  qed
  have fresh: "n \<in> set newly \<Longrightarrow> n \<notin> set (order @ nid # queue)" for n
    using new newids inv by (auto simp: kahn_inv_def)
  have q: "set (if newly \<noteq> [] then sort (queue @ newly) else queue) = set queue \<union> set newly" by auto
  have "distinct newly" using r by simp
  then have d: "distinct ((order @ [nid]) @ (if newly \<noteq> [] then sort (queue @ newly) else queue))"
    using inv fresh by (auto simp: kahn_inv_def)
  have mem: "n \<in> set ((order @ [nid]) @ (if newly \<noteq> [] then sort (queue @ newly) else queue))
      \<longleftrightarrow> open_inputs ns (order @ [nid]) n = 0" if "n \<in> set (keys ns)" for n
  proof -
    have old: "n \<in> set (order @ nid # queue) \<longleftrightarrow> open_inputs ns order n = 0"
      using inv that unfolding kahn_inv_def by blast
    have "open_inputs ns order n = 0 \<Longrightarrow> open_inputs ns (order @ [nid]) n = 0"
      using op [of n] nonneg [of n] by linarith
    with old new [of n] show ?thesis by (auto simp: q)
  qed
  have "open_inputs ns order nid = 0" using inv nid by (auto simp: kahn_inv_def)
  then have "set (ins ns nid) \<subseteq> set order" by (simp add: open_inputs_0)
  then have "follows (ins ns) (order @ [nid])" using inv by (simp add: kahn_inv_def follows_snoc)
  moreover have "set ((order @ [nid]) @ (if newly \<noteq> [] then sort (queue @ newly) else queue)) \<subseteq> set (keys ns)"
    using nid newids inv q by (auto simp: kahn_inv_def simp del: set_map)
  ultimately show ?thesis
    unfolding kahn_inv_def using deg d mem by blast
qed

lemma kahn_ok:
  assumes "\<And>p n. count_list (dget_or succ p []) n = count_list (ins ns n) p"
  shows "kahn_inv ns queue indeg order \<Longrightarrow> schedule_ok ns (kahn succ queue indeg order)"
  using assms
proof (induction succ queue indeg order rule: kahn.induct)
  case (1 succ indeg order)
  then show ?case by (auto simp: kahn_inv_def schedule_ok_def open_inputs_0)
next
  case (2 succ nid queue indeg order)
  obtain indeg' newly where rel: "relax (dget_or succ nid []) indeg [] = (indeg', newly)"
    by (cases "relax (dget_or succ nid []) indeg []")
  with "2.IH" [OF rel [symmetric]] kahn_step [OF "2.prems"(1) _ rel] "2.prems"(2)
  show ?case by simp
qed

lemma topo_order_ok:
  assumes "topo_order ns = Inr order" and "wf_dict ns"
  shows "schedule_ok ns order"
proof -
  obtain indeg succ where g: "build_graph ns = Inr (indeg, succ)"
      and o: "order = kahn succ (sort (map fst (filter (\<lambda>p. snd p = 0) indeg))) indeg []"
    using assms(1) by (auto simp: topo_order_def res_simps)
  note b = build_graph_spec [OF g assms(2)]
  have wfi: "wf_dict indeg" using b(1) assms(2) by simp
  have op: "open_inputs ns [] n = int (length (ins ns n))" for n by (simp add: open_inputs_def)
  have q: "n \<in> set (map fst (filter (\<lambda>p. snd p = 0) indeg)) \<longleftrightarrow> n \<in> set (keys ns) \<and> ins ns n = []" for n
  proof -
    have "n \<in> set (map fst (filter (\<lambda>p. snd p = 0) indeg)) \<longleftrightarrow> map_of indeg n = Some 0"
      using wfi by (auto simp: image_iff)
    also have "\<dots> \<longleftrightarrow> n \<in> set (keys indeg) \<and> dget_or indeg n 0 = 0"
      by (cases "map_of indeg n") (auto simp: map_of_eq_None_iff dest: map_of_SomeD intro: rev_image_eqI)
    finally show ?thesis using b(1,3) by simp
  qed
  have "distinct (map fst (filter (\<lambda>p. snd p = 0) indeg))"
    using wfi by (rule distinct_map_filter)
  then have "kahn_inv ns (sort (map fst (filter (\<lambda>p. snd p = 0) indeg))) indeg []"
    using q b(3) by (auto simp: kahn_inv_def op simp del: set_map)
  then show ?thesis unfolding o by (rule kahn_ok [OF b(4)])
qed

interpretation topo: scheduler topo_order
  by unfold_locales (use topo_order_ok in \<open>auto simp: schedule_ok_def\<close>)

section \<open>The loop itself\<close>

text \<open>One pass of \<open>while queue\<close>, and the loop as the code runs it.\<close>

definition kahn_pass :: "succs \<Rightarrow> string list \<times> degrees \<times> string list \<Rightarrow> string list \<times> degrees \<times> string list" where
  "kahn_pass succ = (\<lambda>(queue, indeg, order). case relax (dget_or succ (hd queue) []) indeg [] of (indeg', newly) \<Rightarrow>
     (if newly \<noteq> [] then sort (tl queue @ newly) else tl queue, indeg', order @ [hd queue]))"

lemma kahn_while:
  "\<exists>d. while_option (\<lambda>s. fst s \<noteq> []) (kahn_pass succ) (queue, indeg, order) = Some ([], d, kahn succ queue indeg order)"
proof (induction succ queue indeg order rule: kahn.induct)
  case (1 succ indeg order)
  then show ?case by (subst while_option_unfold) simp
next
  case (2 succ nid queue indeg order)
  obtain indeg' newly where r: "relax (dget_or succ nid []) indeg [] = (indeg', newly)"
    by (cases "relax (dget_or succ nid []) indeg []")
  then have "kahn_pass succ (nid # queue, indeg, order) = (if newly \<noteq> [] then sort (queue @ newly) else queue, indeg', order @ [nid])"
    by (simp add: kahn_pass_def)
  with 2 [OF r [symmetric]] r show ?case by (subst while_option_unfold) (simp split del: if_split)
qed

lemma kahn_length: "length (kahn succ queue indeg order) \<le> length order + length queue + waiting indeg"
proof (induction succ queue indeg order rule: kahn.induct)
  case (2 succ nid queue indeg order)
  obtain indeg' newly where r: "relax (dget_or succ nid []) indeg [] = (indeg', newly)"
    by (cases "relax (dget_or succ nid []) indeg []")
  from 2 [OF r [symmetric]] relax_waiting [OF r] show ?case by (simp add: r split: if_splits)
qed simp

text \<open>
  C29. The scheduling loop \<open>while queue\<close> of \<open>topo_order\<close> ends from every state, for cyclic and malformed
  graphs too: it returns with an empty queue and the order of the recursive definition, after at most one
  pass for each queued id and each id still waiting for inputs (a pass appends one id to the order).
\<close>

theorem kahn_loop_terminates:
  "\<exists>d. while_option (\<lambda>s. fst s \<noteq> []) (kahn_pass succ) (queue, indeg, order) = Some ([], d, kahn succ queue indeg order)
    \<and> length (kahn succ queue indeg order) \<le> length order + length queue + waiting indeg"
  using kahn_while [of succ queue indeg order] kahn_length [of succ queue indeg order] by blast

end
