(* ===== verification/FlowRun.thy ===== *)
theory FlowRun
  imports FlowSchedule
begin

text \<open>
  What a run of a flow guarantees (\<open>run_flow\<close>): its schedule, the trace it returns, the agreement of
  data and text, the deadline, and the \<open>on_error: "input"\<close> fallback. The interpretation \<open>topo\<close> of the
  locale \<open>scheduler\<close> is what connects these to \<open>topo_order\<close>.
\<close>

section \<open>The schedule\<close>

text \<open>
  C19. \<open>topo_order\<close> never lists a node twice, lists only nodes of the flow, and lists a node only after
  every one of its inputs.
\<close>

theorem topo_order_sound:
  assumes "topo_order nodes = Inr order" and "wf_dict nodes"
  shows "distinct order \<and> set order \<subseteq> set (keys nodes)
    \<and> (\<forall>pre n post. order = pre @ n # post \<longrightarrow> set (node_inputs (dget_or nodes n [])) \<subseteq> set pre)"
  using topo.sched_distinct [OF assms] topo.sched_ids [OF assms] topo.sched_follows [OF assms]
  by (simp add: follows_def ins_def)

theorem topo_order_sound_witness:
  "topo_order [(''a'', []), (''b'', [(''inputs'', JList [JStr ''a''])])] = Inr [''a'', ''b'']
   \<and> set (node_inputs (dget_or [(''a'', []), (''b'', [(''inputs'', JList [JStr ''a''])])] ''b'' [])) \<subseteq> set [''a'']"
proof -
  have t: "topo_order [(''a'', []), (''b'', [(''inputs'', JList [JStr ''a''])])] = Inr [''a'', ''b'']"
    by code_simp
  have w: "wf_dict [(''a'', []), (''b'', [(''inputs'', JList [JStr ''a''])])]" by simp
  have split: "[''a'', ''b''] = [''a''] @ ''b'' # []" by simp
  have "set (node_inputs (dget_or [(''a'', []), (''b'', [(''inputs'', JList [JStr ''a''])])] ''b'' [])) \<subseteq> set [''a'']"
    using topo_order_sound [OF t w, THEN conjunct2, THEN conjunct2, rule_format, OF split] .
  then show ?thesis using t by blast
qed

text \<open>
  C18. The schedule of an acyclic flow is complete: when every input names a node and some rank grows
  along every edge, \<open>topo_order\<close> returns, and lists every node exactly once.
\<close>

theorem topo_order_complete:
  fixes rank :: "string \<Rightarrow> nat"
  assumes "wf_dict nodes"
    and "\<And>n p. n \<in> set (keys nodes) \<Longrightarrow> p \<in> set (node_inputs (dget_or nodes n [])) \<Longrightarrow>
           p \<in> set (keys nodes) \<and> rank p < rank n"
  shows "\<exists>order. topo_order nodes = Inr order \<and> distinct order \<and> set order = set (keys nodes)"
proof -
  have inside: "p \<in> set (keys nodes) \<and> rank p < rank n" if "n \<in> set (keys nodes)" "p \<in> set (ins nodes n)" for n p
    using assms(2) [of n p] that by (simp add: ins_def)
  from build_graph_ok [OF _ assms(1)] inside obtain g where "build_graph nodes = Inr g" by blast
  then obtain order where o: "topo_order nodes = Inr order" by (cases g) (simp add: topo_order_def)
  show ?thesis
    using topo.acyclic_complete [OF o assms(1) inside] topo.sched_distinct [OF o assms(1)] o by blast
qed

theorem topo_order_complete_witness:
  "\<exists>order. topo_order [(''b'', [(''inputs'', JList [JStr ''a''])]), (''a'', [])] = Inr order
     \<and> distinct order \<and> set order = {''b'', ''a''}"
proof -
  let ?ns = "[(''b'', [(''inputs'', JList [JStr ''a''])]), (''a'', [])]"
  have "\<exists>order. topo_order ?ns = Inr order \<and> distinct order \<and> set order = set (keys ?ns)"
  proof (rule topo_order_complete [where rank = "\<lambda>s. if s = ''b'' then 1 else 0"])
    fix n p assume "n \<in> set (keys ?ns)" "p \<in> set (node_inputs (dget_or ?ns n []))"
    then have "n = ''b'' \<and> p = ''a''" by (auto simp: node_inputs_def dget_or_def)
    then show "p \<in> set (keys ?ns) \<and> (if p = ''b'' then 1 else 0) < (if n = ''b'' then 1 else 0 :: nat)" by simp
  qed simp
  then show ?thesis by simp
qed

section \<open>Generic facts on the loop\<close>

definition worker :: "nodes \<Rightarrow> string \<Rightarrow> bool" where
  "worker nodes nid = (kind_of (dget_or nodes nid []) \<noteq> JStr ''input''
     \<and> kind_of (dget_or nodes nid []) \<noteq> JStr ''output'')"

text \<open>An invariant of outputs and trace that every step keeps.\<close>

lemma flow_loop_invariant:
  assumes "flow_loop env dl nodes order out trace w = Go out' trace' w'" and "I out trace"
    and "\<And>nid out trace w out' trace' w'. nid \<in> set order \<Longrightarrow> I out trace \<Longrightarrow>
      flow_step env dl nid (dget_or nodes nid []) out trace w = Go out' trace' w' \<Longrightarrow> I out' trace'"
  shows "I out' trace'"
  using assms
proof (induction order arbitrary: out trace w)
  case (Cons nid order)
  then obtain out1 trace1 w1
    where "flow_step env dl nid (dget_or nodes nid []) out trace w = Go out1 trace1 w1"
      and "flow_loop env dl nodes order out1 trace1 w1 = Go out' trace' w'"
    by (auto split: step.splits)
  with Cons show ?case by (metis list.set_intros)
qed simp

lemma flow_loop_append:
  "flow_loop env dl nodes (xs @ ys) out trace w =
     (case flow_loop env dl nodes xs out trace w of
        Go out' trace' w' \<Rightarrow> flow_loop env dl nodes ys out' trace' w' | s \<Rightarrow> s)"
  by (induction xs arbitrary: out trace w) (auto split: step.splits)

text \<open>How a step can go on, stop and extend the trace.\<close>

lemma flow_step_Go:
  assumes "flow_step env dl nid node out trace w = Go out' trace' w'"
  shows "kind_of node = JStr ''input'' \<and> out' = out \<and> trace' = trace
    \<or> kind_of node = JStr ''output'' \<and> (\<exists>pre. out' = dset (Some nid) (dget_or out (Some pre) EMPTY) out) \<and> trace' = trace
    \<or> kind_of node \<noteq> JStr ''input'' \<and> kind_of node \<noteq> JStr ''output''
      \<and> (\<exists>r skipped result te. try_node env dl nid node (parts_of out node) (map value_of (parts_of out node)) skipped w
            = (Inr r, w')
          \<and> input_fallback node (map value_of (parts_of out node)) r = Inr result
          \<and> trace_entry nid node result = Inr te \<and> truthy (dget result ''ok'')
          \<and> out' = dset (Some nid) (node_output result) out \<and> trace' = trace @ [te])"
  using assms
  by (auto simp: flow_step_def Let_def res_simps split: if_splits sum.splits prod.splits)

lemma flow_step_Stop:
  assumes "flow_step env dl nid node out trace w = Stop r w'"
  shows "kind_of node \<noteq> JStr ''input'' \<and> kind_of node \<noteq> JStr ''output''
    \<and> (\<exists>q skipped result te. try_node env dl nid node (parts_of out node) (map value_of (parts_of out node)) skipped w
            = (Inr q, w')
          \<and> input_fallback node (map value_of (parts_of out node)) q = Inr result
          \<and> trace_entry nid node result = Inr te \<and> \<not> truthy (dget result ''ok'')
          \<and> r = fail_flow nid result (trace @ [te]))"
  using assms
  by (auto simp: flow_step_def Let_def res_simps split: if_splits sum.splits prod.splits)

lemma flow_loop_Stop:
  assumes "flow_loop env dl nodes order out trace w = Stop r w'"
  obtains pre nid post out1 trace1 w1 where "order = pre @ nid # post"
    and "flow_loop env dl nodes pre out trace w = Go out1 trace1 w1"
    and "flow_step env dl nid (dget_or nodes nid []) out1 trace1 w1 = Stop r w'"
  using assms
proof (induction order arbitrary: out trace w thesis)
  case (Cons nid order)
  show ?case
  proof (cases "flow_step env dl nid (dget_or nodes nid []) out trace w")
    case (Go out1 trace1 w1)
    with Cons.prems have rest: "flow_loop env dl nodes order out1 trace1 w1 = Stop r w'" by simp
    show ?thesis
    proof (rule Cons.IH [OF _ rest])
      fix pre n post o2 t2 w2
      assume "order = pre @ n # post" "flow_loop env dl nodes pre out1 trace1 w1 = Go o2 t2 w2"
        "flow_step env dl n (dget_or nodes n []) o2 t2 w2 = Stop r w'"
      then show thesis using Go by (intro Cons.prems(1) [of "nid # pre" n post]) auto
    qed
  next
    case (Stop q w1)
    with Cons.prems show ?thesis by (intro Cons.prems(1) [of "[]" nid order]) auto
  next
    case (Raise e w1)
    with Cons.prems show ?thesis by simp
  qed
qed simp

text \<open>A run is its loop, from the initial outputs over the schedule.\<close>

lemma run_flow_Inr:
  assumes "run_flow env flow txt dat to w = (Inr r, w')"
  obtains nodes src sink out0 order dl w1
  where "flow_nodes flow = Inr nodes" and "endpoints nodes None None = (src, sink)"
    and "initial_outputs src txt dat = Inr out0" and "topo_order nodes = Inr order"
    and "(to = None \<longrightarrow> dl = None)"
    and "flow_loop env dl nodes order out0 [] w1 = Stop r w'
      \<or> (\<exists>out trace. flow_loop env dl nodes order out0 [] w1 = Go out trace w' \<and> r = final_result sink out trace)"
proof -
  from assms obtain nodes where n: "flow_nodes flow = Inr nodes"
    by (auto simp: run_flow_def split: sum.splits)
  obtain dl w1 where d: "(case to of None \<Rightarrow> (None, w)
      | Some t \<Rightarrow> (case clock env w of (now, w') \<Rightarrow> (Some (fl (now + t)), w'))) = (dl, w1)" by fastforce
  obtain src sink where e: "endpoints nodes None None = (src, sink)" by fastforce
  from assms n d e obtain out0 order where o: "initial_outputs src txt dat = Inr out0" "topo_order nodes = Inr order"
    by (auto simp: run_flow_def res_simps split: sum.splits)
  have "flow_loop env dl nodes order out0 [] w1 = Stop r w'
      \<or> (\<exists>out trace. flow_loop env dl nodes order out0 [] w1 = Go out trace w' \<and> r = final_result sink out trace)"
    using assms by (auto simp: run_flow_def n d e o split: step.splits)
  moreover have "to = None \<longrightarrow> dl = None" using d by auto
  ultimately show thesis using that n e o by blast
qed

section \<open>The trace\<close>

definition unnamed :: "dict \<Rightarrow> bool" where
  "unnamed d = (\<not> has_key (obj_of (dget d ''node_trace'')) ''node'')"

lemma unnamed_dset [simp]: "k \<noteq> ''node_trace'' \<Longrightarrow> unnamed (dset k v d) = unnamed d"
  by (simp add: unnamed_def dget_dset)

lemma unnamed_fail [simp]: "unnamed (fail_result e d) = unnamed d"
  by (simp add: fail_result_def dupd_def)

lemma check_result_unnamed:
  "check_result node skipped d = (e, d') \<Longrightarrow> unnamed d' = unnamed d"
  by (auto simp: check_result_def decode_result_def bound_result_def split: if_splits sum.splits option.splits)

lemma traces_unnamed [simp]:
  "unnamed [(''ok'', a), (''data'', v), (''node_trace'', skip_trace)]"
  "unnamed [(''ok'', a), (''data'', v), (''node_trace'', free_trace)]"
  "unnamed [(''ok'', a), (''error'', v), (''node_trace'', skip_trace)]"
  "unnamed [(''node_trace'', free_trace)]" "unnamed []"
  by (simp_all add: unnamed_def has_key_def skip_trace_def free_trace_def)

definition quiet :: "'w env \<Rightarrow> bool" where
  "quiet env = (\<forall>nid node prompt b w d w'. run_node env nid node prompt b w = (Inr d, w') \<longrightarrow> unnamed d)"

lemma node_call_unnamed:
  assumes "quiet env" and "node_call env dl nid node parts values skipped w = (Inr d, w')"
  shows "unnamed d"
  using assms(2) assms(1) [unfolded quiet_def, rule_format]
  by (auto simp: node_call_def res_simps Let_def split: if_splits sum.splits option.splits prod.splits)

lemma try_node_unnamed:
  assumes "quiet env" and "try_node env dl nid node parts values skipped w = (Inr d, w')"
  shows "unnamed d"
  using assms(2) node_call_unnamed [OF assms(1)]
  by (fastforce simp: try_node_def Let_def dest: check_result_unnamed
      split: if_splits sum.splits option.splits prod.splits)

lemma trace_entry_name:
  assumes "unnamed d" and "trace_entry nid node d = Inr te"
  shows "dget (obj_of te) ''node'' = JStr nid"
proof -
  from assms(2) obtain tr where tr: "or_empty_dict (dget d ''node_trace'') = Inr tr"
    and te: "te = JObj (dupd [(''node'', JStr nid), (''kind'', kind_of node),
                        (''inputs'', JList (map JStr (node_inputs node)))] tr)"
    by (auto simp: trace_entry_def res_simps)
  have "\<not> has_key tr ''node''"
    using tr assms(1) by (auto simp: or_empty_dict_def unnamed_def has_key_def split: if_splits jval.splits)
  then show ?thesis by (simp add: te has_key_def)
qed

lemma input_fallback_unnamed:
  assumes "unnamed d" and "input_fallback node values d = Inr d'"
  shows "unnamed d'"
  using assms
  by (auto simp: input_fallback_def res_simps or_empty_dict_def unnamed_def has_key_iff dupd_def
      dget_dset map_of_dset split: if_splits jval.splits)

lemma step_trace:
  assumes "quiet env" and "flow_step env dl nid node out trace w = Go out' trace' w'"
  shows "\<exists>tes. trace' = trace @ tes \<and> map (\<lambda>te. dget (obj_of te) ''node'') tes =
     (if kind_of node \<noteq> JStr ''input'' \<and> kind_of node \<noteq> JStr ''output'' then [JStr nid] else [])"
  using flow_step_Go [OF assms(2)] try_node_unnamed [OF assms(1)] input_fallback_unnamed trace_entry_name
  by fastforce

lemma loop_trace:
  assumes "quiet env" and "flow_loop env dl nodes order out trace w = Go out' trace' w'"
  shows "map (\<lambda>te. dget (obj_of te) ''node'') trace' =
    map (\<lambda>te. dget (obj_of te) ''node'') trace @ map JStr (filter (worker nodes) order)"
  using assms(2)
proof (induction order arbitrary: out trace w)
  case (Cons nid order)
  then obtain out1 trace1 w1
    where s: "flow_step env dl nid (dget_or nodes nid []) out trace w = Go out1 trace1 w1"
      and rest: "flow_loop env dl nodes order out1 trace1 w1 = Go out' trace' w'"
    by (auto split: step.splits)
  from Cons.IH [OF rest] step_trace [OF assms(1) s] show ?case by (auto simp: worker_def)
qed simp

definition trace_names :: "dict \<Rightarrow> jval list" where
  "trace_names r = map (\<lambda>te. dget (obj_of te) ''node'') (list_of (dget r ''trace''))"

text \<open>
  The trace of a run names the nodes that ran, in schedule order: on success all nodes other than
  input and output nodes, on failure those up to and including the failed node, which ends the run. (A
  router call must not put a key \<open>node\<close> into its own trace: the code would let it override the id.)
\<close>

lemma run_flow_trace:
  assumes "run_flow env flow txt dat to w = (Inr r, w')" and "quiet env"
    and "flow_nodes flow = Inr nodes" and "topo_order nodes = Inr order"
  shows "\<exists>ran rest. filter (worker nodes) order = ran @ rest \<and> trace_names r = map JStr ran
    \<and> (dget r ''ok'' = JBool True \<and> rest = []
       \<or> dget r ''ok'' = JBool False \<and> ran \<noteq> [] \<and> dget r ''failed_node'' = JStr (last ran))"
proof -
  from assms obtain sink out0 dl w1 where
    "flow_loop env dl nodes order out0 [] w1 = Stop r w'
      \<or> (\<exists>out trace. flow_loop env dl nodes order out0 [] w1 = Go out trace w' \<and> r = final_result sink out trace)"
    by (elim run_flow_Inr) auto
  then show ?thesis
  proof (elim disjE exE conjE)
    fix out trace assume go: "flow_loop env dl nodes order out0 [] w1 = Go out trace w'" "r = final_result sink out trace"
    with loop_trace [OF assms(2) go(1)] have "trace_names r = map JStr (filter (worker nodes) order)"
      by (simp add: trace_names_def final_result_def Let_def)
    moreover have "dget r ''ok'' = JBool True" using go(2) by (simp add: final_result_def Let_def)
    ultimately show ?thesis by auto
  next
    assume "flow_loop env dl nodes order out0 [] w1 = Stop r w'"
    then obtain pre nid post out1 trace1 w2 where o: "order = pre @ nid # post"
      and g: "flow_loop env dl nodes pre out0 [] w1 = Go out1 trace1 w2"
      and s: "flow_step env dl nid (dget_or nodes nid []) out1 trace1 w2 = Stop r w'"
      by (rule flow_loop_Stop)
    have w: "worker nodes nid" using flow_step_Stop [OF s] by (simp add: worker_def)
    from flow_step_Stop [OF s] try_node_unnamed [OF assms(2)] input_fallback_unnamed trace_entry_name
    obtain result te where r: "r = fail_flow nid result (trace1 @ [te])" and te: "dget (obj_of te) ''node'' = JStr nid"
      by blast
    have "trace_names r = map JStr (filter (worker nodes) pre @ [nid])"
      using loop_trace [OF assms(2) g] te by (simp add: r trace_names_def fail_flow_def)
    moreover have "dget r ''ok'' = JBool False" "dget r ''failed_node'' = JStr nid"
      by (simp_all add: r fail_flow_def)
    ultimately show ?thesis using w o
      by (intro exI [of _ "filter (worker nodes) pre @ [nid]"] exI [of _ "filter (worker nodes) post"]) simp
  qed
qed

text \<open>A small flow and an environment for it, to see the properties at work.\<close>

definition demo_env :: "nat env" where
  "demo_env = \<lparr> clock = (\<lambda>w. (of_nat w, w + 1)),
     run_node = (\<lambda>nid node prompt b w.
       (if nid = ''bad'' then Inl (TimeoutError ''slow'') else Inr [(''ok'', JBool True), (''text'', JStr ''hi'')], w + 5)) \<rparr>"

definition demo_flow :: "dict \<Rightarrow> jval" where
  "demo_flow gen = JObj [(''nodes'', JObj [
     (''in'', JObj [(''kind'', JStr ''input'')]),
     (''out'', JObj [(''kind'', JStr ''output''), (''inputs'', JList [JStr ''bad''])]),
     (''bad'', JObj (dupd [(''kind'', JStr ''llm''), (''inputs'', JList [JStr ''gen''])] gen)),
     (''gen'', JObj [(''kind'', JStr ''llm''), (''inputs'', JList [JStr ''in''])])])]"

lemma demo_quiet: "quiet demo_env"
  by (simp add: quiet_def demo_env_def unnamed_def has_key_def)

definition demo_nodes :: "dict \<Rightarrow> nodes" where
  "demo_nodes gen = projr (flow_nodes (demo_flow gen))"

section \<open>Data and text agree\<close>

definition data_text :: "dict \<Rightarrow> bool" where
  "data_text p = (has_key p ''data'' \<longrightarrow> (\<exists>t. encode (dget p ''data'') = Inr t \<and> dget p ''text'' = JStr t))"

definition outs_data_text :: "outputs \<Rightarrow> bool" where
  "outs_data_text out = (\<forall>p\<in>set (map snd out). data_text p)"

lemma outs_data_text_get: "outs_data_text out \<Longrightarrow> data_text (dget_or out k EMPTY)"
proof (cases "map_of out k")
  case (Some p)
  assume "outs_data_text out"
  moreover have "p \<in> set (map snd out)" using map_of_SomeD [OF Some] by force
  ultimately have "data_text p" unfolding outs_data_text_def by blast
  then show ?thesis using Some by simp
qed (simp add: data_text_def EMPTY_def has_key_def)

lemma outs_data_text_set: "outs_data_text out \<Longrightarrow> data_text p \<Longrightarrow> outs_data_text (dset k p out)"
  unfolding outs_data_text_def by (induction out) auto

lemma has_key_dset [simp]: "has_key (dset k v d) k' = (k' = k \<or> has_key d k')"
  by (auto simp: has_key_iff map_of_dset)

lemma bound_result_text: "bound_result d = (None, d') \<Longrightarrow> data_text d'"
  by (auto simp: bound_result_def data_text_def res_simps bounded_Inr dget_dset split: if_splits sum.splits)

lemma try_node_text:
  assumes "try_node env dl nid node parts values skipped w = (Inr d, w')"
  shows "data_text d \<or> \<not> truthy (dget d ''ok'')"
proof -
  have "\<not> truthy (dget (fail_result e x) ''ok'')" for e x
    by (simp add: fail_result_def dupd_def dget_dset)
  with assms bound_result_text show ?thesis
    by (fastforce simp: try_node_def check_result_def Let_def split: if_splits sum.splits option.splits prod.splits)
qed

lemma input_fallback_text:
  assumes "data_text d \<or> \<not> truthy (dget d ''ok'')" and "input_fallback node values d = Inr d'"
    and "truthy (dget d' ''ok'')"
  shows "data_text d'"
  using assms
  by (auto simp: input_fallback_def res_simps data_text_def dupd_def dget_dset split: if_splits)

lemma node_output_text: "data_text d \<Longrightarrow> data_text (node_output d)"
  by (auto simp: data_text_def node_output_def has_key_def py_or_def dget_def dget_or_def)

lemma step_data_text:
  assumes "outs_data_text out" and "flow_step env dl nid node out trace w = Go out' trace' w'"
  shows "outs_data_text out'"
  using flow_step_Go [OF assms(2)] assms(1)
  by (auto intro!: outs_data_text_set outs_data_text_get node_output_text
      elim: input_fallback_text [OF try_node_text])

lemma initial_data_text: "initial_outputs src txt dat = Inr out \<Longrightarrow> outs_data_text out"
  by (auto simp: initial_outputs_def outs_data_text_def data_text_def has_key_def res_simps bounded_Inr
      split: if_splits)

text \<open>
  Whenever a flow succeeds with data, its text is the JSON encoding of that data: the two views a
  caller gets never disagree, whatever the router calls returned.
\<close>

lemma run_flow_data_text:
  assumes "run_flow env flow txt dat to w = (Inr r, w')" and "dget r ''ok'' = JBool True"
    and "has_key r ''data''"
  shows "\<exists>t. encode (dget r ''data'') = Inr t \<and> dget r ''text'' = JStr t"
proof -
  from assms(1) obtain nodes src sink out0 order dl w1 where i: "initial_outputs src txt dat = Inr out0"
    and f: "flow_loop env dl nodes order out0 [] w1 = Stop r w'
      \<or> (\<exists>out trace. flow_loop env dl nodes order out0 [] w1 = Go out trace w' \<and> r = final_result sink out trace)"
    by (elim run_flow_Inr)
  from f show ?thesis
  proof (elim disjE exE conjE)
    assume "flow_loop env dl nodes order out0 [] w1 = Stop r w'"
    then obtain nid result tr where "r = fail_flow nid result tr"
      by (rule flow_loop_Stop) (auto dest!: flow_step_Stop)
    then show ?thesis using assms(2) by (simp add: fail_flow_def)
  next
    fix out trace assume g: "flow_loop env dl nodes order out0 [] w1 = Go out trace w'"
      and r: "r = final_result sink out trace"
    have "outs_data_text out"
      using g initial_data_text [OF i] step_data_text
      by (rule flow_loop_invariant [where I = "\<lambda>out trace. outs_data_text out"])
    then have "data_text (dget_or out sink EMPTY)" by (rule outs_data_text_get)
    with assms(3) show ?thesis by (auto simp: r final_result_def Let_def data_text_def has_key_def)
  qed
qed

section \<open>The deadline\<close>

text \<open>
  Under a deadline no router call is ever started without time left: what the router would do with
  no time limit, or with a budget that is zero or negative, cannot influence the run.
\<close>

lemma run_flow_deadline:
  assumes "clock env' = clock env"
    and "\<And>nid node prompt b w. 0 < b \<Longrightarrow>
      run_node env' nid node prompt (Some b) w = run_node env nid node prompt (Some b) w"
  shows "run_flow env' flow txt dat (Some to) w = run_flow env flow txt dat (Some to) w"
proof -
  have call: "node_call env' (Some d) nid node parts vs skipped w
      = node_call env (Some d) nid node parts vs skipped w" for d nid node parts vs skipped w
    using assms by (auto simp: node_call_def not_le split: sum.splits prod.splits)
  have "flow_step env' (Some d) nid node out trace w = flow_step env (Some d) nid node out trace w"
    for d nid node out trace w
    by (simp only: flow_step_def try_node_def call)
  then have "flow_loop env' (Some d) nodes order out trace w = flow_loop env (Some d) nodes order out trace w"
    for d nodes order out trace w
    by (induction order arbitrary: out trace w) (auto split: step.splits)
  then show ?thesis by (auto simp: run_flow_def assms(1) split: sum.split prod.split)
qed

section \<open>Falling back to the input\<close>

text \<open>
  When every node that calls the router or works on data says \<open>on_error: "input"\<close>, no failure of
  a router call, no timeout and no malformed output can fail the flow: a run that returns is ok.
\<close>

lemma run_flow_fallback_ok:
  assumes "run_flow env flow txt dat to w = (Inr r, w')" and "flow_nodes flow = Inr nodes" and "wf_dict nodes"
    and "\<And>nid. nid \<in> set (keys nodes) \<Longrightarrow> worker nodes nid \<Longrightarrow>
      dget (dget_or nodes nid []) ''on_error'' = JStr ''input''"
  shows "dget r ''ok'' = JBool True"
proof -
  have step: "flow_step env dl nid (dget_or nodes nid []) out trace w \<noteq> Stop q w'"
    if "nid \<in> set (keys nodes)" for dl nid out trace w q w'
  proof
    assume s: "flow_step env dl nid (dget_or nodes nid []) out trace w = Stop q w'"
    then have "worker nodes nid" using flow_step_Stop by (fastforce simp: worker_def)
    then have e: "dget (dget_or nodes nid []) ''on_error'' = JStr ''input''" using assms(4) that by blast
    from flow_step_Stop [OF s] obtain v d d' where f: "input_fallback (dget_or nodes nid []) v d = Inr d'"
      and "\<not> truthy (dget d' ''ok'')" by blast
    then show False using e
      by (auto simp: input_fallback_def res_simps dupd_def dget_dset split: if_splits)
  qed
  have "flow_loop env dl nodes order out trace w \<noteq> Stop q w'"
    if "topo_order nodes = Inr order" for dl order out trace w q w'
    using topo.sched_ids [OF that assms(3)] step by (force elim!: flow_loop_Stop simp del: set_map)
  then show ?thesis using assms(1,2)
    by (elim run_flow_Inr) (auto simp: final_result_def Let_def)
qed

section \<open>No node runs before its inputs\<close>

text \<open>Nodes that leave an output behind when the loop passes them.\<close>

lemma loop_outputs:
  assumes "flow_loop env dl nodes order out trace w = Go out' trace' w'"
  shows "Some ` {n \<in> set order. kind_of (dget_or nodes n []) \<noteq> JStr ''input''} \<union> set (keys out) \<subseteq> set (keys out')"
  using assms
proof (induction order arbitrary: out trace w)
  case (Cons nid order)
  then obtain out1 trace1 w1
    where s: "flow_step env dl nid (dget_or nodes nid []) out trace w = Go out1 trace1 w1"
      and rest: "flow_loop env dl nodes order out1 trace1 w1 = Go out' trace' w'"
    by (auto split: step.splits)
  have "set (keys out) \<union> (if kind_of (dget_or nodes nid []) = JStr ''input'' then {} else {Some nid}) \<subseteq> set (keys out1)"
    using flow_step_Go [OF s] by (force simp: dom_update)
  with Cons.IH [OF rest] show ?case by (auto split: if_splits simp del: set_map)
qed auto

lemma endpoints_input:
  "endpoints nodes src sink = (s, t) \<Longrightarrow> \<exists>n\<in>set nodes. kind_of (snd n) = JStr ''input'' \<Longrightarrow>
   \<exists>n node. (n, node) \<in> set nodes \<and> kind_of node = JStr ''input'' \<and> s = Some n"
proof (induction nodes arbitrary: src sink)
  case (Cons x nodes)
  obtain n node where x: "x = (n, node)" by (cases x)
  have keep: "endpoints ns src sink = (s, t) \<Longrightarrow> \<forall>n\<in>set ns. kind_of (snd n) \<noteq> JStr ''input'' \<Longrightarrow> s = src" for ns src sink
    by (induction ns src sink rule: endpoints.induct) (auto split: if_splits)
  show ?case
  proof (cases "\<exists>n\<in>set nodes. kind_of (snd n) = JStr ''input''")
    case True
    with Cons x show ?thesis by (fastforce split: if_splits)
  next
    case False
    with Cons.prems x keep [of nodes] show ?thesis by (auto split: if_splits)
  qed
qed simp

text \<open>
  In a flow with one input node, when the loop reaches a node every input of it has an output: no
  node ever runs on the empty default output of a node that has not run.
\<close>

lemma inputs_available:
  assumes "topo_order nodes = Inr (pre @ n # post)" and "wf_dict nodes"
    and "endpoints nodes None None = (src, sink)" and "initial_outputs src txt dat = Inr out0"
    and one: "\<And>a b. kind_of (dget_or nodes a []) = JStr ''input'' \<Longrightarrow> kind_of (dget_or nodes b []) = JStr ''input'' \<Longrightarrow> a = b"
    and "flow_loop env dl nodes pre out0 [] w = Go out trace w'"
    and "p \<in> set (node_inputs (dget_or nodes n []))"
  shows "has_key out (Some p)"
proof -
  have p: "p \<in> set pre" using topo.before [OF assms(1,2)] assms(7) by (simp add: ins_def)
  note l = loop_outputs [OF assms(6)]
  show ?thesis
  proof (cases "kind_of (dget_or nodes p []) = JStr ''input''")
    case True
    then obtain node where n: "map_of nodes p = Some node" "kind_of node = JStr ''input''"
      by (cases "map_of nodes p") (auto simp: kind_of_def)
    then have "(p, node) \<in> set nodes" by (simp add: map_of_SomeD)
    with n(2) have "\<exists>n\<in>set nodes. kind_of (snd n) = JStr ''input''" by force
    from endpoints_input [OF assms(3) this] obtain m mn where m: "(m, mn) \<in> set nodes"
      "kind_of mn = JStr ''input''" "src = Some m" by blast
    then have "map_of nodes m = Some mn" using assms(2) by simp
    then have "src = Some p" using one [OF True, of m] m by simp
    then have "Some p \<in> set (keys out0)" using assms(4) by (auto simp: initial_outputs_def res_simps split: if_splits)
    then show ?thesis using l by (auto simp: has_key_def simp del: set_map)
  next
    case False
    then show ?thesis using l p by (auto simp: has_key_def simp del: set_map)
  qed
qed

end
