(* ===== verification/Decisions.thy ===== *)
theory Decisions
  imports JsonText
begin

text \<open>
  \<open>decision_providers/__init__.py\<close> and \<open>decision_protocol.py\<close>: typed decisions. Probabilities and
  confidences, the tests on their sum, one answer, and the validation of request payloads and of the
  responses of decision models. A \<open>DecisionError\<close> is an exception with its reason code. The logarithm of
  the platform is a parameter of the entropy. Model names are taken as ASCII where a pattern reads them.
\<close>

section \<open>Probabilities\<close>

definition probability :: "jval \<Rightarrow> bool res" where
  "probability v = (if \<not> is_num v then Inr False
     else rbind (py_isfinite v) (\<lambda>f. Inr (f \<and> num_between 0 v 1)))"

definition not_probability :: "jval \<Rightarrow> bool res" where
  "not_probability v = rbind (probability v) (\<lambda>b. Inr (\<not> b))"

text \<open>\<open>model.rsplit('/', 1)[-1]\<close> and the pattern \<open>jev-(?:latest|\d[\w.-]*)\<close>, ignoring case.\<close>

definition after_slash :: "string \<Rightarrow> string" where
  "after_slash s = last (split_on (CHR ''/'') s)"

definition word_char :: "char \<Rightarrow> bool" where
  "word_char c = (is_digit c \<or> (CHR ''a'' \<le> c \<and> c \<le> CHR ''z'') \<or> (CHR ''A'' \<le> c \<and> c \<le> CHR ''Z'') \<or> c = CHR ''_'')"

definition jev_name :: "string \<Rightarrow> bool" where
  "jev_name s = (case ascii_lower s of
     a # b # c # d # rest \<Rightarrow> [a, b, c, d] = ''jev-'' \<and>
       (rest = ''latest'' \<or>
        (case rest of [] \<Rightarrow> False
         | x # xs \<Rightarrow> is_digit x \<and> list_all (\<lambda>c. word_char c \<or> c = CHR ''.'' \<or> c = CHR ''-'') xs))
   | _ \<Rightarrow> False)"

definition probability_decimals_for_model :: "jval \<Rightarrow> int option" where
  "probability_decimals_for_model model = (case model of
     JStr s \<Rightarrow> if jev_name (after_slash s) then Some 2 else None
   | _ \<Rightarrow> None)"

text \<open>
  \<open>math.fsum\<close> is the correctly rounded sum; the other operations round once each. The literals of the
  source are the doubles next to the decimals.
\<close>

definition fsum :: "rat list \<Rightarrow> rat" where
  "fsum ps = fl (sum_list ps)"

definition shown_exactly :: "rat \<Rightarrow> bool" where
  "shown_exactly p = (let c = fl (p * 100) in \<not> fl (1 / 10 ^ 8) < \<bar>fl (c - of_int (round_even c))\<bar>)"

definition half_step :: rat where
  "half_step = fl (5 / 1000)"

definition sum_valid :: "rat list \<Rightarrow> int option \<Rightarrow> bool" where
  "sum_valid ps decimals =
     (if \<bar>fl (fsum ps - 1)\<bar> \<le> fl (1 / 10 ^ 6) then True
      else if decimals \<noteq> Some 2 \<or> \<not> list_all shown_exactly ps then False
      else let lower = fsum (map (\<lambda>p. max 0 (fl (p - half_step))) ps);
               upper = fsum (map (\<lambda>p. min 1 (fl (p + half_step))) ps)
           in lower \<le> fl (1 + fl (1 / 10 ^ 12)) \<and> fl (1 - fl (1 / 10 ^ 12)) \<le> upper)"

definition probability_sum_valid :: "jval list \<Rightarrow> int option \<Rightarrow> bool res" where
  "probability_sum_valid values decimals =
     rbind (ror (Inr (values = [])) (rany not_probability values)) (\<lambda>bad.
       Inr (if bad then False else sum_valid (map rat_of values) decimals))"

section \<open>One answer\<close>

definition decision_error :: "string \<Rightarrow> exn" where
  "decision_error reason = OtherExc ''DecisionError'' reason"

text \<open>\<open>sum\<close> of floats, compensated as in Python 3.12.\<close>

fun csum :: "rat \<Rightarrow> rat \<Rightarrow> rat list \<Rightarrow> rat" where
  "csum s c [] = fl (s + c)"
| "csum s c (x # xs) =
     (let t = fl (s + x)
      in csum t (fl (c + (if \<bar>x\<bar> \<le> \<bar>s\<bar> then fl (fl (s - t) + x) else fl (fl (x - t) + s)))) xs)"

definition entropy_of :: "(rat \<Rightarrow> rat) \<Rightarrow> rat list \<Rightarrow> nat \<Rightarrow> rat" where
  "entropy_of lg ps n =
     (let total = fsum ps;
          terms = map (\<lambda>p. fl (fl (p / total) * lg (fl (p / total)))) (filter (\<lambda>p. 0 < p) ps);
          s = (case terms of [] \<Rightarrow> 0 | t # ts \<Rightarrow> csum t 0 ts);
          entropy = (if 1 < n then fl (- s / lg (of_nat n)) else 0)
      in max 0 (min 1 entropy))"

type_synonym answer = "string \<times> jval \<times> jval \<times> rat option"

definition distribution_bad :: "dict \<Rightarrow> string list \<Rightarrow> string \<Rightarrow> int option \<Rightarrow> bool res" where
  "distribution_bad d choices selected decimals =
     ror (Inr (set (keys d) \<noteq> set choices))
    (ror (rany not_probability (map snd d))
    (ror (rbind (probability_sum_valid (map snd d) decimals) (\<lambda>b. Inr (\<not> b)))
         (Inr (fl (rat_of (dget d selected) + fl (1 / 10 ^ 9)) < Max (set (map (rat_of \<circ> snd) d))))))"

definition validate_answer ::
  "(rat \<Rightarrow> rat) \<Rightarrow> jval \<Rightarrow> string list \<Rightarrow> int option \<Rightarrow> answer res" where
  "validate_answer lg answer choices decimals = (case answer of
     JObj a \<Rightarrow>
       rbind (raise_if (dget a ''type'' \<noteq> JStr ''choice'') (decision_error ''invalid_response'')) (\<lambda>_.
       let selected = dget a ''choice'' in
       rbind (raise_if (\<not> is_str selected \<or> str_of selected \<notin> set choices) (decision_error ''unknown_choice'')) (\<lambda>_.
       let confidence = dget a ''confidence'' in
       rbind (if confidence = JNull then Inr False else not_probability confidence) (\<lambda>bad.
       rbind (raise_if bad (decision_error ''invalid_confidence'')) (\<lambda>_.
       case dget a ''probabilities'' of
         JNull \<Rightarrow> Inr (str_of selected, JNull, confidence, None)
       | JObj d \<Rightarrow>
           rbind (distribution_bad d choices (str_of selected) decimals) (\<lambda>bad.
           rbind (raise_if bad (decision_error ''invalid_probabilities'')) (\<lambda>_.
             Inr (str_of selected, JObj d, confidence,
                  Some (entropy_of lg (map (rat_of \<circ> snd) d) (length choices)))))
       | _ \<Rightarrow> Inl (decision_error ''invalid_probabilities'')))))
   | _ \<Rightarrow> Inl (decision_error ''invalid_response''))"

section \<open>Requests and the providers without transport\<close>

record decision_request =
  decision_id :: string
  instruction :: string
  req_state :: jval
  req_choices :: "(string \<times> string) list"

abbreviation choice_ids :: "decision_request \<Rightarrow> string list" where
  "choice_ids r \<equiv> map fst (req_choices r)"

text \<open>The pattern \<open>[a-z][a-z0-9-]{0,63}\<close>.\<close>

definition choice_id :: "string \<Rightarrow> bool" where
  "choice_id s = (case s of [] \<Rightarrow> False
     | c # cs \<Rightarrow> (CHR ''a'' \<le> c \<and> c \<le> CHR ''z'') \<and> length cs \<le> 63
         \<and> list_all (\<lambda>c. (CHR ''a'' \<le> c \<and> c \<le> CHR ''z'') \<or> is_digit c \<or> c = CHR ''-'') cs)"

definition validate_request :: "decision_request \<Rightarrow> unit res" where
  "validate_request r =
     rbind (raise_if (\<not> (1 \<le> length (choice_ids r) \<and> length (choice_ids r) \<le> 32)
         \<or> \<not> distinct (choice_ids r) \<or> \<not> list_all choice_id (choice_ids r))
       (ValueError ''Invalid decision choices'')) (\<lambda>_.
     rbind (raise_if (list_ex (\<lambda>(i, d). d = [] \<or> 1000 < py_len d) (req_choices r))
       (ValueError ''Invalid choice description'')) (\<lambda>_.
     raise_if (instruction r = [] \<or> 2000 < py_len (instruction r) \<or> \<not> is_obj (req_state r))
       (ValueError ''Invalid decision request'')))"

record decision_result =
  selected_id :: string
  probabilities :: jval
  confidence :: jval
  normalized_entropy :: "rat option"
  provider :: string
  model_name :: string
  latency_ms :: rat
  cost_usd :: jval
  input_tokens :: jval
  attempts :: nat

definition mk_result :: "answer \<Rightarrow> string \<Rightarrow> decision_result" where
  "mk_result a p = (case a of (selected, probs, conf, entropy) \<Rightarrow>
     \<lparr> selected_id = selected, probabilities = probs, confidence = conf, normalized_entropy = entropy,
       provider = p, model_name = [], latency_ms = 0, cost_usd = JInt 0, input_tokens = JNull, attempts = 0 \<rparr>)"

definition decide_deterministic :: "string \<Rightarrow> decision_request \<Rightarrow> decision_result res" where
  "decide_deterministic selected r =
     rbind (validate_request r) (\<lambda>_.
     rbind (raise_if (selected \<notin> set (choice_ids r)) (decision_error ''unknown_choice'')) (\<lambda>_.
       Inr (mk_result (selected, JNull, JNull, None) ''deterministic'')))"

definition decide_recorded ::
  "(rat \<Rightarrow> rat) \<Rightarrow> (string \<times> jval) list \<Rightarrow> decision_request \<Rightarrow> decision_result res" where
  "decide_recorded lg answers r =
     rbind (validate_request r) (\<lambda>_.
     rbind (validate_answer lg (dget answers (decision_id r)) (choice_ids r) None) (\<lambda>a.
       Inr (mk_result a ''recorded'')))"

section \<open>Probabilities and their sum\<close>

definition unit_number :: "jval \<Rightarrow> bool" where
  "unit_number v = (is_num v \<and> 0 \<le> rat_of v \<and> rat_of v \<le> 1)"

lemma probability_True: "probability v = Inr True \<Longrightarrow> unit_number v"
  using num_between_finite [of 0 v 1] by (auto simp: probability_def unit_number_def res_simps split: if_splits)

lemma not_probability_False: "not_probability v = Inr False \<Longrightarrow> unit_number v"
  by (auto simp: not_probability_def res_simps intro: probability_True)

lemma fl_near: "\<bar>x\<bar> \<le> 64 \<Longrightarrow> \<bar>fl x - x\<bar> \<le> 1 / 100000000000000"
proof -
  assume "\<bar>x\<bar> \<le> 64"
  then have "\<bar>x\<bar> / 2 ^ 53 \<le> 64 / 2 ^ 53" by (rule divide_right_mono) simp
  with fl_error [of x] have "\<bar>fl x - x\<bar> \<le> 64 / 2 ^ 53 + 1 / 2 ^ 1075" by linarith
  also have "\<dots> \<le> 1 / 100000000000000" by simp
  finally show ?thesis .
qed

lemma sum_units:
  fixes f :: "rat \<Rightarrow> rat"
  assumes "\<forall>p\<in>set ps. 0 \<le> f p \<and> f p \<le> 1"
  shows "0 \<le> sum_list (map f ps) \<and> sum_list (map f ps) \<le> of_nat (length ps)"
  using assms by (induction ps) auto

lemma sum_shift:
  fixes f :: "rat \<Rightarrow> rat"
  assumes "\<forall>p\<in>set ps. p - e \<le> f p"
  shows "sum_list ps - of_nat (length ps) * e \<le> sum_list (map f ps)"
  using assms by (induction ps) (auto simp: algebra_simps)

lemma sum_shift_up:
  fixes f :: "rat \<Rightarrow> rat"
  assumes "\<forall>p\<in>set ps. f p \<le> p + e"
  shows "sum_list (map f ps) \<le> sum_list ps + of_nat (length ps) * e"
  using assms by (induction ps) (auto simp: algebra_simps)

lemma fsum_near:
  fixes f :: "rat \<Rightarrow> rat"
  assumes "\<forall>p\<in>set ps. 0 \<le> f p \<and> f p \<le> 1" and "length ps \<le> 32"
  shows "\<bar>fsum (map f ps) - sum_list (map f ps)\<bar> \<le> 1 / 100000000000000"
proof -
  have "of_nat (length ps) \<le> (32 :: rat)" using assms(2) by (metis of_nat_le_iff of_nat_numeral)
  then have "\<bar>sum_list (map f ps)\<bar> \<le> 64" using sum_units [OF assms(1)] by linarith
  then show ?thesis unfolding fsum_def by (rule fl_near)
qed

lemma sum_valid_near:
  assumes "sum_valid ps dec" and u: "\<forall>p\<in>set ps. 0 \<le> p \<and> p \<le> 1" and n: "length ps \<le> 32"
  shows "\<bar>sum_list ps - 1\<bar> \<le> (if dec = Some 2 then of_nat (length ps) / 200 else 0) + 2 / 1000000"
proof -
  let ?S = "sum_list ps" and ?n = "of_nat (length ps) :: rat"
  have n32: "?n \<le> 32" using n by (metis of_nat_le_iff of_nat_numeral)
  have S: "0 \<le> ?S" "?S \<le> ?n" using sum_units [of ps "\<lambda>p. p"] u by simp_all
  show ?thesis
  proof (cases "\<bar>fl (fsum ps - 1)\<bar> \<le> fl (1 / 10 ^ 6)")
    case True
    have f: "\<bar>fsum ps - ?S\<bar> \<le> 1 / 100000000000000" using fsum_near [of ps "\<lambda>p. p"] u n by simp
    then have "\<bar>fsum ps - 1\<bar> \<le> 64" using S n32 by linarith
    then have "\<bar>fl (fsum ps - 1) - (fsum ps - 1)\<bar> \<le> 1 / 100000000000000" by (rule fl_near)
    moreover have "\<bar>fl (1 / 10 ^ 6) - 1 / 1000000\<bar> \<le> 1 / 100000000000000" using fl_near [of "1 / 10 ^ 6"] by simp
    ultimately have "\<bar>?S - 1\<bar> \<le> 2 / 1000000" using True f by linarith
    moreover have "0 \<le> (if dec = Some 2 then ?n / 200 else 0)" by simp
    ultimately show ?thesis by linarith
  next
    case False
    have h: "\<bar>half_step - 1 / 200\<bar> \<le> 1 / 100000000000000"
      using fl_near [of "5 / 1000"] by (simp add: half_step_def)
    have lo: "p - (1 / 200 + 2 / 100000000000000) \<le> max 0 (fl (p - half_step)) \<and> 0 \<le> max 0 (fl (p - half_step))
        \<and> max 0 (fl (p - half_step)) \<le> 1" if "p \<in> set ps" for p
    proof -
      have p: "0 \<le> p" "p \<le> 1" using u that by auto
      then have a: "\<bar>fl (p - half_step) - (p - half_step)\<bar> \<le> 1 / 100000000000000"
        using h by (intro fl_near) linarith
      show ?thesis
      proof (cases "0 \<le> fl (p - half_step)")
        case True
        then show ?thesis unfolding max_absorb2 [OF True] using a h p by (intro conjI; linarith)
      next
        case False
        then have m: "max 0 (fl (p - half_step)) = 0" by simp
        show ?thesis unfolding m using False a h p by (intro conjI; linarith)
      qed
    qed
    have hi: "min 1 (fl (p + half_step)) \<le> p + (1 / 200 + 2 / 100000000000000) \<and> 0 \<le> min 1 (fl (p + half_step))
        \<and> min 1 (fl (p + half_step)) \<le> 1" if "p \<in> set ps" for p
    proof -
      have p: "0 \<le> p" "p \<le> 1" using u that by auto
      then have "\<bar>fl (p + half_step) - (p + half_step)\<bar> \<le> 1 / 100000000000000"
        using h by (intro fl_near) linarith
      then have a: "\<bar>fl (p + half_step) - (p + half_step)\<bar> \<le> 1 / 100000000000000" .
      have b: "0 \<le> fl (p + half_step)" using h p by (intro fl_nonneg) linarith
      show ?thesis
      proof (cases "1 \<le> fl (p + half_step)")
        case True
        show ?thesis unfolding min_absorb1 [OF True] using True a h p by (intro conjI; linarith)
      next
        case False
        then have m: "min 1 (fl (p + half_step)) = fl (p + half_step)" by simp
        show ?thesis unfolding m using False a b h p by (intro conjI; linarith)
      qed
    qed
    let ?lower = "\<lambda>p. max 0 (fl (p - half_step))" and ?upper = "\<lambda>p. min 1 (fl (p + half_step))"
    have c: "\<bar>fl (1 / 10 ^ 12) - 1 / 1000000000000\<bar> \<le> 1 / 100000000000000" using fl_near [of "1 / 10 ^ 12"] by simp
    have c1: "\<bar>fl (1 + fl (1 / 10 ^ 12)) - (1 + fl (1 / 10 ^ 12))\<bar> \<le> 1 / 100000000000000"
      and c2: "\<bar>fl (1 - fl (1 / 10 ^ 12)) - (1 - fl (1 / 10 ^ 12))\<bar> \<le> 1 / 100000000000000"
      using c by (intro fl_near; linarith)+
    from False assms(1) have dec: "dec = Some 2"
      and low: "fsum (map ?lower ps) \<le> fl (1 + fl (1 / 10 ^ 12))"
      and up: "fl (1 - fl (1 / 10 ^ 12)) \<le> fsum (map ?upper ps)"
      by (auto simp: sum_valid_def Let_def split: if_splits)
    have ne: "?n * (1 / 200 + 2 / 100000000000000) \<le> ?n / 200 + 64 / 100000000000000"
      using n32 by (simp add: field_simps)
    have "\<bar>fsum (map ?lower ps) - sum_list (map ?lower ps)\<bar> \<le> 1 / 100000000000000"
      using lo n by (intro fsum_near) auto
    moreover have "?S - ?n * (1 / 200 + 2 / 100000000000000) \<le> sum_list (map ?lower ps)"
      using lo by (intro sum_shift) auto
    ultimately have a: "?S \<le> 1 + ?n / 200 + 2 / 1000000" using low c c1 ne by linarith
    have "\<bar>fsum (map ?upper ps) - sum_list (map ?upper ps)\<bar> \<le> 1 / 100000000000000"
      using hi n by (intro fsum_near) auto
    moreover have "sum_list (map ?upper ps) \<le> ?S + ?n * (1 / 200 + 2 / 100000000000000)"
      using hi by (intro sum_shift_up) auto
    ultimately have b: "1 - ?n / 200 - 2 / 1000000 \<le> ?S" using up c c2 ne by linarith
    show ?thesis using a b dec by (simp add: abs_le_iff)
  qed
qed

section \<open>Accepted answers\<close>

text \<open>What an accepted distribution over the choices promises.\<close>

definition spread :: "dict \<Rightarrow> string list \<Rightarrow> int option \<Rightarrow> bool" where
  "spread d names decimals =
     (set (keys d) = set names \<and> (\<forall>v\<in>set (map snd d). unit_number v)
      \<and> \<bar>sum_list (map (rat_of \<circ> snd) d) - 1\<bar>
          \<le> (if decimals = Some 2 then of_nat (length d) / 200 else 0) + 2 / 1000000)"

lemma wf_length_le: "wf_dict d \<Longrightarrow> set (keys d) = set names \<Longrightarrow> length d \<le> length names"
  by (metis card_length distinct_card length_map)

lemma probability_sum_valid_near:
  assumes "probability_sum_valid (map snd d) decimals = Inr True" and "length d \<le> 32"
  shows "(\<forall>v\<in>set (map snd d). unit_number v) \<and>
    \<bar>sum_list (map (rat_of \<circ> snd) d) - 1\<bar> \<le> (if decimals = Some 2 then of_nat (length d) / 200 else 0) + 2 / 1000000"
proof -
  from assms(1) have "rany not_probability (map snd d) = Inr False"
    and v: "sum_valid (map rat_of (map snd d)) decimals"
    by (auto simp: probability_sum_valid_def res_simps ror_def split: if_splits)
  then have u: "\<forall>v\<in>set (map snd d). unit_number v"
    using not_probability_False by (simp only: rany_False) blast
  have "\<bar>sum_list (map rat_of (map snd d)) - 1\<bar>
      \<le> (if decimals = Some 2 then of_nat (length (map rat_of (map snd d))) / 200 else 0) + 2 / 1000000"
    using u assms(2) by (intro sum_valid_near [OF v]) (auto simp: unit_number_def)
  then show ?thesis using u by (simp only: length_map map_map)
qed

lemma spread_from_checks:
  assumes "set (keys d) = set names" and "probability_sum_valid (map snd d) decimals = Inr True"
    and "wf_dict d" and "length names \<le> 32"
  shows "spread d names decimals"
  using probability_sum_valid_near [OF assms(2)] wf_length_le [OF assms(3,1)] assms
  by (auto simp: spread_def)

definition opt_unit :: "jval \<Rightarrow> bool" where
  "opt_unit v = (v = JNull \<or> unit_number v)"

lemma validate_answer_facts:
  assumes "validate_answer lg answer names decimals = Inr (sel, probs, conf, ent)"
    and "wf_val answer" and "length names \<le> 32"
  shows "sel \<in> set names \<and> opt_unit conf \<and>
    (probs = JNull \<or> (\<exists>d. probs = JObj d \<and> spread d names decimals
       \<and> (\<forall>v\<in>set (map snd d). rat_of v \<le> rat_of (dget d sel) + 2 / 1000000000)))"
proof -
  from assms(1) obtain a where a: "answer = JObj a" and t: "is_str (dget a ''choice'')"
      and s: "sel = str_of (dget a ''choice'')" "sel \<in> set names" and c: "conf = dget a ''confidence''"
      and cb: "(if conf = JNull then Inr False else not_probability conf) = Inr False"
      and d: "probs = dget a ''probabilities''"
      and rest: "probs = JNull \<or> (\<exists>d. probs = JObj d \<and> distribution_bad d names sel decimals = Inr False)"
    by (auto simp: validate_answer_def Let_def res_simps split: jval.splits if_splits)
  have "opt_unit conf" using cb by (auto simp: opt_unit_def intro: not_probability_False split: if_splits)
  moreover have "\<exists>d. probs = JObj d \<and> spread d names decimals
       \<and> (\<forall>v\<in>set (map snd d). rat_of v \<le> rat_of (dget d sel) + 2 / 1000000000)" if "probs \<noteq> JNull"
  proof -
    from rest that obtain d where d': "probs = JObj d" and b: "distribution_bad d names sel decimals = Inr False"
      by auto
    have b2: "set (keys d) = set names \<and> rany not_probability (map snd d) = Inr False
      \<and> rbind (probability_sum_valid (map snd d) decimals) (\<lambda>b. Inr (\<not> b)) = Inr False
      \<and> \<not> fl (rat_of (dget d sel) + fl (1 / 10 ^ 9)) < Max (set (map (rat_of \<circ> snd) d))"
      using b by (simp only: distribution_bad_def ror_False sum.inject simp_thms not_not)
    then have k: "set (keys d) = set names" and m: "Max (set (map (rat_of \<circ> snd) d)) \<le> fl (rat_of (dget d sel) + fl (1 / 10 ^ 9))"
      by (simp_all only: not_less)
    have p: "probability_sum_valid (map snd d) decimals = Inr True" using b2 by (auto simp: rbind_eq_Inr)
    have w: "wf_dict d" using d d' a assms(2) by (intro wf_dget_obj [of a "''probabilities''"]) simp_all
    have sp: "spread d names decimals" using k p w assms(3) by (rule spread_from_checks)
    have "sel \<in> set (keys d)" using k s by simp
    then obtain v where v: "map_of d sel = Some v" by (metis map_of_eq_None_iff not_Some_eq set_map)
    then have "unit_number (dget d sel)" using sp map_of_SomeD [OF v] by (force simp: spread_def)
    then have r: "0 \<le> rat_of (dget d sel)" "rat_of (dget d sel) \<le> 1" by (simp_all add: unit_number_def)
    have e: "\<bar>fl (1 / 10 ^ 9) - 1 / 1000000000\<bar> \<le> 1 / 100000000000000" using fl_near [of "1 / 10 ^ 9"] by simp
    have "\<bar>fl (rat_of (dget d sel) + fl (1 / 10 ^ 9)) - (rat_of (dget d sel) + fl (1 / 10 ^ 9))\<bar> \<le> 1 / 100000000000000"
      using e r by (intro fl_near) linarith
    then have "Max (set (map (rat_of \<circ> snd) d)) \<le> rat_of (dget d sel) + 2 / 1000000000"
      using e m by linarith
    moreover have "rat_of v \<le> Max (set (map (rat_of \<circ> snd) d))" if "v \<in> set (map snd d)" for v
      using that by (intro Max_ge) auto
    ultimately show ?thesis using d' sp by fastforce
  qed
  ultimately show ?thesis using s by blast
qed

text \<open>
  An accepted answer picks one of the offered choices; its confidence, when given, is a number in
  [0, 1]; its distribution, when given, is over exactly the offered choices, consists of probabilities,
  sums to 1 up to the declared display precision, and no choice beats the selected one.
\<close>

lemma validate_answer_sound:
  assumes "validate_answer lg answer names decimals = Inr (sel, probs, conf, ent)"
    and "wf_val answer" and "length names \<le> 32"
  shows "sel \<in> set names \<and> opt_unit conf \<and>
    (probs = JNull \<or> (\<exists>d. probs = JObj d \<and> spread d names decimals
       \<and> (\<forall>v\<in>set (map snd d). rat_of v \<le> rat_of (dget d sel) + 2 / 1000000000)))"
  using assms by (rule validate_answer_facts)

lemma quarters_accepted: "distribution_bad [(''a'', JFloat (Fin (1 / 4))), (''b'', JFloat (Fin (3 / 4)))]
    [''a'', ''b''] ''b'' decimals = Inr False"
proof -
  have f: "fl 1 = 1" by code_simp
  have "0 \<le> fl (1 / 10 ^ 6)" by (rule fl_nonneg) simp
  then have s: "sum_valid [1 / 4, 3 / 4] decimals" by (simp add: sum_valid_def fsum_def f)
  have e: "\<bar>fl (1 / 10 ^ 9) - 1 / 1000000000\<bar> \<le> 1 / 100000000000000" using fl_near [of "1 / 10 ^ 9"] by simp
  then have "\<bar>fl (3 / 4 + fl (1 / 10 ^ 9)) - (3 / 4 + fl (1 / 10 ^ 9))\<bar> \<le> 1 / 100000000000000"
    by (intro fl_near) linarith
  then have m: "\<not> fl (3 / 4 + fl (1 / 10 ^ 9)) < 3 / 4" using e by linarith
  have p: "not_probability (JFloat (Fin (1 / 4))) = Inr False" "not_probability (JFloat (Fin (3 / 4))) = Inr False"
    by code_simp+
  show ?thesis
    using s m by (simp add: distribution_bad_def probability_sum_valid_def p ror_def rat_of_def)
qed

section \<open>The interface of a decision provider\<close>

text \<open>
  The protocol \<open>DecisionProvider\<close>: a request that is answered was valid, and the answer is one of its
  choices. \<open>returns r x\<close>: the provider may answer \<open>r\<close> with \<open>x\<close>.
\<close>

locale decision_provider =
  fixes returns :: "decision_request \<Rightarrow> decision_result \<Rightarrow> bool"
  assumes valid: "returns r x \<Longrightarrow> validate_request r = Inr ()"
    and selects_choice: "returns r x \<Longrightarrow> selected_id x \<in> set (choice_ids r)"
begin

lemma has_description:
  assumes "returns r x"
  shows "\<exists>d. map_of (req_choices r) (selected_id x) = Some d \<and> d \<noteq> [] \<and> py_len d \<le> 1000"
proof -
  obtain d where d: "map_of (req_choices r) (selected_id x) = Some d"
    using selects_choice [OF assms] by (metis map_of_eq_None_iff not_Some_eq set_map)
  have "\<forall>p\<in>set (req_choices r). snd p \<noteq> [] \<and> py_len (snd p) \<le> 1000"
    using valid [OF assms] by (auto simp: validate_request_def res_simps list_ex_iff split_beta not_less)
  then show ?thesis using map_of_SomeD [OF d] d by force
qed

lemma single_choice: "returns r x \<Longrightarrow> req_choices r = [(i, d)] \<Longrightarrow> selected_id x = i"
  using selects_choice by fastforce

end

interpretation deterministic: decision_provider "\<lambda>r x. decide_deterministic s r = Inr x"
  by unfold_locales (auto simp: decide_deterministic_def mk_result_def res_simps)

lemma validate_answer_choice:
  "validate_answer lg answer names decimals = Inr (sel, rest) \<Longrightarrow> sel \<in> set names"
  by (auto simp: validate_answer_def Let_def res_simps split: jval.splits if_splits)

interpretation recorded: decision_provider "\<lambda>r x. decide_recorded lg answers r = Inr x"
  by unfold_locales (auto simp: decide_recorded_def mk_result_def res_simps dest: validate_answer_choice)

end
