(* ===== verification/DecisionProtocol.thy ===== *)
theory DecisionProtocol
  imports Decisions FlowData
begin

text \<open>
  \<open>decision_protocol.py\<close>: the validation of the payload of a decision request and of the response of a
  decision model against it. Both raise \<open>ValueError\<close> on malformed input; what else they raise is kept.
\<close>

definition MAX_REQUEST_BYTES :: nat where
  "MAX_REQUEST_BYTES = 32000"

definition MAX_RESPONSE_BYTES :: nat where
  "MAX_RESPONSE_BYTES = 131072"

definition decision_family :: "string \<Rightarrow> string" where
  "decision_family model = after_slash model"

definition known_decision_model :: "string \<Rightarrow> bool" where
  "known_decision_model model = jev_name (decision_family model)"

definition same_keys :: "dict \<Rightarrow> string list \<Rightarrow> bool" where
  "same_keys d ks = (set (keys d) = set ks)"

section \<open>The request\<close>

text \<open>The criteria of one question, as the list of their descriptions.\<close>

definition choice_criteria :: "jval \<Rightarrow> jval list res" where
  "choice_criteria criteria = (case criteria of
     JObj c \<Rightarrow>
       rbind (raise_if (\<not> (1 \<le> length c \<and> length c \<le> 32)) (ValueError (''Choice questions need 1'' @ dash @ ''32 criteria.''))) (\<lambda>_.
       rbind (raise_if (list_ex (\<lambda>k. \<not> (1 \<le> py_len k \<and> py_len k \<le> 64)) (keys c)) (ValueError ''Invalid choice name.'')) (\<lambda>_.
         Inr (map snd c)))
   | _ \<Rightarrow> Inl (ValueError (''Choice questions need 1'' @ dash @ ''32 criteria.'')))"

definition score_criteria :: "jval \<Rightarrow> jval list res" where
  "score_criteria criteria = (case criteria of
     JList c \<Rightarrow>
       rbind (raise_if (\<not> (2 \<le> length c \<and> length c \<le> 32))
         (ValueError (''Score questions need 2'' @ dash @ ''32 ordered criteria.''))) (\<lambda>_. Inr c)
   | _ \<Rightarrow> Inl (ValueError (''Score questions need 2'' @ dash @ ''32 ordered criteria.'')))"

definition noul_criteria :: "jval \<Rightarrow> jval list res" where
  "noul_criteria criteria = (case criteria of
     JNull \<Rightarrow> Inr []
   | JObj c \<Rightarrow>
       rbind (raise_if (\<not> same_keys c [''true'', ''false'']) (ValueError ''Noul criteria must describe true and false.'')) (\<lambda>_.
         Inr (map snd c))
   | _ \<Rightarrow> Inl (ValueError ''Noul criteria must describe true and false.''))"

definition bad_description :: "jval \<Rightarrow> bool" where
  "bad_description v = (v \<noteq> JNull \<and> (\<not> is_str v \<or> 2000 < py_len (str_of v)))"

definition validate_question :: "string \<Rightarrow> jval \<Rightarrow> unit res" where
  "validate_question name question = (case question of
     JObj q \<Rightarrow>
       rbind (raise_if (\<not> (1 \<le> py_len name \<and> py_len name \<le> 64)) (ValueError ''Invalid question.'')) (\<lambda>_.
       rbind (raise_if (\<not> set (keys q) \<subseteq> {''type'', ''instructions'', ''criteria''})
         (ValueError ''Unsupported question field.'')) (\<lambda>_.
       rbind (raise_if (\<not> is_str (dget q ''instructions'')
             \<or> \<not> (1 \<le> py_len (str_of (dget q ''instructions'')) \<and> py_len (str_of (dget q ''instructions'')) \<le> 2000))
         (ValueError (''Each question needs instructions (1'' @ dash @ ''2000 characters).''))) (\<lambda>_.
       rbind (if dget q ''type'' = JStr ''choice'' then choice_criteria (dget q ''criteria'')
              else if dget q ''type'' = JStr ''score'' then score_criteria (dget q ''criteria'')
              else if dget q ''type'' = JStr ''noul'' then noul_criteria (dget q ''criteria'')
              else Inl (ValueError ''Supported question types: choice, score, noul.'')) (\<lambda>values.
         raise_if (list_ex bad_description values) (ValueError ''Invalid criterion description.'')))))
   | _ \<Rightarrow> Inl (ValueError ''Invalid question.''))"

definition validate_payload :: "jval \<Rightarrow> jval res" where
  "validate_payload payload = (case payload of
     JObj p \<Rightarrow>
       rbind (raise_if (\<not> same_keys p [''state'', ''questions'']) (ValueError ''Provide state and questions.'')) (\<lambda>_.
       rbind (raise_if (\<not> (is_str (dget p ''state'') \<or> is_obj (dget p ''state'') \<or> is_list (dget p ''state'')))
         (ValueError ''state must be text, an object or an array.'')) (\<lambda>_.
       case dget p ''questions'' of
         JObj qs \<Rightarrow>
           rbind (raise_if (\<not> (1 \<le> length qs \<and> length qs \<le> 32)) (ValueError ''Provide between 1 and 32 questions.'')) (\<lambda>_.
           rbind (rfold (\<lambda>(name, q) _. validate_question name q) qs ()) (\<lambda>_.
           rbind (dumps_strict True '', '' '': '' payload) (\<lambda>text.
           rbind (raise_if (MAX_REQUEST_BYTES < length text) (ValueError ''Decision request exceeds 32000 bytes.'')) (\<lambda>_.
             Inr payload))))
       | _ \<Rightarrow> Inl (ValueError ''Provide between 1 and 32 questions.'')))
   | _ \<Rightarrow> Inl (ValueError ''Provide state and questions.''))"

section \<open>The response\<close>

text \<open>A finite number that is at least 0 (and at most \<open>hi\<close>), as the code tests it.\<close>

definition finite_number :: "jval \<Rightarrow> bool res" where
  "finite_number v = (if is_num v then py_isfinite v else Inr False)"

definition bad_score :: "jval \<Rightarrow> nat \<Rightarrow> bool res" where
  "bad_score v n = rbind (finite_number v) (\<lambda>f. Inr (\<not> f \<or> \<not> num_between 0 v (of_nat n - 1)))"

definition score_distribution_bad :: "dict \<Rightarrow> nat \<Rightarrow> int option \<Rightarrow> bool res" where
  "score_distribution_bad probs n decimals =
     ror (Inr (\<not> same_keys probs (map nat_str [0..<n])))
    (ror (rany not_probability (map snd probs))
         (rbind (probability_sum_valid (map snd probs) decimals) (\<lambda>b. Inr (\<not> b))))"

text \<open>One answer against its question; the question has passed \<open>validate_question\<close>.\<close>

definition validate_one ::
  "(rat \<Rightarrow> rat) \<Rightarrow> int option \<Rightarrow> dict \<Rightarrow> jval \<Rightarrow> unit res" where
  "validate_one lg decimals question answer = (case answer of
     JObj a \<Rightarrow>
       let kind = dget question ''type'' in
       rbind (raise_if (\<not> py_eq (dget a ''type'') kind) (ValueError ''Invalid answer type.'')) (\<lambda>_.
       rbind (if dget a ''confidence'' = JNull then Inr False else not_probability (dget a ''confidence'')) (\<lambda>bad.
       rbind (raise_if bad (ValueError ''Invalid confidence.'')) (\<lambda>_.
       if kind = JStr ''choice'' then
         (case validate_answer lg (JObj a) (keys (obj_of (dget question ''criteria''))) decimals of
            Inl (OtherExc t r) \<Rightarrow> (if t = ''DecisionError'' then Inl (ValueError ''Invalid choice answer.'')
              else Inl (OtherExc t r))
          | Inl e \<Rightarrow> Inl e
          | Inr _ \<Rightarrow> Inr ())
       else if kind = JStr ''noul'' then
         rbind (not_probability (dget a ''noul'')) (\<lambda>bad. raise_if bad (ValueError ''Invalid noul answer.''))
       else
         (let n = length (list_of (dget question ''criteria'')) in
          rbind (bad_score (dget a ''score'') n) (\<lambda>bad.
          rbind (raise_if bad (ValueError ''Invalid score.'')) (\<lambda>_.
          case dget a ''probabilities'' of
            JNull \<Rightarrow> Inr ()
          | JObj probs \<Rightarrow> rbind (score_distribution_bad probs n decimals) (\<lambda>bad.
              raise_if bad (ValueError ''Invalid score distribution.''))
          | _ \<Rightarrow> Inl (ValueError ''Invalid score distribution.'')))))))
   | _ \<Rightarrow> Inl (ValueError ''Invalid answer type.''))"

fun token_count :: "jval \<Rightarrow> bool" where
  "token_count (JInt i) = (0 \<le> i)"
| "token_count _ = False"

definition validate_usage :: "jval \<Rightarrow> dict res" where
  "validate_usage usage = (case usage of
     JObj u \<Rightarrow>
       rbind (raise_if (list_ex (\<lambda>k. has_key u k \<and> \<not> token_count (dget u k))
           [''input_tokens'', ''output_tokens'', ''total_tokens'']) (ValueError ''Invalid token usage.'')) (\<lambda>_.
       let cost = dget u ''cost'' in
       rbind (if cost = JNull then Inr False
              else rbind (finite_number cost) (\<lambda>f. Inr (\<not> f \<or> \<not> num_ge cost 0))) (\<lambda>bad.
       rbind (raise_if bad (ValueError ''Invalid cost.'')) (\<lambda>_. Inr u)))
   | _ \<Rightarrow> Inl (ValueError ''Invalid usage.''))"

definition validate_response :: "(rat \<Rightarrow> rat) \<Rightarrow> jval \<Rightarrow> dict \<Rightarrow> jval res" where
  "validate_response lg data payload = (case data of
     JObj d \<Rightarrow>
       rbind (raise_if (\<not> is_str (dget d ''model'') \<or> \<not> truthy (dget d ''model'')) (ValueError ''Missing decision model.'')) (\<lambda>_.
       let decimals = probability_decimals_for_model (dget d ''model'');
           questions = obj_of (dget payload ''questions'') in
       (case dget d ''answers'' of
          JObj answers \<Rightarrow>
            rbind (raise_if (\<not> same_keys answers (keys questions)) (ValueError ''Missing or unexpected answers.'')) (\<lambda>_.
            rbind (rfold (\<lambda>(key, q) _. validate_one lg decimals (obj_of q) (dget answers key)) questions ()) (\<lambda>_.
            rbind (validate_usage (py_or (dget d ''usage'') (JObj []))) (\<lambda>usage.
              Inr (JObj [(''model'', dget d ''model''), (''answers'', JObj answers), (''usage'', JObj usage)]))))
        | _ \<Rightarrow> Inl (ValueError ''Missing or unexpected answers.'')))
   | _ \<Rightarrow> Inl (ValueError ''Missing decision model.''))"

section \<open>Accepted payloads\<close>

interpretation payload_chk: checker validate_payload
  by unfold_locales (auto simp: validate_payload_def res_simps split: jval.splits)

definition question_ok :: "dict \<Rightarrow> bool" where
  "question_ok q =
     (dget q ''type'' = JStr ''choice'' \<and> (\<exists>c. dget q ''criteria'' = JObj c \<and> 1 \<le> length c \<and> length c \<le> 32)
    \<or> dget q ''type'' = JStr ''score'' \<and> (\<exists>c. dget q ''criteria'' = JList c \<and> 2 \<le> length c \<and> length c \<le> 32)
    \<or> dget q ''type'' = JStr ''noul'')"

lemma validate_question_ok: "validate_question name v = Inr () \<Longrightarrow> \<exists>q. v = JObj q \<and> question_ok q"
  by (auto simp: validate_question_def question_ok_def choice_criteria_def score_criteria_def res_simps
      split: jval.splits if_splits)

lemma validate_payload_questions:
  assumes "validate_payload (JObj p) = Inr v"
  shows "\<exists>qs. dget p ''questions'' = JObj qs \<and> 1 \<le> length qs \<and> length qs \<le> 32
    \<and> (\<forall>(name, v)\<in>set qs. \<exists>q. v = JObj q \<and> question_ok q)"
proof -
  from assms obtain qs where "dget p ''questions'' = JObj qs" and "1 \<le> length qs \<and> length qs \<le> 32"
      and "rfold (\<lambda>(name, q) _. validate_question name q) qs () = Inr ()"
    by (auto simp: validate_payload_def res_simps split: jval.splits)
  then show ?thesis
    using rfold_unit [of "\<lambda>(name, q). validate_question name q" qs] validate_question_ok
    by (fastforce simp: case_prod_unfold)
qed

section \<open>Accepted responses\<close>

definition answer_ok :: "int option \<Rightarrow> dict \<Rightarrow> dict \<Rightarrow> bool" where
  "answer_ok decimals q a =
     (opt_unit (dget a ''confidence'') \<and>
      (if dget q ''type'' = JStr ''choice'' then
         (\<exists>sel. dget a ''choice'' = JStr sel \<and> sel \<in> set (keys (obj_of (dget q ''criteria''))))
         \<and> (dget a ''probabilities'' = JNull \<or>
            (\<exists>d. dget a ''probabilities'' = JObj d \<and> spread d (keys (obj_of (dget q ''criteria''))) decimals))
       else if dget q ''type'' = JStr ''noul'' then unit_number (dget a ''noul'')
       else is_num (dget a ''score'') \<and> 0 \<le> rat_of (dget a ''score'')
         \<and> rat_of (dget a ''score'') \<le> of_nat (length (list_of (dget q ''criteria''))) - 1
         \<and> (dget a ''probabilities'' = JNull \<or>
            (\<exists>d. dget a ''probabilities'' = JObj d
               \<and> spread d (map nat_str [0..<length (list_of (dget q ''criteria''))]) decimals))))"

lemma validate_answer_choice_ok:
  assumes "validate_answer lg (JObj a) names decimals = Inr x" and "wf_val (JObj a)" and "length names \<le> 32"
  shows "(\<exists>sel. dget a ''choice'' = JStr sel \<and> sel \<in> set names)
    \<and> (dget a ''probabilities'' = JNull \<or> (\<exists>d. dget a ''probabilities'' = JObj d \<and> spread d names decimals))"
proof -
  obtain sel probs conf ent where x: "x = (sel, probs, conf, ent)" by (cases x)
  have "dget a ''choice'' = JStr sel \<and> probs = dget a ''probabilities''"
    using assms(1) unfolding x
    by (auto simp: validate_answer_def Let_def res_simps is_str_iff split: jval.splits if_splits)
  then show ?thesis using validate_answer_facts [OF assms(1) [unfolded x] assms(2,3)] by auto
qed

lemma bad_score_ok: "bad_score v n = Inr False \<Longrightarrow> is_num v \<and> 0 \<le> rat_of v \<and> rat_of v \<le> of_nat n - 1"
  using num_between_finite [of 0 v "of_nat n - 1"]
  by (auto simp: bad_score_def finite_number_def res_simps split: if_splits)

lemma score_distribution_ok:
  assumes "score_distribution_bad d n decimals = Inr False" and "wf_dict d" and "n \<le> 32"
  shows "spread d (map nat_str [0..<n]) decimals"
  using assms by (intro spread_from_checks) (auto simp: score_distribution_bad_def same_keys_def res_simps)

lemma validate_one_ok:
  assumes "validate_one lg decimals q answer = Inr ()" and "question_ok q" and "wf_val answer"
  shows "\<exists>a. answer = JObj a \<and> answer_ok decimals q a"
proof -
  from assms(1) obtain a where a: "answer = JObj a" by (auto simp: validate_one_def split: jval.splits)
  have conf: "opt_unit (dget a ''confidence'')"
    using assms(1)
    by (auto simp: a validate_one_def Let_def res_simps opt_unit_def intro: not_probability_False split: if_splits)
  consider c where "dget q ''type'' = JStr ''choice''" "dget q ''criteria'' = JObj c" "length c \<le> 32"
    | c where "dget q ''type'' = JStr ''score''" "dget q ''criteria'' = JList c" "length c \<le> 32"
    | "dget q ''type'' = JStr ''noul''"
    using assms(2) by (auto simp: question_ok_def)
  then show ?thesis
  proof cases
    case 1
    then obtain x where "validate_answer lg (JObj a) (keys c) decimals = Inr x"
      using assms(1)
      by (auto simp: a validate_one_def Let_def res_simps split: sum.splits exn.splits if_splits)
    from validate_answer_choice_ok [OF this] assms(3) 1 conf show ?thesis by (simp add: a answer_ok_def)
  next
    case 2
    then have s: "bad_score (dget a ''score'') (length c) = Inr False"
      and d: "dget a ''probabilities'' = JNull \<or> (\<exists>d. dget a ''probabilities'' = JObj d
          \<and> score_distribution_bad d (length c) decimals = Inr False)"
      using assms(1)
      by (auto simp: a validate_one_def Let_def res_simps split: jval.splits if_splits)
    have wf: "dget a ''probabilities'' = JObj d \<Longrightarrow> wf_dict d" for d
      using assms(3) a by (intro wf_dget_obj) simp_all
    have p: "dget a ''probabilities'' = JNull \<or> (\<exists>d. dget a ''probabilities'' = JObj d
        \<and> spread d (map nat_str [0..<length c]) decimals)"
      using d wf score_distribution_ok 2(3) by blast
    then show ?thesis using bad_score_ok [OF s] 2 conf by (simp add: a answer_ok_def)
  next
    case 3
    then have "not_probability (dget a ''noul'') = Inr False"
      using assms(1) by (auto simp: a validate_one_def Let_def res_simps split: if_splits)
    with 3 conf show ?thesis by (simp add: a answer_ok_def not_probability_False)
  qed
qed

lemma validate_response_shape:
  assumes "validate_response lg (JObj d) p = Inr r"
  obtains answers u where "dget d ''answers'' = JObj answers"
    and "r = JObj [(''model'', dget d ''model''), (''answers'', JObj answers), (''usage'', JObj u)]"
    and "set (keys answers) = set (keys (obj_of (dget p ''questions'')))"
    and "\<forall>(key, q)\<in>set (obj_of (dget p ''questions'')).
      validate_one lg (probability_decimals_for_model (dget d ''model'')) (obj_of q) (dget answers key) = Inr ()"
  using assms
    rfold_unit [of "\<lambda>(key, q). validate_one lg (probability_decimals_for_model (dget d ''model'')) (obj_of q)
       (dget (obj_of (dget d ''answers'')) key)" "obj_of (dget p ''questions'')"]
  by (auto simp: validate_response_def Let_def res_simps same_keys_def case_prod_unfold split: jval.splits)

text \<open>
  C31. A response that is accepted for an accepted payload answers exactly the questions asked, and every
  answer fits its question: a choice is one of the declared criteria, a noul is a probability, a score
  lies between 0 and the number of criteria less one, confidences are in [0, 1], and distributions are
  over exactly the declared criteria and sum to 1.
\<close>

theorem validate_response_sound:
  assumes "validate_payload (JObj p) = Inr v" and "validate_response lg (JObj d) p = Inr r"
    and "wf_val (JObj d)"
  shows "\<exists>qs answers. dget p ''questions'' = JObj qs \<and> dget d ''answers'' = JObj answers
    \<and> dget (obj_of r) ''answers'' = JObj answers \<and> set (keys answers) = set (keys qs)
    \<and> (\<forall>(name, v)\<in>set qs. \<exists>q a. v = JObj q \<and> dget answers name = JObj a
         \<and> answer_ok (probability_decimals_for_model (dget d ''model'')) q a)"
proof -
  from validate_payload_questions [OF assms(1)] obtain qs where qs: "dget p ''questions'' = JObj qs"
    and ok: "\<forall>(name, v)\<in>set qs. \<exists>q. v = JObj q \<and> question_ok q" by blast
  from assms(2) obtain answers u where an: "dget d ''answers'' = JObj answers"
    and r: "dget (obj_of r) ''answers'' = JObj answers" and k: "set (keys answers) = set (keys qs)"
    and one: "\<forall>(key, q)\<in>set qs. validate_one lg (probability_decimals_for_model (dget d ''model'')) (obj_of q)
        (dget answers key) = Inr ()"
    by (rule validate_response_shape) (simp add: qs)
  have "wf_val (JObj answers)" using wf_dget [OF assms(3), of "''answers''"] an by simp
  then have "wf_val (dget answers name)" for name by (rule wf_dget)
  with one ok validate_one_ok have "\<forall>(name, v)\<in>set qs. \<exists>q a. v = JObj q \<and> dget answers name = JObj a
      \<and> answer_ok (probability_decimals_for_model (dget d ''model'')) q a"
    by fastforce
  with qs an r k show ?thesis by blast
qed

definition demo_payload :: dict where
  "demo_payload = [(''state'', JStr ''s''), (''questions'', JObj [(''safe'', JObj [(''type'', JStr ''noul''),
     (''instructions'', JStr ''go'')])])]"

definition demo_response :: dict where
  "demo_response = [(''model'', JStr ''m''), (''answers'', JObj [(''safe'', JObj [(''type'', JStr ''noul''),
     (''noul'', JFloat (Fin (1 / 2)))])])]"

theorem validate_response_sound_witness:
  "unit_number (JFloat (Fin (1 / 2)))
   \<and> (\<exists>qs answers. dget demo_payload ''questions'' = JObj qs \<and> dget demo_response ''answers'' = JObj answers
       \<and> set (keys answers) = set (keys qs))"
proof -
  have p: "validate_payload (JObj demo_payload) = Inr (JObj demo_payload)"
    and r: "validate_response id (JObj demo_response) demo_payload
      = Inr (projr (validate_response id (JObj demo_response) demo_payload))"
    and w: "wf_val (JObj demo_response)"
    by code_simp+
  from validate_response_sound [OF p r w]
  obtain qs answers where q: "dget demo_payload ''questions'' = JObj qs" "dget demo_response ''answers'' = JObj answers"
    and k: "set (keys answers) = set (keys qs)"
    and all: "\<forall>(name, v)\<in>set qs. \<exists>q a. v = JObj q \<and> dget answers name = JObj a
      \<and> answer_ok (probability_decimals_for_model (dget demo_response ''model'')) q a" by blast
  have "unit_number (JFloat (Fin (1 / 2)))"
    using all q by (simp add: demo_payload_def demo_response_def) (auto simp: answer_ok_def)
  then show ?thesis using q k by blast
qed

section \<open>Errors\<close>

definition value_or_overflow :: "exn \<Rightarrow> bool" where
  "value_or_overflow e = (is_value_error e \<or> (\<exists>m. e = OverflowError m))"

lemma not_probability_error: "not_probability v = Inl e \<Longrightarrow> \<exists>m. e = OverflowError m"
  by (auto simp: not_probability_def probability_def py_isfinite_def res_simps split: if_splits jval.splits)

lemma rany_error: "rany p xs = Inl e \<Longrightarrow> \<exists>x\<in>set xs. p x = Inl e"
  by (induction xs) (auto simp: res_simps split: if_splits)

lemma ror_error: "ror x y = Inl e \<Longrightarrow> x = Inl e \<or> y = Inl e"
  by (auto simp: ror_def res_simps split: if_splits)

lemma sum_error: "rbind (probability_sum_valid vs decimals) f = Inl e \<Longrightarrow> (\<And>b. f b \<noteq> Inl e) \<Longrightarrow> \<exists>m. e = OverflowError m"
  by (auto simp: probability_sum_valid_def res_simps dest!: ror_error rany_error not_probability_error)

lemma validate_answer_error:
  "validate_answer lg a names decimals = Inl e \<Longrightarrow> (\<exists>r. e = decision_error r) \<or> (\<exists>m. e = OverflowError m)"
  by (auto simp: validate_answer_def distribution_bad_def Let_def res_simps split: jval.splits if_splits
      dest!: ror_error rany_error not_probability_error sum_error)

lemma finite_number_error: "finite_number v = Inl e \<Longrightarrow> \<exists>m. e = OverflowError m"
  by (auto simp: finite_number_def py_isfinite_def split: if_splits jval.splits)

lemma value_or_overflow_intros [intro!]:
  "value_or_overflow (ValueError m)" "value_or_overflow (OverflowError m)"
  by (auto simp: value_or_overflow_def)

definition mild :: "'a res \<Rightarrow> bool" where
  "mild x = (case x of Inl e \<Rightarrow> value_or_overflow e | Inr _ \<Rightarrow> True)"

lemma mildD: "mild x \<Longrightarrow> x = Inl e \<Longrightarrow> value_or_overflow e"
  by (simp add: mild_def)

lemma mild_basic [simp, intro!]:
  "mild (Inr x)" "mild (Inl (ValueError m))" "mild (Inl (OverflowError m))" "mild (raise_if b (ValueError m))"
  by (auto simp: mild_def raise_if_def)

lemma mild_rbind [intro!]: "mild x \<Longrightarrow> (\<And>y. mild (f y)) \<Longrightarrow> mild (rbind x f)"
  by (cases x) (auto simp: mild_def)

lemma mild_ror [intro!]: "mild x \<Longrightarrow> mild y \<Longrightarrow> mild (ror x y)"
  by (cases x) (auto simp: ror_def)

lemma mild_not_probability [intro!]: "mild (not_probability v)"
  by (auto simp: mild_def split: sum.splits dest!: not_probability_error)

lemma mild_rany [intro!]: "mild (rany not_probability vs)"
  by (auto simp: mild_def split: sum.splits dest!: rany_error not_probability_error)

lemma mild_sum [intro!]: "mild (probability_sum_valid vs decimals)"
  by (auto simp: probability_sum_valid_def)

lemma mild_finite_number [intro!]: "mild (finite_number v)"
  by (auto simp: mild_def split: sum.splits dest!: finite_number_error)

lemma mild_bad_score [intro!]: "mild (bad_score v n)"
  by (auto simp: bad_score_def)

lemma mild_score_distribution [intro!]: "mild (score_distribution_bad probs n decimals)"
  by (auto simp: score_distribution_bad_def)

lemma validate_one_error: "validate_one lg decimals q a = Inl e \<Longrightarrow> value_or_overflow e"
proof (erule mildD [rotated])
  have "mild (case validate_answer lg v names decimals of
      Inl (OtherExc t r) \<Rightarrow> if t = ''DecisionError'' then Inl (ValueError m) else Inl (OtherExc t r)
    | Inl e \<Rightarrow> Inl e | Inr _ \<Rightarrow> Inr ())" for v names m
    using validate_answer_error [of lg v names decimals]
    by (cases "validate_answer lg v names decimals") (auto simp: decision_error_def split: exn.splits)
  then show "mild (validate_one lg decimals q a)"
    unfolding validate_one_def Let_def by (auto split: jval.splits)
qed

lemma validate_usage_error: "validate_usage u = Inl e \<Longrightarrow> value_or_overflow e"
  unfolding value_or_overflow_def
  by (auto simp: validate_usage_def Let_def res_simps split: jval.splits if_splits dest!: finite_number_error)

text \<open>
  Whatever a decision model returns, validating it raises nothing but \<open>ValueError\<close>, or the
  \<open>OverflowError\<close> of an integer too large for a float.
\<close>

lemma validate_response_errors:
  assumes "validate_response lg data p = Inl e"
  shows "is_value_error e \<or> (\<exists>m. e = OverflowError m)"
  using assms unfolding value_or_overflow_def [symmetric]
  by (auto simp: validate_response_def Let_def res_simps value_or_overflow_def [of "ValueError _"]
      split: jval.splits dest!: rfold_Inl validate_one_error validate_usage_error)

text \<open>
  That \<open>OverflowError\<close> does occur: an answer whose confidence is an integer beyond the float range
  makes the validation raise it (\<open>math.isfinite\<close> converts), although every other malformed confidence is
  reported as \<open>ValueError\<close>.
\<close>

lemma validate_response_overflow:
  assumes "int_too_large i" and "dget q ''type'' = JStr kind"
  shows "validate_response lg (JObj [(''model'', JStr ''m''), (''answers'', JObj [(name, JObj
      [(''type'', JStr kind), (''confidence'', JInt i)])])]) [(''questions'', JObj [(name, JObj q)])]
    = Inl (OverflowError ''int too large to convert to float'')"
  using assms
  by (simp add: validate_response_def same_keys_def validate_one_def not_probability_def probability_def
      py_isfinite_def)

end
