(* ===== verification/JevProvider.thy ===== *)
theory JevProvider
  imports DecisionProtocol
begin

text \<open>
  \<open>decision_providers/jev.py\<close>: a decision over HTTP with a bounded response, at most one retry and an
  absolute deadline. The HTTP client, the pause between attempts (with the timeout around both) and the
  clock are arguments, acting on a world of any type. Response bodies are UTF-8 text.
\<close>

section \<open>Configuration\<close>

definition ENDPOINTS :: "(string \<times> string) list" where
  "ENDPOINTS = [(''openrouter'', ''https://openrouter.ai/api/alpha/decisions''),
                (''typesafe'', ''https://api.typesafe.ai/v1/systemone'')]"

definition MODELS :: "(string \<times> string) list" where
  "MODELS = [(''openrouter'', ''typesafe/jev-1.13''), (''typesafe'', ''jev-1.13'')]"

definition JEV_MAX_REQUEST_BYTES :: nat where
  "JEV_MAX_REQUEST_BYTES = 32000"

definition JEV_MAX_RESPONSE_BYTES :: nat where
  "JEV_MAX_RESPONSE_BYTES = 65536"

definition unique_object :: hook where
  "unique_object ps = rbind
     (rfold (\<lambda>(k, v) result. if has_key result k then Inl (ValueError ''Duplicate JSON key'')
                             else Inr (dset k v result)) ps [])
     (\<lambda>result. Inr (JObj result))"

record jev =
  api_key :: string
  transport :: string
  jev_model :: string
  max_retries :: nat

definition jev_init :: "string \<Rightarrow> string \<Rightarrow> jval \<Rightarrow> jval \<Rightarrow> jev res" where
  "jev_init key tr model retries =
     (case (map_of MODELS tr, retries) of
        (Some pinned, JInt n) \<Rightarrow>
          rbind (raise_if (\<not> has_key ENDPOINTS tr \<or> \<not> (0 \<le> n \<and> n \<le> 1))
            (ValueError ''Invalid decision transport configuration'')) (\<lambda>_.
          let m = py_or model (JStr pinned) in
          rbind (raise_if (\<not> is_str m \<or> contains ''latest'' (str_of m) \<or> 100 < py_len (str_of m))
            (ValueError ''Pin a decision model version'')) (\<lambda>_.
            Inr \<lparr> api_key = key, transport = tr, jev_model = str_of m, max_retries = nat n \<rparr>))
      | _ \<Rightarrow> Inl (ValueError ''Invalid decision transport configuration''))"

section \<open>Reading a response\<close>

text \<open>A \<open>DecisionError\<close> with its reason, cost and attempts, or an exception of another kind.\<close>

datatype jev_error = DecErr string jval nat | Escapes exn

fun jev_fail :: "jval \<Rightarrow> nat \<Rightarrow> exn \<Rightarrow> jev_error" where
  "jev_fail cost n (OtherExc t r) = (if t = ''DecisionError'' then DecErr r cost n else Escapes (OtherExc t r))"
| "jev_fail cost n (ValueError _) = DecErr ''invalid_response'' cost n"
| "jev_fail cost n (AttributeError _) = DecErr ''invalid_response'' cost n"
| "jev_fail cost n (TypeError _) = DecErr ''invalid_response'' cost n"
| "jev_fail cost n e = Escapes e"

definition parse_cost :: "jval \<Rightarrow> (jval \<times> jval) res" where
  "parse_cost data =
     rbind (vget data ''usage'') (\<lambda>u.
     let usage = py_or u (JObj []) in
     rbind (vget usage ''cost'') (\<lambda>cost.
     rbind (if cost = JNull then Inr False
            else rbind (finite_number cost) (\<lambda>f. Inr (\<not> f \<or> \<not> num_ge cost 0))) (\<lambda>bad.
     rbind (raise_if bad (ValueError ''Invalid usage'')) (\<lambda>_. Inr (usage, cost)))))"

definition parse_rest :: "(rat \<Rightarrow> rat) \<Rightarrow> string list \<Rightarrow> jval \<Rightarrow> jval \<Rightarrow> (jval \<times> string \<times> answer) res" where
  "parse_rest lg names data usage =
     rbind (vget usage ''input_tokens'') (\<lambda>tokens.
     rbind (raise_if (tokens \<noteq> JNull \<and> \<not> token_count tokens) (ValueError ''Invalid usage'')) (\<lambda>_.
     rbind (vget data ''model'') (\<lambda>model.
     rbind (raise_if (\<not> is_str model \<or> \<not> truthy model \<or> 160 < py_len (str_of model)) (ValueError ''Missing model'')) (\<lambda>_.
     rbind (vget (dget_or (obj_of data) ''answers'' (JObj [])) ''selection'') (\<lambda>answer.
     rbind (validate_answer lg answer names (probability_decimals_for_model model)) (\<lambda>a.
       Inr (tokens, str_of model, a)))))))"

definition jev_parse ::
  "(rat \<Rightarrow> rat) \<Rightarrow> string \<Rightarrow> string \<Rightarrow> decision_request \<Rightarrow> rat \<Rightarrow> nat \<Rightarrow> bool \<Rightarrow> jev_error + decision_result" where
  "jev_parse lg tr raw r latency n unmetered =
     (case rbind (json_loads unique_object raw) (\<lambda>data. rbind (parse_cost data) (\<lambda>(usage, cost). Inr (data, usage, cost))) of
        Inl e \<Rightarrow> Inl (jev_fail JNull n e)
      | Inr (data, usage, cost) \<Rightarrow>
          (let shown = (if unmetered then JNull else cost) in
           case parse_rest lg (choice_ids r) data usage of
             Inl e \<Rightarrow> Inl (jev_fail shown n e)
           | Inr (tokens, model, a) \<Rightarrow>
               Inr ((mk_result a tr)\<lparr> model_name := model, latency_ms := latency, cost_usd := shown,
                      input_tokens := tokens, attempts := n \<rparr>)))"

section \<open>Attempts\<close>

text \<open>
  What the HTTP client does with one POST: a status with the chunks of the body, which may break off, or
  no response at all. A fault is a transport error, the timeout, or another exception.
\<close>

datatype fault = Lost | Late | Fault exn
datatype reply = Response int "string list" "fault option" | NoReply fault

record 'w http =
  post :: "string \<Rightarrow> string \<Rightarrow> 'w \<Rightarrow> reply \<times> 'w"
  pause :: "'w \<Rightarrow> bool \<times> 'w"
  monotonic :: "'w \<Rightarrow> rat \<times> 'w"

fun read_body :: "nat \<Rightarrow> string \<Rightarrow> string list \<Rightarrow> string option" where
  "read_body limit raw [] = Some raw"
| "read_body limit raw (c # cs) = (if limit < length (raw @ c) then None else read_body limit (raw @ c) cs)"

definition json_request :: "jev \<Rightarrow> decision_request \<Rightarrow> jval" where
  "json_request cfg r = JObj [(''model'', JStr (jev_model cfg)), (''state'', req_state r),
     (''questions'', JObj [(''selection'', JObj [(''type'', JStr ''choice''),
        (''instructions'', JStr (instruction r)),
        (''criteria'', JObj (dupd [] (map (\<lambda>(i, d). (i, JStr d)) (req_choices r))))])])]"

definition url_of :: "jev \<Rightarrow> string" where
  "url_of cfg = dget_or ENDPOINTS (transport cfg) []"

text \<open>The \<open>for attempt in range(max_retries + 1)\<close> loop; \<open>left\<close> attempts may follow this one.\<close>

fun jev_attempts ::
  "(rat \<Rightarrow> rat) \<Rightarrow> jev \<Rightarrow> 'w http \<Rightarrow> string \<Rightarrow> decision_request \<Rightarrow> rat \<Rightarrow> nat \<Rightarrow> nat \<Rightarrow> bool \<Rightarrow> 'w
    \<Rightarrow> (jev_error + decision_result) \<times> 'w" where
  "jev_attempts lg cfg h body r started left done unmetered w =
     (let n = done + 1;
          again = (\<lambda>w. case left of
             0 \<Rightarrow> (Inl (DecErr ''transport'' JNull n), w)
           | Suc left' \<Rightarrow> (case pause h w of
                 (True, w') \<Rightarrow> (Inl (DecErr ''timeout'' JNull n), w')
               | (False, w') \<Rightarrow> jev_attempts lg cfg h body r started left' n True w'))
      in case post h (url_of cfg) body w of
           (NoReply Lost, w') \<Rightarrow> again w'
         | (NoReply Late, w') \<Rightarrow> (Inl (DecErr ''timeout'' JNull n), w')
         | (NoReply (Fault e), w') \<Rightarrow> (Inl (Escapes e), w')
         | (Response status chunks end, w') \<Rightarrow>
             if status \<noteq> 200 then
               (if (status = 429 \<or> 500 \<le> status) \<and> 0 < left then again w'
                else (Inl (DecErr (''http_'' @ int_str status) JNull n), w'))
             else (case read_body JEV_MAX_RESPONSE_BYTES [] chunks of
                 None \<Rightarrow> (Inl (DecErr ''response_too_large'' JNull n), w')
               | Some raw \<Rightarrow>
                   (case end of
                      Some Lost \<Rightarrow> again w'
                    | Some Late \<Rightarrow> (Inl (DecErr ''timeout'' JNull n), w')
                    | Some (Fault e) \<Rightarrow> (Inl (Escapes e), w')
                    | None \<Rightarrow>
                        (case monotonic h w' of (now, w'') \<Rightarrow>
                           (jev_parse lg (transport cfg) raw r (fl (fl (now - started) * 1000)) n unmetered, w'')))))"

definition jev_decide ::
  "(rat \<Rightarrow> rat) \<Rightarrow> jev \<Rightarrow> 'w http \<Rightarrow> decision_request \<Rightarrow> rat \<Rightarrow> 'w \<Rightarrow> (jev_error + decision_result) \<times> 'w" where
  "jev_decide lg cfg h r deadline w =
     (case validate_request r of
        Inl e \<Rightarrow> (Inl (Escapes e), w)
      | Inr _ \<Rightarrow>
          if api_key cfg = [] then (Inl (DecErr ''missing_credentials'' (JInt 0) 0), w)
          else (case dumps_strict True '','' '':'' (json_request cfg r) of
              Inl e \<Rightarrow> (Inl (Escapes e), w)
            | Inr body \<Rightarrow>
                if JEV_MAX_REQUEST_BYTES < length body then (Inl (DecErr ''request_too_large'' (JInt 0) 0), w)
                else (case monotonic h w of (started, w1) \<Rightarrow>
                    if deadline \<le> started then (Inl (DecErr ''deadline'' (JInt 0) 0), w1)
                    else jev_attempts lg cfg h body r started (max_retries cfg) 0 False w1)))"

section \<open>What a decision promises\<close>

lemma jev_parse_Inr:
  assumes "jev_parse lg tr raw r latency n unmetered = Inr x"
  shows "selected_id x \<in> set (choice_ids r) \<and> attempts x = n \<and> (unmetered \<longrightarrow> cost_usd x = JNull)"
  using assms
  by (auto simp: jev_parse_def parse_rest_def mk_result_def Let_def res_simps split: sum.splits prod.splits
      dest!: validate_answer_choice)

lemma jev_attempts_Inr:
  assumes "jev_attempts lg cfg h body r started left done unmetered w = (Inr x, w')"
  shows "selected_id x \<in> set (choice_ids r) \<and> done < attempts x \<and> attempts x \<le> done + left + 1
    \<and> (unmetered \<or> done + 1 < attempts x \<longrightarrow> cost_usd x = JNull)"
  using assms
proof (induction left arbitrary: "done" unmetered w)
  case 0
  then show ?case
    by (auto simp: Let_def dest!: jev_parse_Inr
        split: prod.splits reply.splits fault.splits option.splits if_splits bool.splits)
next
  case (Suc left)
  show ?case
    using Suc.prems
    by (auto simp: Let_def dest!: jev_parse_Inr Suc.IH simp del: jev_attempts.simps
        simp: jev_attempts.simps [of lg cfg h body r started "Suc left"]
        split: prod.splits reply.splits fault.splits option.splits if_splits bool.splits)
qed

lemma jev_decide_Inr:
  assumes "jev_decide lg cfg h r deadline w = (Inr x, w')"
  shows "validate_request r = Inr ()" and "selected_id x \<in> set (choice_ids r)"
    and "attempts x \<le> max_retries cfg + 1" and "attempts x \<noteq> 1 \<longrightarrow> cost_usd x = JNull"
  using assms
  by (force simp: jev_decide_def simp del: jev_attempts.simps split: sum.splits if_splits prod.splits
      dest!: jev_attempts_Inr)+

interpretation jev: decision_provider "\<lambda>r x. \<exists>deadline w w'. jev_decide lg cfg h r deadline w = (Inr x, w')"
  by unfold_locales (auto dest: jev_decide_Inr)

text \<open>
  C33. A decision that is returned answers a valid request with one of its choices, was made within
  \<open>max_retries + 1\<close> attempts, and reports no cost when an earlier attempt went unmetered; through the
  interface of decision providers the selected choice has a description of at most 1000 characters.
\<close>

theorem jev_decide_sound:
  assumes "jev_decide lg cfg h r deadline w = (Inr x, w')"
  shows "(\<exists>d. map_of (req_choices r) (selected_id x) = Some d \<and> d \<noteq> [] \<and> py_len d \<le> 1000)
    \<and> attempts x \<le> max_retries cfg + 1 \<and> (attempts x \<noteq> 1 \<longrightarrow> cost_usd x = JNull)"
  using jev.has_description [of lg cfg h r x] jev_decide_Inr(3,4) [OF assms] assms by blast

definition demo_cfg :: jev where
  "demo_cfg = \<lparr> api_key = ''k'', transport = ''typesafe'', jev_model = ''jev-1.13'', max_retries = 1 \<rparr>"

definition demo_http :: "nat http" where
  "demo_http = \<lparr> post = (\<lambda>url body w. (if w = 0 then NoReply Lost else Response 200
       [''{'' @ [CHR 0x22] @ ''model'' @ [CHR 0x22] @ '':'' @ [CHR 0x22] @ ''m'' @ [CHR 0x22] @ '','' @ [CHR 0x22] @ ''answers'' @ [CHR 0x22] @ '':{'' @ [CHR 0x22] @ ''selection'' @ [CHR 0x22] @ '':{'',
        [CHR 0x22] @ ''type'' @ [CHR 0x22] @ '':'' @ [CHR 0x22] @ ''choice'' @ [CHR 0x22] @ '','' @ [CHR 0x22] @ ''choice'' @ [CHR 0x22] @ '':'' @ [CHR 0x22] @ ''a'' @ [CHR 0x22] @ ''}}}''] None, w + 1)),
     pause = (\<lambda>w. (False, w)), monotonic = (\<lambda>w. (of_nat w, w)) \<rparr>"

definition demo_request :: decision_request where
  "demo_request = \<lparr> decision_id = ''d'', instruction = ''pick'', req_state = JObj [],
     req_choices = [(''a'', ''first''), (''b'', ''second'')] \<rparr>"

theorem jev_decide_sound_witness:
  "(\<exists>d. map_of (req_choices demo_request) ''a'' = Some d \<and> d \<noteq> [] \<and> py_len d \<le> 1000)
   \<and> fst (jev_decide id demo_cfg demo_http demo_request 10 0) = Inr \<lparr> selected_id = ''a'', probabilities = JNull,
       confidence = JNull, normalized_entropy = None, provider = ''typesafe'', model_name = ''m'', latency_ms = 2000,
       cost_usd = JNull, input_tokens = JNull, attempts = 2 \<rparr>"
proof -
  have r: "jev_decide id demo_cfg demo_http demo_request 10 0 = (Inr \<lparr> selected_id = ''a'', probabilities = JNull,
       confidence = JNull, normalized_entropy = None, provider = ''typesafe'', model_name = ''m'', latency_ms = 2000,
       cost_usd = JNull, input_tokens = JNull, attempts = 2 \<rparr>, 2)"
    by code_simp
  show ?thesis using jev_decide_sound [OF r] r by simp
qed

section \<open>Accounting\<close>

text \<open>How many attempts the outcome reports.\<close>

fun reported :: "jev_error + decision_result \<Rightarrow> nat option" where
  "reported (Inl (DecErr _ _ n)) = Some n"
| "reported (Inl (Escapes _)) = None"
| "reported (Inr x) = Some (attempts x)"

lemma jev_fail_reported: "reported (Inl (jev_fail c n e)) = None \<or> reported (Inl (jev_fail c n e)) = Some n"
  by (cases "(c, n, e)" rule: jev_fail.cases) auto

lemma jev_parse_reported:
  "reported (jev_parse lg tr raw r latency n unmetered) = None
   \<or> reported (jev_parse lg tr raw r latency n unmetered) = Some n"
  using jev_fail_reported by (auto simp: jev_parse_def Let_def split: sum.splits prod.splits)

lemma jev_attempts_reported:
  assumes "\<And>u b w. count (snd (post h u b w)) = count w + 1" and "\<And>w. count (snd (pause h w)) = count w"
    and "\<And>w. count (snd (monotonic h w)) = count w"
    and "jev_attempts lg cfg h body r started left done unmetered w = (out, w')"
  shows "reported out = None \<or> reported out = Some (done + count w' - count w) \<and> count w \<le> count w'"
  using assms(4)
proof (induction left arbitrary: "done" unmetered w)
  case 0
  obtain rep w1 where p: "post h (url_of cfg) body w = (rep, w1)" by fastforce
  then have c1: "count w1 = count w + 1" using assms(1) [of "url_of cfg" body w] by simp
  obtain now w2 where m: "monotonic h w1 = (now, w2)" by fastforce
  then have c2: "count w2 = count w1" using assms(3) [of w1] by simp
  from 0 show ?case
    using c1 c2 jev_parse_reported [of lg "transport cfg" _ r _ "done + 1" unmetered]
    by (auto simp: Let_def p m split: reply.splits fault.splits option.splits if_splits)
next
  case (Suc left)
  obtain rep w1 where p: "post h (url_of cfg) body w = (rep, w1)" by fastforce
  then have c1: "count w1 = count w + 1" using assms(1) [of "url_of cfg" body w] by simp
  obtain now w2 where m: "monotonic h w1 = (now, w2)" by fastforce
  then have c2: "count w2 = count w1" using assms(3) [of w1] by simp
  obtain late w3 where q: "pause h w1 = (late, w3)" by fastforce
  then have c3: "count w3 = count w1" using assms(2) [of w1] by simp
  note ih = Suc.IH [of "done + 1" True w3]
  have again: "reported out = None \<or> reported out = Some (done + count w' - count w) \<and> count w \<le> count w'"
    if "jev_attempts lg cfg h body r started left (done + 1) True w3 = (out, w')"
    using ih [OF that] c1 c3 by auto
  from Suc.prems show ?case
    using c1 c2 c3 again jev_parse_reported [of lg "transport cfg" _ r _ "done + 1" unmetered]
    by (auto simp: Let_def p m q jev_attempts.simps [of lg cfg h body r started "Suc left"]
        simp del: jev_attempts.simps split: reply.splits fault.splits option.splits if_splits bool.splits)
qed

text \<open>
  Attempts are counted exactly: whatever the outcome, a success or a \<open>DecisionError\<close> reports as
  many attempts as requests were really sent (an expired deadline or an oversized request sends none).
\<close>

lemma jev_attempts_counted:
  assumes "\<And>u b w. count (snd (post h u b w)) = count w + 1" and "\<And>w. count (snd (pause h w)) = count w"
    and "\<And>w. count (snd (monotonic h w)) = count w"
    and "jev_decide lg cfg h r deadline w = (out, w')" and "\<And>e. out \<noteq> Inl (Escapes e)"
  shows "reported out = Some (count w' - count w) \<and> count w \<le> count w'"
proof -
  have n: "reported out \<noteq> None" using assms(5) by (cases out rule: reported.cases) auto
  obtain started w1 where m: "monotonic h w = (started, w1)" by fastforce
  then have c: "count w1 = count w" using assms(3) [of w] by simp
  from assms(4) consider "reported out = Some 0" "w' = w \<or> w' = w1" | e where "out = Inl (Escapes e)"
    | body where "jev_attempts lg cfg h body r started (max_retries cfg) 0 False w1 = (out, w')"
    by (auto simp: jev_decide_def m simp del: jev_attempts.simps split: sum.splits if_splits)
  then show ?thesis
  proof cases
    case 1
    then show ?thesis using c by auto
  next
    case 2
    then show ?thesis using assms(5) by blast
  next
    case 3
    from jev_attempts_reported [OF assms(1-3) this] n c show ?thesis by auto
  qed
qed

end
