(* ===== verification/FlowRouting.thy ===== *)
theory FlowRouting
  imports DecisionProtocol PyNum
begin

text \<open>
  \<open>flow_routing.py\<close>: the choice of a policy for one node of a flow by a decision model. The host's
  \<open>execute_async\<close>, with the timeout around it, is an argument acting on a world of any type. The routing
  record is that of an admitted flow: its fields are present and have their types.
\<close>

section \<open>The evidence sent along\<close>

fun state_loop :: "jval list \<Rightarrow> nat \<Rightarrow> jval list \<Rightarrow> nat \<Rightarrow> jval list \<times> nat" where
  "state_loop [] remaining selected omitted = (selected, omitted)"
| "state_loop (m # ms) remaining selected omitted =
     (let text = dumps True '','' '':'' m in
      if remaining < 128 then state_loop ms remaining selected (omitted + 1)
      else let limit = min 2400 remaining in
        state_loop ms (remaining - min (length text) limit)
          (selected @ [JObj [(''message'', JStr (take limit text)), (''truncated'', JBool (limit < length text))]])
          omitted)"

definition decision_state :: "jval list \<Rightarrow> string \<Rightarrow> dict" where
  "decision_state messages prompt =
     (case state_loop (rev messages) 12000 [] 0 of (selected, omitted) \<Rightarrow>
        [(''history'', JList (rev selected)), (''omitted_messages'', JInt (int omitted)),
         (''request'', JStr (py_take 2000 prompt)), (''request_truncated'', JBool (2000 < py_len prompt))])"

section \<open>The cost of a result\<close>

definition reported_cost :: "jval \<Rightarrow> bool res" where
  "reported_cost v = rbind (finite_number v) (\<lambda>f. Inr (f \<and> num_ge v 0))"

definition priced_cost :: "dict \<Rightarrow> jval \<Rightarrow> jval \<Rightarrow> jval \<Rightarrow> jval res" where
  "priced_cost response tokens_in pin pout =
     (let cached = py_or (dget response ''tokens_cached'') (JInt 0) in
      rbind (py_sub tokens_in cached) (\<lambda>fresh.
      rbind (py_max (JInt 0) fresh) (\<lambda>fresh.
      rbind (py_mul fresh pin) (\<lambda>a.
      rbind (py_mul cached pin) (\<lambda>b.
      rbind (py_mul b (lit (1 / 10))) (\<lambda>b.
      rbind (py_add a b) (\<lambda>ab.
      rbind (py_mul (py_or (dget response ''tokens_out'') (JInt 0)) pout) (\<lambda>c.
      rbind (py_add ab c) (\<lambda>s.
        py_div s (JFloat (Fin 1000000)))))))))))"

definition result_cost :: "dict \<Rightarrow> jval res" where
  "result_cost result =
     (case (py_or (dget result ''response'') (JObj []), py_or (dget result ''chosen'') (JObj [])) of
        (JObj response, JObj chosen) \<Rightarrow>
          (let reported = dget response ''cost_reported'' in
           rbind (reported_cost reported) (\<lambda>ok.
             if ok then Inr reported
             else
               let pin = dget_or chosen ''raw_price_in'' (dget chosen ''price_in'');
                   pout = dget_or chosen ''raw_price_out'' (dget chosen ''price_out'') in
               if pin = JNull \<or> pout = JNull \<or> dget response ''tokens_in'' = JNull then Inr JNull
               else if \<not> has_key chosen ''raw_price_in'' \<and> \<not> has_key chosen ''raw_price_out'' then
                 (let mult = py_or (dget chosen ''price_multiplier'') (JInt 1) in
                  rbind (py_div pin mult) (\<lambda>pin. rbind (py_div pout mult) (\<lambda>pout.
                    priced_cost response (dget response ''tokens_in'') pin pout)))
               else priced_cost response (dget response ''tokens_in'') pin pout))
      | (JObj response, c) \<Rightarrow> rbind (reported_cost (dget response ''cost_reported'')) (\<lambda>ok.
          if ok then Inr (dget response ''cost_reported'') else Inl (attr_err c ''get''))
      | (r, _) \<Rightarrow> Inl (attr_err r ''get''))"

section \<open>Selecting the policy\<close>

record routing =
  rt_choices :: "(string \<times> (string \<times> jval)) list"
  rt_fallback :: string
  rt_instructions :: string
  rt_policy :: jval
  rt_timeout_ms :: int
  rt_min_confidence :: rat

definition routing_payload :: "routing \<Rightarrow> jval list \<Rightarrow> string \<Rightarrow> dict" where
  "routing_payload rt messages prompt =
     [(''state'', JObj (decision_state messages prompt)),
      (''questions'', JObj [(''route'', JObj [(''type'', JStr ''choice''), (''instructions'', JStr (rt_instructions rt)),
         (''criteria'', JObj (map (\<lambda>(k, desc, _). (k, JStr desc)) (rt_choices rt)))])])]"

definition routing_contract :: "routing \<Rightarrow> dict \<Rightarrow> jval \<Rightarrow> jval" where
  "routing_contract rt payload session =
     JObj [(''protocol'', JStr ''decisions''), (''decision'', JObj payload), (''policy_ir'', rt_policy rt),
           (''timeout_ms'', JInt (rt_timeout_ms rt)), (''session'', session)]"

text \<open>The body of the \<open>try\<close> updates \<open>trace\<close> as it goes: a computation on the trace that may raise.\<close>

type_synonym 'a traced = "dict \<Rightarrow> 'a res \<times> dict"

definition tbind :: "'a traced \<Rightarrow> ('a \<Rightarrow> 'b traced) \<Rightarrow> 'b traced" where
  "tbind m f t = (case m t of (Inl e, t') \<Rightarrow> (Inl e, t') | (Inr x, t') \<Rightarrow> f x t')"

definition tset :: "dict \<Rightarrow> unit traced" where
  "tset kvs t = (Inr (), dupd t kvs)"

definition tlift :: "'a res \<Rightarrow> 'a traced" where
  "tlift r t = (r, t)"

text \<open>What the answer says, after validation: \<open>None\<close> keeps the fallback.\<close>

definition use_answer :: "(rat \<Rightarrow> rat) \<Rightarrow> routing \<Rightarrow> dict \<Rightarrow> jval \<Rightarrow> string option traced" where
  "use_answer lg rt payload decision =
     tbind (tlift (rbind (validate_response lg decision payload) (\<lambda>d.
            rbind (vget d ''answers'') (\<lambda>answers. dsub (obj_of answers) ''route'')))) (\<lambda>answer.
     let a = obj_of answer; confidence = dget a ''confidence'' in
     tbind (tlift (rbind (dsub a ''choice'') (\<lambda>c. rbind (dsub a ''probabilities'') (\<lambda>p. Inr (c, p))))) (\<lambda>(choice, probs).
     tbind (tset [(''proposed'', choice), (''confidence'', confidence), (''probabilities'', probs)]) (\<lambda>_.
     tbind (if confidence = JNull then tlift (Inr True)
            else tlift (py_lt confidence (JFloat (Fin (rt_min_confidence rt))))) (\<lambda>unsure.
     if unsure then tbind (tset [(''fallback_reason'', JStr ''uncertain'')]) (\<lambda>_. tlift (Inr None))
     else tbind (tset [(''selected'', choice), (''fallback_used'', JBool False)]) (\<lambda>_.
       tlift (Inr (Some (str_of choice))))))))"

definition read_result :: "(rat \<Rightarrow> rat) \<Rightarrow> routing \<Rightarrow> dict \<Rightarrow> dict \<Rightarrow> string option traced" where
  "read_result lg rt payload result =
     tbind (tlift (result_cost result)) (\<lambda>cost.
     tbind (tset [(''cost_usd'', cost), (''decision_trace'', dget result ''trace'')]) (\<lambda>_.
     let response = py_or (dget result ''response'') (JObj []) in
     tbind (tlift (vget response ''tokens_in'')) (\<lambda>tin.
     tbind (tset [(''tokens_in'', tin)]) (\<lambda>_.
     tbind (tlift (vget response ''tokens_out'')) (\<lambda>tout.
     tbind (tset [(''tokens_out'', tout)]) (\<lambda>_.
     tbind (tlift (vget (py_or (dget result ''chosen'') (JObj [])) ''served_model_id'')) (\<lambda>model.
     tbind (tset [(''model'', model)]) (\<lambda>_.
     if \<not> truthy (dget result ''ok'')
     then tbind (tset [(''fallback_reason'', JStr ''decision_failed'')]) (\<lambda>_. tlift (Inr None))
     else tbind (tlift (vget response ''decision'')) (use_answer lg rt payload)))))))))"

definition handle :: "exn \<Rightarrow> dict \<Rightarrow> dict" where
  "handle e trace = (case e of
     TimeoutError _ \<Rightarrow> dset ''fallback_reason'' (JStr ''decision_timeout'') trace
   | ValueError _ \<Rightarrow> dset ''fallback_reason'' (JStr ''invalid_decision'') trace
   | TypeError _ \<Rightarrow> dset ''fallback_reason'' (JStr ''invalid_decision'') trace
   | KeyError _ \<Rightarrow> dset ''fallback_reason'' (JStr ''invalid_decision'') trace
   | _ \<Rightarrow> dupd trace [(''fallback_reason'', JStr ''decision_error''), (''error'', JStr (exn_type e))])"

definition select_node_policy ::
  "(rat \<Rightarrow> rat) \<Rightarrow> (jval \<Rightarrow> 'w \<Rightarrow> dict res \<times> 'w) \<Rightarrow> routing \<Rightarrow> jval list \<Rightarrow> string \<Rightarrow> jval \<Rightarrow> 'w
    \<Rightarrow> (jval \<times> dict) res \<times> 'w" where
  "select_node_policy lg execute rt messages prompt session w =
     (let payload = routing_payload rt messages prompt;
          trace0 = [(''selected'', JStr (rt_fallback rt)), (''fallback_used'', JBool True), (''cost_usd'', JNull)];
          (outcome, w') = (case validate_payload (JObj payload) of
             Inl e \<Rightarrow> ((Inl e, trace0), w)
           | Inr _ \<Rightarrow> (case execute (routing_contract rt payload session) w of
                 (Inl e, w') \<Rightarrow> ((Inl e, trace0), w')
               | (Inr result, w') \<Rightarrow> (read_result lg rt payload result trace0, w')));
          (selected, trace) = (case outcome of
             (Inl e, t) \<Rightarrow> (rt_fallback rt, handle e t)
           | (Inr None, t) \<Rightarrow> (rt_fallback rt, t)
           | (Inr (Some s), t) \<Rightarrow> (s, t))
      in (rbind (dsub (rt_choices rt) selected) (\<lambda>c. Inr (snd c, trace)), w'))"

section \<open>The trace\<close>

lemma tbind_eq:
  "tbind m f t = (r, t'') \<longleftrightarrow>
     (\<exists>e. m t = (Inl e, t'') \<and> r = Inl e) \<or> (\<exists>x t'. m t = (Inr x, t') \<and> f x t' = (r, t''))"
  by (auto simp: tbind_def split: prod.splits sum.splits)

definition same_choice :: "dict \<Rightarrow> dict \<Rightarrow> bool" where
  "same_choice t t' = (dget t' ''selected'' = dget t ''selected'' \<and> dget t' ''fallback_used'' = dget t ''fallback_used'')"

definition sure :: "routing \<Rightarrow> jval \<Rightarrow> bool" where
  "sure rt c = (c \<noteq> JNull \<and> py_lt c (JFloat (Fin (rt_min_confidence rt))) = Inr False)"

definition settled :: "routing \<Rightarrow> dict \<Rightarrow> string \<Rightarrow> bool" where
  "settled rt t s = (str_of (dget t ''selected'') = s \<and> dget t ''fallback_used'' = JBool False
     \<and> sure rt (dget t ''confidence''))"

definition preserves :: "'a traced \<Rightarrow> bool" where
  "preserves m = (\<forall>t r t'. m t = (r, t') \<longrightarrow> same_choice t t')"

definition calm :: "routing \<Rightarrow> string option traced \<Rightarrow> bool" where
  "calm rt m = (\<forall>t r t'. m t = (r, t') \<longrightarrow>
     (case r of Inr (Some s) \<Rightarrow> settled rt t' s | _ \<Rightarrow> same_choice t t'))"

lemma preserves_lift [simp]: "preserves (tlift r)"
  by (simp add: preserves_def tlift_def same_choice_def)

lemma preserves_set [simp]: "''selected'' \<notin> set (keys kvs) \<Longrightarrow> ''fallback_used'' \<notin> set (keys kvs) \<Longrightarrow> preserves (tset kvs)"
  by (auto simp: preserves_def tset_def same_choice_def)

lemma calm_bind: "preserves m \<Longrightarrow> (\<And>x. calm rt (f x)) \<Longrightarrow> calm rt (tbind m f)"
  unfolding calm_def preserves_def
  by (fastforce simp: tbind_eq same_choice_def split: sum.splits option.splits)

lemma calm_none: "calm rt (tbind (tset [(''fallback_reason'', v)]) (\<lambda>_. tlift (Inr None)))"
  by (auto simp: calm_def tbind_eq tset_def tlift_def same_choice_def)

lemma calm_use_answer: "calm rt (use_answer lg rt payload decision)"
  unfolding use_answer_def
proof (rule calm_bind)
  fix answer
  let ?a = "obj_of answer"
  let ?c = "dget ?a ''confidence''"
  have tail: "calm rt (tbind (tset [(''proposed'', choice), (''confidence'', ?c), (''probabilities'', probs)]) (\<lambda>_.
     tbind (if ?c = JNull then tlift (Inr True) else tlift (py_lt ?c (JFloat (Fin (rt_min_confidence rt))))) (\<lambda>unsure.
     if unsure then tbind (tset [(''fallback_reason'', JStr ''uncertain'')]) (\<lambda>_. tlift (Inr None))
     else tbind (tset [(''selected'', choice), (''fallback_used'', JBool False)]) (\<lambda>_.
       tlift (Inr (Some (str_of choice)))))))" for choice probs
    unfolding calm_def
    by (auto simp: tbind_eq tset_def tlift_def same_choice_def settled_def sure_def dupd_def dget_dset
        split: if_splits)
  show "calm rt (let a = ?a; confidence = dget a ''confidence'' in
     tbind (tlift (rbind (dsub a ''choice'') (\<lambda>c. rbind (dsub a ''probabilities'') (\<lambda>p. Inr (c, p))))) (\<lambda>(choice, probs).
     tbind (tset [(''proposed'', choice), (''confidence'', confidence), (''probabilities'', probs)]) (\<lambda>_.
     tbind (if confidence = JNull then tlift (Inr True)
            else tlift (py_lt confidence (JFloat (Fin (rt_min_confidence rt))))) (\<lambda>unsure.
     if unsure then tbind (tset [(''fallback_reason'', JStr ''uncertain'')]) (\<lambda>_. tlift (Inr None))
     else tbind (tset [(''selected'', choice), (''fallback_used'', JBool False)]) (\<lambda>_.
       tlift (Inr (Some (str_of choice))))))))"
    unfolding Let_def by (rule calm_bind) (simp_all only: preserves_lift split_paired_all prod.case tail)
qed simp

lemma calm_read_result: "calm rt (read_result lg rt payload result)"
  unfolding read_result_def Let_def
  by (intro calm_bind preserves_lift preserves_set calm_none) (auto intro!: calm_bind calm_none calm_use_answer)

text \<open>A chosen policy was validated to be one of the declared choices.\<close>

lemma validate_answer_names:
  "validate_answer lg (JObj a) names decimals = Inr x \<Longrightarrow> \<exists>sel. dget a ''choice'' = JStr sel \<and> sel \<in> set names"
  by (auto simp: validate_answer_def Let_def res_simps is_str_iff split: jval.splits if_splits)

lemma validate_one_choice:
  assumes "validate_one lg decimals q answer = Inr ()" and "dget q ''type'' = JStr ''choice''"
  shows "\<exists>a sel. answer = JObj a \<and> dget a ''choice'' = JStr sel \<and> sel \<in> set (keys (obj_of (dget q ''criteria'')))"
proof -
  from assms obtain a x where a: "answer = JObj a"
    and v: "validate_answer lg (JObj a) (keys (obj_of (dget q ''criteria''))) decimals = Inr x"
    by (auto simp: validate_one_def Let_def res_simps split: jval.splits sum.splits exn.splits if_splits)
  then show ?thesis using validate_answer_names by blast
qed

lemma use_answer_choice:
  assumes "use_answer lg rt (routing_payload rt ms prompt) decision t = (Inr (Some s), t')"
  shows "s \<in> set (keys (rt_choices rt)) \<and> dget t' ''selected'' = JStr s"
proof -
  let ?p = "routing_payload rt ms prompt"
  let ?q = "[(''type'', JStr ''choice''), (''instructions'', JStr (rt_instructions rt)),
         (''criteria'', JObj (map (\<lambda>(k, desc, _). (k, JStr desc)) (rt_choices rt)))]"
  from assms obtain r answers answer where v: "validate_response lg decision ?p = Inr r"
    and a: "vget r ''answers'' = Inr answers" "dsub (obj_of answers) ''route'' = Inr answer"
    and s: "s = str_of (dget (obj_of answer) ''choice'')"
    and sel: "dget t' ''selected'' = dget (obj_of answer) ''choice''"
    by (auto simp: use_answer_def Let_def tbind_eq tset_def tlift_def res_simps dupd_def dget_dset split: if_splits
        dest: map_of_SomeD)
  from v obtain d where "decision = JObj d" by (auto simp: validate_response_def split: jval.splits)
  with v obtain ans u where r: "r = JObj [(''model'', dget d ''model''), (''answers'', JObj ans), (''usage'', JObj u)]"
    and one: "validate_one lg (probability_decimals_for_model (dget d ''model'')) ?q (dget ans ''route'') = Inr ()"
    by (auto elim!: validate_response_shape simp: routing_payload_def)
  have "answer = dget ans ''route''" using a r by (auto simp: vget_def)
  moreover have "keys (map (\<lambda>(k, desc, _). (k, JStr desc)) (rt_choices rt)) = keys (rt_choices rt)"
    unfolding map_map by (rule map_cong) (auto simp: split_beta)
  then have k: "keys (obj_of (dget ?q ''criteria'')) = keys (rt_choices rt)" by simp
  have t: "dget ?q ''type'' = JStr ''choice''" by simp
  from validate_one_choice [OF one t, unfolded k] obtain a sel where "dget ans ''route'' = JObj a"
    and "dget a ''choice'' = JStr sel" and "sel \<in> set (keys (rt_choices rt))" by blast
  ultimately show ?thesis using s sel by (simp del: set_map)
qed

lemma read_result_choice:
  assumes "read_result lg rt (routing_payload rt ms prompt) result t = (Inr (Some s), t')"
  shows "s \<in> set (keys (rt_choices rt)) \<and> dget t' ''selected'' = JStr s"
proof -
  from assms obtain decision u where "use_answer lg rt (routing_payload rt ms prompt) decision u = (Inr (Some s), t')"
    by (auto simp: read_result_def Let_def tbind_eq tlift_def split: if_splits)
  then show ?thesis by (rule use_answer_choice)
qed

lemma handle_keeps: "same_choice t (handle e t)"
  by (cases e) (auto simp: handle_def same_choice_def dupd_def dget_dset)

text \<open>The outcome of the \<open>try\<close> block, and what the rest makes of it.\<close>

lemma select_node_policy_cases:
  assumes "select_node_policy lg execute rt ms prompt session w = (out, w')"
  obtains (Fallback) t where "out = rbind (dsub (rt_choices rt) (rt_fallback rt)) (\<lambda>c. Inr (snd c, t))"
      and "dget t ''selected'' = JStr (rt_fallback rt)" and "dget t ''fallback_used'' = JBool True"
  | (Chosen) s t where "out = rbind (dsub (rt_choices rt) s) (\<lambda>c. Inr (snd c, t))"
      and "dget t ''selected'' = JStr s" and "dget t ''fallback_used'' = JBool False"
      and "s \<in> set (keys (rt_choices rt))" and "sure rt (dget t ''confidence'')"
proof -
  let ?p = "routing_payload rt ms prompt"
  let ?t0 = "[(''selected'', JStr (rt_fallback rt)), (''fallback_used'', JBool True), (''cost_usd'', JNull)]"
  have fb: "thesis" if "same_choice ?t0 t" and "out = rbind (dsub (rt_choices rt) (rt_fallback rt)) (\<lambda>c. Inr (snd c, t))" for t
    using that by (intro Fallback [of t]) (auto simp: same_choice_def)
  have h: "same_choice ?t0 (handle e t)" if "same_choice ?t0 t" for e t
    using that handle_keeps [of t e] by (simp add: same_choice_def)
  show thesis
  proof (cases "validate_payload (JObj ?p)")
    case (Inl e)
    then show thesis using assms h [of ?t0 e]
      by (intro fb [of "handle e ?t0"]) (auto simp: select_node_policy_def Let_def same_choice_def)
  next
    case (Inr v)
    obtain res w1 where ex: "execute (routing_contract rt ?p session) w = (res, w1)" by fastforce
    show thesis
    proof (cases res)
      case (Inl e)
      then show thesis using assms h [of ?t0 e] Inr ex
        by (intro fb [of "handle e ?t0"]) (auto simp: select_node_policy_def Let_def same_choice_def)
    next
      case (Inr result)
      obtain o2 t where rr: "read_result lg rt ?p result ?t0 = (o2, t)" by fastforce
      note calm = calm_read_result [of rt lg ?p result, unfolded calm_def, rule_format, OF rr]
      show thesis
      proof (cases o2)
        case (Inl e)
        then show thesis using assms h [of t e] Inr ex rr calm \<open>validate_payload (JObj ?p) = Inr v\<close>
          by (intro fb [of "handle e t"]) (auto simp: select_node_policy_def Let_def)
      next
        case o2: (Inr choice)
        show thesis
        proof (cases choice)
          case None
          then show thesis using assms o2 Inr ex rr calm \<open>validate_payload (JObj ?p) = Inr v\<close>
            by (intro fb [of t]) (auto simp: select_node_policy_def Let_def)
        next
          case (Some s)
          have "read_result lg rt ?p result ?t0 = (Inr (Some s), t)" using rr o2 Some by simp
          from read_result_choice [OF this] show thesis
            using assms o2 Some Inr ex rr calm \<open>validate_payload (JObj ?p) = Inr v\<close>
            by (intro Chosen [of s t]) (auto simp: select_node_policy_def Let_def settled_def)
        qed
      qed
    qed
  qed
qed

text \<open>
  C30. A node's policy always comes from its declared choices: either the declared fallback, and the
  trace says so, or the choice the trace names, and then the answer's confidence was given and reached
  the declared minimum. Nothing a decision model returns can introduce another policy.
\<close>

theorem select_node_policy_declared:
  assumes "select_node_policy lg execute rt ms prompt session w = (Inr (policy, trace), w')"
  shows "\<exists>s desc. map_of (rt_choices rt) s = Some (desc, policy) \<and> dget trace ''selected'' = JStr s
    \<and> (dget trace ''fallback_used'' = JBool True \<and> s = rt_fallback rt
       \<or> dget trace ''fallback_used'' = JBool False \<and> sure rt (dget trace ''confidence''))"
  using assms
proof (cases rule: select_node_policy_cases)
  case (Fallback t)
  from Fallback(1) [symmetric] Fallback(2,3) show ?thesis by (auto simp: res_simps)
next
  case (Chosen s t)
  from Chosen(1) [symmetric] Chosen(2-) show ?thesis by (auto simp: res_simps)
qed

text \<open>
  Selecting a policy never fails once the fallback is declared: whatever the host returns or raises,
  timeouts and malformed decisions included, the node gets a policy.
\<close>

lemma select_node_policy_total:
  assumes "rt_fallback rt \<in> set (keys (rt_choices rt))"
  shows "\<exists>policy trace. fst (select_node_policy lg execute rt ms prompt session w) = Inr (policy, trace)"
proof -
  have sub: "\<exists>c. dsub (rt_choices rt) s = Inr c" if "s \<in> set (keys (rt_choices rt))" for s
    using that by (cases "map_of (rt_choices rt) s") (auto simp: dsub_def map_of_eq_None_iff)
  obtain out w' where "select_node_policy lg execute rt ms prompt session w = (out, w')" by fastforce
  then show ?thesis
  proof (cases rule: select_node_policy_cases)
    case (Fallback t)
    then show ?thesis using sub [OF assms] \<open>select_node_policy lg execute rt ms prompt session w = (out, w')\<close> by auto
  next
    case (Chosen s t)
    then show ?thesis using sub [of s] \<open>select_node_policy lg execute rt ms prompt session w = (out, w')\<close> by auto
  qed
qed

section \<open>Bounded evidence\<close>

definition entry_text :: "jval \<Rightarrow> string" where
  "entry_text h = str_of (dget (obj_of h) ''message'')"

text \<open>An entry of the history shows a prefix of its message and says whether it cut it.\<close>

definition shown_in :: "jval \<Rightarrow> jval \<Rightarrow> bool" where
  "shown_in m h = (\<exists>l \<le> 2400. entry_text h = take l (dumps True '','' '':'' m)
     \<and> dget (obj_of h) ''truncated'' = JBool (l < length (dumps True '','' '':'' m)))"

lemma state_loop_full: "remaining < 128 \<Longrightarrow> state_loop ms remaining sel om = (sel, om + length ms)"
  by (induction ms arbitrary: om) auto

lemma state_loop_spec:
  "state_loop ms remaining sel om = (sel', om') \<Longrightarrow>
   \<exists>j ext. j \<le> length ms \<and> sel' = sel @ ext \<and> om' = om + (length ms - j) \<and> list_all2 shown_in (take j ms) ext
     \<and> sum_list (map (length \<circ> entry_text) ext) \<le> remaining"
proof (induction ms arbitrary: remaining sel om)
  case Nil
  then show ?case by auto
next
  case (Cons m ms)
  let ?t = "dumps True '','' '':'' m" and ?l = "min 2400 remaining"
  let ?e = "JObj [(''message'', JStr (take ?l ?t)), (''truncated'', JBool (?l < length ?t))]"
  show ?case
  proof (cases "remaining < 128")
    case True
    then show ?thesis using Cons.prems state_loop_full [of remaining ms sel "om + 1"]
      by (intro exI [of _ 0] exI [of _ "[]"]) auto
  next
    case False
    then have "state_loop ms (remaining - min (length ?t) ?l) (sel @ [?e]) om = (sel', om')"
      using Cons.prems by (simp add: Let_def)
    from Cons.IH [OF this] obtain j ext where j: "j \<le> length ms" "sel' = (sel @ [?e]) @ ext"
      "om' = om + (length ms - j)" "list_all2 shown_in (take j ms) ext"
      "sum_list (map (length \<circ> entry_text) ext) \<le> remaining - min (length ?t) ?l" by blast
    have "shown_in m ?e" by (auto simp: shown_in_def entry_text_def intro!: exI [of _ ?l])
    moreover have "sum_list (map (length \<circ> entry_text) (?e # ext)) \<le> remaining"
      using j(5) by (simp add: entry_text_def [of ?e])
    ultimately show ?thesis using j
      by (intro exI [of _ "Suc j"] exI [of _ "?e # ext"]) (auto simp: comp_def)
  qed
qed

text \<open>
  The evidence sent to a decision model is bounded and honest: it covers exactly the most recent
  messages in their order, says how many older ones were left out, shows at most 2400 characters of
  each and 12000 in all, and marks every entry it cut.
\<close>

lemma decision_state_bounded:
  "\<exists>k history. k \<le> length messages
     \<and> dget (decision_state messages prompt) ''history'' = JList history
     \<and> dget (decision_state messages prompt) ''omitted_messages'' = JInt (int k)
     \<and> list_all2 shown_in (drop k messages) history
     \<and> sum_list (map (length \<circ> entry_text) history) \<le> 12000"
proof -
  obtain sel om where l: "state_loop (rev messages) 12000 [] 0 = (sel, om)" by fastforce
  from state_loop_spec [OF this] obtain j where j: "j \<le> length messages" "om = length messages - j"
    "list_all2 shown_in (take j (rev messages)) sel" "sum_list (map (length \<circ> entry_text) sel) \<le> 12000" by auto
  have "list_all2 shown_in (rev (take j (rev messages))) (rev sel)" using j(3) by simp
  moreover have "rev (take j (rev messages)) = drop om messages"
    using j(1,2) by (simp add: take_rev)
  moreover have "sum_list (map (length \<circ> entry_text) (rev sel)) = sum_list (map (length \<circ> entry_text) sel)"
    by (simp add: rev_map [symmetric] sum_list_rev)
  ultimately show ?thesis using j
    by (intro exI [of _ om] exI [of _ "rev sel"]) (simp add: decision_state_def l)
qed

section \<open>Missing probabilities\<close>

text \<open>
  A decision without probabilities is accepted by \<open>validate_response\<close>, yet it never selects a policy:
  reading \<open>answer['probabilities']\<close> raises \<open>KeyError\<close>, and the node silently uses its fallback.
\<close>

lemma missing_probabilities_rejected:
  assumes "validate_response lg decision payload = Inr r"
    and "dget (obj_of r) ''answers'' = JObj answers" and "map_of answers ''route'' = Some (JObj a)"
    and "has_key a ''choice''" and "\<not> has_key a ''probabilities''"
  shows "use_answer lg rt payload decision t = (Inl (KeyError ''probabilities''), t)"
proof -
  from assms(1,2) have "vget r ''answers'' = Inr (JObj answers)"
    by (cases r) (auto simp: vget_def)
  moreover obtain c where "map_of a ''choice'' = Some c" using assms(4) by (auto simp: has_key_iff)
  moreover have "map_of a ''probabilities'' = None" using assms(5) by (simp add: has_key_iff)
  ultimately show ?thesis
    using assms(1,3) by (simp add: use_answer_def tbind_def tlift_def dsub_def Let_def)
qed

definition demo_routing :: routing where
  "demo_routing = \<lparr> rt_choices = [(''economy'', (''cheap'', JStr ''p1'')), (''capable'', (''strong'', JStr ''p2''))],
     rt_fallback = ''capable'', rt_instructions = ''Choose.'', rt_policy = JStr ''p0'', rt_timeout_ms = 1000,
     rt_min_confidence = 1 / 2 \<rparr>"

text \<open>A confident decision for \<open>economy\<close>, with or without its probabilities.\<close>

definition demo_decision :: "dict \<Rightarrow> jval" where
  "demo_decision probs = JObj [(''model'', JStr ''m''), (''answers'', JObj [(''route'', JObj ([(''type'', JStr ''choice''),
     (''choice'', JStr ''economy''), (''confidence'', JFloat (Fin (3 / 4)))] @ probs))])]"

definition demo_execute :: "dict \<Rightarrow> jval \<Rightarrow> nat \<Rightarrow> dict res \<times> nat" where
  "demo_execute probs contract w = (Inr [(''ok'', JBool True), (''response'', JObj [(''decision'', demo_decision probs)])], w + 1)"

lemma demo_without: "select_node_policy id (demo_execute []) demo_routing [] ''fix'' JNull 0
    = (Inr (JStr ''p2'', snd (projr (fst (select_node_policy id (demo_execute []) demo_routing [] ''fix'' JNull 0)))), 1)
  \<and> dget (snd (projr (fst (select_node_policy id (demo_execute []) demo_routing [] ''fix'' JNull 0)))) ''fallback_reason''
    = JStr ''invalid_decision''"
  by (intro conjI; code_simp)

lemma demo_with: "select_node_policy id (demo_execute [(''probabilities'', JNull)]) demo_routing [] ''fix'' JNull 0
    = (Inr (JStr ''p1'', snd (projr (fst (select_node_policy id (demo_execute [(''probabilities'', JNull)])
        demo_routing [] ''fix'' JNull 0)))), 1)"
  by code_simp

theorem select_node_policy_declared_witness:
  "\<exists>s desc. map_of (rt_choices demo_routing) s = Some (desc, JStr ''p1'')"
  using select_node_policy_declared [OF demo_with] by blast

end
