(* ===== verification/AutoPolicies.thy ===== *)
theory AutoPolicies
  imports DecisionProtocol PyText
begin

text \<open>
  \<open>auto_policies.py\<close>: the catalog of workload policies, the validation of routing limits, and the
  compilation of a policy into a term of the policy engine. The engine's \<open>normalize_policy\<close> is a
  parameter: the engine itself is not part of the repository.
\<close>

section \<open>The catalog\<close>

definition CATALOG_VERSION :: string where
  "CATALOG_VERSION = ''auto/v1''"

record spec =
  sp_id :: string
  sp_description :: string
  sp_example :: string
  sp_quality :: rat
  sp_context :: int
  sp_capability :: "string option"

definition mk_spec :: "string \<Rightarrow> string \<Rightarrow> string \<Rightarrow> rat \<Rightarrow> int \<Rightarrow> string option \<Rightarrow> spec" where
  "mk_spec i d e q c cap = \<lparr> sp_id = i, sp_description = d, sp_example = e, sp_quality = fl q, sp_context = c, sp_capability = cap \<rparr>"

definition SPECS :: "spec list" where
  "SPECS = [
    mk_spec ''general'' ''General assistance or an ambiguous task; the conservative fallback.'' ''Help me plan my day'' (35/100) 0 None,
    mk_spec ''conversation'' ''Short conversational replies and routine customer support.'' ''Write a friendly reply to this customer'' (15/100) 0 None,
    mk_spec ''classification'' ''Assign labels, detect sentiment or categorize text.'' ''Classify these tickets by department'' (1/10) 0 None,
    mk_spec ''extraction'' ''Extract fields into a JSON object or a structured schema.'' ''Extract the invoice date and total as JSON'' (25/100) 0 (Some ''supports_json_mode''),
    mk_spec ''translation'' ''Translate or localize supplied text faithfully.'' ''Translate this paragraph into Spanish'' (3/10) 0 None,
    mk_spec ''summarization'' ''Condense supplied material without researching new facts.'' ''Summarize this meeting transcript'' (3/10) 0 None,
    mk_spec ''long-document'' ''Compare or synthesize extensive documents with long context.'' ''Compare these three lengthy reports'' (55/100) 128000 None,
    mk_spec ''coding'' ''Write, explain or review code without running tools.'' ''Explain why this SQL query is slow'' (65/100) 0 None,
    mk_spec ''coding-agent'' ''Repository work, debugging or code changes using tools.'' ''Inspect the repository, fix the bug and run tests'' (75/100) 32000 (Some ''supports_tools''),
    mk_spec ''reasoning'' ''Difficult multi-step analysis, mathematical proofs or tradeoffs.'' ''Prove this claim and examine counterexamples'' (85/100) 0 None,
    mk_spec ''creative-writing'' ''Original narrative, persuasive copy or creative ideation.'' ''Write the opening scene of a mystery'' (1/2) 0 None,
    mk_spec ''vision'' ''Interpret an image supplied with the request.'' ''Describe the chart in this image'' (1/2) 0 (Some ''supports_vision'')]"

definition catalog_entry :: "spec \<Rightarrow> dict" where
  "catalog_entry s = [(''id'', JStr (sp_id s)), (''version'', JStr CATALOG_VERSION),
     (''description'', JStr (sp_description s)), (''examples'', JList [JStr (sp_example s)])]"

definition catalog :: "dict list" where
  "catalog = map catalog_entry SPECS"

section \<open>Routing limits\<close>

definition DEFAULT_LIMITS :: dict where
  "DEFAULT_LIMITS = [(''max_price_in'', JFloat (Fin 5)), (''max_price_out'', JFloat (Fin 25)),
     (''reliability_floor'', lit (8/10)), (''timeout_seconds'', JInt 8), (''max_output_tokens'', JInt 2048),
     (''priority'', JStr ''cost''), (''required_capabilities'', JList []), (''allowed_models'', JList [])]"

definition bad_number :: "jval \<Rightarrow> rat \<Rightarrow> rat \<Rightarrow> bool res" where
  "bad_number v low high = rbind (finite_number v) (\<lambda>f. Inr (\<not> f \<or> \<not> num_between low v high))"

fun int_within :: "int \<Rightarrow> jval \<Rightarrow> int \<Rightarrow> bool" where
  "int_within lo (JInt i) hi = (lo \<le> i \<and> i \<le> hi)"
| "int_within lo _ hi = False"

definition known_capability :: "jval \<Rightarrow> bool" where
  "known_capability c = (c \<in> {JStr ''supports_tools'', JStr ''supports_json_mode'', JStr ''supports_vision''})"

definition model_restriction :: "jval \<Rightarrow> bool" where
  "model_restriction m = (case m of
     JStr s \<Rightarrow> py_len s \<le> 240 \<and> length (filter (\<lambda>c. c = CHR ''|'') s) = 1
       \<and> list_all (\<lambda>p. p \<noteq> []) (split_on (CHR ''|'') s)
   | _ \<Rightarrow> False)"

definition check_number :: "dict \<Rightarrow> string \<Rightarrow> rat \<Rightarrow> rat \<Rightarrow> unit res" where
  "check_number out name low high =
     rbind (bad_number (dget out name) low high) (\<lambda>bad. raise_if bad (ValueError (''Invalid '' @ name)))"

definition check_int :: "dict \<Rightarrow> string \<Rightarrow> int \<Rightarrow> unit res" where
  "check_int out name high = raise_if (\<not> int_within 1 (dget out name) high) (ValueError (''Invalid '' @ name))"

definition check_limits :: "dict \<Rightarrow> unit res" where
  "check_limits out =
     rbind (check_number out ''max_price_in'' 0 1000) (\<lambda>_.
     rbind (check_number out ''max_price_out'' 0 1000) (\<lambda>_.
     rbind (check_number out ''reliability_floor'' 0 1) (\<lambda>_.
     rbind (check_int out ''timeout_seconds'' 20) (\<lambda>_.
     rbind (check_int out ''max_output_tokens'' 32768) (\<lambda>_.
     rbind (raise_if (dget out ''priority'' \<notin> {JStr ''cost'', JStr ''speed'', JStr ''quality''})
       (ValueError ''Unknown priority'')) (\<lambda>_.
     rbind (raise_if (\<not> is_list (dget out ''required_capabilities'')
         \<or> 3 < length (list_of (dget out ''required_capabilities''))
         \<or> \<not> list_all known_capability (list_of (dget out ''required_capabilities'')))
       (ValueError ''Unsupported capability'')) (\<lambda>_.
     raise_if (\<not> is_list (dget out ''allowed_models'') \<or> 100 < length (list_of (dget out ''allowed_models''))
         \<or> \<not> list_all model_restriction (list_of (dget out ''allowed_models'')))
       (ValueError ''Invalid model restrictions''))))))))"

definition validate_constraints :: "jval \<Rightarrow> dict res" where
  "validate_constraints v = (case v of
     JObj d \<Rightarrow>
       rbind (raise_if (\<not> set (keys d) \<subseteq> set (keys DEFAULT_LIMITS)) (ValueError ''Unknown routing limit'')) (\<lambda>_.
       let out = dupd DEFAULT_LIMITS d in
       rbind (check_limits out) (\<lambda>_. Inr out))
   | _ \<Rightarrow> Inl (ValueError ''Routing limits must be an object''))"

section \<open>Compilation\<close>

definition strs :: "string list \<Rightarrow> jval" where
  "strs xs = JList (map JStr xs)"

definition cmp_gate :: "string \<Rightarrow> string \<Rightarrow> jval \<Rightarrow> jval" where
  "cmp_gate field op v = JList [JStr ''cmp'', JStr field, JStr op, v]"

definition model_gate :: "jval \<Rightarrow> jval" where
  "model_gate m = (case split_on (CHR ''|'') (str_of m) of
     p # f # _ \<Rightarrow> JList [JStr ''and'', strs [''provider_eq'', p], strs [''family_eq'', f]]
   | _ \<Rightarrow> JNull)"

definition gates :: "spec \<Rightarrow> dict \<Rightarrow> jval list" where
  "gates s limits =
     [JStr ''and'', strs [''meets_req''], JList [JStr ''not'', strs [''is'', ''disabled'']],
      cmp_gate ''success_rate'' ''ge'' (dget limits ''reliability_floor''),
      cmp_gate ''price_in'' ''le'' (dget limits ''max_price_in''),
      cmp_gate ''price_out'' ''le'' (dget limits ''max_price_out'')]
   @ (if sp_context s \<noteq> 0 then [cmp_gate ''context'' ''ge'' (JInt (sp_context s))] else [])
   @ map (\<lambda>cap. strs [''has_cap'', cap])
       (sort (remdups (map str_of (list_of (dget limits ''required_capabilities''))
          @ (case sp_capability s of None \<Rightarrow> [] | Some c \<Rightarrow> [c]))))
   @ (if list_of (dget limits ''allowed_models'') \<noteq> []
      then [JList (JStr ''or'' # map model_gate (list_of (dget limits ''allowed_models'')))] else [])"

definition scale :: "rat \<Rightarrow> jval \<Rightarrow> jval" where
  "scale q t = JList [JStr ''scale'', JFloat (Fin q), t]"

definition term_cost :: jval where
  "term_cost = JList [JStr ''neg'', JList [JStr ''normalize'', JList [JStr ''add'',
     scale (fl (8/10)) (strs [''field'', ''price_in'']), scale (fl (2/10)) (strs [''field'', ''price_out''])]]]"

definition term_score :: "spec \<Rightarrow> dict \<Rightarrow> jval" where
  "term_score s limits =
     (let quality = (if dget limits ''priority'' = JStr ''quality'' then max (sp_quality s) (75/100) else sp_quality s);
          score = JList [JStr ''add'', scale quality (JList [JStr ''normalize'', strs [''field'', ''bench_intelligence'']]),
                         scale (fl (1 - quality)) term_cost]
      in if dget limits ''priority'' = JStr ''speed''
         then JList [JStr ''add'', scale (1/2) score,
                     scale (1/2) (JList [JStr ''neg'', JList [JStr ''normalize'', strs [''field'', ''latency_ms'']]])]
         else score)"

definition FAILURES :: "string list" where
  "FAILURES = [''timeout'', ''server_error'', ''network_error'', ''rate_limit'', ''auth_error'',
     ''payment_required'', ''model_unavailable'', ''context_overflow'']"

definition action :: "string \<Rightarrow> jval" where
  "action a = JObj [(''action'', JStr a)]"

definition term_failure :: jval where
  "term_failure = fold (\<lambda>reason failure. JList [JStr ''override'', failure, JStr reason, action ''next_candidate''])
     FAILURES (JList [JStr ''always'', action ''abort''])"

definition compile_term :: "spec \<Rightarrow> dict \<Rightarrow> int \<Rightarrow> jval" where
  "compile_term s limits timeout_seconds =
     JList [JStr ''policy'', JList (gates s limits), term_score s limits,
       JList [JStr ''prefer'', JList [JStr ''not'', strs [''is'', ''breaker_open'']], strs [''argmax'']],
       JList [JStr ''set_param'', JStr ''timeout_ms'', JInt (timeout_seconds * 1000)], term_failure]"

fun int_val :: "jval \<Rightarrow> int" where
  "int_val (JInt i) = i"
| "int_val _ = 0"

definition compile_policy :: "string \<Rightarrow> jval \<Rightarrow> jval res" where
  "compile_policy policy_id constraints =
     (case find (\<lambda>s. sp_id s = policy_id) SPECS of
        None \<Rightarrow> Inl (ValueError ''Unknown automatic policy'')
      | Some s \<Rightarrow>
          rbind (validate_constraints (if constraints = JNull then JObj [] else constraints)) (\<lambda>limits.
            Inr (compile_term s limits (int_val (dget limits ''timeout_seconds'')))))"

definition bundle_entry :: "(jval \<Rightarrow> dict res) \<Rightarrow> jval \<Rightarrow> string \<Rightarrow> dict res" where
  "bundle_entry admit constraints policy_id =
     rbind (compile_policy policy_id constraints) (\<lambda>ir.
     rbind (admit ir) (\<lambda>t.
     rbind (dsub (map (\<lambda>e. (str_of (dget e ''id''), e)) catalog) policy_id) (\<lambda>entry.
     rbind (dsub t ''policy_ir'') (\<lambda>pir. rbind (dsub t ''policy_id'') (\<lambda>pid.
     rbind (dsub t ''version'') (\<lambda>ver. rbind (dsub t ''fingerprint'') (\<lambda>fp.
       Inr (dupd entry [(''policy_ir'', pir), (''policy_id'', pid), (''engine_version'', ver), (''fingerprint'', fp)]))))))))"

definition build_bundle :: "(jval \<Rightarrow> dict res) \<Rightarrow> jval \<Rightarrow> jval \<Rightarrow> dict res" where
  "build_bundle admit policy_ids constraints =
     rbind (raise_if (\<not> is_list policy_ids \<or> list_of policy_ids = [] \<or> length SPECS < length (list_of policy_ids)
         \<or> \<not> list_all is_str (list_of policy_ids) \<or> \<not> distinct (map str_of (list_of policy_ids))
         \<or> ''general'' \<notin> set (map str_of (list_of policy_ids)))
       (ValueError ''Choose distinct policies including the general fallback'')) (\<lambda>_.
     rfold (\<lambda>pid bundle. rbind (bundle_entry admit constraints pid) (\<lambda>e. Inr (dset pid (JObj e) bundle)))
       (map str_of (list_of policy_ids)) [])"

section \<open>Accepted limits\<close>

definition in_range :: "jval \<Rightarrow> rat \<Rightarrow> rat \<Rightarrow> bool" where
  "in_range v lo hi = (is_num v \<and> lo \<le> rat_of v \<and> rat_of v \<le> hi)"

lemma check_number_ok: "check_number out name lo hi = Inr u \<Longrightarrow> in_range (dget out name) lo hi"
  using num_between_finite [of lo "dget out name" hi]
  by (auto simp: check_number_def bad_number_def finite_number_def in_range_def res_simps split: if_splits)

lemma int_within_iff: "int_within lo v hi \<longleftrightarrow> (\<exists>i. v = JInt i \<and> lo \<le> i \<and> i \<le> hi)"
  by (cases v) auto

lemma validate_constraints_keys:
  assumes "validate_constraints v = Inr out" and "wf_val v"
  shows "keys out = keys DEFAULT_LIMITS" and "check_limits out = Inr ()"
proof -
  from assms obtain d where v: "v = JObj d" "set (keys d) \<subseteq> set (keys DEFAULT_LIMITS)" "out = dupd DEFAULT_LIMITS d"
    and c: "check_limits out = Inr ()"
    by (auto simp: validate_constraints_def Let_def res_simps split: jval.splits)
  have "keys (dupd D d) = keys D" if "set (keys d) \<subseteq> set (keys D)" for D :: dict
    using that unfolding dupd_def by (induction d arbitrary: D) (auto simp: keys_dset simp del: set_map)
  then show "keys out = keys DEFAULT_LIMITS" using v by blast
  show "check_limits out = Inr ()" by (fact c)
qed



lemma dupd_same_keys: "wf_dict d \<Longrightarrow> keys d = keys D \<Longrightarrow> dupd D d = d"
proof -
  have gen: "wf_dict (P @ d) \<Longrightarrow> keys d = keys D \<Longrightarrow> fold (\<lambda>(k, v). dset k v) d (P @ D) = P @ d" for P
  proof (induction d arbitrary: P D)
    case (Cons x d)
    obtain k v where x: "x = (k, v)" by (cases x)
    obtain w D' where D: "D = (k, w) # D'" "keys d = keys D'" using Cons.prems(2) x by (cases D) auto
    have "dset k v (P @ (k, w) # D') = P @ (k, v) # D'" if "k \<notin> set (keys P)"
      using that by (induction P) auto
    then have "dset k v (P @ D) = (P @ [(k, v)]) @ D'" using Cons.prems(1) x D by auto
    with Cons.IH [of "P @ [(k, v)]" D'] Cons.prems(1) x D show ?case by simp
  qed simp
  assume "wf_dict d" "keys d = keys D"
  then show ?thesis using gen [of "[]"] by (simp add: dupd_def)
qed

text \<open>
  Validation is idempotent: accepted limits, fed back as a request, are accepted and unchanged. What
  a published contract froze therefore means the same when it is validated again at every request.
\<close>

lemma validate_constraints_idempotent:
  assumes "validate_constraints v = Inr out" and "wf_val v"
  shows "validate_constraints (JObj out) = Inr out"
proof -
  note k = validate_constraints_keys [OF assms]
  have "wf_dict DEFAULT_LIMITS" by code_simp
  then have "dupd DEFAULT_LIMITS out = out" using k(1) by (intro dupd_same_keys) simp_all
  then show ?thesis using k by (simp add: validate_constraints_def Let_def del: set_map)
qed

end
