(* ===== verification/PolicyTemplates.thy ===== *)
theory PolicyTemplates
  imports AutoPolicies PyText "HOL-Library.Multiset"
begin

text \<open>
  \<open>policy_templates.py\<close>: product intents compiled to terms of the policy algebra. Options are dicts of
  values, terms are values. \<open>PolicyTemplateError\<close>, a subclass of \<open>ValueError\<close>, is named as such; an
  \<open>OverflowError\<close> of \<open>float\<close> or \<open>int\<close> is not caught by the code and is a result of its own.
\<close>

section \<open>Constants\<close>

definition template_error :: "string \<Rightarrow> exn" where
  "template_error m = OtherExc ''PolicyTemplateError'' m"

definition DEFAULT_PROVIDER_ORDER :: "string list list" where
  "DEFAULT_PROVIDER_ORDER = [[''openai_codex''], [''antseed''], [''bedrock'', ''bedrock_market''], [''openrouter'', ''openrouter_market'']]"

definition DEFAULT_EXPECTED_INPUT_SHARE :: jval where "DEFAULT_EXPECTED_INPUT_SHARE = lit (8/10)"
definition DEFAULT_RELIABILITY_FLOOR :: jval where "DEFAULT_RELIABILITY_FLOOR = lit (8/10)"
definition DEFAULT_MAX_PRICE_IN :: jval where "DEFAULT_MAX_PRICE_IN = JFloat (Fin 5)"
definition DEFAULT_MAX_PRICE_OUT :: jval where "DEFAULT_MAX_PRICE_OUT = JFloat (Fin 25)"
definition DEFAULT_QUALITY_TOP_N :: jval where "DEFAULT_QUALITY_TOP_N = JInt 5"
definition DEFAULT_COST_WEIGHT :: jval where "DEFAULT_COST_WEIGHT = JFloat (Fin (3/4))"
definition DEFAULT_INTELLIGENCE_WEIGHT :: jval where "DEFAULT_INTELLIGENCE_WEIGHT = JFloat (Fin (1/4))"

definition AGENT_PROVIDER_ORDER :: "string list list" where
  "AGENT_PROVIDER_ORDER = [[''openai_codex''], [''openai'', ''anthropic'', ''gemini'', ''bedrock'', ''bedrock_market''],
     [''openrouter'', ''openrouter_market''], [''antseed'']]"

definition AGENT_RELIABILITY_FLOOR :: jval where "AGENT_RELIABILITY_FLOOR = lit (8/10)"
definition AGENT_MIN_CONTEXT :: jval where "AGENT_MIN_CONTEXT = JInt 128000"
definition AGENT_MAX_PRICE_IN :: jval where "AGENT_MAX_PRICE_IN = JFloat (Fin 15)"
definition AGENT_MAX_PRICE_OUT :: jval where "AGENT_MAX_PRICE_OUT = JFloat (Fin 30)"
definition AGENT_QUALITY_TOP_N :: jval where "AGENT_QUALITY_TOP_N = JInt 10"
definition AGENT_TOP_K :: jval where "AGENT_TOP_K = JInt 8"
definition AGENT_INTELLIGENCE_WEIGHT :: jval where "AGENT_INTELLIGENCE_WEIGHT = lit (60/100)"
definition AGENT_INPUT_COST_WEIGHT :: jval where "AGENT_INPUT_COST_WEIGHT = lit (15/100)"
definition AGENT_RELIABILITY_WEIGHT :: jval where "AGENT_RELIABILITY_WEIGHT = JFloat (Fin (1/4))"
definition AGENT_FIRST_TOKEN_TIMEOUT_MS :: jval where "AGENT_FIRST_TOKEN_TIMEOUT_MS = JInt 10000"
definition AGENT_ATTEMPT_TIMEOUT_MS :: jval where "AGENT_ATTEMPT_TIMEOUT_MS = JInt 22000"

definition TRUSTED_ANTSEED_PEERS :: "string list" where
  "TRUSTED_ANTSEED_PEERS = [''4668854ba3e8b094e6f48fbeb59cec1cfde162f2'', ''9e8f9aaee684298b7f2af2ae008e3692f0e9f4f7'',
     ''1d90f467689d499dc435e5744b4613c3203eb0aa'', ''ded67f398fcf7b7884ff7c669d9a4fe820d7657c'',
     ''6ec1c8189340370220ea253612f23f6dfe9f5b75'']"

text \<open>What to do on a failure, per reason; the two tables differ in the retries on the same route.\<close>

definition act :: "string \<Rightarrow> dict \<Rightarrow> dict" where
  "act a rest = (''action'', JStr a) # rest"

definition BALANCED_FAILURE_ACTIONS :: "(string \<times> dict) list" where
  "BALANCED_FAILURE_ACTIONS =
    [(''unknown'', act ''next_candidate'' []),
     (''rate_limit'', act ''next_candidate'' [(''open_breaker_ms'', JInt 30000)]),
     (''timeout'', act ''next_candidate'' []),
     (''server_error'', act ''retry_same'' [(''attempts'', JInt 1), (''backoff_ms'', JInt 500), (''then_action'', JStr ''next_candidate'')]),
     (''auth_error'', act ''disable_provider'' []),
     (''bad_request'', act ''next_candidate'' []),
     (''content_filter'', act ''next_candidate'' []),
     (''bad_response'', act ''next_candidate'' []),
     (''model_unavailable'', act ''next_provider_same_model'' [(''mark_unavailable_ms'', JInt 300000)]),
     (''network_error'', act ''retry_same'' [(''attempts'', JInt 2), (''backoff_ms'', JList [JInt 200, JInt 600]), (''then_action'', JStr ''next_candidate'')]),
     (''context_overflow'', act ''next_candidate'' []),
     (''stream_interrupted'', act ''abort'' []),
     (''payment_required'', act ''next_candidate'' [(''open_breaker_ms'', JInt 300000)])]"

definition AGENT_FAILURE_ACTIONS :: "(string \<times> dict) list" where
  "AGENT_FAILURE_ACTIONS =
    [(''unknown'', act ''next_candidate'' []),
     (''rate_limit'', act ''next_candidate'' [(''open_breaker_ms'', JInt 30000)]),
     (''timeout'', act ''next_candidate'' []),
     (''server_error'', act ''next_candidate'' []),
     (''auth_error'', act ''disable_provider'' []),
     (''bad_request'', act ''next_candidate'' []),
     (''content_filter'', act ''next_candidate'' []),
     (''bad_response'', act ''next_candidate'' []),
     (''model_unavailable'', act ''next_provider_same_model'' [(''mark_unavailable_ms'', JInt 300000)]),
     (''network_error'', act ''next_candidate'' []),
     (''context_overflow'', act ''next_candidate'' []),
     (''stream_interrupted'', act ''abort'' []),
     (''payment_required'', act ''next_candidate'' [(''open_breaker_ms'', JInt 300000)])]"

definition TEMPLATE_IDS :: "string list" where
  "TEMPLATE_IDS = [''cheapest-family'', ''smart-value'', ''agent'', ''default'']"

definition COMMON_OPTIONS :: "string list" where
  "COMMON_OPTIONS = [''expected_input_share'', ''max_price_in'', ''max_price_out'', ''reliability_floor'']"

definition ALLOWED_OPTIONS :: "string \<Rightarrow> string list" where
  "ALLOWED_OPTIONS template =
     (if template = ''cheapest-family'' then COMMON_OPTIONS @ [''family'', ''provider_order'', ''provider_strategy'']
      else if template = ''smart-value'' then COMMON_OPTIONS @ [''top_n''] else [])"

definition order_value :: "string list list \<Rightarrow> jval" where
  "order_value groups = JList (map strs groups)"

definition template_catalog :: "dict list" where
  "template_catalog =
    [[(''id'', JStr ''cheapest-family''),
      (''description'', JStr (''Cheapest reliable route inside one exact model family. ''
         @ ''Optionally enforce subscription-first provider precedence.'')),
      (''required'', strs [''family'']),
      (''defaults'', JObj [(''expected_input_share'', DEFAULT_EXPECTED_INPUT_SHARE), (''reliability_floor'', DEFAULT_RELIABILITY_FLOOR),
         (''max_price_in'', DEFAULT_MAX_PRICE_IN), (''max_price_out'', DEFAULT_MAX_PRICE_OUT),
         (''provider_strategy'', JStr ''cost''), (''provider_order'', order_value DEFAULT_PROVIDER_ORDER)])],
     [(''id'', JStr ''smart-value''),
      (''description'', JStr (''Cheapest reliable candidate among the current top-N models '' @ ''by measured intelligence.'')),
      (''required'', strs []),
      (''defaults'', JObj [(''top_n'', DEFAULT_QUALITY_TOP_N), (''expected_input_share'', DEFAULT_EXPECTED_INPUT_SHARE),
         (''reliability_floor'', DEFAULT_RELIABILITY_FLOOR), (''max_price_in'', DEFAULT_MAX_PRICE_IN),
         (''max_price_out'', DEFAULT_MAX_PRICE_OUT)])],
     [(''id'', JStr ''agent''),
      (''description'', JStr (''Stable quality-first routing for tool agents: top-ten ''
         @ ''intelligence, 128k context, trusted AntSeed peers, healthy ''
         @ ''subscription/direct routes first, and bounded attempts that '' @ ''leave room for the fallback cascade.'')),
      (''required'', strs []),
      (''defaults'', JObj [(''top_n'', AGENT_QUALITY_TOP_N), (''top_k'', AGENT_TOP_K), (''min_context'', AGENT_MIN_CONTEXT),
         (''reliability_floor'', AGENT_RELIABILITY_FLOOR), (''max_price_in'', AGENT_MAX_PRICE_IN),
         (''max_price_out'', AGENT_MAX_PRICE_OUT), (''first_token_timeout_ms'', AGENT_FIRST_TOKEN_TIMEOUT_MS),
         (''attempt_timeout_ms'', AGENT_ATTEMPT_TIMEOUT_MS), (''provider_order'', order_value AGENT_PROVIDER_ORDER)])],
     [(''id'', JStr ''default''),
      (''description'', JStr (''Safe policy used by OpenAI-compatible callers that send no ''
         @ ''policy: Codex, AntSeed, Bedrock, then OpenRouter; prefer a ''
         @ ''top-five intelligence model and use a cost-dominant value '' @ ''score inside each provider.'')),
      (''required'', strs []),
      (''defaults'', JObj [(''top_n'', DEFAULT_QUALITY_TOP_N), (''expected_input_share'', DEFAULT_EXPECTED_INPUT_SHARE),
         (''reliability_floor'', DEFAULT_RELIABILITY_FLOOR), (''max_price_in'', DEFAULT_MAX_PRICE_IN),
         (''max_price_out'', DEFAULT_MAX_PRICE_OUT), (''cost_weight'', DEFAULT_COST_WEIGHT),
         (''intelligence_weight'', DEFAULT_INTELLIGENCE_WEIGHT), (''provider_order'', order_value DEFAULT_PROVIDER_ORDER)])]]"

section \<open>Bounded numbers\<close>

definition finite_number_of :: "jval \<Rightarrow> string \<Rightarrow> rat res" where
  "finite_number_of v name =
     (let bad = template_error (name @ '' must be a finite number'') in
      case v of
        JBool _ \<Rightarrow> Inl bad
      | _ \<Rightarrow> (case float_of v of
          Inr (Fin x) \<Rightarrow> Inr x
        | Inr _ \<Rightarrow> Inl bad
        | Inl (TypeError _) \<Rightarrow> Inl bad
        | Inl (ValueError _) \<Rightarrow> Inl bad
        | Inl e \<Rightarrow> Inl e))"

definition bounded_number :: "jval \<Rightarrow> string \<Rightarrow> int \<Rightarrow> int \<Rightarrow> rat res" where
  "bounded_number v name low high =
     rbind (finite_number_of v name) (\<lambda>x.
       if x < of_int low \<or> of_int high < x
       then Inl (template_error (name @ '' must be between '' @ int_str low @ '' and '' @ int_str high)) else Inr x)"

definition positive_price :: "jval \<Rightarrow> string \<Rightarrow> rat res" where
  "positive_price v name =
     rbind (finite_number_of v name) (\<lambda>x.
       if x < 0 then Inl (template_error (name @ '' must be greater than or equal to 0'')) else Inr x)"

section \<open>Terms\<close>

definition mk_and :: "jval list \<Rightarrow> jval" where
  "mk_and parts = (case parts of [] \<Rightarrow> strs [''top''] | [p] \<Rightarrow> p | _ \<Rightarrow> JList (JStr ''and'' # parts))"

definition mk_or :: "jval list \<Rightarrow> jval" where
  "mk_or parts = (case parts of [] \<Rightarrow> strs [''bot''] | [p] \<Rightarrow> p | _ \<Rightarrow> JList (JStr ''or'' # parts))"

definition scaled :: "jval \<Rightarrow> jval \<Rightarrow> jval" where
  "scaled q t = JList [JStr ''scale'', q, t]"

definition cost_score :: "rat \<Rightarrow> jval" where
  "cost_score share =
     JList [JStr ''neg'', JList [JStr ''normalize'',
       JList [JStr ''add'', scaled (JFloat (Fin share)) (strs [''field'', ''price_in'']),
              scaled (JFloat (f_sub (Fin 1) (Fin share))) (strs [''field'', ''price_out''])]]]"

definition prefer_term :: "jval \<Rightarrow> jval \<Rightarrow> jval" where
  "prefer_term p s = JList [JStr ''prefer'', p, s]"

definition healthy_first :: "jval \<Rightarrow> jval" where
  "healthy_first selector = prefer_term (JList [JStr ''not'', strs [''is'', ''breaker_open'']]) selector"

text \<open>\<open>provider_order[index]\<close>: its providers, given those seen before.\<close>

fun parse_group :: "nat \<Rightarrow> jval list \<Rightarrow> string list \<Rightarrow> string list res" where
  "parse_group i [] seen = Inr []"
| "parse_group i (raw # rest) seen =
     (let p = py_strip (str_of raw) in
      if p = [] then Inl (template_error (''provider_order['' @ nat_str i @ ''] contains an empty provider''))
      else if p \<in> set seen then Inl (template_error (''provider_order contains duplicate provider '' @ CHR 0x27 # p @ [CHR 0x27]))
      else rbind (parse_group i rest (p # seen)) (\<lambda>ps. Inr (p # ps)))"

fun parse_groups :: "nat \<Rightarrow> jval list \<Rightarrow> string list \<Rightarrow> string list list res" where
  "parse_groups i [] seen = Inr []"
| "parse_groups i (raw # rest) seen =
     (let entries = (case raw of JList xs \<Rightarrow> xs | _ \<Rightarrow> [raw]) in
      if entries = [] then Inl (template_error (''provider_order['' @ nat_str i @ ''] must contain at least one provider''))
      else rbind (parse_group i entries seen) (\<lambda>g.
           rbind (parse_groups (Suc i) rest (rev g @ seen)) (\<lambda>gs. Inr (g # gs))))"

definition parse_provider_order :: "jval \<Rightarrow> string list list res" where
  "parse_provider_order v = (case v of
     JNull \<Rightarrow> Inr DEFAULT_PROVIDER_ORDER
   | JList (x # xs) \<Rightarrow> parse_groups 0 (x # xs) []
   | _ \<Rightarrow> Inl (template_error ''provider_order must be a non-empty array''))"

definition group_pred :: "string list \<Rightarrow> jval" where
  "group_pred g = mk_or (map (\<lambda>p. strs [''provider_eq'', p]) g)"

definition ordered_provider_selector :: "string list list \<Rightarrow> jval \<times> jval" where
  "ordered_provider_selector groups =
     (mk_or (map group_pred groups), foldr prefer_term (map group_pred groups) (strs [''argmax'']))"

definition base_filter :: "rat \<Rightarrow> rat \<Rightarrow> rat \<Rightarrow> jval list" where
  "base_filter reliability price_in price_out =
     [strs [''meets_req''], JList [JStr ''not'', strs [''is'', ''disabled'']],
      cmp_gate ''success_rate'' ''ge'' (JFloat (Fin reliability)),
      cmp_gate ''price_in'' ''le'' (JFloat (Fin price_in)), cmp_gate ''price_out'' ''le'' (JFloat (Fin price_out))]"

definition common_values :: "dict \<Rightarrow> (jval list \<times> jval \<times> dict) res" where
  "common_values options =
     rbind (bounded_number (dget_or options ''expected_input_share'' DEFAULT_EXPECTED_INPUT_SHARE) ''expected_input_share'' 0 1) (\<lambda>share.
     rbind (bounded_number (dget_or options ''reliability_floor'' DEFAULT_RELIABILITY_FLOOR) ''reliability_floor'' 0 1) (\<lambda>reliability.
     rbind (positive_price (dget_or options ''max_price_in'' DEFAULT_MAX_PRICE_IN) ''max_price_in'') (\<lambda>pin.
     rbind (positive_price (dget_or options ''max_price_out'' DEFAULT_MAX_PRICE_OUT) ''max_price_out'') (\<lambda>pout.
       Inr (base_filter reliability pin pout, cost_score share,
            [(''expected_input_share'', JFloat (Fin share)), (''reliability_floor'', JFloat (Fin reliability)),
             (''max_price_in'', JFloat (Fin pin)), (''max_price_out'', JFloat (Fin pout))])))))"

text \<open>The plans override the action for unknown failures, the reasons in sorted order.\<close>

definition fail_plan :: "(string \<times> dict) list \<Rightarrow> jval" where
  "fail_plan actions =
     fold (\<lambda>reason plan. JList [JStr ''override'', plan, JStr reason, JObj (dget_or actions reason [])])
       (filter (\<lambda>r. r \<noteq> ''unknown'') (sort (keys actions))) (JList [JStr ''always'', JObj (dget_or actions ''unknown'' [])])"

definition balanced_fail_plan :: jval where
  "balanced_fail_plan = fail_plan BALANCED_FAILURE_ACTIONS"

definition agent_fail_plan :: jval where
  "agent_fail_plan = fail_plan AGENT_FAILURE_ACTIONS"

definition mk_policy :: "jval \<Rightarrow> jval \<Rightarrow> jval \<Rightarrow> jval \<Rightarrow> jval \<Rightarrow> jval" where
  "mk_policy pred scorer selector xform plan =
     JList [JStr ''policy'', pred, scorer, py_or selector (strs [''argmax'']), py_or xform (strs [''id'']), py_or plan balanced_fail_plan]"

section \<open>Templates\<close>

definition trimmed_option :: "jval \<Rightarrow> string \<Rightarrow> string" where
  "trimmed_option v dflt = py_strip (py_str (py_or v (JStr dflt)))"

definition cheapest_family :: "dict \<Rightarrow> (jval \<times> dict) res" where
  "cheapest_family options =
     (let family = trimmed_option (dget options ''family'') [] in
      rbind (raise_if (family = []) (template_error ''cheapest-family requires a non-empty family'')) (\<lambda>_.
      rbind (common_values options) (\<lambda>(parts0, score, intent).
      let parts = parts0 @ [strs [''family_eq'', family]];
          strategy = trimmed_option (dget options ''provider_strategy'') ''cost'';
          finish = (\<lambda>parts selector intent.
            (mk_policy (mk_and parts) score selector JNull JNull,
             dupd intent [(''family'', JStr family), (''provider_strategy'', JStr strategy)]))
      in if strategy = ''cost'' then Inr (finish parts (healthy_first (strs [''argmax''])) intent)
         else if strategy = ''ordered'' then
           rbind (parse_provider_order (dget options ''provider_order'')) (\<lambda>groups.
             case ordered_provider_selector groups of (allowed, selector) \<Rightarrow>
               Inr (finish (parts @ [allowed]) (healthy_first selector) (dset ''provider_order'' (order_value groups) intent)))
         else Inl (template_error (''provider_strategy must be '' @ CHR 0x27 # ''cost'' @ CHR 0x27 # '' or '' @ CHR 0x27 # ''ordered'' @ [CHR 0x27])))))"

definition smart_value :: "dict \<Rightarrow> (jval \<times> dict) res" where
  "smart_value options =
     rbind (common_values options) (\<lambda>(parts, score, intent).
     let raw = dget_or options ''top_n'' DEFAULT_QUALITY_TOP_N; bad = template_error ''top_n must be a positive integer'' in
     rbind (case raw of JBool _ \<Rightarrow> Inl bad
            | _ \<Rightarrow> (case int_of raw of Inl (TypeError _) \<Rightarrow> Inl bad | Inl (ValueError _) \<Rightarrow> Inl bad | r \<Rightarrow> r)) (\<lambda>n.
     rbind (raise_if (n < 1 \<or> \<not> py_eq (JInt n) raw) bad) (\<lambda>_.
       Inr (mk_policy (mk_and (parts @ [cmp_gate ''bench_intelligence_rank'' ''le'' (JInt n)])) score
              (healthy_first (strs [''argmax''])) JNull JNull,
            dset ''top_n'' (JInt n) intent))))"

definition default_policy :: "(jval \<times> dict) res" where
  "default_policy =
     rbind (common_values []) (\<lambda>(parts, score, intent).
     case ordered_provider_selector DEFAULT_PROVIDER_ORDER of (allowed, selector) \<Rightarrow>
       Inr (mk_policy (mk_and (parts @ [allowed]))
              (JList [JStr ''add'', scaled DEFAULT_COST_WEIGHT score,
                      scaled DEFAULT_INTELLIGENCE_WEIGHT (JList [JStr ''normalize'', strs [''field'', ''bench_intelligence'']])])
              (healthy_first (prefer_term (cmp_gate ''bench_intelligence_rank'' ''le'' DEFAULT_QUALITY_TOP_N) selector)) JNull JNull,
            dupd intent [(''top_n'', DEFAULT_QUALITY_TOP_N), (''cost_weight'', DEFAULT_COST_WEIGHT),
              (''intelligence_weight'', DEFAULT_INTELLIGENCE_WEIGHT), (''provider_order'', order_value DEFAULT_PROVIDER_ORDER)]))"

definition trusted_antseed_gate :: jval where
  "trusted_antseed_gate =
     mk_or ([JList [JStr ''not'', strs [''provider_eq'', ''antseed'']], cmp_gate ''reputation_score'' ''gt'' (JInt 95)]
       @ map (\<lambda>peer. strs [''served_by_eq'', peer]) TRUSTED_ANTSEED_PEERS)"

definition agent_policy :: "jval \<times> dict" where
  "agent_policy =
     (mk_policy
        (mk_and [strs [''meets_req''], JList [JStr ''not'', strs [''is'', ''disabled'']], strs [''is'', ''cap_tools''],
           cmp_gate ''context'' ''ge'' AGENT_MIN_CONTEXT, cmp_gate ''success_rate'' ''ge'' AGENT_RELIABILITY_FLOOR,
           cmp_gate ''bench_intelligence_rank'' ''le'' AGENT_QUALITY_TOP_N, cmp_gate ''price_in'' ''le'' AGENT_MAX_PRICE_IN,
           cmp_gate ''price_out'' ''le'' AGENT_MAX_PRICE_OUT, trusted_antseed_gate])
        (JList [JStr ''add'',
           scaled AGENT_INTELLIGENCE_WEIGHT (JList [JStr ''normalize'', strs [''field'', ''bench_intelligence'']]),
           scaled AGENT_INPUT_COST_WEIGHT (JList [JStr ''neg'', JList [JStr ''normalize'', strs [''field'', ''price_in'']]]),
           scaled AGENT_RELIABILITY_WEIGHT (strs [''field'', ''success_rate''])])
        (JList [JStr ''top_k'', AGENT_TOP_K, healthy_first (snd (ordered_provider_selector AGENT_PROVIDER_ORDER))])
        (JList [JStr ''seq'', JList [JStr ''set_param'', JStr ''first_token_timeout_ms'', AGENT_FIRST_TOKEN_TIMEOUT_MS],
           JList [JStr ''set_param'', JStr ''timeout_ms'', AGENT_ATTEMPT_TIMEOUT_MS]])
        agent_fail_plan,
      [(''top_n'', AGENT_QUALITY_TOP_N), (''top_k'', AGENT_TOP_K), (''min_context'', AGENT_MIN_CONTEXT),
       (''reliability_floor'', AGENT_RELIABILITY_FLOOR), (''max_price_in'', AGENT_MAX_PRICE_IN), (''max_price_out'', AGENT_MAX_PRICE_OUT),
       (''first_token_timeout_ms'', AGENT_FIRST_TOKEN_TIMEOUT_MS), (''attempt_timeout_ms'', AGENT_ATTEMPT_TIMEOUT_MS),
       (''provider_order'', order_value AGENT_PROVIDER_ORDER)])"

definition build_policy_template :: "jval \<Rightarrow> dict \<Rightarrow> (jval \<times> dict) res" where
  "build_policy_template template_id options =
     (let template = trimmed_option template_id [] in
      rbind (raise_if (template \<notin> set TEMPLATE_IDS)
        (template_error (''unknown policy template '' @ CHR 0x27 # template @ CHR 0x27 # ''; expected one of '' @ join '', '' TEMPLATE_IDS))) (\<lambda>_.
      let unknown = filter (\<lambda>k. k \<notin> set (ALLOWED_OPTIONS template)) (keys options) in
      rbind (raise_if (unknown \<noteq> [])
        (template_error (template @ '': unknown option(s): '' @ join '', '' (sort unknown)))) (\<lambda>_.
      rbind (if template = ''cheapest-family'' then cheapest_family options
             else if template = ''smart-value'' then smart_value options
             else if template = ''agent'' then Inr agent_policy else default_policy) (\<lambda>(term, intent).
        Inr (term, dupd [(''template'', JStr template)] intent)))))"

section \<open>Rails of every template\<close>

text \<open>A gate that every candidate has to pass: a conjunct of the filter.\<close>

definition has_gate :: "jval \<Rightarrow> jval \<Rightarrow> bool" where
  "has_gate g pred = (case pred of JList (h # gs) \<Rightarrow> h = JStr ''and'' \<and> g \<in> set gs | _ \<Rightarrow> False)"

definition within_rails :: "jval \<Rightarrow> dict \<Rightarrow> bool" where
  "within_rails pred intent =
     (has_gate (strs [''meets_req'']) pred \<and> has_gate (JList [JStr ''not'', strs [''is'', ''disabled'']]) pred
      \<and> has_gate (cmp_gate ''success_rate'' ''ge'' (dget intent ''reliability_floor'')) pred
      \<and> has_gate (cmp_gate ''price_in'' ''le'' (dget intent ''max_price_in'')) pred
      \<and> has_gate (cmp_gate ''price_out'' ''le'' (dget intent ''max_price_out'')) pred
      \<and> (\<exists>r. dget intent ''reliability_floor'' = JFloat (Fin r) \<and> 0 \<le> r \<and> r \<le> 1)
      \<and> (\<exists>p. dget intent ''max_price_in'' = JFloat (Fin p) \<and> 0 \<le> p)
      \<and> (\<exists>p. dget intent ''max_price_out'' = JFloat (Fin p) \<and> 0 \<le> p))"

lemma has_gate_and: "has_gate g (mk_and (p # q # ps)) \<longleftrightarrow> g \<in> set (p # q # ps)"
  by (simp add: has_gate_def mk_and_def)

lemma bounded_number_ok: "bounded_number v name low high = Inr x \<Longrightarrow> of_int low \<le> x \<and> x \<le> of_int high"
  by (auto simp: bounded_number_def res_simps split: if_splits)

lemma positive_price_ok: "positive_price v name = Inr x \<Longrightarrow> 0 \<le> x"
  by (auto simp: positive_price_def res_simps split: if_splits)

lemma common_values_rails:
  assumes "common_values options = Inr (parts, score, intent)"
  shows "\<exists>p q ps. parts = p # q # ps" and "within_rails (mk_and (parts @ others)) intent" and "wf_dict intent"
    and "set (keys intent) = set COMMON_OPTIONS"
  using assms
  by (auto simp: common_values_def res_simps base_filter_def within_rails_def has_gate_and COMMON_OPTIONS_def
      dest!: bounded_number_ok positive_price_ok)

lemma within_rails_cong:
  "dget i ''reliability_floor'' = dget j ''reliability_floor'' \<Longrightarrow> dget i ''max_price_in'' = dget j ''max_price_in''
    \<Longrightarrow> dget i ''max_price_out'' = dget j ''max_price_out'' \<Longrightarrow> within_rails pred i = within_rails pred j"
  by (simp add: within_rails_def)

definition policy_within :: "jval \<Rightarrow> dict \<Rightarrow> bool" where
  "policy_within t intent = (\<exists>pred score sel xform plan.
     t = JList [JStr ''policy'', pred, score, sel, xform, plan] \<and> within_rails pred intent)"

lemma policy_within_mk:
  "within_rails pred i \<Longrightarrow> dget j ''reliability_floor'' = dget i ''reliability_floor'' \<Longrightarrow> dget j ''max_price_in'' = dget i ''max_price_in''
    \<Longrightarrow> dget j ''max_price_out'' = dget i ''max_price_out'' \<Longrightarrow> policy_within (mk_policy pred score sel xform plan) j"
  unfolding policy_within_def mk_policy_def using within_rails_cong [of j i pred] by blast

lemma cheapest_family_within: "cheapest_family options = Inr (t, intent) \<Longrightarrow> policy_within t intent \<and> wf_dict intent"
  by (auto simp: cheapest_family_def ordered_provider_selector_def Let_def res_simps dget_dupd dget_dset split: if_splits prod.splits
      intro!: policy_within_mk dest: common_values_rails(2,3))

lemma smart_value_within: "smart_value options = Inr (t, intent) \<Longrightarrow> policy_within t intent \<and> wf_dict intent"
  by (auto simp: smart_value_def Let_def res_simps dget_dset intro!: policy_within_mk dest: common_values_rails(2,3))

lemma default_policy_within: "default_policy = Inr (t, intent) \<Longrightarrow> policy_within t intent \<and> wf_dict intent"
  by (auto simp: default_policy_def ordered_provider_selector_def res_simps dget_dupd intro!: policy_within_mk dest: common_values_rails(2,3))

lemma agent_policy_within: "agent_policy = (t, intent) \<Longrightarrow> policy_within t intent \<and> wf_dict intent"
proof -
  assume "agent_policy = (t, intent)"
  have f: "0 \<le> fl (8 / 10) \<and> fl (8 / 10) \<le> 1" by code_simp
  then show ?thesis using \<open>agent_policy = (t, intent)\<close>
    by (auto simp: agent_policy_def within_rails_def has_gate_and AGENT_RELIABILITY_FLOOR_def AGENT_MAX_PRICE_IN_def
        AGENT_MAX_PRICE_OUT_def lit_def intro!: policy_within_mk [where i = intent])
qed

text \<open>
  C36. Whatever template and options a caller picks, the compiled term is a policy whose filter holds the
  product's rails: only routes that meet the request and are not disabled, whose success rate reaches a
  floor in [0, 1] and whose two prices stay below finite, non-negative bounds, and the intent reported
  to the caller shows exactly those bounds.
\<close>

theorem templates_within_rails:
  assumes "build_policy_template template_id options = Inr (t, intent)"
  shows "policy_within t intent"
proof -
  obtain i where i: "intent = dupd [(''template'', JStr (trimmed_option template_id []))] i" and w: "policy_within t i \<and> wf_dict i"
    using assms cheapest_family_within smart_value_within default_policy_within agent_policy_within
    by (auto simp: build_policy_template_def Let_def res_simps split: if_splits)
  then obtain pred score sel xform plan where "t = JList [JStr ''policy'', pred, score, sel, xform, plan]" "within_rails pred i"
    by (auto simp: policy_within_def)
  moreover have "within_rails pred intent = within_rails pred i"
    using w by (intro within_rails_cong) (simp_all add: i dget_dupd dget_nonkey)
  ultimately show ?thesis by (auto simp: policy_within_def)
qed

theorem templates_within_rails_witness:
  "\<exists>pred score sel xform plan. within_rails pred (dupd [(''template'', JStr ''agent'')] (snd agent_policy))
     \<and> fst agent_policy = JList [JStr ''policy'', pred, score, sel, xform, plan]"
proof -
  have "trimmed_option (JStr '' agent'') [] = ''agent''" by code_simp
  then have "build_policy_template (JStr '' agent'') [] = Inr (fst agent_policy, dupd [(''template'', JStr ''agent'')] (snd agent_policy))"
    by (simp add: build_policy_template_def TEMPLATE_IDS_def split_beta)
  from templates_within_rails [OF this] show ?thesis by (auto simp: policy_within_def)
qed

section \<open>Provider precedence\<close>

lemma parse_group_ok:
  "parse_group i entries seen = Inr g \<Longrightarrow> distinct g \<and> set g \<inter> set seen = {} \<and> [] \<notin> set g \<and> length g = length entries"
proof (induction entries arbitrary: seen g)
  case (Cons raw entries)
  then obtain g' where "parse_group i entries (py_strip (str_of raw) # seen) = Inr g'" "g = py_strip (str_of raw) # g'"
    "py_strip (str_of raw) \<noteq> []" "py_strip (str_of raw) \<notin> set seen"
    by (auto simp: Let_def res_simps split: if_splits)
  with Cons.IH [of "py_strip (str_of raw) # seen" g'] show ?case by auto
qed simp

lemma parse_groups_ok:
  "parse_groups i raws seen = Inr gs \<Longrightarrow>
     distinct (concat gs) \<and> set (concat gs) \<inter> set seen = {} \<and> [] \<notin> set (concat gs) \<and> [] \<notin> set gs \<and> length gs = length raws"
proof (induction raws arbitrary: i seen gs)
  case (Cons raw raws)
  then obtain g gs' where g: "parse_group i (case raw of JList xs \<Rightarrow> xs | _ \<Rightarrow> [raw]) seen = Inr g"
    and gs: "parse_groups (Suc i) raws (rev g @ seen) = Inr gs'" "gs = g # gs'"
    and ne: "(case raw of JList xs \<Rightarrow> xs | _ \<Rightarrow> [raw]) \<noteq> []"
    by (auto simp: Let_def res_simps split: if_splits)
  from parse_group_ok [OF g] ne have "g \<noteq> []" by (cases g) auto
  then show ?case using Cons.IH [OF gs(1)] parse_group_ok [OF g] gs(2) by auto
qed simp

lemma parse_provider_order_ok:
  assumes "parse_provider_order v = Inr groups"
  shows "distinct (concat groups) \<and> [] \<notin> set (concat groups) \<and> [] \<notin> set groups \<and> groups \<noteq> []"
proof (cases v)
  case JNull
  then show ?thesis using assms by (auto simp: parse_provider_order_def DEFAULT_PROVIDER_ORDER_def)
next
  case (JList xs)
  then obtain x ys where "xs = x # ys" using assms by (cases xs) (auto simp: parse_provider_order_def)
  then show ?thesis
    using assms JList parse_groups_ok [of 0 "x # ys" "[]" groups] by (auto simp: parse_provider_order_def)
qed (use assms in \<open>auto simp: parse_provider_order_def\<close>)

text \<open>
  The engine that executes a term is not part of this repository. What the module documents of it:
  \<open>prefer(p, s)\<close> is a stable partition of the order of \<open>s\<close>, \<open>or\<close> is disjunction, \<open>provider_eq\<close> compares the
  provider of the route. \<open>order s cs\<close> is the order selector \<open>s\<close> gives the candidates \<open>cs\<close>.
\<close>

definition prefer_law :: "(jval \<Rightarrow> 'c \<Rightarrow> bool) \<Rightarrow> (jval \<Rightarrow> 'c list \<Rightarrow> 'c list) \<Rightarrow> bool" where
  "prefer_law holds order = (\<forall>p s cs. order (prefer_term p s) cs
     = filter (holds p) (order s cs) @ filter (\<lambda>c. \<not> holds p c) (order s cs))"

definition or_law :: "(jval \<Rightarrow> 'c \<Rightarrow> bool) \<Rightarrow> bool" where
  "or_law holds = (\<forall>ps c. holds (JList (JStr ''or'' # ps)) c = (\<exists>p\<in>set ps. holds p c))"

definition provider_law :: "(jval \<Rightarrow> 'c \<Rightarrow> bool) \<Rightarrow> ('c \<Rightarrow> string) \<Rightarrow> bool" where
  "provider_law holds prov = (\<forall>p c. holds (strs [''provider_eq'', p]) c = (prov c = p))"

definition group_rank :: "string list list \<Rightarrow> string \<Rightarrow> nat" where
  "group_rank groups p = length (takeWhile (\<lambda>g. p \<notin> set g) groups)"

lemma group_pred_holds:
  assumes "or_law holds" and "provider_law holds prov" and "g \<noteq> []"
  shows "holds (group_pred g) c \<longleftrightarrow> prov c \<in> set g"
proof (cases g)
  case (Cons p ps)
  then show ?thesis
    using assms by (cases ps) (auto simp: group_pred_def mk_or_def or_law_def provider_law_def)
qed (use assms in simp)

lemma stable_partition_sort_key:
  fixes r :: "'c \<Rightarrow> nat"
  assumes "\<And>x. x \<in> set xs \<Longrightarrow> P x \<Longrightarrow> r x = n"
  shows "filter P (sort_key r xs) @ filter (\<lambda>x. \<not> P x) (sort_key r xs) = sort_key (\<lambda>x. if P x then 0 else Suc (r x)) xs"
proof (rule sym, rule properties_for_sort_key)
  let ?s = "sort_key r xs" and ?f = "\<lambda>x. if P x then 0 else Suc (r x)"
  show "mset (filter P ?s @ filter (\<lambda>x. \<not> P x) ?s) = mset xs"
    by (simp add: multiset_partition [symmetric])
  have "sorted (map r (filter (\<lambda>x. \<not> P x) ?s))"
    by (simp add: sorted_filter)
  then have "sorted (map Suc (map r (filter (\<lambda>x. \<not> P x) ?s)))"
    by (auto simp: sorted_map sorted_wrt_map elim: sorted_wrt_mono_rel [rotated])
  moreover have m: "map ?f (filter (\<lambda>x. \<not> P x) ?s) = map Suc (map r (filter (\<lambda>x. \<not> P x) ?s))"
    by simp
  ultimately have s2: "sorted (map ?f (filter (\<lambda>x. \<not> P x) ?s))" unfolding m by blast
  have "map ?f (filter P ?s) = replicate (length (filter P ?s)) 0"
    by (simp add: map_replicate_const [symmetric])
  then have s1: "sorted (map ?f (filter P ?s))" by simp
  show "sorted (map ?f (filter P ?s @ filter (\<lambda>x. \<not> P x) ?s))"
    unfolding map_append sorted_append using s1 s2 by auto
  fix k
  have same: "filter P ?s = filter P xs"
  proof -
    have "map r (filter P xs) = map (\<lambda>_. n) (filter P xs)" using assms by auto
    then have "sorted (map r (filter P xs))" by (simp add: map_replicate_const)
    then show ?thesis by (simp add: filter_sort sort_key_id_if_sorted)
  qed
  have stable: "filter (\<lambda>x. r x = n) ?s = filter (\<lambda>x. r x = n) xs" for n by (rule sort_key_stable)
  show "filter (\<lambda>x. ?f k = ?f x) (filter P ?s @ filter (\<lambda>x. \<not> P x) ?s) = filter (\<lambda>x. ?f k = ?f x) xs"
  proof (cases "P k")
    case True
    then show ?thesis using same by (simp add: if_distrib [where f = "\<lambda>n. 0 = n"] cong: if_cong)
  next
    case False
    have "filter (\<lambda>x. r x = r k \<and> \<not> P x) ?s = filter (\<lambda>x. r x = r k \<and> \<not> P x) xs"
      using arg_cong [OF stable [of "r k"], of "filter (\<lambda>x. \<not> P x)"] by simp
    moreover have "(?f k = ?f x) = (r x = r k \<and> \<not> P x)" for x using False by auto
    moreover have "filter (\<lambda>x. ?f k = ?f x) (filter P ?s) = []" using False by (auto simp: filter_empty_conv)
    ultimately show ?thesis by (simp add: conj_commute)
  qed
qed

lemma group_rank_notin: "(\<And>g. g \<in> set groups \<Longrightarrow> p \<notin> set g) \<Longrightarrow> group_rank groups p = length groups"
  unfolding group_rank_def by (subst takeWhile_eq_all_conv [THEN iffD2]) auto

lemma precedence_foldr:
  assumes "prefer_law holds order" and "or_law holds" and "provider_law holds prov"
    and "distinct (concat groups)" and "[] \<notin> set groups"
  shows "order (foldr prefer_term (map group_pred groups) s) cs = sort_key (\<lambda>c. group_rank groups (prov c)) (order s cs)"
  using assms(4,5)
proof (induction groups)
  case Nil
  then show ?case by (simp add: group_rank_def sort_key_const)
next
  case (Cons g groups)
  have h: "holds (group_pred g) = (\<lambda>c. prov c \<in> set g)"
    using group_pred_holds [OF assms(2,3)] Cons.prems by (intro ext) auto
  have r: "group_rank (g # groups) p = (if p \<in> set g then 0 else Suc (group_rank groups p))" for p
    by (simp add: group_rank_def)
  have "group_rank groups (prov c) = length groups" if "prov c \<in> set g" for c
    using that Cons.prems by (intro group_rank_notin) auto
  then show ?case
    using Cons assms(1) by (simp add: prefer_law_def h r stable_partition_sort_key [where n = "length groups"])
qed

text \<open>
  Provider precedence is lexicographic: for an accepted \<open>provider_order\<close>, an engine whose \<open>prefer\<close> is
  the documented stable partition orders the candidates by the position of their provider's group, and
  inside each group (and among providers not named) keeps the order of the score, the whole being the
  stable sort by group position.
\<close>

lemma provider_precedence:
  assumes "parse_provider_order v = Inr groups"
    and "prefer_law holds order" and "or_law holds" and "provider_law holds prov"
  shows "order (snd (ordered_provider_selector groups)) cs
    = sort_key (\<lambda>c. group_rank groups (prov c)) (order (strs [''argmax'']) cs)"
  using parse_provider_order_ok [OF assms(1)] precedence_foldr [OF assms(2-4)]
  by (simp add: ordered_provider_selector_def)

text \<open>A small engine: candidates are (provider, score) pairs, \<open>argmax\<close> and any other selector keep their order.\<close>

fun demo_holds :: "jval \<Rightarrow> string \<times> nat \<Rightarrow> bool" where
  "demo_holds (JList (JStr op # args)) c =
     (if op = ''or'' then list_ex (\<lambda>p. demo_holds p c) args
      else if op = ''provider_eq'' then args = [JStr (fst c)] else False)"
| "demo_holds _ c = False"

fun demo_order :: "jval \<Rightarrow> (string \<times> nat) list \<Rightarrow> (string \<times> nat) list" where
  "demo_order (JList [JStr op, p, s]) cs =
     (if op = ''prefer'' then filter (demo_holds p) (demo_order s cs) @ filter (\<lambda>c. \<not> demo_holds p c) (demo_order s cs) else cs)"
| "demo_order _ cs = cs"

end
