(* ===== verification/CodexInvites.thy ===== *)
theory CodexInvites
  imports PyText
begin

text \<open>
  \<open>codex_invites.py\<close>: single-use invite links, kept in one JSON file. The state is the value the file
  parses to (\<open>None\<close>: no file, or not JSON). \<open>now\<close> is the reading of the clock, the token of a new invite
  the argument \<open>token\<close> (256 random bits in the code). The lock makes every operation one step.
\<close>

section \<open>Account names (\<open>codex_auth._safe_account_name\<close>)\<close>

definition slug_char :: "char \<Rightarrow> bool" where
  "slug_char c = (CHR ''a'' \<le> c \<and> c \<le> CHR ''z'' \<or> is_digit c \<or> c \<in> set ''._-'')"

text \<open>\<open>re.sub(r"[^a-z0-9._-]+", "-", s)\<close>; \<open>dashed\<close>: the run being replaced has its dash.\<close>

fun slug_sub :: "bool \<Rightarrow> string \<Rightarrow> string" where
  "slug_sub dashed [] = []"
| "slug_sub dashed (c # cs) =
     (if slug_char c then c # slug_sub False cs
      else if dashed then slug_sub True cs else CHR ''-'' # slug_sub True cs)"

definition strip_chars :: "string \<Rightarrow> string \<Rightarrow> string" where
  "strip_chars cs s = rev (dropWhile (\<lambda>c. c \<in> set cs) (rev (dropWhile (\<lambda>c. c \<in> set cs) s)))"

definition safe_account_name :: "jval \<Rightarrow> string res" where
  "safe_account_name name =
     (let slug = strip_chars ''-._'' (slug_sub False (ascii_lower (py_strip (py_str (py_or name (JStr [])))))) in
      if slug = [] then Inl (ValueError ''account name must contain at least one alphanumeric character'')
      else Inr (if 64 < length slug then strip_chars ''-._'' (take 64 slug) else slug))"

section \<open>The file\<close>

type_synonym invites = "(string \<times> jval) list"

definition load_invites :: "jval option \<Rightarrow> invites" where
  "load_invites file = (case file of Some (JObj d) \<Rightarrow> d | _ \<Rightarrow> [])"

definition save_invites :: "invites \<Rightarrow> jval option" where
  "save_invites d = Some (JObj d)"

definition mutate :: "string \<Rightarrow> (dict \<Rightarrow> dict res) \<Rightarrow> jval option \<Rightarrow> (bool \<times> jval option) res" where
  "mutate token fn file =
     (let invites = load_invites file in
      case dget invites token of
        JObj iv \<Rightarrow> rbind (fn iv) (\<lambda>iv'. Inr (True, save_invites (dset token (JObj iv') invites)))
      | _ \<Rightarrow> Inr (False, file))"

section \<open>Lifecycle\<close>

definition INVITE_TTL_S :: int where "INVITE_TTL_S = 24 * 3600"
definition DEVICE_CODE_TTL_S :: int where "DEVICE_CODE_TTL_S = 15 * 60"

definition stamp :: "rat \<Rightarrow> jval" where
  "stamp now = JFloat (Fin now)"

text \<open>The invites \<open>create\<close> keeps: all but the pending one of the same name.\<close>

fun keep_invites :: "string \<Rightarrow> invites \<Rightarrow> invites res" where
  "keep_invites slug [] = Inr []"
| "keep_invites slug ((t, iv) # rest) =
     rbind (vget iv ''name'') (\<lambda>n.
     rbind (if n = JStr slug then rbind (vget iv ''used_at'') (\<lambda>u. Inr (\<not> truthy u)) else Inr False) (\<lambda>drop.
     rbind (keep_invites slug rest) (\<lambda>kept. Inr (if drop then kept else (t, iv) # kept))))"

definition create_invite :: "jval \<Rightarrow> string \<Rightarrow> int \<Rightarrow> rat \<Rightarrow> jval option \<Rightarrow> (dict \<times> jval option) res" where
  "create_invite name token ttl now file =
     rbind (safe_account_name name) (\<lambda>slug.
     rbind (keep_invites slug (load_invites file)) (\<lambda>kept.
     rbind (py_add (stamp now) (JInt ttl)) (\<lambda>expires.
     let iv = [(''name'', JStr slug), (''created_at'', stamp now), (''expires_at'', expires)] in
       Inr (dupd [(''token'', JStr token)] iv, save_invites (dset token (JObj iv) kept)))))"

definition get_invite :: "string \<Rightarrow> jval option \<Rightarrow> dict option" where
  "get_invite token file = (case dget (load_invites file) token of
     JObj iv \<Rightarrow> Some (dupd [(''token'', JStr token)] iv) | _ \<Rightarrow> None)"

definition revoke_invite :: "string \<Rightarrow> jval option \<Rightarrow> bool \<times> jval option" where
  "revoke_invite token file =
     (let invites = load_invites file in
      if \<not> has_key invites token then (False, file) else (True, save_invites (dpop token invites)))"

section \<open>The device flow\<close>

definition set_device :: "string \<Rightarrow> dict \<Rightarrow> rat \<Rightarrow> jval option \<Rightarrow> (bool \<times> jval option) res" where
  "set_device token device now =
     mutate token (\<lambda>iv. rbind (dsub device ''device_auth_id'') (\<lambda>a. rbind (dsub device ''user_code'') (\<lambda>c.
       Inr (dupd iv [(''device_auth_id'', a), (''user_code'', c), (''interval'', dget_or device ''interval'' (JInt 5)),
                      (''device_started_at'', stamp now), (''last_poll_at'', JNull)]))))"

definition clear_device :: "string \<Rightarrow> jval option \<Rightarrow> (bool \<times> jval option) res" where
  "clear_device token =
     mutate token (\<lambda>iv. Inr (fold dpop [''device_auth_id'', ''user_code'', ''interval'', ''device_started_at'', ''last_poll_at''] iv))"

definition mark_used :: "string \<Rightarrow> rat \<Rightarrow> jval option \<Rightarrow> (bool \<times> jval option) res" where
  "mark_used token now = mutate token (\<lambda>iv. Inr (dset ''used_at'' (stamp now) iv))"

text \<open>The interval guard: whether this poll is granted; a granted poll stamps the invite.\<close>

definition poll_due :: "rat \<Rightarrow> dict \<Rightarrow> bool res" where
  "poll_due now iv =
     (if dget iv ''last_poll_at'' = JNull then Inr True
      else rbind (py_sub (stamp now) (dget iv ''last_poll_at'')) (\<lambda>since. py_le (dget_or iv ''interval'' (JInt 5)) since))"

definition due_for_poll :: "string \<Rightarrow> rat \<Rightarrow> jval option \<Rightarrow> (bool \<times> jval option) res" where
  "due_for_poll token now file =
     rbind (mutate token (\<lambda>iv. rbind (poll_due now iv) (\<lambda>due.
              Inr (if due then dset ''last_poll_at'' (stamp now) iv else iv))) file) (\<lambda>(known, file').
     rbind (case dget (load_invites file) token of JObj iv \<Rightarrow> poll_due now iv | _ \<Rightarrow> Inr False) (\<lambda>granted.
       Inr (known \<and> granted, file')))"

definition status_of :: "rat \<Rightarrow> dict \<Rightarrow> string res" where
  "status_of now iv =
     (if truthy (dget iv ''used_at'') then Inr ''used''
      else rbind (py_lt (dget_or iv ''expires_at'' (JInt 0)) (stamp now)) (\<lambda>late.
        if late then Inr ''expired''
        else if truthy (dget iv ''device_auth_id'') \<and> truthy (dget iv ''device_started_at'') then
          rbind (py_sub (stamp now) (dget iv ''device_started_at'')) (\<lambda>since.
          rbind (py_le since (JInt DEVICE_CODE_TTL_S)) (\<lambda>fresh. Inr (if fresh then ''awaiting'' else ''pending'')))
        else Inr ''pending''))"

text \<open>All invites, newest first; \<open>created_at\<close> is a finite number, as \<open>create\<close> writes it.\<close>

definition list_invites :: "rat \<Rightarrow> jval option \<Rightarrow> dict list res" where
  "list_invites now file =
     rbind (rmap (\<lambda>(t, iv). rbind (vget iv ''created_at'') (\<lambda>c. Inr (t, obj_of iv))) (load_invites file)) (\<lambda>items.
     rmap (\<lambda>(t, iv). rbind (status_of now iv) (\<lambda>s.
         Inr (dupd [(''token'', JStr t)] (dset ''status'' (JStr s) iv))))
       (sort_key (\<lambda>(t, iv). - rat_of (dget_or iv ''created_at'' (JInt 0))) items))"

section \<open>Operations as steps\<close>

datatype invite_op =
    Create jval string int
  | Revoke string
  | SetDevice string dict
  | ClearDevice string
  | MarkUsed string
  | DuePoll string

text \<open>The file after an operation; an operation that raises leaves the file as it was.\<close>

fun invite_exec :: "invite_op \<Rightarrow> rat \<Rightarrow> jval option \<Rightarrow> jval option res" where
  "invite_exec (Create name token ttl) now file = rbind (create_invite name token ttl now file) (\<lambda>(_, f). Inr f)"
| "invite_exec (Revoke token) now file = Inr (snd (revoke_invite token file))"
| "invite_exec (SetDevice token device) now file = rbind (set_device token device now file) (\<lambda>(_, f). Inr f)"
| "invite_exec (ClearDevice token) now file = rbind (clear_device token file) (\<lambda>(_, f). Inr f)"
| "invite_exec (MarkUsed token) now file = rbind (mark_used token now file) (\<lambda>(_, f). Inr f)"
| "invite_exec (DuePoll token) now file = rbind (due_for_poll token now file) (\<lambda>(_, f). Inr f)"

inductive invites_reachable :: "jval option \<Rightarrow> bool" where
  empty: "invites_reachable None"
| step: "invites_reachable file \<Longrightarrow> 0 < now \<Longrightarrow> invite_exec op now file = Inr file' \<Longrightarrow> invites_reachable file'"

text \<open>What the operations see of an invite: its name and whether it was used.\<close>

definition view :: "jval \<Rightarrow> string \<times> bool" where
  "view v = (str_of (dget (obj_of v) ''name''), truthy (dget (obj_of v) ''used_at''))"

definition well_formed :: "jval \<Rightarrow> bool" where
  "well_formed v = (is_obj v \<and> is_str (dget (obj_of v) ''name''))"

text \<open>The abstract store: tokens with a name and a used flag.\<close>

type_synonym store = "string \<Rightarrow> (string \<times> bool) option"

definition store_of :: "invites \<Rightarrow> store" where
  "store_of d t = map_option view (map_of d t)"

text \<open>At most one invite per name is unused.\<close>

definition one_pending :: "store \<Rightarrow> bool" where
  "one_pending s = (\<forall>t t' n. s t = Some (n, False) \<longrightarrow> s t' = Some (n, False) \<longrightarrow> t = t')"

definition invites_ok :: "invites \<Rightarrow> bool" where
  "invites_ok d = (wf_dict d \<and> (\<forall>(t, v)\<in>set d. well_formed v))"

fun spec_exec :: "invite_op \<Rightarrow> store \<Rightarrow> store" where
  "spec_exec (Create name token ttl) s = (case safe_account_name name of
     Inl _ \<Rightarrow> s
   | Inr slug \<Rightarrow> (\<lambda>t. if t = token then Some (slug, False)
       else case s t of Some (n, u) \<Rightarrow> if n = slug \<and> \<not> u then None else s t | None \<Rightarrow> None))"
| "spec_exec (Revoke token) s = s(token := None)"
| "spec_exec (MarkUsed token) s = (case s token of Some (n, u) \<Rightarrow> s(token \<mapsto> (n, True)) | None \<Rightarrow> s)"
| "spec_exec (SetDevice token device) s = s"
| "spec_exec (ClearDevice token) s = s"
| "spec_exec (DuePoll token) s = s"

lemma load_save [simp]: "load_invites (save_invites d) = d"
  by (simp add: load_invites_def save_invites_def)

text \<open>A change inside one invite that keeps its name.\<close>

lemma mutate_Inr:
  assumes "mutate token fn file = Inr (b, file')"
  shows "(\<exists>iv iv'. map_of (load_invites file) token = Some (JObj iv) \<and> fn iv = Inr iv' \<and> b
           \<and> file' = save_invites (dset token (JObj iv') (load_invites file)))
    \<or> (\<not> is_obj (dget (load_invites file) token) \<and> \<not> b \<and> file' = file)"
proof (cases "is_obj (dget (load_invites file) token)")
  case True
  then obtain iv where iv: "dget (load_invites file) token = JObj iv" unfolding is_obj_iff by blast
  then have "dget (load_invites file) token \<noteq> JNull" by simp
  from dget_nonnull [OF this] have "map_of (load_invites file) token = Some (JObj iv)" unfolding iv .
  moreover obtain iv' where "fn iv = Inr iv'" "b" "file' = save_invites (dset token (JObj iv') (load_invites file))"
    using assms unfolding mutate_def Let_def iv by (cases "fn iv") auto
  ultimately show ?thesis by (intro disjI1 exI conjI) assumption+
next
  case False
  then have "b = False \<and> file' = file"
    using assms by (cases "dget (load_invites file) token") (simp_all add: mutate_def)
  then show ?thesis using False by blast
qed

lemma keep_invites_map:
  assumes "keep_invites slug d = Inr kept" and "invites_ok d"
  shows "wf_dict kept \<and> set kept \<subseteq> set d
    \<and> (\<forall>t. map_of kept t = (case map_of d t of Some v \<Rightarrow> if view v = (slug, False) then None else Some v | None \<Rightarrow> None))"
  using assms unfolding invites_ok_def
proof (induction d arbitrary: kept)
  case (Cons x d)
  obtain t v where x: "x = (t, v)" by (cases x)
  from Cons.prems x obtain iv s where v: "v = JObj iv" "dget iv ''name'' = JStr s"
    by (auto simp: well_formed_def is_obj_iff is_str_iff)
  from Cons.prems(1) x v obtain kept' where k: "keep_invites slug d = Inr kept'"
    "kept = (if s = slug \<and> \<not> truthy (dget iv ''used_at'') then kept' else (t, v) # kept')"
    by (auto simp: res_simps vget_def split: if_splits)
  have IH: "wf_dict kept' \<and> set kept' \<subseteq> set d
    \<and> (\<forall>t. map_of kept' t = (case map_of d t of Some v \<Rightarrow> if view v = (slug, False) then None else Some v | None \<Rightarrow> None))"
    using Cons.IH [OF k(1)] Cons.prems(2) x by auto
  have fresh: "t \<notin> set (keys kept')" "map_of d t = None"
    using IH Cons.prems(2) x by (auto simp: map_of_eq_None_iff)
  have vw: "view v = (s, truthy (dget iv ''used_at''))" by (simp add: view_def v)
  have none: "map_of kept' t = None" using fresh(2) IH by simp
  show ?case
    using IH fresh(1) k(2) x none by (auto simp: vw)
qed simp


lemma store_of_dset: "store_of (dset t v d) = (store_of d)(t \<mapsto> view v)"
  by (rule ext) (simp add: store_of_def map_of_dset)

lemma invites_ok_dset: "invites_ok d \<Longrightarrow> well_formed v \<Longrightarrow> invites_ok (dset t v d)"
  unfolding invites_ok_def using set_dset_subset [of t v d] by (auto simp: distinct_update)

lemma invites_ok_lookup: "invites_ok d \<Longrightarrow> map_of d t = Some v \<Longrightarrow> well_formed v"
  by (auto simp: invites_ok_def dest: map_of_SomeD)

text \<open>An operation inside one invite: the store changes at that token by the change of the view.\<close>

lemma mutate_refines:
  assumes m: "mutate token fn file = Inr (b, file')" and ok: "invites_ok (load_invites file)"
    and keeps: "\<And>iv iv'. fn iv = Inr iv' \<Longrightarrow> dget iv' ''name'' = dget iv ''name''"
    and used: "\<And>iv iv'. fn iv = Inr iv' \<Longrightarrow> truthy (dget iv' ''used_at'') = upd (truthy (dget iv ''used_at''))"
  shows "invites_ok (load_invites file')
    \<and> store_of (load_invites file') = (case store_of (load_invites file) token of
        Some (n, u) \<Rightarrow> (store_of (load_invites file))(token \<mapsto> (n, upd u)) | None \<Rightarrow> store_of (load_invites file))"
  using mutate_Inr [OF m]
proof (elim disjE exE conjE)
  fix iv iv'
  assume l: "map_of (load_invites file) token = Some (JObj iv)" "fn iv = Inr iv'"
    "file' = save_invites (dset token (JObj iv') (load_invites file))"
  have "well_formed (JObj iv')" using invites_ok_lookup [OF ok l(1)] keeps [OF l(2)] by (simp add: well_formed_def)
  moreover have "view (JObj iv') = (fst (view (JObj iv)), upd (snd (view (JObj iv))))"
    by (simp add: view_def keeps [OF l(2)] used [OF l(2)])
  ultimately show ?thesis
    using l ok by (simp add: invites_ok_dset store_of_dset split_beta) (simp add: store_of_def view_def)
next
  assume l: "\<not> is_obj (dget (load_invites file) token)" "file' = file"
  have "map_of (load_invites file) token = None"
  proof (cases "map_of (load_invites file) token")
    case (Some v)
    then show ?thesis using invites_ok_lookup [OF ok Some] l(1) by (simp add: well_formed_def)
  qed
  then show ?thesis using ok l(2) by (simp add: store_of_def)
qed

lemma store_update_same: "(case s token of Some (n, u) \<Rightarrow> s(token \<mapsto> (n, u)) | None \<Rightarrow> s) = s"
  by (cases "s token") auto

lemma create_refines:
  assumes c: "create_invite name token ttl now file = Inr (r, file')" and ok: "invites_ok (load_invites file)"
  shows "invites_ok (load_invites file')
    \<and> store_of (load_invites file') = spec_exec (Create name token ttl) (store_of (load_invites file))"
proof -
  obtain slug kept e where s: "safe_account_name name = Inr slug" and k: "keep_invites slug (load_invites file) = Inr kept"
    and f: "file' = save_invites (dset token (JObj [(''name'', JStr slug), (''created_at'', stamp now), (''expires_at'', e)]) kept)"
    using c by (auto simp: create_invite_def Let_def res_simps)
  note m = keep_invites_map [OF k ok]
  have "invites_ok kept" using m ok by (auto simp: invites_ok_def)
  moreover have "store_of kept t = (case store_of (load_invites file) t of
      Some (n, u) \<Rightarrow> if n = slug \<and> \<not> u then None else Some (n, u) | None \<Rightarrow> None)" for t
    using m by (cases "map_of (load_invites file) t") (auto simp: store_of_def split: prod.splits)
  ultimately show ?thesis
    by (auto simp: f s invites_ok_dset well_formed_def store_of_dset view_def fun_eq_iff split: option.splits)
qed

lemma exec_refines:
  assumes e: "invite_exec op now file = Inr file'" and pos: "0 < now" and ok: "invites_ok (load_invites file)"
  shows "invites_ok (load_invites file') \<and> store_of (load_invites file') = spec_exec op (store_of (load_invites file))"
proof (cases op)
  case (Create name token ttl)
  with e show ?thesis by (auto simp: res_simps dest!: create_refines [OF _ ok])
next
  case (Revoke token)
  have "invites_ok (dpop token (load_invites file))"
  proof -
    have "set (dpop token (load_invites file)) \<subseteq> set (load_invites file)" by (auto simp: AList.delete_eq)
    then show ?thesis using ok by (auto simp: invites_ok_def distinct_delete)
  qed
  moreover have "store_of (dpop token (load_invites file)) = (store_of (load_invites file))(token := None)"
    by (rule ext) (simp add: store_of_def map_of_dpop)
  moreover have "\<not> has_key (load_invites file) token \<Longrightarrow> (store_of (load_invites file))(token := None) = store_of (load_invites file)"
    by (rule ext) (simp add: store_of_def has_key_iff)
  ultimately show ?thesis using e ok Revoke by (auto simp: revoke_invite_def Let_def split: if_splits)
next
  case (SetDevice token device)
  with e obtain b where m: "set_device token device now file = Inr (b, file')" by (auto simp: res_simps)
  have keeps: "dget iv' ''name'' = dget iv ''name'' \<and> dget iv' ''used_at'' = dget iv ''used_at''"
    if "rbind (dsub device ''device_auth_id'') (\<lambda>a. rbind (dsub device ''user_code'') (\<lambda>c.
       Inr (dupd iv [(''device_auth_id'', a), (''user_code'', c), (''interval'', dget_or device ''interval'' (JInt 5)),
                      (''device_started_at'', stamp now), (''last_poll_at'', JNull)]))) = Inr iv'" for iv iv'
    using that by (auto simp: res_simps)
  show ?thesis
    using mutate_refines [OF m [unfolded set_device_def] ok, of "\<lambda>u. u"] keeps by (auto simp: SetDevice store_update_same)
next
  case (ClearDevice token)
  with e obtain b where m: "clear_device token file = Inr (b, file')" by (auto simp: res_simps)
  show ?thesis
    using mutate_refines [OF m [unfolded clear_device_def] ok, of "\<lambda>u. u"]
    by (auto simp: ClearDevice dget_dpop store_update_same)
next
  case (MarkUsed token)
  with e obtain b where m: "mark_used token now file = Inr (b, file')" by (auto simp: res_simps)
  show ?thesis
    using mutate_refines [OF m [unfolded mark_used_def] ok, of "\<lambda>_. True"] pos
    by (auto simp: MarkUsed dget_dset stamp_def)
next
  case (DuePoll token)
  with e obtain b where "mutate token (\<lambda>iv. rbind (poll_due now iv) (\<lambda>due.
              Inr (if due then dset ''last_poll_at'' (stamp now) iv else iv))) file = Inr (b, file')"
    by (auto simp: due_for_poll_def res_simps)
  moreover have "dget iv' ''name'' = dget iv ''name'' \<and> dget iv' ''used_at'' = dget iv ''used_at''"
    if "rbind (poll_due now iv) (\<lambda>due. Inr (if due then dset ''last_poll_at'' (stamp now) iv else iv)) = Inr iv'" for iv iv'
    using that by (auto simp: res_simps dget_dset split: if_splits)
  ultimately show ?thesis using mutate_refines [OF _ ok, of token _ _ _ "\<lambda>u. u"]
    by (auto simp: DuePoll store_update_same)
qed

lemma spec_one_pending: "one_pending s \<Longrightarrow> one_pending (spec_exec op s)"
  by (cases op) (auto simp: one_pending_def split: sum.splits option.splits if_splits)

section \<open>What the store guarantees\<close>

text \<open>
  C34. The invite file implements the abstract store of tokens with a name and a used flag: on a well-formed
  file every operation that succeeds leaves a well-formed file, and changes the abstract store as its
  specification says - creating drops the pending invite of the name and adds one, revoking removes one,
  marking sets the flag, and the device flow and the polls change nothing of it.
\<close>

theorem invites_refine_store:
  assumes "invite_exec op now file = Inr file'" and "0 < now" and "invites_ok (load_invites file)"
  shows "invites_ok (load_invites file') \<and> store_of (load_invites file') = spec_exec op (store_of (load_invites file))"
  using assms by (rule exec_refines)

text \<open>
  In every state the operations can reach, at most one unused invite exists per account name, so
  issuing a new link invalidates the one before it.
\<close>

lemma invites_one_pending:
  assumes "invites_reachable file"
  shows "invites_ok (load_invites file) \<and> one_pending (store_of (load_invites file))"
  using assms
proof induction
  case empty
  then show ?case by (simp add: load_invites_def invites_ok_def one_pending_def store_of_def)
next
  case (step f now op f')
  then show ?case using exec_refines [of op now f f'] spec_one_pending by auto
qed

text \<open>An account, and inviting it for ten seconds at time 9.\<close>

lemma demo_slug: "safe_account_name (JStr '' Ann '') = Inr ''ann''"
  by code_simp

definition demo_invite :: jval where
  "demo_invite = JObj [(''name'', JStr ''ann''), (''created_at'', JFloat (Fin 9)), (''expires_at'', JFloat (Fin 10))]"

lemma demo_create:
  assumes "load_invites file = [(t, JObj [(''name'', JStr ''ann'')])] \<or> load_invites file = []" and "t \<noteq> token"
  shows "invite_exec (Create (JStr '' Ann '') token 1) 9 file = Inr (Some (JObj [(token, demo_invite)]))"
proof -
  have f: "fl 10 = 10" "fl 1 = 1" by code_simp+
  moreover have "\<not> int_too_large 1" by (simp add: int_too_large_def f)
  ultimately show ?thesis
    using assms mk_float_exact [OF f(1)]
    by (auto simp: Let_def create_invite_def demo_slug demo_invite_def vget_def py_add_def arith_def stamp_def float_of_int_def
        save_invites_def dupd_def)
qed

theorem invites_refine_store_witness:
  "store_of [(''t2'', demo_invite)] = spec_exec (Create (JStr '' Ann '') ''t2'' 1) (store_of [(''t1'', JObj [(''name'', JStr ''ann'')])])"
proof -
  have "invite_exec (Create (JStr '' Ann '') ''t2'' 1) 9 (Some (JObj [(''t1'', JObj [(''name'', JStr ''ann'')])]))
      = Inr (Some (JObj [(''t2'', demo_invite)]))"
    by (rule demo_create [of _ "''t1''"]) (simp_all add: load_invites_def)
  from invites_refine_store [OF this, THEN conjunct2] show ?thesis
    unfolding load_invites_def option.case jval.case by (simp add: invites_ok_def well_formed_def del: spec_exec.simps)
qed

section \<open>The interval of the polls\<close>

text \<open>The answers to a sequence of polls.\<close>

fun polls :: "string \<Rightarrow> rat list \<Rightarrow> jval option \<Rightarrow> bool list res" where
  "polls token [] file = Inr []"
| "polls token (t # ts) file = rbind (due_for_poll token t file) (\<lambda>(granted, file').
     rbind (polls token ts file') (\<lambda>gs. Inr (granted # gs)))"

lemma granted_stamps:
  assumes "due_for_poll token now file = Inr (True, file')"
  shows "\<exists>iv. map_of (load_invites file) token = Some (JObj iv)
    \<and> load_invites file' = dset token (JObj (dset ''last_poll_at'' (stamp now) iv)) (load_invites file)"
proof -
  from assms obtain b where m: "mutate token (\<lambda>iv. rbind (poll_due now iv) (\<lambda>due.
              Inr (if due then dset ''last_poll_at'' (stamp now) iv else iv))) file = Inr (b, file')"
    and g: "(case dget (load_invites file) token of JObj iv \<Rightarrow> poll_due now iv | _ \<Rightarrow> Inr False) = Inr True" and b: b
    by (auto simp: due_for_poll_def res_simps)
  from mutate_Inr [OF m] b obtain iv iv' where iv: "map_of (load_invites file) token = Some (JObj iv)"
    "rbind (poll_due now iv) (\<lambda>due. Inr (if due then dset ''last_poll_at'' (stamp now) iv else iv)) = Inr iv'"
    "file' = save_invites (dset token (JObj iv') (load_invites file))" by blast
  have "poll_due now iv = Inr True" using g unfolding dget_Some [OF iv(1)] by simp
  then show ?thesis using iv by simp
qed

lemma early_poll:
  assumes "map_of (load_invites file) token = Some (JObj iv)" and "dget iv ''last_poll_at'' = stamp t0"
    and "num_of (dget_or iv ''interval'' (JInt 5)) = Some i" and "\<not> f_le i (mk_float (t - t0))"
  shows "\<exists>file'. due_for_poll token t file = Inr (False, file') \<and> load_invites file' = dset token (JObj iv) (load_invites file)"
proof -
  have "poll_due t iv = Inr False"
    using assms(2-4) by (simp add: poll_due_def stamp_def py_sub_def arith_def f_sub_def py_le_def)
  then show ?thesis
    by (simp add: due_for_poll_def mutate_def dget_Some [OF assms(1)])
qed

text \<open>
  A granted poll closes the gate: until the provider's interval has passed since it, every further
  poll of the invite is refused, however many are made.
\<close>

lemma polls_respect_interval:
  assumes "due_for_poll token t0 file = Inr (True, file')"
    and "num_of (dget_or (obj_of (dget (load_invites file) token)) ''interval'' (JInt 5)) = Some i"
    and "\<forall>t\<in>set ts. \<not> f_le i (mk_float (t - t0))"
  shows "polls token ts file' = Inr (map (\<lambda>_. False) ts)"
proof -
  obtain iv where iv: "map_of (load_invites file) token = Some (JObj iv)"
    "load_invites file' = dset token (JObj (dset ''last_poll_at'' (stamp t0) iv)) (load_invites file)"
    using granted_stamps [OF assms(1)] by blast
  let ?iv = "dset ''last_poll_at'' (stamp t0) iv"
  have i: "num_of (dget_or ?iv ''interval'' (JInt 5)) = Some i"
    using assms(2) dget_Some [OF iv(1)] by (simp add: dget_or_def map_of_dset)
  have "map_of (load_invites f) token = Some (JObj ?iv) \<Longrightarrow> polls token ts f = Inr (map (\<lambda>_. False) ts)" for f
    using assms(3)
  proof (induction ts arbitrary: f)
    case (Cons t ts)
    then obtain f' where d: "due_for_poll token t f = Inr (False, f')" "load_invites f' = dset token (JObj ?iv) (load_invites f)"
      using early_poll [OF Cons.prems(1) _ i, of t0 t] by (auto simp: dget_dset)
    have "polls token ts f' = Inr (map (\<lambda>_. False) ts)"
      using Cons.prems(2) by (intro Cons.IH) (simp_all add: d(2) map_of_dset)
    then show ?case by (simp add: d(1))
  qed simp
  then show ?thesis using iv(2) by (simp add: map_of_dset)
qed

end
