(* ===== verification/ProviderCommon.thy ===== *)
theory ProviderCommon
  imports PyText JsonText
begin

text \<open>
  \<open>provider_adapters/common.py\<close>: what the provider adapters share. Reading usage and message content,
  the classification of HTTP errors, the error results, and the loop that drives a server-sent event
  stream under a first-token deadline. What the stream delivers is an argument: the finite list of what
  each await gives, with the clock readings around it.
\<close>

section \<open>Requests and content\<close>

definition cached_tokens :: "jval \<Rightarrow> jval" where
  "cached_tokens usage = (case usage of
     JObj u \<Rightarrow>
       (case dget u ''prompt_tokens_details'' of
          JObj d \<Rightarrow> if dget d ''cached_tokens'' \<noteq> JNull then dget d ''cached_tokens'' else
            (case dget u ''input_tokens_details'' of
               JObj d \<Rightarrow> if dget d ''cached_tokens'' \<noteq> JNull then dget d ''cached_tokens'' else dget u ''cache_read_input_tokens''
             | _ \<Rightarrow> dget u ''cache_read_input_tokens'')
        | _ \<Rightarrow>
            (case dget u ''input_tokens_details'' of
               JObj d \<Rightarrow> if dget d ''cached_tokens'' \<noteq> JNull then dget d ''cached_tokens'' else dget u ''cache_read_input_tokens''
             | _ \<Rightarrow> dget u ''cache_read_input_tokens''))
   | _ \<Rightarrow> JNull)"

definition CACHE_CONTROL :: jval where
  "CACHE_CONTROL = JObj [(''type'', JStr ''ephemeral'')]"

definition anthropic_cache_family :: "dict \<Rightarrow> bool" where
  "anthropic_cache_family request =
     contains ''claude'' (ascii_lower (py_str (py_or (py_or (dget request ''model_family'')
        (dget request ''served_model_id'')) (JStr []))))"

definition err :: "string \<Rightarrow> int \<Rightarrow> int \<Rightarrow> string \<Rightarrow> dict" where
  "err kind status latency message =
     [(''ok'', JBool False), (''error_kind'', JStr kind), (''http_status'', JInt status),
      (''latency_ms'', JInt latency), (''error_message'', JStr message)]"

text \<open>The token, or the error that there is none; \<open>env_get\<close> is the environment of the request.\<close>

definition auth_token :: "dict \<Rightarrow> (string \<Rightarrow> string option) \<Rightarrow> string \<Rightarrow> dict + string" where
  "auth_token request env_get default_env =
     (let auth_env = str_of (py_or (dget request ''auth_env'') (JStr default_env)) in
      case env_get auth_env of
        Some (c # cs) \<Rightarrow> Inr (c # cs)
      | _ \<Rightarrow> Inl (err ''auth_error'' 0 0 (''env var '' @ str_repr auth_env @ '' unset'')))"

definition text_part :: "jval \<Rightarrow> bool" where
  "text_part part = (case part of
     JObj p \<Rightarrow> dget p ''type'' = JNull \<or> dget p ''type'' = JStr ''text'' | _ \<Rightarrow> False)"

definition str_item :: "jval \<Rightarrow> string res" where
  "str_item v = (case v of JStr s \<Rightarrow> Inr s
     | _ \<Rightarrow> Inl (TypeError (''sequence item: expected str instance, '' @ type_name v @ '' found'')))"

definition text_from_content :: "jval \<Rightarrow> string res" where
  "text_from_content content = (case content of
     JStr s \<Rightarrow> Inr s
   | JList ps \<Rightarrow> rbind (rmap (\<lambda>p. str_item (dget_or (obj_of p) ''text'' (JStr []))) (filter text_part ps))
       (\<lambda>ts. Inr (concat ts))
   | _ \<Rightarrow> Inr [])"

definition json_args :: "jval \<Rightarrow> dict" where
  "json_args arguments = (case arguments of
     JObj d \<Rightarrow> d
   | JStr s \<Rightarrow> (case json_loads default_hook s of Inr (JObj d) \<Rightarrow> d | _ \<Rightarrow> [])
   | _ \<Rightarrow> [])"

section \<open>Errors of providers\<close>

definition OVERFLOW_400_SIGNATURES :: "string list" where
  "OVERFLOW_400_SIGNATURES = [''context length'', ''context window'', ''context_length_exceeded'',
     ''reduce the length of the messages'']"

definition nonempty :: "string \<Rightarrow> string option" where
  "nonempty s = (if s = [] then None else Some s)"

definition openrouter_relayed_message :: "jval \<Rightarrow> string option" where
  "openrouter_relayed_message metadata = (case metadata of
     JObj m \<Rightarrow>
       let relayed = (\<lambda>raw. case raw of
             JObj r \<Rightarrow> (case dget r ''error'' of
                 JObj inner \<Rightarrow> nonempty (py_strip (py_str (py_or (dget inner ''message'') (JStr []))))
               | JStr inner \<Rightarrow> nonempty (py_strip inner)
               | _ \<Rightarrow> None)
           | _ \<Rightarrow> None)
       in (case dget m ''raw'' of
             JStr s \<Rightarrow> (case json_loads default_hook s of
                 Inl _ \<Rightarrow> nonempty (py_strip s)
               | Inr raw \<Rightarrow> relayed raw)
           | raw \<Rightarrow> relayed raw)
   | _ \<Rightarrow> None)"

definition provider_error_message :: "jval \<Rightarrow> string" where
  "provider_error_message err_body = (case err_body of
     JObj b \<Rightarrow>
       (case dget b ''error'' of
          JStr e \<Rightarrow> e
        | JObj e \<Rightarrow>
            (case openrouter_relayed_message (dget e ''metadata'') of
               Some inner \<Rightarrow> inner
             | None \<Rightarrow>
                 let outer = py_strip (py_str (py_or (dget e ''message'') (JStr []))) in
                 if outer \<noteq> [] then outer else py_str err_body)
        | _ \<Rightarrow> py_str err_body)
   | _ \<Rightarrow> py_str err_body)"

definition classify_status :: "int \<Rightarrow> string \<Rightarrow> string" where
  "classify_status status err_msg =
     (if status \<in> {401, 403} then ''auth_error''
      else if status = 429 then ''rate_limit''
      else if status = 402 then ''payment_required''
      else if status \<in> {408, 504} then ''timeout''
      else if status = 404 then ''model_unavailable''
      else if status = 400 then
        (if list_ex (\<lambda>sig. contains sig (ascii_lower err_msg)) OVERFLOW_400_SIGNATURES
         then ''context_overflow'' else ''bad_request'')
      else if 500 \<le> status \<and> status < 600 then ''server_error''
      else ''unknown'')"

section \<open>Time\<close>

definition elapsed_ms :: "rat \<Rightarrow> rat \<Rightarrow> int" where
  "elapsed_ms t0 now = trunc (fl (fl (now - t0) * 1000))"

definition first_token_timeout_s :: "dict \<Rightarrow> pyfloat option res" where
  "first_token_timeout_s request =
     (case rbind (float_of (dget request ''first_token_timeout_ms'')) (\<lambda>f. f_div f (Fin 1000)) of
        Inl (TypeError _) \<Rightarrow> Inr None
      | Inl e \<Rightarrow> (if is_value_error e then Inr None else Inl e)
      | Inr seconds \<Rightarrow> Inr (if f_lt (Fin 0) seconds then Some seconds else None))"

definition first_token_timeout_err :: "pyfloat \<Rightarrow> int \<Rightarrow> dict res" where
  "first_token_timeout_err timeout latency =
     rbind (int_of (JFloat (f_mul timeout (Fin 1000)))) (\<lambda>ms.
       Inr (err ''timeout'' 0 latency (''first token timed out after '' @ int_str ms @ ''ms'')))"

text \<open>
  \<open>before_first_output\<close>: the limit an await runs under. \<open>None\<close>: no limit; \<open>Some (Inl ())\<close>: the deadline has
  passed and the await is not started.
\<close>

definition before_first_output :: "pyfloat option \<Rightarrow> bool \<Rightarrow> rat \<Rightarrow> rat \<Rightarrow> (unit + pyfloat) option" where
  "before_first_output timeout saw t0 now =
     (case timeout of
        None \<Rightarrow> None
      | Some t \<Rightarrow> if saw then None
          else let remaining = f_sub t (Fin (fl (now - t0))) in
            Some (if f_le remaining (Fin 0) then Inl () else Inr remaining))"

section \<open>Driving a stream\<close>

record stream_acc =
  t0 :: rat
  status :: int
  text_parts :: "string list"
  tool_calls :: jval
  finish_reason :: jval
  usage :: dict
  raw_model :: jval
  saw_output :: bool
  emitted :: bool

definition new_acc :: "rat \<Rightarrow> stream_acc" where
  "new_acc now = \<lparr> t0 = now, status = 0, text_parts = [], tool_calls = JNull, finish_reason = JNull,
     usage = [], raw_model = JNull, saw_output = False, emitted = False \<rparr>"

text \<open>
  What one \<open>__anext__\<close> gives under a limit: a line, the end, the timeout (only under a limit) or an
  exception. An event has the clock before it and after it.
\<close>

datatype line = Line string | Eof | TimedOut | Broken exn

type_synonym event = "rat \<times> line \<times> rat"

type_synonym handler = "jval \<Rightarrow> stream_acc \<Rightarrow> (exn + dict option) \<times> stream_acc"

definition network_err :: "stream_acc \<Rightarrow> exn \<Rightarrow> rat \<Rightarrow> dict" where
  "network_err acc e now =
     (if emitted acc then err ''stream_interrupted'' 0 (elapsed_ms (t0 acc) now)
        (exn_type e @ '': '' @ exn_str e @ '' (partial: '' @ str_repr (py_take 200 (concat (text_parts acc))) @ '')'')
      else err ''network_error'' 0 (elapsed_ms (t0 acc) now) (exn_type e @ '': '' @ exn_str e))"

definition timeout_result :: "pyfloat option \<Rightarrow> stream_acc \<Rightarrow> rat \<Rightarrow> dict" where
  "timeout_result timeout acc now =
     (case (case timeout of None \<Rightarrow> Inl (TypeError ''unsupported operand type(s)'')
            | Some t \<Rightarrow> first_token_timeout_err t (elapsed_ms (t0 acc) now)) of
        Inr d \<Rightarrow> d
      | Inl e \<Rightarrow> network_err acc e now)"

text \<open>The data of a line, if it carries an event: \<open>None\<close> skips it, \<open>Some None\<close> ends the stream.\<close>

definition sse_data :: "string \<Rightarrow> jval option option" where
  "sse_data l =
     (if \<not> prefix_of ''data:'' l then None
      else let data = py_strip (drop 5 l) in
        if data = ''[DONE]'' then Some None
        else (case json_loads default_hook data of Inl _ \<Rightarrow> None | Inr ev \<Rightarrow> Some (Some ev)))"

fun drive_lines :: "handler \<Rightarrow> pyfloat option \<Rightarrow> stream_acc \<Rightarrow> event list \<Rightarrow> dict + stream_acc" where
  "drive_lines h timeout acc [] = Inr acc"
| "drive_lines h timeout acc ((now, l, later) # es) =
     (if before_first_output timeout (saw_output acc) (t0 acc) now = Some (Inl ()) then Inl (timeout_result timeout acc now)
      else case l of
        Eof \<Rightarrow> Inr acc
      | TimedOut \<Rightarrow>
          if \<not> saw_output acc then Inl (timeout_result timeout acc later)
          else Inl (network_err acc (TimeoutError []) later)
      | Broken e \<Rightarrow> Inl (network_err acc e later)
      | Line s \<Rightarrow>
          (case sse_data s of
             None \<Rightarrow> drive_lines h timeout acc es
           | Some None \<Rightarrow> Inr acc
           | Some (Some ev) \<Rightarrow>
               (case h ev acc of
                  (Inl e, acc') \<Rightarrow> Inl (network_err acc' e later)
                | (Inr (Some aborted), acc') \<Rightarrow> Inl aborted
                | (Inr None, acc') \<Rightarrow> drive_lines h timeout acc' es)))"

text \<open>Opening the stream: a status with the body (read for an error), the timeout, or an exception.\<close>

datatype opened = Opened int string | OpenTimeout | OpenFailed exn

definition drive_http_sse ::
  "handler \<Rightarrow> dict \<Rightarrow> rat \<Rightarrow> rat \<times> opened \<times> rat \<Rightarrow> event list \<Rightarrow> (dict + stream_acc) res" where
  "drive_http_sse h request start opening es =
     rbind (first_token_timeout_s request) (\<lambda>timeout.
     let acc = new_acc start in
     case opening of (now, o1, later) \<Rightarrow>
       if before_first_output timeout False (t0 acc) now = Some (Inl ()) then Inr (Inl (timeout_result timeout acc now))
       else (case o1 of
           OpenTimeout \<Rightarrow> Inr (Inl (timeout_result timeout acc later))
         | OpenFailed e \<Rightarrow> Inr (Inl (network_err acc e later))
         | Opened code body \<Rightarrow>
             if \<not> (200 \<le> code \<and> code < 300) then
               (let raw = py_take 500 body in
                Inr (Inl (err (classify_status code raw) code (elapsed_ms start later) raw)))
             else Inr (drive_lines h timeout (acc\<lparr> status := code \<rparr>) es)))"

end
