(* ===== verification/ProviderWire.thy ===== *)
theory ProviderWire
  imports ProviderCommon
begin

text \<open>
  How the native adapters meet the wire: the record \<open>wire\<close> holds what a call is given (environment, extra
  headers, the default timeout) and what the HTTP client does with the one request it makes. Handlers
  fold events into the accumulator and may raise; what they did before raising stays done.
\<close>

section \<open>The HTTP client\<close>

text \<open>A POST: the response with its body text, the client's timeout, or a request error.\<close>

datatype post_reply = Replied int string | PostTimeout | PostFailed exn

record wire =
  env_get :: "string \<Rightarrow> string option"
  extra_headers :: dict
  default_timeout_ms :: int
  post :: "string \<Rightarrow> dict \<Rightarrow> dict \<Rightarrow> jval \<Rightarrow> post_reply"
  open_stream :: "string \<Rightarrow> dict \<Rightarrow> dict \<Rightarrow> jval \<Rightarrow> (rat \<times> opened \<times> rat) \<times> event list"
  started_at :: rat
  ended_at :: rat

definition request_timeout :: "wire \<Rightarrow> dict \<Rightarrow> jval res" where
  "request_timeout n request = py_div (py_or (dget request ''timeout_ms'') (JInt (default_timeout_ms n))) (JFloat (Fin 1000))"

text \<open>\<open>json.loads\<close> and the adapter's parser, whose exceptions are a bad response.\<close>

definition finish_post :: "wire \<Rightarrow> string \<Rightarrow> (jval \<Rightarrow> int \<Rightarrow> int \<Rightarrow> dict res) \<Rightarrow> post_reply \<Rightarrow> dict" where
  "finish_post n url parse reply =
     (let latency = elapsed_ms (started_at n) (ended_at n) in
      case reply of
        PostTimeout \<Rightarrow> err ''timeout'' 0 latency (''POST '' @ url @ '' timed out'')
      | PostFailed e \<Rightarrow> err ''network_error'' 0 latency (exn_str e)
      | Replied code body \<Rightarrow>
          if \<not> (200 \<le> code \<and> code < 300) then err (classify_status code body) code latency (py_take 500 body)
          else (case rbind (json_loads default_hook body) (\<lambda>data. parse data code latency) of
              Inr d \<Rightarrow> d
            | Inl e \<Rightarrow> err ''bad_response'' code latency (''json parse: '' @ exn_str e)))"

section \<open>Values on the wire\<close>

text \<open>\<open>for x in v or []\<close>, and \<open>(v.get(k) or {})\<close>.\<close>

definition items_of :: "jval \<Rightarrow> jval list res" where
  "items_of v = py_iter (py_or v (JList []))"

definition sub_obj :: "jval \<Rightarrow> string \<Rightarrow> jval res" where
  "sub_obj v k = rbind (vget v k) (\<lambda>x. Inr (py_or x (JObj [])))"

text \<open>\<open>v.get(k) or ""\<close>.\<close>

definition name_or_empty :: "jval \<Rightarrow> jval res" where
  "name_or_empty fn = rbind (vget fn ''name'') (\<lambda>x. Inr (py_or x (JStr [])))"

definition rstrip_slash :: "string \<Rightarrow> string" where
  "rstrip_slash s = rev (dropWhile (\<lambda>c. c = CHR ''/'') (rev s))"

text \<open>\<open>(request.get("offer") or {}).get("wire_model_id") or request["served_model_id"]\<close>.\<close>

definition wire_model :: "dict \<Rightarrow> jval res" where
  "wire_model request =
     rbind (vget (py_or (dget request ''offer'') (JObj [])) ''wire_model_id'') (\<lambda>m.
       if truthy m then Inr m else dsub request ''served_model_id'')"

text \<open>\<open>"".join(xs)\<close> over values, and \<open>sorted\<close> on keys that may not compare.\<close>

definition join_values :: "jval list \<Rightarrow> string res" where
  "join_values vs = rbind (rmap str_item vs) (\<lambda>ts. Inr (concat ts))"

fun insert_key :: "jval \<times> 'v \<Rightarrow> (jval \<times> 'v) list \<Rightarrow> (jval \<times> 'v) list res" where
  "insert_key x [] = Inr [x]"
| "insert_key x (y # ys) = rbind (py_lt (fst x) (fst y)) (\<lambda>l.
     if l then Inr (x # y # ys) else rbind (insert_key x ys) (\<lambda>zs. Inr (y # zs)))"

definition sort_keyed :: "(jval \<times> 'v) list \<Rightarrow> (jval \<times> 'v) list res" where
  "sort_keyed xs = rfold insert_key xs []"

text \<open>Calls under construction: their index on the wire, the id, the name, the argument text so far.\<close>

type_synonym partial_call = "jval \<times> (jval \<times> jval \<times> string)"

definition call_value :: "jval \<times> jval \<times> string \<Rightarrow> jval" where
  "call_value c = (case c of (i, name, args) \<Rightarrow>
     JObj [(''id'', i), (''type'', JStr ''function''), (''function'', JObj [(''name'', name), (''arguments'', JStr args)])])"

definition function_call :: "jval \<Rightarrow> jval \<Rightarrow> jval \<Rightarrow> jval" where
  "function_call i name input =
     JObj [(''id'', i), (''type'', JStr ''function''),
           (''function'', JObj [(''name'', name), (''arguments'', JStr (json_dumps (py_or input (JObj []))))])]"

text \<open>The calls kept in the accumulator, as pairs of index and call; \<open>d[i] = c\<close> on keys equal by value.\<close>

fun put_call :: "jval \<Rightarrow> 'v \<Rightarrow> (jval \<times> 'v) list \<Rightarrow> (jval \<times> 'v) list" where
  "put_call i c [] = [(i, c)]"
| "put_call i c ((j, d) # cs) = (if py_eq j i then (j, c) # cs else (j, d) # put_call i c cs)"

fun find_call :: "jval \<Rightarrow> (jval \<times> 'v) list \<Rightarrow> 'v option" where
  "find_call i [] = None"
| "find_call i ((j, d) # cs) = (if py_eq j i then Some d else find_call i cs)"

fun call_pairs :: "jval \<Rightarrow> (jval \<times> jval) list" where
  "call_pairs (JList xs) = map (\<lambda>x. case list_of x of [i, c] \<Rightarrow> (i, c) | _ \<Rightarrow> (JNull, JNull)) xs"
| "call_pairs _ = []"

definition pack_calls :: "(jval \<times> jval) list \<Rightarrow> jval" where
  "pack_calls cs = JList (map (\<lambda>(i, c). JList [i, c]) cs)"

definition none_if_empty :: "jval list \<Rightarrow> jval" where
  "none_if_empty xs = (if xs = [] then JNull else JList xs)"

definition empty_content :: "int \<Rightarrow> int \<Rightarrow> dict" where
  "empty_content code latency = err ''bad_response'' code latency ''empty assistant content''"

definition ok_result :: "int \<Rightarrow> dict \<Rightarrow> dict" where
  "ok_result latency response = [(''ok'', JBool True), (''latency_ms'', JInt latency), (''response'', JObj response)]"

text \<open>The schema of a tool that declares no parameters.\<close>

definition EMPTY_SCHEMA :: jval where
  "EMPTY_SCHEMA = JObj [(''type'', JStr ''object''), (''properties'', JObj [])]"

section \<open>Handlers\<close>

text \<open>A handler that raises only before it changed what a broken stream reports.\<close>

definition pure_handler :: "(jval \<Rightarrow> stream_acc \<Rightarrow> (dict option \<times> stream_acc) res) \<Rightarrow> handler" where
  "pure_handler f ev acc = (case f ev acc of Inl e \<Rightarrow> (Inl e, acc) | Inr (r, acc') \<Rightarrow> (Inr r, acc'))"

section \<open>Facts\<close>

lemma pack_unpack [simp]: "call_pairs (pack_calls cs) = cs"
  by (induction cs) (auto simp: pack_calls_def)

lemma find_put_same: "py_eq i i \<Longrightarrow> find_call i (put_call i c cs) = Some c"
  by (induction cs) auto

lemma items_of_list [simp]: "items_of (JList xs) = Inr xs"
  by (simp add: items_of_def py_or_def)

lemma items_of_null [simp]: "items_of JNull = Inr []"
  by (simp add: items_of_def py_or_def)

end
