(* ===== verification/AnthropicAdapter.thy ===== *)
theory AnthropicAdapter
  imports ProviderWire
begin

text \<open>
  \<open>provider_adapters/anthropic.py\<close>: the Messages API. Requests from OpenAI messages and tools, the
  complete response, and the event stream. Text deltas and error messages of the stream are strings
  (another type raises), and \<open>usage\<close> is a dict (another type raises).
\<close>

section \<open>Requests\<close>

definition tool_use_block :: "jval \<Rightarrow> jval res" where
  "tool_use_block tc =
     rbind (sub_obj tc ''function'') (\<lambda>fn. rbind (vget tc ''id'') (\<lambda>i. rbind (name_or_empty fn) (\<lambda>name.
     rbind (vget fn ''arguments'') (\<lambda>args.
       Inr (JObj [(''type'', JStr ''tool_use''), (''id'', i), (''name'', name), (''input'', JObj (json_args args))])))))"

definition text_block :: "string \<Rightarrow> jval" where
  "text_block t = JObj [(''type'', JStr ''text''), (''text'', JStr t)]"

text \<open>What one message adds: to the messages, to the system text.\<close>

definition message_to_anthropic :: "jval \<Rightarrow> (dict list \<times> string list) res" where
  "message_to_anthropic m =
     rbind (vget m ''role'') (\<lambda>role. rbind (vget m ''content'') (\<lambda>c. rbind (text_from_content c) (\<lambda>t.
     if role = JStr ''system'' then Inr ([], if t = [] then [] else [t])
     else if role = JStr ''tool'' then
       Inr ([[(''role'', JStr ''user''), (''content'', JList [JObj [(''type'', JStr ''tool_result''),
               (''tool_use_id'', dget (obj_of m) ''tool_call_id''), (''content'', JStr t)]])]], [])
     else if role = JStr ''assistant'' then
       rbind (items_of (dget (obj_of m) ''tool_calls'')) (\<lambda>tcs. rbind (rmap tool_use_block tcs) (\<lambda>uses.
       let blocks = (if t = [] then [] else [text_block t]) @ uses in
       Inr (if blocks = [] then []
            else if uses = [] then [[(''role'', JStr ''assistant''), (''content'', JStr t)]]
            else [[(''role'', JStr ''assistant''), (''content'', JList blocks)]], [])))
     else if role = JStr ''user'' then
       Inr (if t = [] then [] else [[(''role'', JStr ''user''), (''content'', JStr t)]], [])
     else Inr ([], []))))"

definition openai_messages_to_anthropic :: "jval \<Rightarrow> (dict list \<times> string option) res" where
  "openai_messages_to_anthropic messages =
     rbind (items_of messages) (\<lambda>ms. rbind (rmap message_to_anthropic ms) (\<lambda>rs.
     let systems = concat (map snd rs) in
       Inr (concat (map fst rs), if systems = [] then None else Some (join (nl @ nl) systems))))"

definition tool_to_anthropic :: "jval \<Rightarrow> jval list res" where
  "tool_to_anthropic tool =
     rbind (sub_obj tool ''function'') (\<lambda>fn. rbind (vget fn ''name'') (\<lambda>name.
     if \<not> truthy name then Inr []
     else rbind (vget fn ''description'') (\<lambda>d. rbind (vget fn ''parameters'') (\<lambda>p.
       Inr [JObj [(''name'', name), (''description'', py_or d (JStr [])), (''input_schema'', py_or p EMPTY_SCHEMA)]]))))"

definition openai_tools_to_anthropic :: "jval \<Rightarrow> jval res" where
  "openai_tools_to_anthropic tools =
     rbind (items_of tools) (\<lambda>ts. rbind (rmap tool_to_anthropic ts) (\<lambda>rs. Inr (none_if_empty (concat rs))))"

text \<open>The cache breakpoint on the last message.\<close>

definition tag_content :: "jval \<Rightarrow> jval" where
  "tag_content content = (case content of
     JStr s \<Rightarrow> JList [JObj [(''type'', JStr ''text''), (''text'', JStr s), (''cache_control'', CACHE_CONTROL)]]
   | JList xs \<Rightarrow> (if xs = [] then content
       else case last xs of JObj b \<Rightarrow> JList (butlast xs @ [JObj (dset ''cache_control'' CACHE_CONTROL b)]) | _ \<Rightarrow> content)
   | _ \<Rightarrow> content)"

definition tag_last_message :: "dict list \<Rightarrow> dict list" where
  "tag_last_message ms = (if ms = [] then []
     else butlast ms @ [dset ''content'' (tag_content (dget (last ms) ''content'')) (last ms)])"

definition anthropic_request :: "dict \<Rightarrow> string \<Rightarrow> dict \<Rightarrow> (string \<times> dict \<times> dict) res" where
  "anthropic_request request token extra =
     rbind (openai_messages_to_anthropic (py_or (dget request ''messages'') (JList []))) (\<lambda>(messages, system).
     rbind (wire_model request) (\<lambda>model.
     rbind (openai_tools_to_anthropic (dget request ''tools'')) (\<lambda>tools.
     let base = py_or (dget request ''base_url'') (JStr ''https://api.anthropic.com/v1'');
         body = [(''model'', model), (''messages'', JList (map JObj (tag_last_message messages))),
                 (''max_tokens'', py_or (dget request ''max_tokens'') (JInt 4096))]
           @ (case system of None \<Rightarrow> [] | Some s \<Rightarrow>
                [(''system'', JList [JObj [(''type'', JStr ''text''), (''text'', JStr s), (''cache_control'', CACHE_CONTROL)]])])
           @ (if dget request ''temperature'' = JNull then [] else [(''temperature'', dget request ''temperature'')])
           @ (if tools = JNull then [] else [(''tools'', tools)]);
         headers = dupd [(''Content-Type'', JStr ''application/json''), (''x-api-key'', JStr token),
                         (''anthropic-version'', JStr ''2023-06-01'')] extra
     in case base of
          JStr b \<Rightarrow> Inr (rstrip_slash b @ ''/messages'', body, headers)
        | _ \<Rightarrow> Inl (attr_err base ''rstrip''))))"

section \<open>Responses\<close>

text \<open>The token counts of a response; both counts default to zero once there is any usage.\<close>

definition anthropic_usage :: "jval \<Rightarrow> (jval \<times> jval \<times> jval \<times> jval) res" where
  "anthropic_usage u =
     rbind (vget u ''input_tokens'') (\<lambda>i. rbind (vget u ''output_tokens'') (\<lambda>out.
     rbind (if truthy u then py_add (py_or i (JInt 0)) (py_or out (JInt 0)) else Inr JNull) (\<lambda>total.
     rbind (vget u ''cache_read_input_tokens'') (\<lambda>cached. Inr (i, out, total, cached)))))"

definition anthropic_result :: "int \<Rightarrow> string \<Rightarrow> jval list \<Rightarrow> jval \<Rightarrow> jval \<Rightarrow> jval \<Rightarrow> dict res" where
  "anthropic_result latency text calls stop u model =
     rbind (anthropic_usage u) (\<lambda>(i, out, total, cached).
       Inr (ok_result latency [(''text'', JStr text), (''tool_calls'', none_if_empty calls), (''finish_reason'', stop),
         (''tokens_in'', i), (''tokens_out'', out), (''tokens_total'', total), (''tokens_cached'', cached), (''raw_model'', model)]))"

definition anthropic_block :: "jval \<Rightarrow> (jval list \<times> jval list) res" where
  "anthropic_block block =
     rbind (vget block ''type'') (\<lambda>ty. rbind (vget block ''text'') (\<lambda>t.
     if ty = JStr ''text'' \<and> truthy t then Inr ([t], [])
     else if ty = JStr ''tool_use'' then
       rbind (name_or_empty block) (\<lambda>name.
         Inr ([], [function_call (dget (obj_of block) ''id'') name (dget (obj_of block) ''input'')]))
     else Inr ([], [])))"

definition parse_anthropic_response :: "jval \<Rightarrow> int \<Rightarrow> int \<Rightarrow> dict res" where
  "parse_anthropic_response data code latency =
     rbind (vget data ''content'') (\<lambda>content. rbind (items_of content) (\<lambda>blocks.
     rbind (rmap anthropic_block blocks) (\<lambda>rs.
     rbind (join_values (concat (map fst rs))) (\<lambda>text.
     let calls = concat (map snd rs) in
     if py_strip text = [] \<and> calls = [] then Inr (empty_content code latency)
     else rbind (sub_obj data ''usage'') (\<lambda>usage.
       anthropic_result latency text calls (dget (obj_of data) ''stop_reason'') usage (dget (obj_of data) ''model''))))))"

section \<open>The stream\<close>

definition update_usage :: "jval \<Rightarrow> stream_acc \<Rightarrow> stream_acc res" where
  "update_usage v acc = (case py_or v (JObj []) of
     JObj u \<Rightarrow> Inr (acc\<lparr> usage := dupd (usage acc) u \<rparr>)
   | _ \<Rightarrow> Inl (TypeError ''usage is not a mapping''))"

definition set_call :: "jval \<Rightarrow> jval \<Rightarrow> stream_acc \<Rightarrow> stream_acc res" where
  "set_call i c acc = (if unhashable i then Inl (unhashable_err i)
     else Inr (acc\<lparr> saw_output := True, tool_calls := pack_calls (put_call i c (call_pairs (tool_calls acc))) \<rparr>))"

text \<open>\<open>tc["function"]["arguments"] += s\<close>.\<close>

definition append_arguments :: "string \<Rightarrow> jval \<Rightarrow> jval" where
  "append_arguments s c = (let fn = obj_of (dget (obj_of c) ''function'') in
     JObj (dset ''function'' (JObj (dset ''arguments'' (JStr (str_of (dget fn ''arguments'') @ s)) fn)) (obj_of c)))"

definition empty_call :: jval where
  "empty_call = call_value (JNull, JStr [], [])"

definition ends_with :: "string \<Rightarrow> string \<Rightarrow> bool" where
  "ends_with s suffix = prefix_of (rev suffix) (rev s)"

definition on_block_start :: "jval \<Rightarrow> stream_acc \<Rightarrow> stream_acc res" where
  "on_block_start ev acc =
     rbind (sub_obj ev ''content_block'') (\<lambda>block. rbind (vget block ''type'') (\<lambda>ty.
     if ty \<noteq> JStr ''tool_use'' then Inr acc
     else rbind (name_or_empty block) (\<lambda>name.
       let input = dget (obj_of block) ''input'' in
       set_call (dget_or (obj_of ev) ''index'' (JInt 0))
         (call_value (dget (obj_of block) ''id'', name, if truthy input then json_dumps input else [])) acc)))"

definition on_block_delta :: "jval \<Rightarrow> stream_acc \<Rightarrow> stream_acc res" where
  "on_block_delta ev acc =
     rbind (sub_obj ev ''delta'') (\<lambda>delta. rbind (vget delta ''type'') (\<lambda>ty.
     let t = dget (obj_of delta) ''text'' in
     if ty = JStr ''text_delta'' \<and> truthy t then
       rbind (str_item t) (\<lambda>s. Inr (acc\<lparr> saw_output := True, emitted := True, text_parts := text_parts acc @ [s] \<rparr>))
     else if ty = JStr ''input_json_delta'' then
       (let i = dget_or (obj_of ev) ''index'' (JInt 0); part = dget (obj_of delta) ''partial_json'';
            c = (case find_call i (call_pairs (tool_calls acc)) of None \<Rightarrow> empty_call | Some c \<Rightarrow> c) in
        if truthy part then rbind (str_item part) (\<lambda>s. set_call i (append_arguments s c) acc) else set_call i c acc)
     else if ends_with (py_str (py_or ty (JStr []))) ''_delta'' then Inr (acc\<lparr> saw_output := True \<rparr>)
     else Inr acc))"

definition on_error :: "jval \<Rightarrow> stream_acc \<Rightarrow> rat \<Rightarrow> dict res" where
  "on_error ev acc now =
     rbind (sub_obj ev ''error'') (\<lambda>e. rbind (vget e ''message'') (\<lambda>m.
     rbind (str_item (if truthy m then m else JStr (py_str (py_or e ev)))) (\<lambda>msg.
       Inr (err (classify_status (status acc) msg) (status acc) (elapsed_ms (t0 acc) now) (py_take 500 msg)))))"

definition on_anthropic_event :: "rat \<Rightarrow> jval \<Rightarrow> stream_acc \<Rightarrow> (dict option \<times> stream_acc) res" where
  "on_anthropic_event now ev acc =
     rbind (vget ev ''type'') (\<lambda>ty.
     if ty = JStr ''message_start'' then
       rbind (sub_obj ev ''message'') (\<lambda>msg. rbind (vget msg ''model'') (\<lambda>m. rbind (vget msg ''usage'') (\<lambda>u.
       rbind (update_usage u (acc\<lparr> raw_model := py_or m (raw_model acc) \<rparr>)) (\<lambda>acc'. Inr (None, acc')))))
     else if ty = JStr ''content_block_start'' then rbind (on_block_start ev acc) (\<lambda>acc'. Inr (None, acc'))
     else if ty = JStr ''content_block_delta'' then rbind (on_block_delta ev acc) (\<lambda>acc'. Inr (None, acc'))
     else if ty = JStr ''message_delta'' then
       rbind (sub_obj ev ''delta'') (\<lambda>delta. rbind (vget delta ''stop_reason'') (\<lambda>stop.
       rbind (update_usage (dget (obj_of ev) ''usage'') (acc\<lparr> finish_reason := py_or stop (finish_reason acc) \<rparr>)) (\<lambda>acc'.
         Inr (None, acc'))))
     else if ty = JStr ''error'' then rbind (on_error ev acc now) (\<lambda>e. Inr (Some e, acc))
     else Inr (None, acc))"

definition finish_anthropic :: "rat \<Rightarrow> stream_acc \<Rightarrow> dict res" where
  "finish_anthropic now acc =
     rbind (sort_keyed (call_pairs (tool_calls acc))) (\<lambda>calls.
     let text = concat (text_parts acc); latency = elapsed_ms (t0 acc) now in
     if py_strip text = [] \<and> calls = [] then Inr (empty_content 200 latency)
     else anthropic_result latency text (map snd calls) (finish_reason acc) (JObj (usage acc)) (raw_model acc))"

definition stream_anthropic :: "wire \<Rightarrow> dict \<Rightarrow> dict res" where
  "stream_anthropic n request =
     (case auth_token request (env_get n) ''ANTHROPIC_API_KEY'' of
        Inl e \<Rightarrow> Inr e
      | Inr token \<Rightarrow>
          rbind (anthropic_request request token (extra_headers n)) (\<lambda>(url, body, headers).
          rbind (request_timeout n request) (\<lambda>timeout.
          case open_stream n url (dset ''stream'' (JBool True) body) headers timeout of (opening, events) \<Rightarrow>
          rbind (drive_http_sse (pure_handler (on_anthropic_event (ended_at n))) request (started_at n) opening events) (\<lambda>r.
            case r of Inl e \<Rightarrow> Inr e | Inr acc \<Rightarrow> finish_anthropic (ended_at n) acc))))"

definition call_anthropic :: "wire \<Rightarrow> dict \<Rightarrow> dict res" where
  "call_anthropic n request =
     (case auth_token request (env_get n) ''ANTHROPIC_API_KEY'' of
        Inl e \<Rightarrow> Inr e
      | Inr token \<Rightarrow>
          if dget request ''first_token_timeout_ms'' \<noteq> JNull then stream_anthropic n request
          else rbind (anthropic_request request token (extra_headers n)) (\<lambda>(url, body, headers).
               rbind (request_timeout n request) (\<lambda>timeout.
                 Inr (finish_post n url parse_anthropic_response (post n url body headers timeout)))))"

section \<open>Streams and complete responses\<close>

text \<open>
  A message the provider may send, by its blocks: text in pieces, or a call with its arguments in pieces.
  \<open>block_value\<close> is the block of the complete response, \<open>block_events i\<close> the events that stream it at index i.
\<close>

datatype block = Text "string list" | ToolUse string string dict "string list"

fun good_block :: "block \<Rightarrow> bool" where
  "good_block (Text ps) = (\<forall>p\<in>set ps. p \<noteq> [])"
| "good_block (ToolUse i name input ps) = (input \<noteq> [] \<and> concat ps = json_dumps (JObj input) \<and> (\<forall>p\<in>set ps. p \<noteq> []))"

fun block_value :: "block \<Rightarrow> jval" where
  "block_value (Text ps) = text_block (concat ps)"
| "block_value (ToolUse i name input ps) =
     JObj [(''type'', JStr ''tool_use''), (''id'', JStr i), (''name'', JStr name), (''input'', JObj input)]"

definition delta_event :: "nat \<Rightarrow> dict \<Rightarrow> jval" where
  "delta_event i delta = JObj [(''type'', JStr ''content_block_delta''), (''index'', JInt (int i)), (''delta'', JObj delta)]"

fun block_events :: "nat \<Rightarrow> block \<Rightarrow> jval list" where
  "block_events i (Text ps) = map (\<lambda>p. delta_event i [(''type'', JStr ''text_delta''), (''text'', JStr p)]) ps"
| "block_events i (ToolUse n name input ps) =
     JObj [(''type'', JStr ''content_block_start''), (''index'', JInt (int i)), (''content_block'', JObj
       [(''type'', JStr ''tool_use''), (''id'', JStr n), (''name'', JStr name), (''input'', JObj [])])]
     # map (\<lambda>p. delta_event i [(''type'', JStr ''input_json_delta''), (''partial_json'', JStr p)]) ps"

fun blocks_events :: "nat \<Rightarrow> block list \<Rightarrow> jval list" where
  "blocks_events i [] = []"
| "blocks_events i (b # bs) = block_events i b @ blocks_events (Suc i) bs"

definition message_events :: "string \<Rightarrow> dict \<Rightarrow> block list \<Rightarrow> string \<Rightarrow> dict \<Rightarrow> jval list" where
  "message_events model u bs stop u' =
     JObj [(''type'', JStr ''message_start''), (''message'', JObj [(''model'', JStr model), (''usage'', JObj u)])]
     # blocks_events 0 bs
     @ [JObj [(''type'', JStr ''message_delta''), (''delta'', JObj [(''stop_reason'', JStr stop)]), (''usage'', JObj u')]]"

definition message_value :: "string \<Rightarrow> dict \<Rightarrow> block list \<Rightarrow> string \<Rightarrow> dict \<Rightarrow> jval" where
  "message_value model u bs stop u' =
     JObj [(''content'', JList (map block_value bs)), (''stop_reason'', JStr stop), (''usage'', JObj (dupd u u')), (''model'', JStr model)]"

text \<open>What the blocks leave in the accumulator.\<close>

fun block_text :: "block \<Rightarrow> string" where
  "block_text (Text ps) = concat ps" | "block_text (ToolUse i name input ps) = []"

fun block_call :: "nat \<Rightarrow> block \<Rightarrow> (jval \<times> jval) list" where
  "block_call i (Text ps) = []"
| "block_call i (ToolUse n name input ps) = [(JInt (int i), call_value (JStr n, JStr name, concat ps))]"

fun blocks_calls :: "nat \<Rightarrow> block list \<Rightarrow> (jval \<times> jval) list" where
  "blocks_calls i [] = []"
| "blocks_calls i (b # bs) = block_call i b @ blocks_calls (Suc i) bs"

text \<open>Folding a list of events, each of which lets the stream go on.\<close>

fun run_events :: "rat \<Rightarrow> jval list \<Rightarrow> stream_acc \<Rightarrow> stream_acc res" where
  "run_events now [] acc = Inr acc"
| "run_events now (ev # evs) acc = rbind (on_anthropic_event now ev acc) (\<lambda>(r, acc').
     if r = None then run_events now evs acc' else Inl (ValueError ''aborted''))"

lemma run_events_append: "run_events now (xs @ ys) acc = rbind (run_events now xs acc) (run_events now ys)"
proof (induction xs arbitrary: acc)
  case (Cons x xs)
  then show ?case by (cases "on_anthropic_event now x acc") auto
qed simp

lemma drive_lines_run:
  assumes "list_all2 (\<lambda>e ev. \<exists>a s b. e = (a, Line s, b) \<and> sse_data s = Some (Some ev)) es evs"
    and "run_events now evs acc = Inr acc'"
  shows "drive_lines (pure_handler (on_anthropic_event now)) None acc es = Inr acc'"
  using assms
proof (induction es evs arbitrary: acc rule: list_all2_induct)
  case (Cons e es ev evs)
  then show ?case
    by (auto simp: before_first_output_def pure_handler_def res_simps split: if_splits)
qed simp

definition grown :: "string \<Rightarrow> (jval \<times> jval) list \<Rightarrow> stream_acc \<Rightarrow> stream_acc \<Rightarrow> bool" where
  "grown t calls acc acc' = (concat (text_parts acc') = concat (text_parts acc) @ t
     \<and> call_pairs (tool_calls acc') = call_pairs (tool_calls acc) @ calls
     \<and> usage acc' = usage acc \<and> raw_model acc' = raw_model acc \<and> finish_reason acc' = finish_reason acc \<and> t0 acc' = t0 acc)"

lemma text_delta_step:
  assumes "p \<noteq> []"
  shows "on_anthropic_event now (delta_event i [(''type'', JStr ''text_delta''), (''text'', JStr p)]) acc
    = Inr (None, acc\<lparr> saw_output := True, emitted := True, text_parts := text_parts acc @ [p] \<rparr>)"
  using assms by (simp add: on_anthropic_event_def delta_event_def on_block_delta_def vget_def sub_obj_def py_or_def str_item_def)

lemma text_run:
  assumes "\<forall>p\<in>set ps. p \<noteq> []"
  shows "\<exists>acc'. run_events now (block_events i (Text ps)) acc = Inr acc' \<and> grown (concat ps) [] acc acc'"
  using assms
proof (induction ps arbitrary: acc)
  case Nil
  then show ?case by (simp add: grown_def)
next
  case (Cons p ps)
  let ?a = "acc\<lparr> saw_output := True, emitted := True, text_parts := text_parts acc @ [p] \<rparr>"
  obtain acc' where "run_events now (block_events i (Text ps)) ?a = Inr acc'" "grown (concat ps) [] ?a acc'"
    using Cons by auto
  then show ?case using Cons.prems by (auto simp: text_delta_step grown_def)
qed

definition keys_below :: "nat \<Rightarrow> (jval \<times> jval) list \<Rightarrow> bool" where
  "keys_below n cs = (\<forall>(j, c)\<in>set cs. \<exists>m<n. j = JInt (int m))"

lemma put_call_at: "keys_below i cs \<Longrightarrow> put_call (JInt (int i)) c (cs @ [(JInt (int i), d)]) = cs @ [(JInt (int i), c)]"
  by (induction cs) (auto simp: keys_below_def)

lemma put_call_new: "keys_below i cs \<Longrightarrow> put_call (JInt (int i)) c cs = cs @ [(JInt (int i), c)]"
  by (induction cs) (auto simp: keys_below_def)

lemma find_call_at: "keys_below i cs \<Longrightarrow> find_call (JInt (int i)) (cs @ [(JInt (int i), d)]) = Some d"
  by (induction cs) (auto simp: keys_below_def)

lemma append_arguments_call: "append_arguments s (call_value (n, name, args)) = call_value (n, name, args @ s)"
  by (simp add: append_arguments_def call_value_def)

lemma json_delta_step:
  assumes "p \<noteq> []" and "call_pairs (tool_calls acc) = cs @ [(JInt (int i), call_value (n, name, args))]" and "keys_below i cs"
  shows "on_anthropic_event now (delta_event i [(''type'', JStr ''input_json_delta''), (''partial_json'', JStr p)]) acc
    = Inr (None, acc\<lparr> saw_output := True, tool_calls := pack_calls (cs @ [(JInt (int i), call_value (n, name, args @ p))]) \<rparr>)"
  using assms
  by (simp add: on_anthropic_event_def delta_event_def on_block_delta_def vget_def sub_obj_def py_or_def str_item_def
      find_call_at put_call_at set_call_def unhashable_def append_arguments_call dget_or_def)

lemma json_run:
  assumes "\<forall>p\<in>set ps. p \<noteq> []" and "call_pairs (tool_calls acc) = cs @ [(JInt (int i), call_value (n, name, args))]" and "keys_below i cs"
  shows "\<exists>acc'. run_events now (map (\<lambda>p. delta_event i [(''type'', JStr ''input_json_delta''), (''partial_json'', JStr p)]) ps) acc = Inr acc'
    \<and> call_pairs (tool_calls acc') = cs @ [(JInt (int i), call_value (n, name, args @ concat ps))] \<and> text_parts acc' = text_parts acc
    \<and> usage acc' = usage acc \<and> raw_model acc' = raw_model acc \<and> finish_reason acc' = finish_reason acc \<and> t0 acc' = t0 acc"
  using assms
proof (induction ps arbitrary: acc args)
  case (Cons p ps)
  let ?a = "acc\<lparr> saw_output := True, tool_calls := pack_calls (cs @ [(JInt (int i), call_value (n, name, args @ p))]) \<rparr>"
  have "on_anthropic_event now (delta_event i [(''type'', JStr ''input_json_delta''), (''partial_json'', JStr p)]) acc = Inr (None, ?a)"
    using Cons.prems by (intro json_delta_step) auto
  moreover have "\<forall>p\<in>set ps. p \<noteq> []" "call_pairs (tool_calls ?a) = cs @ [(JInt (int i), call_value (n, name, args @ p))]"
    using Cons.prems by simp_all
  ultimately show ?case using Cons.IH [of ?a "args @ p"] Cons.prems(3) by auto
qed auto

lemma block_run:
  assumes "good_block b" and "keys_below i (call_pairs (tool_calls acc))"
  shows "\<exists>acc'. run_events now (block_events i b) acc = Inr acc' \<and> grown (block_text b) (block_call i b) acc acc'"
proof (cases b)
  case (Text ps)
  then show ?thesis using text_run [of ps now i acc] assms(1) by simp
next
  case (ToolUse n name input ps)
  let ?cs = "call_pairs (tool_calls acc)"
  let ?a = "acc\<lparr> saw_output := True, tool_calls := pack_calls (?cs @ [(JInt (int i), call_value (JStr n, JStr name, []))]) \<rparr>"
  have nm: "py_or (JStr name) (JStr []) = JStr name" by (simp add: py_or_def)
  have "on_anthropic_event now (hd (block_events i b)) acc = Inr (None, ?a)"
    using assms(2) ToolUse
    by (simp add: on_anthropic_event_def on_block_start_def vget_def sub_obj_def py_or_def dget_or_def)
      (simp add: name_or_empty_def vget_def nm set_call_def unhashable_def put_call_new)
  moreover obtain acc' where "run_events now (tl (block_events i b)) ?a = Inr acc'"
    "call_pairs (tool_calls acc') = ?cs @ [(JInt (int i), call_value (JStr n, JStr name, concat ps))]" "text_parts acc' = text_parts acc"
    "usage acc' = usage acc \<and> raw_model acc' = raw_model acc \<and> finish_reason acc' = finish_reason acc \<and> t0 acc' = t0 acc"
    using json_run [of ps ?a ?cs i "JStr n" "JStr name" "[]" now] assms ToolUse by auto
  ultimately show ?thesis using ToolUse by (auto simp: grown_def)
qed

lemma blocks_run:
  assumes "\<forall>b\<in>set bs. good_block b" and "keys_below i (call_pairs (tool_calls acc))"
  shows "\<exists>acc'. run_events now (blocks_events i bs) acc = Inr acc'
    \<and> grown (concat (map block_text bs)) (blocks_calls i bs) acc acc'"
  using assms
proof (induction bs arbitrary: i acc)
  case Nil
  then show ?case by (simp add: grown_def)
next
  case (Cons b bs)
  obtain a where a: "run_events now (block_events i b) acc = Inr a" "grown (block_text b) (block_call i b) acc a"
    using block_run [of b i acc now] Cons.prems by auto
  have "keys_below (Suc i) (call_pairs (tool_calls a))"
    using a(2) Cons.prems(2) by (cases b) (auto simp: grown_def keys_below_def less_Suc_eq)
  then obtain a' where "run_events now (blocks_events (Suc i) bs) a = Inr a'"
    "grown (concat (map block_text bs)) (blocks_calls (Suc i) bs) a a'"
    using Cons.IH [of "Suc i" a] Cons.prems(1) by auto
  then show ?case using a by (auto simp: run_events_append grown_def)
qed

text \<open>Calls indexed in ascending order are already sorted.\<close>

lemma insert_key_last: "\<forall>(j, c)\<in>set cs. \<exists>m<n. j = JInt (int m) \<Longrightarrow> insert_key (JInt (int n), d) cs = Inr (cs @ [(JInt (int n), d)])"
  by (induction cs) (auto simp: py_lt_def)

lemma blocks_calls_keys: "(j, c) \<in> set (blocks_calls i bs) \<Longrightarrow> \<exists>m. i \<le> m \<and> m < i + length bs \<and> j = JInt (int m)"
proof (induction bs arbitrary: i)
  case (Cons b bs)
  then show ?case by (cases b) (fastforce dest: Cons.IH [of "Suc i"])+
qed simp

lemma sort_blocks_calls:
  "keys_below i done \<Longrightarrow> rfold insert_key (blocks_calls i bs) done = Inr (done @ blocks_calls i bs)"
proof (induction bs arbitrary: i "done")
  case (Cons b bs)
  show ?case
  proof (cases b)
    case (Text ps)
    moreover have "keys_below (Suc i) done" using Cons.prems by (auto simp: keys_below_def less_Suc_eq)
    ultimately show ?thesis using Cons.IH by simp
  next
    case (ToolUse n name input ps)
    let ?c = "(JInt (int i), call_value (JStr n, JStr name, concat ps))"
    have "keys_below (Suc i) (done @ [?c])" using Cons.prems by (auto simp: keys_below_def less_Suc_eq)
    moreover have "insert_key ?c done = Inr (done @ [?c])"
      using Cons.prems by (intro insert_key_last) (simp add: keys_below_def)
    ultimately show ?thesis using Cons.IH [of "Suc i" "done @ [?c]"] ToolUse by simp
  qed
qed simp


lemma parse_blocks:
  assumes "\<forall>b\<in>set bs. good_block b"
  shows "\<exists>rs. rmap anthropic_block (map block_value bs) = Inr rs \<and> join_values (concat (map fst rs)) = Inr (concat (map block_text bs))
    \<and> concat (map snd rs) = map snd (blocks_calls i bs)"
  using assms
proof (induction bs arbitrary: i)
  case Nil
  then show ?case by (simp add: join_values_def)
next
  case (Cons b bs)
  obtain rs where rs: "rmap anthropic_block (map block_value bs) = Inr rs"
    "join_values (concat (map fst rs)) = Inr (concat (map block_text bs))"
    "concat (map snd rs) = map snd (blocks_calls (Suc i) bs)"
    using Cons by force
  have "\<exists>ts cs. anthropic_block (block_value b) = Inr (ts, cs) \<and> join_values ts = Inr (block_text b) \<and> cs = map snd (block_call i b)"
  proof (cases b)
    case (Text ps)
    then show ?thesis
      by (simp add: anthropic_block_def text_block_def vget_def join_values_def str_item_def)
  next
    case (ToolUse n name input ps)
    then show ?thesis using Cons.prems
      by (simp add: anthropic_block_def vget_def join_values_def name_or_empty_def py_or_def function_call_def call_value_def)
  qed
  then obtain ts cs where "anthropic_block (block_value b) = Inr (ts, cs)" "join_values ts = Inr (block_text b)" "cs = map snd (block_call i b)"
    by blast
  moreover have "join_values (ts @ us) = Inr (t @ u)" if "join_values ts = Inr t" "join_values us = Inr u" for us t u
  proof -
    have "rmap str_item (ts @ us) = Inr (xs @ ys)" if "rmap str_item ts = Inr xs" "rmap str_item us = Inr ys" for xs ys
      using that by (induction ts arbitrary: xs) (auto simp: res_simps)
    then show ?thesis using that by (auto simp: join_values_def res_simps)
  qed
  ultimately show ?case using rs by auto
qed

lemma grown_new: "grown t calls acc acc' \<Longrightarrow> text_parts acc = [] \<Longrightarrow> tool_calls acc = JNull \<Longrightarrow>
    concat (text_parts acc') = t \<and> call_pairs (tool_calls acc') = calls"
  by (simp add: grown_def)

lemma message_run:
  assumes "\<forall>b\<in>set bs. good_block b" and "model \<noteq> []" and "stop \<noteq> []"
  shows "\<exists>acc. run_events now (message_events model u bs stop u') (new_acc start) = Inr acc
    \<and> concat (text_parts acc) = concat (map block_text bs) \<and> call_pairs (tool_calls acc) = blocks_calls 0 bs
    \<and> usage acc = dupd (dupd [] u) u' \<and> raw_model acc = JStr model \<and> finish_reason acc = JStr stop \<and> t0 acc = start"
proof -
  have upd: "update_usage (JObj v) a = Inr (a\<lparr> usage := dupd (usage a) v \<rparr>)" for v a
    by (cases "v = []") (simp_all add: update_usage_def py_or_def dupd_def)
  let ?a = "(new_acc start)\<lparr> raw_model := JStr model, usage := dupd [] u \<rparr>"
  have s: "run_events now [JObj [(''type'', JStr ''message_start''), (''message'', JObj [(''model'', JStr model), (''usage'', JObj u)])]] (new_acc start) = Inr ?a"
    using assms(2) by (simp add: on_anthropic_event_def vget_def sub_obj_def upd py_or_def new_acc_def)
  obtain b where b: "run_events now (blocks_events 0 bs) ?a = Inr b" "grown (concat (map block_text bs)) (blocks_calls 0 bs) ?a b"
    using blocks_run [of bs 0 ?a now] assms(1) by (auto simp: keys_below_def new_acc_def)
  have e: "run_events now [JObj [(''type'', JStr ''message_delta''), (''delta'', JObj [(''stop_reason'', JStr stop)]), (''usage'', JObj u')]] b
      = Inr (b\<lparr> finish_reason := JStr stop, usage := dupd (usage b) u' \<rparr>)"
    using assms(3) by (simp add: on_anthropic_event_def vget_def sub_obj_def upd py_or_def)
  have "run_events now (message_events model u bs stop u') (new_acc start) = Inr (b\<lparr> finish_reason := JStr stop, usage := dupd (usage b) u' \<rparr>)"
  proof -
    have m: "message_events model u bs stop u' = [JObj [(''type'', JStr ''message_start''), (''message'', JObj [(''model'', JStr model), (''usage'', JObj u)])]]
        @ blocks_events 0 bs @ [JObj [(''type'', JStr ''message_delta''), (''delta'', JObj [(''stop_reason'', JStr stop)]), (''usage'', JObj u')]]"
      by (simp add: message_events_def)
    show ?thesis unfolding m run_events_append s b(1) rbind_Inr e ..
  qed
  then show ?thesis using grown_new [OF b(2)] b(2) by (auto simp: grown_def new_acc_def)
qed




text \<open>
  A call without arguments is where the two differ: the complete response reports the arguments \<open>{}\<close>, the
  stream, which gets no argument deltas for it, the empty text.
\<close>

lemma stream_empty_arguments:
  "run_events now (block_events 0 (ToolUse i name [] [])) (new_acc start)
     = Inr ((new_acc start)\<lparr> saw_output := True, tool_calls := pack_calls [(JInt 0, call_value (JStr i, JStr name, []))] \<rparr>)
   \<and> anthropic_block (block_value (ToolUse i name [] [])) = Inr ([], [call_value (JStr i, JStr name, ''{}'')])"
proof -
  have d: "json_dumps (JObj []) = ''{}''" by code_simp
  show ?thesis
    by (simp add: on_anthropic_event_def on_block_start_def vget_def sub_obj_def py_or_def dget_or_def name_or_empty_def
        set_call_def unhashable_def new_acc_def anthropic_block_def function_call_def call_value_def d)
qed

end
