(* ===== verification/GoogleAdapter.thy ===== *)
theory GoogleAdapter
  imports ProviderWire
begin

text \<open>
  \<open>provider_adapters/google.py\<close>: Gemini's generateContent. Requests from OpenAI messages and tools, the
  complete response, and the chunk stream. \<open>urllib.parse.quote\<close> is modelled on bytes with its default set
  of safe characters and the slash. Text parts of the stream are strings (another type raises).
\<close>

section \<open>Requests\<close>

text \<open>The names of the calls by their id; ids and names that are not strings but hash are kept by value.\<close>

definition call_name_step :: "jval \<Rightarrow> (jval \<times> jval) list \<Rightarrow> (jval \<times> jval) list res" where
  "call_name_step tc out =
     rbind (vget tc ''id'') (\<lambda>tid. rbind (sub_obj tc ''function'') (\<lambda>fn. rbind (vget fn ''name'') (\<lambda>name.
       if \<not> (truthy tid \<and> truthy name) then Inr out
       else if unhashable tid then Inl (unhashable_err tid) else Inr (put_call tid name out))))"

definition tool_name_by_id :: "jval \<Rightarrow> (jval \<times> jval) list res" where
  "tool_name_by_id messages =
     rbind (items_of messages) (\<lambda>ms.
     rfold (\<lambda>m out. rbind (vget m ''tool_calls'') (\<lambda>tcs. rbind (items_of tcs) (\<lambda>tcs. rfold call_name_step tcs out))) ms [])"

definition tool_response_payload :: "string \<Rightarrow> jval" where
  "tool_response_payload t = (case json_loads default_hook t of
     Inr (JObj d) \<Rightarrow> JObj d | _ \<Rightarrow> JObj [(''result'', JStr t)])"

definition text_part_value :: "string \<Rightarrow> jval" where
  "text_part_value t = JObj [(''text'', JStr t)]"

definition function_call_part :: "jval \<Rightarrow> jval res" where
  "function_call_part tc =
     rbind (sub_obj tc ''function'') (\<lambda>fn. rbind (name_or_empty fn) (\<lambda>name. rbind (vget fn ''arguments'') (\<lambda>args.
       Inr (JObj [(''functionCall'', JObj [(''name'', name), (''args'', JObj (json_args args))])]))))"

definition content_value :: "string \<Rightarrow> jval list \<Rightarrow> jval" where
  "content_value role parts = JObj [(''role'', JStr role), (''parts'', JList parts)]"

definition find_name :: "(jval \<times> jval) list \<Rightarrow> jval \<Rightarrow> jval res" where
  "find_name names i = (if unhashable i then Inl (unhashable_err i)
     else Inr (case find_call i names of None \<Rightarrow> JNull | Some n \<Rightarrow> n))"

definition message_to_gemini :: "(jval \<times> jval) list \<Rightarrow> jval \<Rightarrow> (jval list \<times> string list) res" where
  "message_to_gemini names m =
     rbind (vget m ''role'') (\<lambda>role. rbind (vget m ''content'') (\<lambda>c. rbind (text_from_content c) (\<lambda>t.
     if role = JStr ''system'' then Inr ([], if t = [] then [] else [t])
     else if role = JStr ''tool'' then
       rbind (find_name names (dget (obj_of m) ''tool_call_id'')) (\<lambda>n.
       let name = py_or (py_or n (dget (obj_of m) ''name'')) (JStr ''tool'') in
         Inr ([content_value ''user'' [JObj [(''functionResponse'', JObj [(''name'', name), (''response'', tool_response_payload t)])]]], []))
     else if role = JStr ''assistant'' then
       rbind (items_of (dget (obj_of m) ''tool_calls'')) (\<lambda>tcs. rbind (rmap function_call_part tcs) (\<lambda>calls.
       let parts = (if t = [] then [] else [text_part_value t]) @ calls in
         Inr (if parts = [] then [] else [content_value ''model'' parts], [])))
     else Inr (if t = [] then [] else [content_value ''user'' [text_part_value t]], []))))"

definition openai_messages_to_gemini :: "jval \<Rightarrow> (jval list \<times> jval) res" where
  "openai_messages_to_gemini messages =
     rbind (tool_name_by_id messages) (\<lambda>names. rbind (items_of messages) (\<lambda>ms.
     rbind (rmap (message_to_gemini names) ms) (\<lambda>rs.
     let systems = concat (map snd rs) in
       Inr (concat (map fst rs),
            if systems = [] then JNull else JObj [(''parts'', JList [text_part_value (join (nl @ nl) systems)])]))))"

definition tool_declaration :: "jval \<Rightarrow> jval list res" where
  "tool_declaration tool =
     rbind (sub_obj tool ''function'') (\<lambda>fn. rbind (vget fn ''name'') (\<lambda>name.
     if \<not> truthy name then Inr []
     else rbind (vget fn ''description'') (\<lambda>d. rbind (vget fn ''parameters'') (\<lambda>p.
       Inr [JObj [(''name'', name), (''description'', py_or d (JStr [])), (''parameters'', py_or p EMPTY_SCHEMA)]]))))"

definition openai_tools_to_gemini :: "jval \<Rightarrow> jval res" where
  "openai_tools_to_gemini tools =
     rbind (items_of tools) (\<lambda>ts. rbind (rmap tool_declaration ts) (\<lambda>rs.
       Inr (if concat rs = [] then JNull else JList [JObj [(''functionDeclarations'', JList (concat rs))]])))"

text \<open>\<open>quote(path, safe="/")\<close>.\<close>

definition unreserved :: "char \<Rightarrow> bool" where
  "unreserved c = (CHR ''a'' \<le> c \<and> c \<le> CHR ''z'' \<or> CHR ''A'' \<le> c \<and> c \<le> CHR ''Z'' \<or> is_digit c \<or> c \<in> set ''_.-~'')"

definition upper_hex :: "nat \<Rightarrow> char" where
  "upper_hex n = (if n < 10 then char_of (48 + n) else char_of (55 + n))"

definition quote_path :: "string \<Rightarrow> string" where
  "quote_path s = concat (map (\<lambda>c. if unreserved c \<or> c = CHR ''/'' then [c]
     else let n = of_char c in [CHR ''%'', upper_hex (n div 16), upper_hex (n mod 16)]) s)"

definition google_request :: "dict \<Rightarrow> string \<Rightarrow> dict \<Rightarrow> bool \<Rightarrow> (string \<times> dict \<times> dict) res" where
  "google_request request token extra stream =
     rbind (wire_model request) (\<lambda>model.
     rbind (openai_messages_to_gemini (py_or (dget request ''messages'') (JList []))) (\<lambda>(contents, system).
     rbind (openai_tools_to_gemini (dget request ''tools'')) (\<lambda>tools.
     let model_path = (if prefix_of ''models/'' (py_str model) then py_str model else ''models/'' @ py_str model);
         max_tokens = dget request ''max_tokens''; temperature = dget request ''temperature'';
         generation = (if max_tokens = JNull then [] else [(''maxOutputTokens'', max_tokens)])
           @ (if temperature = JNull then [] else [(''temperature'', temperature)]);
         body = [(''contents'', JList contents)]
           @ (if system = JNull then [] else [(''systemInstruction'', system)])
           @ (if generation = [] then [] else [(''generationConfig'', JObj generation)])
           @ (if tools = JNull then [] else [(''tools'', tools)]);
         base = py_or (dget request ''base_url'') (JStr ''https://generativelanguage.googleapis.com/v1beta'');
         suffix = (if stream then ''streamGenerateContent?alt=sse'' else ''generateContent'');
         headers = dupd [(''Content-Type'', JStr ''application/json''), (''x-goog-api-key'', JStr token)] extra
     in case base of
          JStr b \<Rightarrow> Inr (rstrip_slash b @ ''/'' @ quote_path model_path @ '':'' @ suffix, body, headers)
        | _ \<Rightarrow> Inl (attr_err base ''rstrip''))))"

section \<open>Responses\<close>

definition gemini_call :: "jval \<Rightarrow> jval res" where
  "gemini_call fc =
     rbind (vget fc ''id'') (\<lambda>i. rbind (vget fc ''name'') (\<lambda>n.
       Inr (function_call (py_or i n) (py_or n (JStr [])) (dget (obj_of fc) ''args''))))"

definition parts_of :: "jval \<Rightarrow> jval list res" where
  "parts_of cand = rbind (sub_obj cand ''content'') (\<lambda>c. rbind (vget c ''parts'') items_of)"

definition gemini_part :: "jval \<Rightarrow> (jval list \<times> jval list) res" where
  "gemini_part part =
     rbind (vget part ''text'') (\<lambda>t. rbind (vget part ''functionCall'') (\<lambda>fc.
     rbind (if truthy fc then rbind (gemini_call fc) (\<lambda>c. Inr [c]) else Inr []) (\<lambda>calls.
       Inr (if truthy t then [t] else [], calls))))"

definition gemini_result :: "int \<Rightarrow> string \<Rightarrow> jval list \<Rightarrow> jval \<Rightarrow> jval \<Rightarrow> jval \<Rightarrow> dict res" where
  "gemini_result latency t calls finish u model =
     rbind (vget u ''promptTokenCount'') (\<lambda>tin.
       Inr (ok_result latency [(''text'', JStr t), (''tool_calls'', none_if_empty calls), (''finish_reason'', finish),
         (''tokens_in'', tin), (''tokens_out'', dget (obj_of u) ''candidatesTokenCount''),
         (''tokens_total'', dget (obj_of u) ''totalTokenCount''), (''tokens_cached'', dget (obj_of u) ''cachedContentTokenCount''),
         (''raw_model'', model)]))"

text \<open>\<open>candidates[0]\<close>.\<close>

definition first_candidate :: "jval \<Rightarrow> jval res" where
  "first_candidate v = (case v of
     JList (c # _) \<Rightarrow> Inr c
   | JStr (c # cs) \<Rightarrow> Inr (JStr (hd (utf8_chars (c # cs))))
   | JObj _ \<Rightarrow> Inl (KeyError ''0'')
   | _ \<Rightarrow> Inl (TypeError (CHR 0x27 # type_name v @ CHR 0x27 # '' object is not subscriptable'')))"

definition parse_gemini_response :: "jval \<Rightarrow> int \<Rightarrow> int \<Rightarrow> dict res" where
  "parse_gemini_response data code latency =
     rbind (vget data ''candidates'') (\<lambda>cs.
     if \<not> truthy cs then
       Inr (err (if truthy (dget (obj_of data) ''promptFeedback'') then ''content_filter'' else ''bad_response'') code latency
              ''no candidates in response'')
     else rbind (first_candidate cs) (\<lambda>cand. rbind (vget cand ''finishReason'') (\<lambda>finish.
     if finish = JStr ''SAFETY'' then Inr (err ''content_filter'' code latency ''blocked by provider filter'')
     else rbind (parts_of cand) (\<lambda>parts. rbind (rmap gemini_part parts) (\<lambda>rs.
     rbind (join_values (concat (map fst rs))) (\<lambda>t.
     let calls = concat (map snd rs) in
     if py_strip t = [] \<and> calls = [] then Inr (empty_content code latency)
     else rbind (sub_obj data ''usageMetadata'') (\<lambda>u.
       gemini_result latency t calls finish u (dget (obj_of data) ''modelVersion''))))))))"

section \<open>The stream\<close>

text \<open>
  A chunk is folded part by part; what was folded before an exception stays in the accumulator. The calls
  are a plain list there; \<open>usage\<close> is the last usage value, kept as a one-entry dict of the model.
\<close>

type_synonym 'a step = "(exn + 'a) \<times> stream_acc"

definition list_calls :: "stream_acc \<Rightarrow> jval list" where
  "list_calls acc = list_of (tool_calls acc)"

definition on_part :: "jval \<Rightarrow> stream_acc \<Rightarrow> unit step" where
  "on_part part acc = (case vget part ''text'' of
     Inl e \<Rightarrow> (Inl e, acc)
   | Inr t \<Rightarrow>
       (case (if truthy t then rbind (str_item t) (\<lambda>s.
                Inr (acc\<lparr> saw_output := True, emitted := True, text_parts := text_parts acc @ [s] \<rparr>)) else Inr acc) of
          Inl e \<Rightarrow> (Inl e, acc\<lparr> saw_output := True, emitted := True \<rparr>)
        | Inr acc' \<Rightarrow>
            (let fc = dget (obj_of part) ''functionCall'' in
             if \<not> truthy fc then (Inr (), acc')
             else case gemini_call fc of
               Inl e \<Rightarrow> (Inl e, acc'\<lparr> saw_output := True \<rparr>)
             | Inr c \<Rightarrow> (Inr (), acc'\<lparr> saw_output := True, tool_calls := JList (list_calls acc' @ [c]) \<rparr>))))"

fun on_parts :: "jval list \<Rightarrow> stream_acc \<Rightarrow> unit step" where
  "on_parts [] acc = (Inr (), acc)"
| "on_parts (p # ps) acc = (case on_part p acc of (Inl e, acc') \<Rightarrow> (Inl e, acc') | (Inr _, acc') \<Rightarrow> on_parts ps acc')"

fun on_candidates :: "jval list \<Rightarrow> stream_acc \<Rightarrow> unit step" where
  "on_candidates [] acc = (Inr (), acc)"
| "on_candidates (c # cs) acc = (case vget c ''finishReason'' of
     Inl e \<Rightarrow> (Inl e, acc)
   | Inr fr \<Rightarrow>
       (let acc' = acc\<lparr> finish_reason := py_or fr (finish_reason acc) \<rparr> in
        case parts_of c of
          Inl e \<Rightarrow> (Inl e, acc')
        | Inr ps \<Rightarrow> (case on_parts ps acc' of (Inl e, acc'') \<Rightarrow> (Inl e, acc'') | (Inr _, acc'') \<Rightarrow> on_candidates cs acc'')))"

definition on_google_chunk :: handler where
  "on_google_chunk chunk acc = (case vget chunk ''modelVersion'' of
     Inl e \<Rightarrow> (Inl e, acc)
   | Inr m \<Rightarrow>
       (let u = dget (obj_of chunk) ''usageMetadata'';
            acc' = acc\<lparr> raw_model := py_or m (raw_model acc), usage := (if truthy u then [([], u)] else usage acc) \<rparr>
        in case items_of (dget (obj_of chunk) ''candidates'') of
             Inl e \<Rightarrow> (Inl e, acc')
           | Inr cs \<Rightarrow> (case on_candidates cs acc' of (Inl e, acc'') \<Rightarrow> (Inl e, acc'') | (Inr _, acc'') \<Rightarrow> (Inr None, acc''))))"

definition last_usage :: "stream_acc \<Rightarrow> jval" where
  "last_usage acc = dget_or (usage acc) [] (JObj [])"

definition finish_google :: "rat \<Rightarrow> stream_acc \<Rightarrow> dict res" where
  "finish_google now acc =
     (let t = concat (text_parts acc); latency = elapsed_ms (t0 acc) now in
      if py_strip t = [] \<and> list_calls acc = [] then Inr (empty_content 200 latency)
      else gemini_result latency t (list_calls acc) (finish_reason acc) (last_usage acc) (raw_model acc))"

definition stream_google :: "wire \<Rightarrow> dict \<Rightarrow> dict res" where
  "stream_google n request =
     (case auth_token request (env_get n) ''GEMINI_API_KEY'' of
        Inl e \<Rightarrow> Inr e
      | Inr token \<Rightarrow>
          rbind (google_request request token (extra_headers n) True) (\<lambda>(url, body, headers).
          rbind (request_timeout n request) (\<lambda>timeout.
          case open_stream n url body headers timeout of (opening, events) \<Rightarrow>
          rbind (drive_http_sse on_google_chunk request (started_at n) opening events) (\<lambda>r.
            case r of Inl e \<Rightarrow> Inr e | Inr acc \<Rightarrow> finish_google (ended_at n) acc))))"

definition call_google :: "wire \<Rightarrow> dict \<Rightarrow> dict res" where
  "call_google n request =
     (case auth_token request (env_get n) ''GEMINI_API_KEY'' of
        Inl e \<Rightarrow> Inr e
      | Inr token \<Rightarrow>
          if dget request ''first_token_timeout_ms'' \<noteq> JNull then stream_google n request
          else rbind (google_request request token (extra_headers n) False) (\<lambda>(url, body, headers).
               rbind (request_timeout n request) (\<lambda>timeout.
                 Inr (finish_post n url parse_gemini_response (post n url body headers timeout)))))"

section \<open>Streams and complete responses\<close>

text \<open>Parts the provider may send: they parse, and their texts are strings.\<close>

definition good_part :: "jval \<Rightarrow> bool" where
  "good_part p = (\<exists>ts cs. gemini_part p = Inr (map JStr ts, cs))"

lemma good_partI: "gemini_part p = Inr (map JStr ts, cs) \<Longrightarrow> good_part p"
  unfolding good_part_def by blast

definition part_texts :: "jval list \<Rightarrow> string" where
  "part_texts ps = concat (map (\<lambda>p. case gemini_part p of Inr (ts, _) \<Rightarrow> concat (map str_of ts) | Inl _ \<Rightarrow> []) ps)"

definition part_calls :: "jval list \<Rightarrow> jval list" where
  "part_calls ps = concat (map (\<lambda>p. case gemini_part p of Inr (_, cs) \<Rightarrow> cs | Inl _ \<Rightarrow> []) ps)"

definition chunk_value :: "dict \<Rightarrow> dict \<Rightarrow> jval list \<Rightarrow> jval" where
  "chunk_value meta cand ps = JObj (meta @ [(''candidates'', JList [JObj (cand @ [(''content'', JObj [(''parts'', JList ps)])])])])"

definition last_chunk :: "string \<Rightarrow> dict \<Rightarrow> string \<Rightarrow> jval list \<Rightarrow> jval" where
  "last_chunk model u finish ps =
     chunk_value [(''modelVersion'', JStr model), (''usageMetadata'', JObj u)] [(''finishReason'', JStr finish)] ps"

definition folded :: "string \<Rightarrow> jval list \<Rightarrow> stream_acc \<Rightarrow> stream_acc \<Rightarrow> bool" where
  "folded t calls acc acc' = (concat (text_parts acc') = concat (text_parts acc) @ t \<and> list_calls acc' = list_calls acc @ calls
     \<and> usage acc' = usage acc \<and> raw_model acc' = raw_model acc \<and> finish_reason acc' = finish_reason acc \<and> t0 acc' = t0 acc)"

lemma part_fold:
  assumes "good_part p"
  shows "\<exists>acc'. on_part p acc = (Inr (), acc') \<and> folded (part_texts [p]) (part_calls [p]) acc acc'"
proof -
  obtain d where d: "p = JObj d"
    using assms by (cases p) (auto simp: good_part_def gemini_part_def vget_def)
  have t: "truthy (dget d ''text'') \<Longrightarrow> \<exists>s. dget d ''text'' = JStr s"
    using assms by (auto simp: d good_part_def gemini_part_def vget_def res_simps Cons_eq_map_conv split: if_splits)
  have c: "truthy (dget d ''functionCall'') \<Longrightarrow> \<exists>c. gemini_call (dget d ''functionCall'') = Inr c"
    using assms by (auto simp: d good_part_def gemini_part_def vget_def res_simps split: if_splits)
  show ?thesis
    using t c
    by (cases "truthy (dget d ''text'')"; cases "truthy (dget d ''functionCall'')")
      (auto simp: d on_part_def vget_def str_item_def folded_def part_texts_def part_calls_def gemini_part_def list_calls_def Let_def)
qed

lemma parts_fold:
  assumes "\<forall>p\<in>set ps. good_part p"
  shows "\<exists>acc'. on_parts ps acc = (Inr (), acc') \<and> folded (part_texts ps) (part_calls ps) acc acc'"
  using assms
proof (induction ps arbitrary: acc)
  case Nil
  then show ?case by (simp add: folded_def part_texts_def part_calls_def)
next
  case (Cons p ps)
  then obtain a where a: "on_part p acc = (Inr (), a)" "folded (part_texts [p]) (part_calls [p]) acc a"
    using part_fold by force
  obtain b where "on_parts ps a = (Inr (), b)" "folded (part_texts ps) (part_calls ps) a b"
    using Cons by force
  then show ?case using a by (auto simp: folded_def part_texts_def part_calls_def)
qed

lemma chunk_fold:
  assumes "\<forall>p\<in>set ps. good_part p"
  shows "\<exists>acc'. on_google_chunk (chunk_value [] [] ps) acc = (Inr None, acc') \<and> folded (part_texts ps) (part_calls ps) acc acc'"
proof -
  obtain b where "on_parts ps acc = (Inr (), b)" "folded (part_texts ps) (part_calls ps) acc b"
    using parts_fold [OF assms] by blast
  then show ?thesis
    by (simp add: on_google_chunk_def chunk_value_def vget_def parts_of_def sub_obj_def py_or_def Let_def)
qed

lemma last_chunk_fold:
  assumes "\<forall>p\<in>set ps. good_part p" and "model \<noteq> []" and "finish \<noteq> []" and "u \<noteq> []"
  shows "\<exists>acc'. on_google_chunk (last_chunk model u finish ps) acc = (Inr None, acc')
    \<and> concat (text_parts acc') = concat (text_parts acc) @ part_texts ps \<and> list_calls acc' = list_calls acc @ part_calls ps
    \<and> last_usage acc' = JObj u \<and> raw_model acc' = JStr model \<and> finish_reason acc' = JStr finish \<and> t0 acc' = t0 acc"
proof -
  let ?a = "acc\<lparr> raw_model := JStr model, usage := [([], JObj u)], finish_reason := JStr finish \<rparr>"
  obtain b where b: "on_parts ps ?a = (Inr (), b)" "folded (part_texts ps) (part_calls ps) ?a b"
    using parts_fold [OF assms(1)] by blast
  then have "on_google_chunk (last_chunk model u finish ps) acc = (Inr None, b)"
    using assms(2-4)
    by (simp add: on_google_chunk_def last_chunk_def chunk_value_def vget_def parts_of_def sub_obj_def py_or_def Let_def)
  then show ?thesis using b(2) by (auto simp: folded_def last_usage_def dget_or_def list_calls_def)
qed

lemma chunks_fold:
  assumes "\<forall>ps\<in>set pss. \<forall>p\<in>set ps. good_part p"
    and "list_all2 (\<lambda>e ev. \<exists>a s b. e = (a, Line s, b) \<and> sse_data s = Some (Some ev)) es (map (chunk_value [] []) pss)"
  shows "\<exists>acc'. drive_lines on_google_chunk None acc (es @ rest) = drive_lines on_google_chunk None acc' rest
    \<and> folded (part_texts (concat pss)) (part_calls (concat pss)) acc acc'"
  using assms
proof (induction pss arbitrary: es acc)
  case Nil
  then show ?case by (auto simp: folded_def part_texts_def part_calls_def)
next
  case (Cons ps pss)
  then obtain a s b es' where es: "es = (a, Line s, b) # es'" "sse_data s = Some (Some (chunk_value [] [] ps))"
    "list_all2 (\<lambda>e ev. \<exists>a s b. e = (a, Line s, b) \<and> sse_data s = Some (Some ev)) es' (map (chunk_value [] []) pss)"
    by (auto simp: list_all2_Cons2)
  obtain acc1 where one: "on_google_chunk (chunk_value [] [] ps) acc = (Inr None, acc1)" "folded (part_texts ps) (part_calls ps) acc acc1"
    using chunk_fold [of ps acc] Cons.prems(1) by auto
  obtain acc2 where "drive_lines on_google_chunk None acc1 (es' @ rest) = drive_lines on_google_chunk None acc2 rest"
    "folded (part_texts (concat pss)) (part_calls (concat pss)) acc1 acc2"
    using Cons.IH [OF _ es(3), of acc1] Cons.prems(1) by auto
  then show ?case
    using one by (auto simp: es before_first_output_def folded_def part_texts_def part_calls_def)
qed

lemma parse_parts:
  assumes "\<forall>p\<in>set ps. good_part p"
  shows "\<exists>rs. rmap gemini_part ps = Inr rs \<and> join_values (concat (map fst rs)) = Inr (part_texts ps) \<and> concat (map snd rs) = part_calls ps"
  using assms
proof (induction ps)
  case Nil
  then show ?case by (simp add: join_values_def part_texts_def part_calls_def)
next
  case (Cons p ps)
  then obtain rs ts cs where rs: "rmap gemini_part ps = Inr rs" "join_values (concat (map fst rs)) = Inr (part_texts ps)"
    "concat (map snd rs) = part_calls ps" and p: "gemini_part p = Inr (map JStr ts, cs)"
    by (auto simp: good_part_def)
  have j: "join_values (map JStr ts @ us) = Inr (concat ts @ u)" if "join_values us = Inr u" for us u
    using that by (induction ts) (auto simp: join_values_def res_simps str_item_def)
  show ?case
    using rs p j [OF rs(2)] by (simp add: part_texts_def part_calls_def comp_def)
qed

text \<open>
  However Gemini cuts an answer into chunks, the streamed result is the one of the complete response:
  driving any sequence of chunks with text and function-call parts, the last one with the finish reason,
  the usage and the model, gives what the adapter parses from one response with all the parts.
\<close>

lemma google_stream_equals_response:
  assumes "\<forall>ps\<in>set (pss @ [qs]). \<forall>p\<in>set ps. good_part p" and "model \<noteq> []" and "finish \<noteq> []" and "finish \<noteq> ''SAFETY''" and "u \<noteq> []"
    and "list_all2 (\<lambda>e ev. \<exists>a s b. e = (a, Line s, b) \<and> sse_data s = Some (Some ev)) es
           (map (chunk_value [] []) pss @ [last_chunk model u finish qs])"
  shows "\<exists>acc. drive_lines on_google_chunk None (new_acc start) es = Inr acc
    \<and> finish_google now acc = parse_gemini_response (last_chunk model u finish (concat pss @ qs)) 200 (elapsed_ms start now)"
proof -
  obtain es1 es2 where e: "es = es1 @ es2"
    "list_all2 (\<lambda>e ev. \<exists>a s b. e = (a, Line s, b) \<and> sse_data s = Some (Some ev)) es1 (map (chunk_value [] []) pss)"
    "list_all2 (\<lambda>e ev. \<exists>a s b. e = (a, Line s, b) \<and> sse_data s = Some (Some ev)) es2 [last_chunk model u finish qs]"
    using assms(6) unfolding list_all2_append2 by blast
  obtain a s b where l: "es2 = [(a, Line s, b)]" "sse_data s = Some (Some (last_chunk model u finish qs))"
    using e(3) unfolding list_all2_Cons2 list_all2_Nil2 by blast
  have good: "\<forall>ps\<in>set pss. \<forall>p\<in>set ps. good_part p" "\<forall>p\<in>set qs. good_part p" using assms(1) by simp_all
  obtain acc1 where one: "drive_lines on_google_chunk None (new_acc start) es = drive_lines on_google_chunk None acc1 [(a, Line s, b)]"
    "folded (part_texts (concat pss)) (part_calls (concat pss)) (new_acc start) acc1"
    using chunks_fold [OF good(1) e(2), of "new_acc start" "[(a, Line s, b)]"] unfolding e(1) l(1) by blast
  obtain acc2 where two: "on_google_chunk (last_chunk model u finish qs) acc1 = (Inr None, acc2)"
    "concat (text_parts acc2) = concat (text_parts acc1) @ part_texts qs" "list_calls acc2 = list_calls acc1 @ part_calls qs"
    "last_usage acc2 = JObj u" "raw_model acc2 = JStr model" "finish_reason acc2 = JStr finish" "t0 acc2 = t0 acc1"
    using last_chunk_fold [OF good(2) assms(2,3,5)] by blast
  have d: "drive_lines on_google_chunk None (new_acc start) es = Inr acc2"
    using one(1) l(2) two(1) by (simp add: before_first_output_def)
  obtain rs where rs: "rmap gemini_part (concat pss @ qs) = Inr rs"
    "join_values (concat (map fst rs)) = Inr (part_texts (concat pss @ qs))" "concat (map snd rs) = part_calls (concat pss @ qs)"
    using parse_parts [of "concat pss @ qs"] good by auto
  have t: "concat (text_parts acc2) = part_texts (concat pss @ qs)" "list_calls acc2 = part_calls (concat pss @ qs)" "t0 acc2 = start"
    using one(2) two by (simp_all add: folded_def new_acc_def part_texts_def part_calls_def list_calls_def)
  have "parse_gemini_response (last_chunk model u finish (concat pss @ qs)) 200 (elapsed_ms start now) = finish_google now acc2"
    using assms(4,5) rs
    by (simp add: parse_gemini_response_def last_chunk_def chunk_value_def vget_def first_candidate_def parts_of_def sub_obj_def
        py_or_def finish_google_def two(4-6) t Let_def del: concat_eq_Nil_conv)
  then show ?thesis using d by simp
qed


text \<open>
  A blocked answer is the exception: the complete response with finish reason SAFETY is a
  \<open>content_filter\<close> error, while the stream of the same answer is reported as a success with its text.
\<close>

lemma google_safety_differs:
  "parse_gemini_response (last_chunk ''m'' [(''totalTokenCount'', JInt 3)] ''SAFETY'' [text_part_value ''a'']) 200 latency
     = Inr (err ''content_filter'' 200 latency ''blocked by provider filter'')
   \<and> (\<exists>acc r. on_google_chunk (last_chunk ''m'' [(''totalTokenCount'', JInt 3)] ''SAFETY'' [text_part_value ''a'']) (new_acc start) = (Inr None, acc)
        \<and> finish_google now acc = Inr r \<and> dget r ''ok'' = JBool True)"
proof -
  have g: "\<forall>p\<in>set [text_part_value ''a'']. good_part p"
    using good_partI [of "text_part_value ''a''" "[''a'']" "[]"] by (simp add: gemini_part_def text_part_value_def vget_def)
  obtain acc where acc: "on_google_chunk (last_chunk ''m'' [(''totalTokenCount'', JInt 3)] ''SAFETY'' [text_part_value ''a'']) (new_acc start) = (Inr None, acc)"
    "concat (text_parts acc) = part_texts [text_part_value ''a'']" "last_usage acc = JObj [(''totalTokenCount'', JInt 3)]"
    using last_chunk_fold [OF g, of "''m''" "''SAFETY''" "[(''totalTokenCount'', JInt 3)]" "new_acc start"] by (auto simp: new_acc_def)
  have "part_texts [text_part_value ''a''] = ''a''"
    by (simp add: part_texts_def gemini_part_def text_part_value_def vget_def)
  moreover have "py_strip ''a'' \<noteq> []" by code_simp
  ultimately have "\<exists>r. finish_google now acc = Inr r \<and> dget r ''ok'' = JBool True"
    using acc(2,3) by (simp add: finish_google_def gemini_result_def vget_def ok_result_def Let_def)
  then show ?thesis using acc(1)
    by (simp add: parse_gemini_response_def last_chunk_def chunk_value_def vget_def first_candidate_def)
qed

end
