(* ===== verification/BedrockAdapter.thy ===== *)
theory BedrockAdapter
  imports ProviderWire
begin

text \<open>
  \<open>provider_adapters/bedrock.py\<close> and \<open>aws_credentials.py\<close>: Amazon Bedrock's Converse and ConverseStream.
  The boto3 client is what \<open>aws\<close> holds: whether one was injected, what a call returns or raises, and the
  events of a stream. Events and responses are dicts, as boto3 delivers them.
\<close>

section \<open>Errors of the client\<close>

text \<open>An exception with the \<open>response\<close> attribute botocore gives it (\<open>JNull\<close>: none).\<close>

type_synonym aws_exn = "exn \<times> jval"

definition AUTH_CODES :: "string list" where
  "AUTH_CODES = [''AccessDeniedException'', ''ExpiredTokenException'', ''InvalidSignatureException'',
     ''UnrecognizedClientException'', ''UnauthorizedException'', ''ValidationException:Credentials'']"

definition RATE_CODES :: "string list" where
  "RATE_CODES = [''ServiceQuotaExceededException'', ''ThrottlingException'', ''TooManyRequestsException'']"

definition UNAVAILABLE_CODES :: "string list" where
  "UNAVAILABLE_CODES = [''ModelNotReadyException'', ''ResourceNotFoundException'']"

definition SERVER_CODES :: "string list" where
  "SERVER_CODES = [''InternalServerException'', ''ServiceUnavailableException'']"

definition error_code :: "aws_exn \<Rightarrow> string" where
  "error_code x = (case x of (e, response) \<Rightarrow>
     let code = dget (obj_of (dget (obj_of response) ''Error'')) ''Code'' in
     if is_obj response \<and> truthy code then py_str code else exn_type e)"

definition typographic_isnt :: string where
  "typographic_isnt = ''isn'' @ [CHR 0xE2, CHR 0x80, CHR 0x99] @ ''t supported''"

definition classify_bedrock_error :: "aws_exn \<Rightarrow> string" where
  "classify_bedrock_error x =
     (let code = error_code x; msg = ascii_lower (exn_str (fst x)) in
      if code \<in> set AUTH_CODES then ''auth_error''
      else if code \<in> set RATE_CODES then ''rate_limit''
      else if code \<in> set UNAVAILABLE_CODES then ''model_unavailable''
      else if code \<in> set SERVER_CODES then ''server_error''
      else if code = ''ValidationException'' then
        (if contains typographic_isnt msg \<or> contains (''isn'' @ CHR 0x27 # ''t supported'') msg \<or> contains ''inference profile'' msg
         then ''model_unavailable''
         else if contains ''context'' msg \<and> (contains ''length'' msg \<or> contains ''window'' msg) then ''context_overflow''
         else ''bad_request'')
      else if contains ''timeout'' (ascii_lower code) then ''timeout''
      else ''unknown'')"

section \<open>Requests\<close>

definition env_value :: "(string \<Rightarrow> string option) \<Rightarrow> string \<Rightarrow> jval" where
  "env_value env k = (case env k of None \<Rightarrow> JNull | Some s \<Rightarrow> JStr s)"

definition aws_region :: "dict \<Rightarrow> (string \<Rightarrow> string option) \<Rightarrow> jval" where
  "aws_region request env =
     (if truthy (env_value env ''SAAS_TENANT_SCOPE'') then py_or (env_value env ''BEDROCK_REGION'') (JStr ''us-east-1'')
      else py_or (dget request ''region'') (py_or (dget request ''aws_region'') (py_or (env_value env ''BEDROCK_REGION'')
             (py_or (env_value env ''AWS_REGION'') (py_or (env_value env ''AWS_DEFAULT_REGION'') (JStr ''us-east-1''))))))"

text \<open>The keyword arguments of the boto3 client (\<open>aws_credentials.client\<close>).\<close>

definition aws_client_args :: "(string \<Rightarrow> string option) \<Rightarrow> dict \<Rightarrow> dict res" where
  "aws_client_args env kwargs =
     (if \<not> truthy (env_value env ''SAAS_TENANT_SCOPE'') then Inr kwargs
      else let k = env_value env ''AWS_ACCESS_KEY_ID''; s = env_value env ''AWS_SECRET_ACCESS_KEY'' in
        if \<not> truthy k \<or> \<not> truthy s then Inl (ValueError ''Workspace AWS credentials are missing'')
        else Inr (dupd kwargs [(''aws_access_key_id'', k), (''aws_secret_access_key'', s),
                    (''aws_session_token'', py_or (env_value env ''AWS_SESSION_TOKEN'') JNull)]))"

definition bedrock_model_id :: "dict \<Rightarrow> string res" where
  "bedrock_model_id request = rbind (wire_model request) (\<lambda>m. Inr (py_str m))"

definition tool_use_content :: "jval \<Rightarrow> jval list res" where
  "tool_use_content tc =
     rbind (sub_obj tc ''function'') (\<lambda>fn. rbind (vget fn ''name'') (\<lambda>name.
     if \<not> truthy name then Inr []
     else rbind (vget tc ''id'') (\<lambda>i. rbind (vget fn ''arguments'') (\<lambda>args.
       Inr [JObj [(''toolUse'', JObj [(''toolUseId'', py_or i name), (''name'', name), (''input'', JObj (json_args args))])]]))))"

definition text_content :: "string \<Rightarrow> jval" where
  "text_content t = JObj [(''text'', JStr t)]"

definition role_content :: "string \<Rightarrow> jval list \<Rightarrow> jval" where
  "role_content role content = JObj [(''role'', JStr role), (''content'', JList content)]"

definition message_to_bedrock :: "jval \<Rightarrow> (jval list \<times> string list) res" where
  "message_to_bedrock m =
     rbind (vget m ''role'') (\<lambda>role. rbind (vget m ''content'') (\<lambda>c. rbind (text_from_content c) (\<lambda>t.
     if role = JStr ''system'' then Inr ([], if t = [] then [] else [t])
     else if role = JStr ''tool'' then
       (let i = py_or (dget (obj_of m) ''tool_call_id'') (dget (obj_of m) ''id'') in
        Inr (if \<not> truthy i then [] else
          [role_content ''user'' [JObj [(''toolResult'', JObj [(''toolUseId'', i), (''content'', JList [text_content t])])]]], []))
     else if role = JStr ''assistant'' then
       rbind (items_of (dget (obj_of m) ''tool_calls'')) (\<lambda>tcs. rbind (rmap tool_use_content tcs) (\<lambda>uses.
       let content = (if t = [] then [] else [text_content t]) @ concat uses in
         Inr (if content = [] then [] else [role_content ''assistant'' content], [])))
     else Inr (if t = [] then [] else [role_content ''user'' [text_content t]], []))))"

definition openai_messages_to_bedrock :: "jval \<Rightarrow> (jval list \<times> jval) res" where
  "openai_messages_to_bedrock messages =
     rbind (items_of messages) (\<lambda>ms. rbind (rmap message_to_bedrock ms) (\<lambda>rs.
     let systems = concat (map snd rs) in
       Inr (concat (map fst rs), if systems = [] then JNull else JList [text_content (join (nl @ nl) systems)])))"

definition tool_spec :: "jval \<Rightarrow> jval list res" where
  "tool_spec tool =
     rbind (sub_obj tool ''function'') (\<lambda>fn. rbind (vget fn ''name'') (\<lambda>name.
     if \<not> truthy name then Inr []
     else rbind (vget fn ''description'') (\<lambda>d. rbind (vget fn ''parameters'') (\<lambda>p.
       Inr [JObj [(''toolSpec'', JObj [(''name'', name), (''description'', py_or d (JStr [])),
         (''inputSchema'', JObj [(''json'', py_or p EMPTY_SCHEMA)])])]]))))"

definition openai_tools_to_bedrock :: "jval \<Rightarrow> jval res" where
  "openai_tools_to_bedrock tools =
     rbind (items_of tools) (\<lambda>ts. rbind (rmap tool_spec ts) (\<lambda>rs.
       Inr (if concat rs = [] then JNull else JObj [(''tools'', JList (concat rs))])))"

definition bedrock_request :: "dict \<Rightarrow> dict res" where
  "bedrock_request request =
     rbind (openai_messages_to_bedrock (py_or (dget request ''messages'') (JList []))) (\<lambda>(messages, system).
     rbind (bedrock_model_id request) (\<lambda>model.
     rbind (openai_tools_to_bedrock (dget request ''tools'')) (\<lambda>tools.
     let max_tokens = dget request ''max_tokens''; temperature = dget request ''temperature'';
         inference = (if max_tokens = JNull then [] else [(''maxTokens'', max_tokens)])
           @ (if temperature = JNull then [] else [(''temperature'', temperature)]) in
       Inr ([(''modelId'', JStr model), (''messages'', JList messages)]
         @ (if system = JNull then [] else [(''system'', system)])
         @ (if inference = [] then [] else [(''inferenceConfig'', JObj inference)])
         @ (if tools = JNull then [] else [(''toolConfig'', tools)])))))"

section \<open>Responses\<close>

definition bedrock_block :: "jval \<Rightarrow> (jval list \<times> jval list) res" where
  "bedrock_block block =
     rbind (vget block ''text'') (\<lambda>t. rbind (vget block ''toolUse'') (\<lambda>tool.
       Inr (if truthy t then [t] else [],
            case tool of
              JObj u \<Rightarrow> [function_call (dget u ''toolUseId'') (py_or (dget u ''name'') (JStr [])) (dget u ''input'')]
            | _ \<Rightarrow> [])))"

definition bedrock_result :: "int \<Rightarrow> string \<Rightarrow> jval list \<Rightarrow> jval \<Rightarrow> jval \<Rightarrow> jval \<Rightarrow> dict res" where
  "bedrock_result latency t calls stop u model =
     rbind (vget u ''inputTokens'') (\<lambda>tin.
       Inr (ok_result latency [(''text'', JStr t), (''tool_calls'', none_if_empty calls), (''finish_reason'', stop),
         (''tokens_in'', tin), (''tokens_out'', dget (obj_of u) ''outputTokens''),
         (''tokens_total'', dget (obj_of u) ''totalTokens''), (''tokens_cached'', dget (obj_of u) ''cacheReadInputTokens''),
         (''raw_model'', model)]))"

definition parse_bedrock_response :: "dict \<Rightarrow> int \<Rightarrow> dict res" where
  "parse_bedrock_response data latency =
     rbind (sub_obj (JObj data) ''output'') (\<lambda>out. rbind (sub_obj out ''message'') (\<lambda>message.
     rbind (vget message ''content'') (\<lambda>content. rbind (items_of content) (\<lambda>blocks.
     rbind (rmap bedrock_block blocks) (\<lambda>rs. rbind (join_values (concat (map fst rs))) (\<lambda>t.
     let calls = concat (map snd rs) in
     if py_strip t = [] \<and> calls = [] then Inr (empty_content 200 latency)
     else bedrock_result latency t calls (dget data ''stopReason'') (py_or (dget data ''usage'') (JObj [])) (dget data ''modelId'')))))))"

section \<open>The stream\<close>

definition set_usage :: "jval \<Rightarrow> stream_acc \<Rightarrow> stream_acc" where
  "set_usage u acc = (if truthy u then acc\<lparr> usage := [([], u)] \<rparr> else acc)"

definition get_usage :: "stream_acc \<Rightarrow> jval" where
  "get_usage acc = dget_or (usage acc) [] (JObj [])"

text \<open>The call at an index: its id, name and argument text so far.\<close>

definition call_at :: "jval \<Rightarrow> stream_acc \<Rightarrow> jval" where
  "call_at i acc = (case find_call i (call_pairs (tool_calls acc)) of
     None \<Rightarrow> call_value (JNull, JStr [], []) | Some c \<Rightarrow> c)"

definition update_call :: "jval \<Rightarrow> (dict \<Rightarrow> dict) \<Rightarrow> (dict \<Rightarrow> dict) \<Rightarrow> stream_acc \<Rightarrow> stream_acc" where
  "update_call i f g acc =
     (let c = f (obj_of (call_at i acc)); c' = dset ''function'' (JObj (g (obj_of (dget c ''function'')))) c in
      acc\<lparr> saw_output := True, tool_calls := pack_calls (put_call i (JObj c') (call_pairs (tool_calls acc))) \<rparr>)"

definition set_if :: "jval \<Rightarrow> string \<Rightarrow> dict \<Rightarrow> dict" where
  "set_if v k d = (if truthy v then dset k v d else d)"

definition on_tool_start :: "jval \<Rightarrow> stream_acc \<Rightarrow> stream_acc res" where
  "on_tool_start payload acc =
     rbind (vget payload ''start'') (\<lambda>start. rbind (vget (py_or start (JObj [])) ''toolUse'') (\<lambda>tool.
     case tool of
       JObj u \<Rightarrow>
         (let i = dget_or (obj_of payload) ''contentBlockIndex'' (JInt 0) in
          if unhashable i then Inl (unhashable_err i)
          else Inr (update_call i (set_if (dget u ''toolUseId'') ''id'') (set_if (dget u ''name'') ''name'') acc))
     | _ \<Rightarrow> Inr acc))"

definition add_arguments :: "jval \<Rightarrow> dict \<Rightarrow> dict" where
  "add_arguments input fn = (if input = JNull then fn
     else dset ''arguments'' (JStr (str_of (dget fn ''arguments'') @ (case input of JStr s \<Rightarrow> s | _ \<Rightarrow> json_dumps input))) fn)"

definition on_tool_delta :: "jval \<Rightarrow> jval \<Rightarrow> stream_acc \<Rightarrow> stream_acc res" where
  "on_tool_delta i tool acc = (case tool of
     JObj u \<Rightarrow>
       if unhashable i then Inl (unhashable_err i)
       else Inr (update_call i (set_if (dget u ''toolUseId'') ''id'')
              (add_arguments (dget u ''input'') \<circ> set_if (dget u ''name'') ''name'') acc)
   | _ \<Rightarrow> Inr acc)"

text \<open>The text of a delta is out before the rest of it is looked at.\<close>

definition on_block_delta :: "jval \<Rightarrow> stream_acc \<Rightarrow> (exn + unit) \<times> stream_acc" where
  "on_block_delta payload acc =
     (case rbind (vget payload ''delta'') (\<lambda>delta. let d = py_or delta (JObj []) in rbind (vget d ''text'') (\<lambda>t. Inr (d, t))) of
        Inl e \<Rightarrow> (Inl e, acc)
      | Inr (delta, t) \<Rightarrow>
          (case (if truthy t then rbind (str_item t) (\<lambda>s.
                   Inr (acc\<lparr> saw_output := True, emitted := True, text_parts := text_parts acc @ [s] \<rparr>)) else Inr acc) of
             Inl e \<Rightarrow> (Inl e, acc\<lparr> saw_output := True, emitted := True \<rparr>)
           | Inr acc1 \<Rightarrow>
               (case on_tool_delta (dget_or (obj_of payload) ''contentBlockIndex'' (JInt 0)) (dget (obj_of delta) ''toolUse'') acc1 of
                  Inl e \<Rightarrow> (Inl e, acc1\<lparr> saw_output := True \<rparr>)
                | Inr acc2 \<Rightarrow>
                    (Inr (), if truthy (dget (obj_of delta) ''reasoningContent'') then acc2\<lparr> saw_output := True \<rparr> else acc2))))"

definition continue :: "stream_acc \<Rightarrow> stream_acc res \<Rightarrow> (exn + dict option) \<times> stream_acc" where
  "continue acc r = (case r of Inl e \<Rightarrow> (Inl e, acc) | Inr acc' \<Rightarrow> (Inr None, acc'))"

definition on_bedrock_event :: "rat \<Rightarrow> dict \<Rightarrow> stream_acc \<Rightarrow> (exn + dict option) \<times> stream_acc" where
  "on_bedrock_event now ev acc =
     (let sub = (\<lambda>k. py_or (dget ev k) (JObj [])) in
      if has_key ev ''messageStop'' then
        continue acc (rbind (vget (sub ''messageStop'') ''stopReason'') (\<lambda>s. Inr (acc\<lparr> finish_reason := py_or s (finish_reason acc) \<rparr>)))
      else if has_key ev ''metadata'' then
        continue acc (rbind (vget (sub ''metadata'') ''usage'') (\<lambda>u. Inr (set_usage u acc)))
      else if has_key ev ''contentBlockStart'' then continue acc (on_tool_start (sub ''contentBlockStart'') acc)
      else if has_key ev ''contentBlockDelta'' then
        (case on_block_delta (sub ''contentBlockDelta'') acc of (Inl e, acc') \<Rightarrow> (Inl e, acc') | (Inr _, acc') \<Rightarrow> (Inr None, acc'))
      else case find (\<lambda>k. prefix_of (rev ''Exception'') (rev k)) (keys ev) of
        None \<Rightarrow> (Inr None, acc)
      | Some k \<Rightarrow> (Inr (Some (err ''server_error'' 0 (elapsed_ms (t0 acc) now) (py_take 500 (py_str (py_or (dget ev k) (JObj ev)))))), acc))"

text \<open>An exception ends the stream: interrupted once text is out, classified before.\<close>

definition bedrock_broken :: "stream_acc \<Rightarrow> aws_exn \<Rightarrow> rat \<Rightarrow> dict" where
  "bedrock_broken acc x now =
     (if emitted acc then err ''stream_interrupted'' 0 (elapsed_ms (t0 acc) now)
        (exn_type (fst x) @ '': '' @ exn_str (fst x) @ '' (partial: '' @ str_repr (py_take 200 (concat (text_parts acc))) @ '')'')
      else err (classify_bedrock_error x) 0 (elapsed_ms (t0 acc) now) (py_take 500 (exn_str (fst x))))"

definition bedrock_timeout :: "pyfloat option \<Rightarrow> stream_acc \<Rightarrow> rat \<Rightarrow> dict" where
  "bedrock_timeout timeout acc now =
     (case (case timeout of None \<Rightarrow> Inl (TypeError ''unsupported operand type(s)'')
            | Some t \<Rightarrow> first_token_timeout_err t (elapsed_ms (t0 acc) now)) of
        Inr d \<Rightarrow> d
      | Inl e \<Rightarrow> bedrock_broken acc (e, JNull) now)"

text \<open>What one \<open>next(events)\<close> gives, with the clock before and after.\<close>

datatype aws_next = Event dict | End | Late | Raised aws_exn

fun bedrock_loop :: "pyfloat option \<Rightarrow> stream_acc \<Rightarrow> (rat \<times> aws_next \<times> rat) list \<Rightarrow> dict + stream_acc" where
  "bedrock_loop timeout acc [] = Inr acc"
| "bedrock_loop timeout acc ((now, x, later) # es) =
     (if before_first_output timeout (saw_output acc) (t0 acc) now = Some (Inl ()) then Inl (bedrock_timeout timeout acc now)
      else case x of
        End \<Rightarrow> Inr acc
      | Late \<Rightarrow> Inl (if \<not> saw_output acc then bedrock_timeout timeout acc later
                     else bedrock_broken acc (TimeoutError [], JNull) later)
      | Raised e \<Rightarrow> Inl (bedrock_broken acc e later)
      | Event ev \<Rightarrow>
          (case on_bedrock_event later ev acc of
             (Inl e, acc') \<Rightarrow> Inl (bedrock_broken acc' (e, JNull) later)
           | (Inr (Some d), acc') \<Rightarrow> Inl d
           | (Inr None, acc') \<Rightarrow> bedrock_loop timeout acc' es))"

definition finish_bedrock :: "jval \<Rightarrow> rat \<Rightarrow> stream_acc \<Rightarrow> dict res" where
  "finish_bedrock model now acc =
     rbind (sort_keyed (call_pairs (tool_calls acc))) (\<lambda>calls.
     let t = concat (text_parts acc); latency = elapsed_ms (t0 acc) now in
     if py_strip t = [] \<and> calls = [] then Inr (empty_content 200 latency)
     else bedrock_result latency t (map snd calls) (finish_reason acc) (get_usage acc) model)"

datatype aws_opened = Streaming | OpenLate | OpenRaised aws_exn

record aws =
  aws_env :: "string \<Rightarrow> string option"
  injected :: bool
  converse :: "jval \<Rightarrow> dict \<Rightarrow> aws_exn + dict"
  converse_stream :: "jval \<Rightarrow> dict \<Rightarrow> (rat \<times> aws_opened \<times> rat) \<times> (rat \<times> aws_next \<times> rat) list"
  aws_start :: rat
  aws_end :: rat

definition bedrock_client :: "aws \<Rightarrow> unit res" where
  "bedrock_client n = (if injected n then Inr () else rbind (aws_client_args (aws_env n) []) (\<lambda>_. Inr ()))"

definition unsupported_kind :: "dict \<Rightarrow> dict" where
  "unsupported_kind request =
     err ''unsupported_api_kind'' 0 0 (''api_kind='' @ py_repr (dget request ''api_kind'') @ '' not supported by Bedrock backend'')"

definition stream_bedrock :: "aws \<Rightarrow> dict \<Rightarrow> dict res" where
  "stream_bedrock n request =
     (if dget request ''api_kind'' \<noteq> JStr ''bedrock'' then Inr (unsupported_kind request)
      else let region = aws_region request (aws_env n) in
        rbind (bedrock_client n) (\<lambda>_. rbind (bedrock_request request) (\<lambda>body.
        rbind (first_token_timeout_s request) (\<lambda>timeout.
        let acc = new_acc (aws_start n) in
        case converse_stream n region body of ((now, o1, later), events) \<Rightarrow>
          if before_first_output timeout False (t0 acc) now = Some (Inl ()) then Inr (bedrock_timeout timeout acc now)
          else (case o1 of
              OpenLate \<Rightarrow> Inr (bedrock_timeout timeout acc later)
            | OpenRaised e \<Rightarrow> Inr (bedrock_broken acc e later)
            | Streaming \<Rightarrow> (case bedrock_loop timeout acc events of
                Inl d \<Rightarrow> Inr d
              | Inr acc' \<Rightarrow> finish_bedrock (dget body ''modelId'') (aws_end n) acc'))))))"

definition call_bedrock :: "aws \<Rightarrow> dict \<Rightarrow> dict res" where
  "call_bedrock n request =
     (if dget request ''api_kind'' \<noteq> JStr ''bedrock'' then Inr (unsupported_kind request)
      else if dget request ''first_token_timeout_ms'' \<noteq> JNull then stream_bedrock n request
      else rbind (bedrock_request request) (\<lambda>body.
        let region = aws_region request (aws_env n); latency = elapsed_ms (aws_start n) (aws_end n) in
        rbind (bedrock_client n) (\<lambda>_.
        case converse n region body of
          Inl x \<Rightarrow> Inr (err (classify_bedrock_error x) 0 latency (py_take 500 (exn_str (fst x))))
        | Inr data \<Rightarrow> parse_bedrock_response data latency)))"

section \<open>Tenants\<close>

text \<open>
  A tenant's Bedrock call never falls back to the operator: with a tenant scope set, the client is made
  with the access key and the secret of the tenant's own environment, both non-empty, or not at all; and
  the region does not depend on the request.
\<close>

lemma tenant_aws_isolated:
  assumes "truthy (env_value env ''SAAS_TENANT_SCOPE'')" and "aws_client_args env kwargs = Inr args"
  shows "dget args ''aws_access_key_id'' = env_value env ''AWS_ACCESS_KEY_ID'' \<and> truthy (dget args ''aws_access_key_id'')
    \<and> dget args ''aws_secret_access_key'' = env_value env ''AWS_SECRET_ACCESS_KEY'' \<and> truthy (dget args ''aws_secret_access_key'')
    \<and> aws_region request env = aws_region [] env"
  using assms by (auto simp: aws_client_args_def aws_region_def Let_def dget_dupd split: if_splits)

end
