(* ===== verification/ResponsesApi.thy ===== *)
theory ResponsesApi
  imports PyText
begin

text \<open>
  \<open>responses_api.py\<close>: the OpenAI Responses surface. A Responses request becomes chat messages and
  tools, a router result becomes a Responses object, and the object is replayed as server-sent events.
  Fresh ids come from a supply \<open>fresh\<close>, used in order; a counter says how many were used.
\<close>

section \<open>The request\<close>

definition part_text :: "jval \<Rightarrow> string res" where
  "part_text content = (case content of
     JNull \<Rightarrow> Inr []
   | JStr s \<Rightarrow> Inr s
   | JList ps \<Rightarrow>
       rbind (rmap (\<lambda>p. case p of
           JObj d \<Rightarrow> (case py_or (dget d ''text'') (JStr []) of JStr s \<Rightarrow> Inr s
             | v \<Rightarrow> Inl (TypeError (''sequence item: expected str instance, '' @ type_name v @ '' found'')))
         | _ \<Rightarrow> Inr (py_str p)) ps) (\<lambda>ts. Inr (concat ts))
   | _ \<Rightarrow> Inr (py_str content))"

text \<open>The chat form of a \<open>function_call\<close> item.\<close>

definition call_of :: "dict \<Rightarrow> jval" where
  "call_of it = JObj [(''id'', py_or (dget it ''call_id'') (JStr [])), (''type'', JStr ''function''),
     (''function'', JObj [(''name'', py_or (dget it ''name'') (JStr [])),
                          (''arguments'', py_or (dget it ''arguments'') (JStr ''{}''))])]"

text \<open>\<open>prev.setdefault("tool_calls", []).append(tc)\<close> on the last message.\<close>

definition append_call :: "jval \<Rightarrow> dict \<Rightarrow> dict" where
  "append_call tc m = dset ''tool_calls'' (JList (list_of (dget_or m ''tool_calls'' (JList [])) @ [tc])) m"

definition add_call :: "jval \<Rightarrow> dict list \<Rightarrow> dict list" where
  "add_call tc ms =
     (if ms \<noteq> [] \<and> dget (last ms) ''role'' = JStr ''assistant'' then butlast ms @ [append_call tc (last ms)]
      else ms @ [[(''role'', JStr ''assistant''), (''content'', JNull), (''tool_calls'', JList [tc])]])"

definition item_step :: "jval \<Rightarrow> dict list \<Rightarrow> dict list res" where
  "item_step item ms = (case item of
     JObj it \<Rightarrow>
       if dget it ''type'' = JStr ''function_call'' then Inr (add_call (call_of it) ms)
       else if dget it ''type'' = JStr ''function_call_output'' then
         rbind (part_text (dget it ''output'')) (\<lambda>t.
           Inr (ms @ [[(''role'', JStr ''tool''), (''tool_call_id'', py_or (dget it ''call_id'') (JStr [])),
                       (''content'', JStr t)]]))
       else if dget it ''type'' = JStr ''reasoning'' then Inr ms
       else if dget it ''role'' = JNull then Inr ms
       else rbind (part_text (dget it ''content'')) (\<lambda>t.
         Inr (ms @ [[(''role'', if dget it ''role'' = JStr ''developer'' then JStr ''system'' else dget it ''role''),
                     (''content'', JStr t)]]))
   | _ \<Rightarrow> Inr ms)"

definition input_items :: "jval \<Rightarrow> jval list" where
  "input_items inp = (case inp of
     JStr s \<Rightarrow> [JObj [(''role'', JStr ''user''), (''content'', JStr s)]]
   | JList xs \<Rightarrow> xs
   | _ \<Rightarrow> [])"

definition input_to_messages :: "jval \<Rightarrow> jval \<Rightarrow> dict list res" where
  "input_to_messages inp instructions =
     rfold item_step (input_items inp)
       (if truthy instructions then [[(''role'', JStr ''system''), (''content'', instructions)]] else [])"

text \<open>Tools: function tools are nested, everything else is dropped (and reported as dropped).\<close>

definition is_function_tool :: "dict \<Rightarrow> bool" where
  "is_function_tool t = (dget t ''type'' = JStr ''function'' \<and> truthy (dget t ''name''))"

definition chat_tool :: "dict \<Rightarrow> jval" where
  "chat_tool t = JObj [(''type'', JStr ''function''), (''function'', JObj ([(''name'', dget t ''name'')]
     @ (if dget t ''description'' \<noteq> JNull then [(''description'', dget t ''description'')] else [])
     @ (if dget t ''parameters'' \<noteq> JNull then [(''parameters'', dget t ''parameters'')] else [])))]"

fun objs :: "jval list \<Rightarrow> dict list" where
  "objs [] = []"
| "objs (JObj d # xs) = d # objs xs"
| "objs (_ # xs) = objs xs"

definition tools_to_chat :: "jval \<Rightarrow> jval list option res" where
  "tools_to_chat tools =
     (if \<not> truthy tools then Inr None
      else rbind (py_iter tools) (\<lambda>ts.
        let out = map chat_tool (filter is_function_tool (objs ts)) in Inr (if out = [] then None else Some out)))"

definition dropped_tool_types :: "jval \<Rightarrow> string list res" where
  "dropped_tool_types tools =
     (if \<not> truthy tools then Inr []
      else rbind (py_iter tools) (\<lambda>ts.
        Inr (map (\<lambda>t. py_str (dget t ''type'')) (filter (\<lambda>t. \<not> is_function_tool t) (objs ts)))))"

definition tool_choice_to_chat :: "jval \<Rightarrow> jval" where
  "tool_choice_to_chat tc = (case tc of
     JNull \<Rightarrow> JNull
   | JStr s \<Rightarrow> JStr s
   | JObj d \<Rightarrow>
       if dget d ''type'' = JStr ''function'' then
         (let name = (if dget d ''name'' = JNull \<and> is_obj (dget d ''function'')
                      then dget (obj_of (dget d ''function'')) ''name'' else dget d ''name'')
          in if truthy name then JObj [(''type'', JStr ''function''), (''function'', JObj [(''name'', name)])] else JNull)
       else JNull
   | _ \<Rightarrow> JNull)"

section \<open>The response object\<close>

definition new_id :: "(nat \<Rightarrow> string) \<Rightarrow> string \<Rightarrow> nat \<Rightarrow> jval" where
  "new_id fresh prefix n = JStr (prefix @ ''_'' @ fresh n)"

definition call_item :: "(nat \<Rightarrow> string) \<Rightarrow> jval \<Rightarrow> nat \<Rightarrow> (jval \<times> nat) res" where
  "call_item fresh tc n =
     rbind (vget tc ''function'') (\<lambda>f.
     let fn = py_or f (JObj []) in
     rbind (vget tc ''id'') (\<lambda>i.
     let cid = (if truthy i then i else new_id fresh ''call'' (n + 1)) in
     rbind (vget fn ''name'') (\<lambda>name.
     rbind (vget fn ''arguments'') (\<lambda>args.
       Inr (JObj [(''type'', JStr ''function_call''), (''id'', new_id fresh ''fc'' n), (''call_id'', cid),
                  (''name'', py_or name (JStr [])), (''arguments'', py_or args (JStr ''{}'')),
                  (''status'', JStr ''completed'')],
            if truthy i then n + 1 else n + 2)))))"

fun call_items :: "(nat \<Rightarrow> string) \<Rightarrow> jval list \<Rightarrow> nat \<Rightarrow> (jval list \<times> nat) res" where
  "call_items fresh [] n = Inr ([], n)"
| "call_items fresh (tc # tcs) n =
     rbind (call_item fresh tc n) (\<lambda>(item, n'). rbind (call_items fresh tcs n') (\<lambda>(r, n''). Inr (item # r, n'')))"

definition message_item :: "jval \<Rightarrow> jval \<Rightarrow> jval" where
  "message_item mid text = JObj [(''type'', JStr ''message''), (''id'', mid), (''role'', JStr ''assistant''),
     (''status'', JStr ''completed''),
     (''content'', JList [JObj [(''type'', JStr ''output_text''), (''text'', text), (''annotations'', JList [])]])]"

definition responses_usage :: "dict \<Rightarrow> dict" where
  "responses_usage resp =
     (if dget resp ''tokens_in'' \<noteq> JNull then [(''input_tokens'', dget resp ''tokens_in'')] else [])
   @ (if dget resp ''tokens_out'' \<noteq> JNull then [(''output_tokens'', dget resp ''tokens_out'')] else [])
   @ (if dget resp ''tokens_total'' \<noteq> JNull then [(''total_tokens'', dget resp ''tokens_total'')] else [])
   @ (if truthy (dget resp ''tokens_cached'')
      then [(''input_tokens_details'', JObj [(''cached_tokens'', dget resp ''tokens_cached'')])] else [])
   @ (if dget resp ''tokens_reasoning'' \<noteq> JNull
      then [(''output_tokens_details'', JObj [(''reasoning_tokens'', dget resp ''tokens_reasoning'')])] else [])"

text \<open>The arguments \<open>response_id\<close>, \<open>created_at\<close> and \<open>msg_id\<close>; \<open>now\<close> is what the clock would say.\<close>

record object_ids =
  o_response_id :: jval
  o_created_at :: "int option"
  o_msg_id :: jval
  o_now :: rat

definition result_to_responses_object ::
  "(nat \<Rightarrow> string) \<Rightarrow> dict \<Rightarrow> jval \<Rightarrow> object_ids \<Rightarrow> dict res" where
  "result_to_responses_object fresh result requested_model ids =
     (let r = py_or (dget result ''response'') (JObj []); c = py_or (dget result ''chosen'') (JObj []) in
      rbind (vget r ''text'') (\<lambda>_.
      let resp = obj_of r; text = py_or (dget resp ''text'') (JStr []) in
      rbind (if truthy (dget resp ''raw_model'') then Inr JNull else vget c ''served_model_id'') (\<lambda>served.
      let model = py_or (py_or (py_or (dget resp ''raw_model'') served) requested_model) (JStr []);
          ts = (case o_created_at ids of Some t \<Rightarrow> t | None \<Rightarrow> trunc (o_now ids));
          finish = py_or (dget resp ''finish_reason'') (JStr ''stop'') in
      rbind (py_iter (py_or (dget resp ''reasoning_items'') (JList []))) (\<lambda>reasoning.
      let fresh_msg = (truthy text \<and> \<not> truthy (o_msg_id ids));
          n = (if fresh_msg then 1 else 0);
          message = (if truthy text then [message_item (py_or (o_msg_id ids) (new_id fresh ''msg'' 0)) text] else []) in
      rbind (py_iter (py_or (dget resp ''tool_calls'') (JList []))) (\<lambda>tcs.
      rbind (call_items fresh tcs n) (\<lambda>(calls, n').
        Inr ([(''id'', py_or (o_response_id ids) (new_id fresh ''resp'' n')), (''object'', JStr ''response''),
              (''created_at'', JInt ts),
              (''status'', JStr (if finish = JStr ''length'' then ''incomplete'' else ''completed'')),
              (''model'', model), (''output'', JList (reasoning @ message @ calls))]
             @ (if responses_usage resp \<noteq> [] then [(''usage'', JObj (responses_usage resp))] else []))))))))"

section \<open>The event stream\<close>

text \<open>A generator that yields events and may raise after some of them.\<close>

type_synonym event_data = "string \<times> dict"
type_synonym generated = "event_data list \<times> exn option"

definition gseq :: "generated \<Rightarrow> generated \<Rightarrow> generated" where
  "gseq a b = (case snd a of Some e \<Rightarrow> a | None \<Rightarrow> (fst a @ fst b, snd b))"

definition glet :: "'a res \<Rightarrow> ('a \<Rightarrow> generated) \<Rightarrow> generated" where
  "glet r f = (case r of Inl e \<Rightarrow> ([], Some e) | Inr x \<Rightarrow> f x)"

definition yields :: "event_data list \<Rightarrow> generated" where
  "yields evs = (evs, None)"

fun gall :: "generated list \<Rightarrow> generated" where
  "gall [] = ([], None)"
| "gall (g # gs) = gseq g (gall gs)"

definition with_fields :: "dict \<Rightarrow> dict \<Rightarrow> jval" where
  "with_fields item upd = JObj (dupd item upd)"

definition summary_events :: "dict \<Rightarrow> nat \<Rightarrow> nat \<Rightarrow> jval \<Rightarrow> generated" where
  "summary_events item out_index summary_index part =
     glet (dsub item ''id'') (\<lambda>iid.
     let position = [(''item_id'', iid), (''output_index'', JInt (int out_index)), (''summary_index'', JInt (int summary_index))] in
     glet (case part of JObj p \<Rightarrow> Inr (p, dget_or p ''text'' (JStr [])) | _ \<Rightarrow> Inl (attr_err part ''get'')) (\<lambda>(p, text).
       yields ([(''response.reasoning_summary_part.added'', dupd position [(''part'', with_fields p [(''text'', JStr [])])])]
         @ (if truthy text then [(''response.reasoning_summary_text.delta'', dupd position [(''delta'', text)])] else [])
         @ [(''response.reasoning_summary_text.done'', dupd position [(''text'', text)]),
            (''response.reasoning_summary_part.done'', dupd position [(''part'', part)])])))"

definition item_done :: "nat \<Rightarrow> dict \<Rightarrow> event_data" where
  "item_done i item = (''response.output_item.done'', [(''output_index'', JInt (int i)), (''item'', JObj item)])"

definition item_added :: "nat \<Rightarrow> dict \<Rightarrow> dict \<Rightarrow> event_data" where
  "item_added i item upd =
     (''response.output_item.added'', [(''output_index'', JInt (int i)), (''item'', with_fields item upd)])"

definition first_text :: "dict \<Rightarrow> jval res" where
  "first_text item =
     (let content = py_or (dget item ''content'') (JList [JObj []]) in
      case content of
        JList (JObj p # _) \<Rightarrow> Inr (dget_or p ''text'' (JStr []))
      | JList (p # _) \<Rightarrow> Inl (attr_err p ''get'')
      | JObj _ \<Rightarrow> Inl (KeyError ''0'')
      | JStr _ \<Rightarrow> Inl (attr_err content ''get'')
      | _ \<Rightarrow> Inl (TypeError (CHR 0x27 # type_name content @ CHR 0x27 # '' object is not subscriptable'')))"

definition item_events :: "nat \<Rightarrow> jval \<Rightarrow> generated" where
  "item_events i v = (case v of
     JObj item \<Rightarrow>
       if dget item ''type'' = JStr ''reasoning'' then
         gseq (yields [item_added i item [(''summary'', JList [])]])
        (gseq (glet (py_iter (py_or (dget item ''summary'') (JList []))) (\<lambda>parts.
                 gall (map (\<lambda>(j, part). summary_events item i j part) (enumerate 0 parts))))
              (yields [item_done i item]))
       else if dget item ''type'' = JStr ''message'' then
         glet (first_text item) (\<lambda>text.
         gseq (yields [item_added i item [(''content'', JList [])]])
         (glet (dsub item ''id'') (\<lambda>iid.
           let place = [(''item_id'', iid), (''output_index'', JInt (int i)), (''content_index'', JInt 0)] in
           yields [(''response.output_text.delta'', place @ [(''delta'', text)]),
                   (''response.output_text.done'', place @ [(''text'', text)]), item_done i item])))
       else if dget item ''type'' = JStr ''function_call'' then
         (let args = py_or (dget item ''arguments'') (JStr []) in
          gseq (yields [item_added i item [(''arguments'', JStr [])]])
         (glet (dsub item ''id'') (\<lambda>iid.
           let place = [(''item_id'', iid), (''output_index'', JInt (int i))] in
           yields [(''response.function_call_arguments.delta'', place @ [(''delta'', args)]),
                   (''response.function_call_arguments.done'', place @ [(''arguments'', args)]), item_done i item])))
       else ([], None)
   | _ \<Rightarrow> ([], Some (attr_err v ''get'')))"

definition object_events :: "dict \<Rightarrow> generated" where
  "object_events obj =
     gseq (glet (py_iter (py_or (dget obj ''output'') (JList []))) (\<lambda>items.
             gall (map (\<lambda>(i, v). item_events i v) (enumerate 0 items))))
          (yields [(''response.completed'', [(''response'', JObj obj)])])"

text \<open>\<open>_emit\<close> numbers the events from \<open>seq\<close>; \<open>_sse\<close> renders a frame.\<close>

fun numbered :: "nat \<Rightarrow> event_data list \<Rightarrow> event_data list" where
  "numbered seq [] = []"
| "numbered seq ((event, data) # evs) =
     (event, dupd [(''type'', JStr event), (''sequence_number'', JInt (int seq))] data) # numbered (seq + 1) evs"

definition sse_frame :: "event_data \<Rightarrow> string" where
  "sse_frame ev = ''event: '' @ fst ev @ nl @ ''data: '' @ json_dumps (JObj (snd ev)) @ nl @ nl"

definition responses_sse_events :: "dict \<Rightarrow> nat \<Rightarrow> string list \<times> exn option" where
  "responses_sse_events obj start_seq =
     (case object_events obj of (evs, e) \<Rightarrow> (map sse_frame (numbered start_seq evs), e))"

definition responses_created_event :: "dict \<Rightarrow> nat \<Rightarrow> string" where
  "responses_created_event obj seq =
     sse_frame (''response.created'', [(''type'', JStr ''response.created''), (''sequence_number'', JInt (int seq)),
       (''response'', JObj [(''id'', dget obj ''id''), (''object'', JStr ''response''), (''status'', JStr ''in_progress''),
          (''model'', dget_or obj ''model'' (JStr [])), (''output'', JList [])])])"

definition responses_failed_event :: "string \<Rightarrow> string \<Rightarrow> jval \<Rightarrow> nat \<Rightarrow> string" where
  "responses_failed_event response_id message code seq =
     sse_frame (''response.failed'', [(''type'', JStr ''response.failed''), (''sequence_number'', JInt (int seq)),
       (''response'', JObj [(''id'', JStr response_id), (''object'', JStr ''response''), (''status'', JStr ''failed''),
          (''error'', JObj [(''message'', JStr message), (''code'', code)])])])"

section \<open>No tool call is lost on the way in\<close>

definition calls_in :: "dict list \<Rightarrow> jval list" where
  "calls_in ms = concat (map (\<lambda>m. list_of (dget m ''tool_calls'')) ms)"

definition call_items_of :: "jval list \<Rightarrow> jval list" where
  "call_items_of items = map call_of (filter (\<lambda>it. dget it ''type'' = JStr ''function_call'') (objs items))"

lemma calls_in_append [simp]: "calls_in (ms @ ms') = calls_in ms @ calls_in ms'"
  by (simp add: calls_in_def)

lemma calls_in_Nil [simp]: "calls_in [] = []"
  by (simp add: calls_in_def)

lemma calls_in_Cons: "calls_in (m # ms) = list_of (dget m ''tool_calls'') @ calls_in ms"
  by (simp add: calls_in_def)

lemma append_call_calls: "list_of (dget (append_call tc m) ''tool_calls'') = list_of (dget m ''tool_calls'') @ [tc]"
  by (cases "map_of m ''tool_calls''") (auto simp: append_call_def dget_dset dget_or_def)

lemma add_call_calls: "calls_in (add_call tc ms) = calls_in ms @ [tc]"
proof (cases "ms \<noteq> [] \<and> dget (last ms) ''role'' = JStr ''assistant''")
  case True
  then have "calls_in ms = calls_in (butlast ms) @ list_of (dget (last ms) ''tool_calls'')"
    by (metis append_butlast_last_id append_Nil2 calls_in_append calls_in_Cons calls_in_Nil)
  with True show ?thesis by (simp add: add_call_def calls_in_Cons append_call_calls)
next
  case False
  then show ?thesis by (auto simp: add_call_def calls_in_Cons)
qed

lemma item_step_calls:
  assumes "item_step item ms = Inr ms'"
  shows "calls_in ms' = calls_in ms @ call_items_of [item]"
  using assms
  by (cases item)
    (auto simp: item_step_def call_items_of_def add_call_calls calls_in_Cons res_simps split: if_splits)

lemma call_items_of_Cons: "call_items_of (x # xs) = call_items_of [x] @ call_items_of xs"
  by (cases x) (auto simp: call_items_of_def)

lemma items_calls:
  "rfold item_step items ms = Inr ms' \<Longrightarrow> calls_in ms' = calls_in ms @ call_items_of items"
proof (induction items arbitrary: ms)
  case Nil
  then show ?case by (simp add: call_items_of_def)
next
  case (Cons item items)
  then obtain ms1 where s: "item_step item ms = Inr ms1" and r: "rfold item_step items ms1 = Inr ms'"
    by (auto simp: res_simps)
  from Cons.IH [OF r] item_step_calls [OF s] show ?case
    using call_items_of_Cons [of item items] by simp
qed

text \<open>
  Translating a Responses request keeps every function call: read over the whole conversation, the
  tool calls of the chat messages are exactly the \<open>function_call\<close> items of the input, each in the chat
  form, in order, with no call lost, duplicated or moved past another.
\<close>

lemma input_keeps_calls:
  assumes "input_to_messages inp instructions = Inr ms"
  shows "calls_in ms = call_items_of (input_items inp)"
proof -
  have "calls_in (if truthy instructions then [[(''role'', JStr ''system''), (''content'', instructions)]] else []) = []"
    by (simp add: calls_in_Cons)
  with items_calls [OF assms [unfolded input_to_messages_def]] show ?thesis by simp
qed

section \<open>Round trip\<close>

text \<open>A chat tool call with an id, a name and arguments.\<close>

definition chat_call :: "string \<times> string \<times> string \<Rightarrow> jval" where
  "chat_call c = (case c of (i, name, args) \<Rightarrow>
     JObj [(''id'', JStr i), (''type'', JStr ''function''),
           (''function'', JObj [(''name'', JStr name), (''arguments'', JStr args)])])"

definition full_call :: "string \<times> string \<times> string \<Rightarrow> bool" where
  "full_call c = (fst c \<noteq> [] \<and> fst (snd c) \<noteq> [] \<and> snd (snd c) \<noteq> [])"

definition assistant :: "string \<Rightarrow> jval list \<Rightarrow> dict" where
  "assistant text tcs = [(''role'', JStr ''assistant''), (''content'', JStr text)]
     @ (if tcs = [] then [] else [(''tool_calls'', JList tcs)])"

lemma append_call_assistant: "append_call tc (assistant text tcs) = assistant text (tcs @ [tc])"
  by (simp add: append_call_def assistant_def dget_or_def)

lemma call_item_back:
  assumes "full_call c" and "call_item fresh (chat_call c) n = Inr (item, n')"
  shows "item_step item [assistant text tcs] = Inr [assistant text (tcs @ [chat_call c])]"
proof -
  obtain i name args where c: "c = (i, name, args)" by (cases c)
  with assms have "\<exists>x. item = JObj ([(''type'', JStr ''function_call''), (''id'', x), (''call_id'', JStr i),
      (''name'', JStr name), (''arguments'', JStr args), (''status'', JStr ''completed'')])"
    by (auto simp: call_item_def chat_call_def full_call_def vget_def py_or_def)
  then show ?thesis
    using assms(1) c
    by (auto simp: item_step_def add_call_def call_of_def chat_call_def full_call_def py_or_def append_call_assistant)
       (simp_all add: assistant_def)
qed

lemma call_items_back:
  assumes "\<forall>c\<in>set cs. full_call c" and "call_items fresh (map chat_call cs) n = Inr (items, n')"
  shows "rfold item_step items [assistant text tcs] = Inr [assistant text (tcs @ map chat_call cs)]"
  using assms
proof (induction cs arbitrary: n items tcs)
  case (Cons c cs)
  then obtain item n1 items' where "call_item fresh (chat_call c) n = Inr (item, n1)"
    and "call_items fresh (map chat_call cs) n1 = Inr (items', n')" and "items = item # items'"
    by (auto simp: res_simps)
  with Cons call_item_back [of c fresh n item n1 "text" tcs] show ?case by simp
qed simp


definition demo_ids :: object_ids where
  "demo_ids = \<lparr> o_response_id = JStr ''resp_1'', o_created_at = Some 7, o_msg_id = JNull, o_now = 0 \<rparr>"


section \<open>The stream reports every item\<close>

definition known_item :: "jval \<Rightarrow> bool" where
  "known_item v = (dget (obj_of v) ''type'' \<in> {JStr ''reasoning'', JStr ''message'', JStr ''function_call''})"

definition done_items :: "event_data list \<Rightarrow> jval list" where
  "done_items evs = map (\<lambda>e. dget (snd e) ''item'') (filter (\<lambda>e. fst e = ''response.output_item.done'') evs)"

lemma done_items_append [simp]: "done_items (xs @ ys) = done_items xs @ done_items ys"
  by (simp add: done_items_def)

lemma gseq_None: "gseq a b = (evs, None) \<longleftrightarrow> snd a = None \<and> snd b = None \<and> evs = fst a @ fst b"
  by (cases a; cases b) (auto simp: gseq_def split: option.splits)

lemma gseq_around:
  "gseq (yields xs) (gseq m (yields ys)) = (evs, None) \<longleftrightarrow> snd m = None \<and> evs = xs @ fst m @ ys"
  by (cases m) (auto simp: gseq_def yields_def split: option.splits)

lemma glet_None: "glet r f = (evs, None) \<longleftrightarrow> (\<exists>x. r = Inr x \<and> f x = (evs, None))"
  by (auto simp: glet_def split: sum.splits)

lemma summary_events_done: "summary_events item i j part = (evs, None) \<Longrightarrow> done_items evs = []"
  by (auto simp: summary_events_def glet_None yields_def done_items_def Let_def split: prod.splits if_splits)

lemma gall_done:
  assumes "gall gs = (evs, None)" and "\<And>g. g \<in> set gs \<Longrightarrow> snd g = None \<Longrightarrow> done_items (fst g) = []"
  shows "done_items evs = []"
  using assms
proof (induction gs arbitrary: evs)
  case Nil
  then show ?case by (simp add: done_items_def)
next
  case (Cons g gs)
  then have s: "snd g = None" "snd (gall gs) = None" "evs = fst g @ fst (gall gs)" by (auto simp: gseq_None)
  then have "gall gs = (fst (gall gs), None)" by (simp add: prod_eq_iff)
  then have "done_items (fst (gall gs)) = []" by (rule Cons.IH) (simp add: Cons.prems(2))
  with s Cons.prems(2) [of g] show ?case by simp
qed

lemma item_events_done:
  assumes "item_events i v = (evs, None)"
  shows "done_items evs = (if known_item v then [v] else [])"
proof -
  obtain item where v: "v = JObj item" using assms by (cases v) (auto simp: item_events_def)
  have one: "done_items [item_added i item upd] = []" "done_items [item_done i item] = [JObj item]" for upd
    by (simp_all add: done_items_def item_added_def item_done_def)
  consider "dget item ''type'' = JStr ''reasoning''" | "dget item ''type'' = JStr ''message''"
    | "dget item ''type'' = JStr ''function_call''" | "\<not> known_item v"
    using v by (auto simp: known_item_def)
  then show ?thesis
  proof cases
    case 1
    let ?mid = "glet (py_iter (py_or (dget item ''summary'') (JList []))) (\<lambda>parts.
                 gall (map (\<lambda>(j, part). summary_events item i j part) (enumerate 0 parts)))"
    have "gseq (yields [item_added i item [(''summary'', JList [])]]) (gseq ?mid (yields [item_done i item])) = (evs, None)"
      using assms 1 by (simp add: v item_events_def)
    then have m: "snd ?mid = None" and e: "evs = [item_added i item [(''summary'', JList [])]] @ fst ?mid @ [item_done i item]"
      by (simp_all add: gseq_around)
    from m have "?mid = (fst ?mid, None)" by (simp add: prod_eq_iff)
    then obtain parts where g: "gall (map (\<lambda>(j, part). summary_events item i j part) (enumerate 0 parts)) = (fst ?mid, None)"
      unfolding glet_None by blast
    have "done_items (fst ?mid) = []"
    proof (rule gall_done [OF g])
      fix q assume "q \<in> set (map (\<lambda>(j, part). summary_events item i j part) (enumerate 0 parts))" and n: "snd q = None"
      then obtain j part where "q = summary_events item i j part" by auto
      then have "summary_events item i j part = (fst q, None)" using n by (simp add: prod_eq_iff)
      then show "done_items (fst q) = []" by (rule summary_events_done)
    qed
    then show ?thesis using one 1 by (simp only: e done_items_append) (simp add: known_item_def v)
  next
    case 2
    with assms v show ?thesis
      by (auto simp: item_events_def gseq_def glet_def yields_def known_item_def Let_def
          done_items_def item_added_def item_done_def split: sum.splits)
  next
    case 3
    with assms v show ?thesis
      by (auto simp: item_events_def gseq_def glet_def yields_def known_item_def Let_def
          done_items_def item_added_def item_done_def split: sum.splits)
  next
    case 4
    with assms v show ?thesis by (auto simp: item_events_def known_item_def done_items_def)
  qed
qed

lemma items_events_done:
  "gall (map (\<lambda>(i, v). item_events i v) (enumerate k items)) = (evs, None) \<Longrightarrow> done_items evs = filter known_item items"
proof (induction items arbitrary: k evs)
  case Nil
  then show ?case by (simp add: done_items_def)
next
  case (Cons v items)
  obtain evs1 e1 where f: "item_events k v = (evs1, e1)" by fastforce
  obtain evs2 e2 where g: "gall (map (\<lambda>(i, v). item_events i v) (enumerate (Suc k) items)) = (evs2, e2)" by fastforce
  from Cons.prems f g have "e1 = None" "e2 = None" "evs = evs1 @ evs2" by (auto simp: gseq_None)
  with item_events_done [of k v evs1] Cons.IH [of "Suc k" evs2] f g show ?case by simp
qed

lemma responses_frames:
  "responses_sse_events obj start = (map sse_frame (numbered start (fst (object_events obj))), snd (object_events obj))"
  by (simp add: responses_sse_events_def split_beta)

lemma gseq_yields: "snd (gseq a (yields ys)) = snd a" "snd a = None \<Longrightarrow> fst (gseq a (yields ys)) = fst a @ ys"
  by (auto simp: gseq_def yields_def split: option.splits)

text \<open>
  A replay that finishes reports each reasoning, message and function-call item of the object as
  done exactly once, in order and unchanged, numbers its events consecutively from the start number, and
  ends with \<open>response.completed\<close> carrying the whole object.
\<close>

lemma responses_stream_complete:
  assumes "responses_sse_events obj start = (frames, None)" and "dget obj ''output'' = JList items"
  shows "\<exists>evs. frames = map sse_frame (numbered start (evs @ [(''response.completed'', [(''response'', JObj obj)])]))
    \<and> done_items evs = filter known_item items"
proof -
  have it: "py_iter (py_or (JList xs) (JList [])) = Inr xs" for xs by (cases xs) (auto simp: py_or_def)
  let ?g = "gall (map (\<lambda>(i, v). item_events i v) (enumerate 0 items))"
  have o: "object_events obj = gseq ?g (yields [(''response.completed'', [(''response'', JObj obj)])])"
    by (simp add: object_events_def it glet_def assms(2))
  from assms(1) have n: "snd ?g = None" by (simp add: responses_frames o gseq_yields(1))
  with assms(1) have f: "frames = map sse_frame (numbered start (fst ?g @ [(''response.completed'', [(''response'', JObj obj)])]))"
    by (auto simp: responses_frames o gseq_yields)
  from n have g: "?g = (fst ?g, None)" by (simp add: prod_eq_iff)
  from items_events_done [OF g] f show ?thesis by blast
qed

end
