(* ===== verification/CodexBackend.thy ===== *)
theory CodexBackend
  imports ProviderWire ResponsesApi
begin

text \<open>
  \<open>codex_backend.py\<close> and the Codex part of \<open>streaming.py\<close>: requests to the Codex Responses endpoint, the
  fold of its event stream into a result, and the two ways of driving it. The account is an argument (its
  token, its id), as are what the stream delivers and the clock. The passive quota feed is the list of
  signals (status, headers) a call observes.
\<close>

section \<open>Quota headers\<close>

definition quota_match :: "string list \<Rightarrow> string \<Rightarrow> bool" where
  "quota_match parts k = list_ex (\<lambda>p. contains p (ascii_lower k)) parts"

definition pick_headers :: "(string \<Rightarrow> bool) \<Rightarrow> (string \<times> string) list \<Rightarrow> (string \<times> string) list" where
  "pick_headers p headers = fold (\<lambda>(k, v) d. dset (ascii_lower k) v d) (filter (p \<circ> fst) headers) []"

definition quota_headers :: "(string \<times> string) list \<Rightarrow> (string \<times> string) list" where
  "quota_headers = pick_headers (\<lambda>k. quota_match [''ratelimit'', ''usage'', ''quota'', ''percent'', ''reset''] k
     \<or> ascii_lower k = ''retry-after'')"

definition stream_quota_headers :: "(string \<times> string) list \<Rightarrow> (string \<times> string) list" where
  "stream_quota_headers = pick_headers (quota_match [''ratelimit'', ''usage'', ''quota'', ''percent''])"

section \<open>Requests\<close>

definition codex_part_text :: "jval \<Rightarrow> string res" where
  "codex_part_text p = (case p of
     JObj d \<Rightarrow> str_item (py_or (py_or (dget d ''text'') (dget d ''content'')) (JStr []))
   | _ \<Rightarrow> Inr (py_str p))"

definition content_to_text :: "jval \<Rightarrow> string res" where
  "content_to_text content = (case content of
     JNull \<Rightarrow> Inr []
   | JStr s \<Rightarrow> Inr s
   | JList ps \<Rightarrow> rbind (rmap codex_part_text ps) (\<lambda>ts. Inr (concat ts))
   | _ \<Rightarrow> Inr (py_str content))"

definition function_call_item :: "jval \<Rightarrow> jval res" where
  "function_call_item tc =
     rbind (sub_obj tc ''function'') (\<lambda>fn. rbind (vget tc ''id'') (\<lambda>i. rbind (name_or_empty fn) (\<lambda>name.
     rbind (vget fn ''arguments'') (\<lambda>args.
       Inr (JObj [(''type'', JStr ''function_call''), (''call_id'', py_or i (JStr [])), (''name'', name),
                  (''arguments'', py_or args (JStr ''{}''))])))))"

definition plain_item :: "jval \<Rightarrow> string \<Rightarrow> jval" where
  "plain_item role t = JObj [(''role'', role), (''content'', JStr t)]"

definition message_items :: "jval \<Rightarrow> jval list res" where
  "message_items m =
     rbind (vget m ''role'') (\<lambda>r.
     let role = py_or r (JStr ''user''); d = obj_of m; tcs = dget d ''tool_calls'' in
     rbind (content_to_text (dget d ''content'')) (\<lambda>t.
     if role = JStr ''tool'' then
       Inr [JObj [(''type'', JStr ''function_call_output''),
                  (''call_id'', py_or (py_or (dget d ''tool_call_id'') (dget d ''call_id'')) (JStr [])), (''output'', JStr t)]]
     else if role = JStr ''assistant'' \<and> truthy tcs then
       rbind (py_iter tcs) (\<lambda>cs. rbind (rmap function_call_item cs) (\<lambda>items.
         Inr ((if t = [] then [] else [plain_item (JStr ''assistant'') t]) @ items)))
     else Inr [plain_item role t]))"

definition messages_to_input :: "jval \<Rightarrow> jval list res" where
  "messages_to_input messages =
     rbind (items_of messages) (\<lambda>ms. rbind (rmap message_items ms) (\<lambda>rs. Inr (concat rs)))"

definition flat_tool :: "jval \<Rightarrow> jval list" where
  "flat_tool t = (case t of
     JObj d \<Rightarrow>
       (case dget d ''function'' of
          JObj fn \<Rightarrow> if dget d ''type'' = JStr ''function'' then
              [JObj ([(''type'', JStr ''function''), (''name'', dget fn ''name'')]
                @ (if dget fn ''description'' = JNull then [] else [(''description'', dget fn ''description'')])
                @ (if dget fn ''parameters'' = JNull then [] else [(''parameters'', dget fn ''parameters'')]))]
            else [t]
        | _ \<Rightarrow> [t])
   | _ \<Rightarrow> [])"

definition to_responses_tools :: "jval \<Rightarrow> jval res" where
  "to_responses_tools tools = (if \<not> truthy tools then Inr JNull
     else rbind (py_iter tools) (\<lambda>ts. Inr (none_if_empty (concat (map flat_tool ts)))))"

definition to_responses_tool_choice :: "jval \<Rightarrow> jval" where
  "to_responses_tool_choice tc = (case tc of
     JStr s \<Rightarrow> JStr s
   | JObj d \<Rightarrow>
       if dget d ''type'' = JStr ''function'' then
         (let name = (case dget d ''function'' of JObj fn \<Rightarrow> dget fn ''name'' | _ \<Rightarrow> dget d ''name'')
          in if truthy name then JObj [(''type'', JStr ''function''), (''name'', name)] else JNull)
       else JNull
   | _ \<Rightarrow> JNull)"

text \<open>\<open>{k: controls[k] for k in ("effort", "summary") if k in controls}\<close>.\<close>

definition pick_control :: "jval \<Rightarrow> string \<Rightarrow> dict res" where
  "pick_control controls k = (case controls of
     JObj d \<Rightarrow> Inr (case map_of d k of None \<Rightarrow> [] | Some v \<Rightarrow> [(k, v)])
   | JStr s \<Rightarrow> if contains k s then Inl (TypeError ''string indices must be integers'') else Inr []
   | JList xs \<Rightarrow> if JStr k \<in> set xs then Inl (TypeError ''list indices must be integers or slices, not str'') else Inr []
   | v \<Rightarrow> Inl (TypeError (''argument of type '' @ CHR 0x27 # type_name v @ CHR 0x27 # '' is not iterable'')))"

definition setdefault :: "string \<Rightarrow> 'v \<Rightarrow> (string \<times> 'v) list \<Rightarrow> (string \<times> 'v) list" where
  "setdefault k v d = (if has_key d k then d else d @ [(k, v)])"

definition codex_reasoning :: "dict \<Rightarrow> dict res" where
  "codex_reasoning request =
     (let controls = py_or (dget request ''reasoning'') (JObj []) in
      rbind (pick_control controls ''effort'') (\<lambda>a. rbind (pick_control controls ''summary'') (\<lambda>b.
      let effort = dget request ''reasoning_effort'';
          r = (if effort = JNull then a @ b else setdefault ''effort'' effort (a @ b)) in
        Inr (if r = [] then [] else setdefault ''summary'' (JStr ''auto'') r))))"

definition build_codex_body :: "dict \<Rightarrow> dict res" where
  "build_codex_body request =
     rbind (dsub request ''served_model_id'') (\<lambda>model.
     rbind (messages_to_input (py_or (dget request ''messages'') (JList []))) (\<lambda>items.
     rbind (to_responses_tools (dget request ''tools'')) (\<lambda>tools.
     rbind (codex_reasoning request) (\<lambda>reasoning.
     let choice = to_responses_tool_choice (dget request ''tool_choice'') in
       Inr ([(''model'', model), (''instructions'', py_or (dget request ''instructions'') (JStr ''You are a concise assistant.'')),
             (''input'', JList items), (''stream'', JBool True), (''store'', JBool False)]
         @ (if tools = JNull then [] else (''tools'', tools) # (if choice = JNull then [] else [(''tool_choice'', choice)]))
         @ (if reasoning = [] then [] else [(''reasoning'', JObj reasoning)]))))))"

definition build_codex_headers :: "string \<Rightarrow> string option \<Rightarrow> dict \<Rightarrow> dict" where
  "build_codex_headers token account extra =
     dupd ([(''Authorization'', JStr (''Bearer '' @ token)), (''Content-Type'', JStr ''application/json''),
        (''Accept'', JStr ''text/event-stream''), (''originator'', JStr ''codex_cli_rs''), (''User-Agent'', JStr ''codex_cli_rs'')]
       @ (case account of None \<Rightarrow> [] | Some a \<Rightarrow> if a = [] then [] else [(''chatgpt-account-id'', JStr a)])) extra"

section \<open>The event stream\<close>

record fcall =
  fc_call_id :: jval
  fc_name :: jval
  fc_args :: "jval list"
  fc_done :: jval

record agg =
  ag_text :: "jval list"
  ag_finish :: string
  ag_usage :: jval
  ag_err :: "dict option"
  ag_calls :: "(jval \<times> fcall) list"
  ag_order :: "jval list"
  ag_items :: "(jval \<times> jval) list"
  ag_summaries :: "((jval \<times> jval) \<times> jval list) list"

definition new_agg :: agg where
  "new_agg = \<lparr> ag_text = [], ag_finish = ''stop'', ag_usage = JObj [], ag_err = None, ag_calls = [], ag_order = [],
     ag_items = [], ag_summaries = [] \<rparr>"

definition hashed :: "jval \<Rightarrow> unit res" where
  "hashed k = (if unhashable k then Inl (unhashable_err k) else Inr ())"

fun add_summary :: "jval \<Rightarrow> jval \<Rightarrow> jval \<Rightarrow> ((jval \<times> jval) \<times> jval list) list \<Rightarrow> ((jval \<times> jval) \<times> jval list) list" where
  "add_summary i n v [] = [((i, n), [v])]"
| "add_summary i n v (((j, m), vs) # rest) =
     (if py_eq j i \<and> py_eq m n then ((j, m), vs @ [v]) # rest else ((j, m), vs) # add_summary i n v rest)"

definition put_item :: "jval \<Rightarrow> agg \<Rightarrow> agg res" where
  "put_item item a = (let i = dget_or (obj_of item) ''id'' (JStr ''reasoning'') in
     rbind (hashed i) (\<lambda>_. Inr (a\<lparr> ag_items := put_call i item (ag_items a) \<rparr>)))"

definition change_call :: "jval \<Rightarrow> (fcall \<Rightarrow> fcall) \<Rightarrow> agg \<Rightarrow> agg res" where
  "change_call i f a = rbind (hashed i) (\<lambda>_.
     Inr (case find_call i (ag_calls a) of None \<Rightarrow> a | Some c \<Rightarrow> a\<lparr> ag_calls := put_call i (f c) (ag_calls a) \<rparr>))"

definition on_completed :: "dict \<Rightarrow> agg \<Rightarrow> agg res" where
  "on_completed ev a =
     (let resp = py_or (dget ev ''response'') (JObj []) in
      rbind (vget resp ''usage'') (\<lambda>u.
      rbind (items_of (dget (obj_of resp) ''output'')) (\<lambda>items.
      rbind (rfold (\<lambda>item a. rbind (vget item ''type'') (\<lambda>ty. if ty = JStr ''reasoning'' then put_item item a else Inr a))
               items (a\<lparr> ag_usage := py_or u (ag_usage a) \<rparr>)) (\<lambda>a'.
        Inr (if dget (obj_of resp) ''status'' = JStr ''incomplete'' then a'\<lparr> ag_finish := ''length'' \<rparr> else a')))))"

definition on_codex_event :: "int \<Rightarrow> jval \<Rightarrow> agg \<Rightarrow> agg res" where
  "on_codex_event latency v a =
     rbind (vget v ''type'') (\<lambda>ty.
     let ev = obj_of v; d = dget ev ''delta'' in
     if ty = JStr ''response.output_text.delta'' then
       Inr (if truthy d then a\<lparr> ag_text := ag_text a @ [d] \<rparr> else a)
     else if ty = JStr ''response.reasoning_summary_text.delta'' then
       (let i = dget_or ev ''item_id'' (JStr ''reasoning''); n = dget_or ev ''summary_index'' (JInt 0) in
        rbind (hashed i) (\<lambda>_. rbind (hashed n) (\<lambda>_.
          Inr (a\<lparr> ag_summaries := add_summary i n (py_or d (JStr [])) (ag_summaries a) \<rparr>))))
     else if ty = JStr ''response.output_item.done'' then
       rbind (vget (py_or (dget ev ''item'') (JObj [])) ''type'') (\<lambda>t.
         if t = JStr ''reasoning'' then put_item (dget ev ''item'') a else Inr a)
     else if ty = JStr ''response.output_item.added'' then
       (let item = py_or (dget ev ''item'') (JObj []) in
        rbind (vget item ''type'') (\<lambda>t.
        if t \<noteq> JStr ''function_call'' then Inr a
        else let it = obj_of item; i = dget it ''id'' in
          rbind (hashed i) (\<lambda>_.
            Inr (a\<lparr> ag_calls := put_call i \<lparr> fc_call_id = py_or (dget it ''call_id'') i, fc_name = dget it ''name'',
                      fc_args = [], fc_done = JNull \<rparr> (ag_calls a),
                    ag_order := ag_order a @ [i] \<rparr>))))
     else if ty = JStr ''response.function_call_arguments.delta'' then
       change_call (dget ev ''item_id'') (\<lambda>c. if truthy d then c\<lparr> fc_args := fc_args c @ [d] \<rparr> else c) a
     else if ty = JStr ''response.function_call_arguments.done'' then
       change_call (dget ev ''item_id'') (\<lambda>c. if dget ev ''arguments'' = JNull then c else c\<lparr> fc_done := dget ev ''arguments'' \<rparr>) a
     else if ty = JStr ''response.completed'' \<or> ty = JStr ''response.incomplete'' then on_completed ev a
     else if ty = JStr ''response.failed'' \<or> ty = JStr ''error'' then
       rbind (vget (py_or (dget ev ''response'') v) ''error'') (\<lambda>e.
         Inr (a\<lparr> ag_err := Some (err ''server_error'' 0 latency
           (py_str (py_or (py_or e (dget ev ''message'')) (JStr ''codex stream failed'')))) \<rparr>))
     else Inr a)"

text \<open>The lines up to \<open>[DONE]\<close>; each is stripped first.\<close>

fun fold_lines :: "int \<Rightarrow> string list \<Rightarrow> agg \<Rightarrow> agg res" where
  "fold_lines latency [] a = Inr a"
| "fold_lines latency (l # ls) a = (case sse_data (py_strip l) of
     None \<Rightarrow> fold_lines latency ls a
   | Some None \<Rightarrow> Inr a
   | Some (Some ev) \<Rightarrow> rbind (on_codex_event latency ev a) (fold_lines latency ls))"

text \<open>A streamed summary joins its reasoning item, unless the final item already has one.\<close>

definition merge_summary :: "(jval \<times> jval) \<times> jval list \<Rightarrow> (jval \<times> jval) list \<Rightarrow> (jval \<times> jval) list res" where
  "merge_summary s items = (case s of ((i, n), parts) \<Rightarrow>
     let items' = (case find_call i items of
           None \<Rightarrow> put_call i (JObj [(''id'', i), (''type'', JStr ''reasoning''), (''summary'', JList [])]) items
         | Some _ \<Rightarrow> items);
         item = (case find_call i items' of None \<Rightarrow> [] | Some v \<Rightarrow> obj_of v);
         summary = dget_or item ''summary'' (JList []) in
     rbind (py_iter summary) (\<lambda>ps.
     rbind (rany (\<lambda>p. rbind (vget p ''text'') (\<lambda>t. rbind (join_values parts) (\<lambda>j. Inr (t = JStr j)))) ps) (\<lambda>present.
     if present \<or> (truthy summary \<and> \<not> truthy (dget item ''partial'')) then Inr items'
     else rbind (join_values parts) (\<lambda>j.
       case summary of
         JList xs \<Rightarrow> Inr (put_call i (JObj (dset ''partial'' (JBool True)
             (dset ''summary'' (JList (xs @ [JObj [(''type'', JStr ''summary_text''), (''text'', JStr j)]])) item))) items')
       | _ \<Rightarrow> Inl (attr_err summary ''append'')))))"

definition call_result :: "agg \<Rightarrow> jval \<Rightarrow> jval res" where
  "call_result a i = (case find_call i (ag_calls a) of
     None \<Rightarrow> Inl (KeyError (py_str i))
   | Some c \<Rightarrow>
       rbind (if fc_done c \<noteq> JNull then Inr (fc_done c) else rbind (join_values (fc_args c)) (\<lambda>s. Inr (JStr s))) (\<lambda>args.
         Inr (JObj [(''id'', fc_call_id c), (''type'', JStr ''function''),
           (''function'', JObj [(''name'', fc_name c), (''arguments'', py_or args (JStr ''{}''))])])))"

definition reasoning_details :: "(jval \<times> jval) list \<Rightarrow> jval res" where
  "reasoning_details items =
     rbind (rmap (\<lambda>(i, item). rbind (py_iter (dget_or (obj_of item) ''summary'' (JList []))) (\<lambda>ps.
        rmap (\<lambda>p. rbind (vget p ''text'') (\<lambda>t. Inr (JObj [(''type'', JStr ''reasoning.summary''),
            (''summary'', dget_or (obj_of p) ''text'' (JStr [])), (''source'', JStr ''codex'')]))) ps)) items) (\<lambda>dss.
       Inr (JObj (if items = [] then [] else [(''reasoning_details'', JList (concat dss))])))"

definition aggregate_codex_sse :: "string list \<Rightarrow> int \<Rightarrow> dict res" where
  "aggregate_codex_sse lines latency =
     rbind (fold_lines latency lines new_agg) (\<lambda>a.
     case ag_err a of
       Some e \<Rightarrow> Inr e
     | None \<Rightarrow>
         rbind (rfold merge_summary (ag_summaries a) (ag_items a)) (\<lambda>items.
         rbind (rmap (call_result a) (ag_order a)) (\<lambda>calls.
         rbind (join_values (ag_text a)) (\<lambda>t.
         rbind (vget (ag_usage a) ''input_tokens'') (\<lambda>tin.
         rbind (reasoning_details items) (\<lambda>details.
         rbind (vget (py_or (dget (obj_of (ag_usage a)) ''output_tokens_details'') (JObj [])) ''reasoning_tokens'') (\<lambda>reasoning.
         let u = obj_of (ag_usage a) in
           Inr (ok_result latency [(''text'', JStr t), (''tool_calls'', none_if_empty calls),
             (''finish_reason'', JStr (if ag_order a \<noteq> [] then ''tool_calls'' else ag_finish a)),
             (''tokens_in'', tin), (''tokens_out'', dget u ''output_tokens''), (''tokens_total'', dget u ''total_tokens''),
             (''tokens_cached'', cached_tokens (JObj u)), (''cost_reported'', dget u ''cost''), (''raw_model'', JNull),
             (''reasoning_items'', JList (map snd items)), (''provider_message'', details), (''tokens_reasoning'', reasoning)]))))))))"

section \<open>Driving the stream\<close>

text \<open>\<open>_codex_line_has_output_delta\<close>.\<close>

definition has_output_delta :: "string \<Rightarrow> bool res" where
  "has_output_delta l = (case sse_data (py_strip l) of
     Some (Some ev) \<Rightarrow> rbind (vget ev ''type'') (\<lambda>ty.
       Inr (ty \<in> {JStr ''response.output_text.delta'', JStr ''response.reasoning_summary_text.delta''} \<and> truthy (dget (obj_of ev) ''delta'')))
   | _ \<Rightarrow> Inr False)"

text \<open>The faults of the client: its own timeout, a request error, any other exception.\<close>

datatype fault = HttpTimeout exn | HttpError exn | OtherFault exn

fun fault_exn :: "fault \<Rightarrow> exn" where
  "fault_exn (HttpTimeout e) = e" | "fault_exn (HttpError e) = e" | "fault_exn (OtherFault e) = e"

datatype codex_line = CLine string | CEof | CTimedOut | CBroken fault
datatype codex_opened = COpened int "(string \<times> string) list" string | COpenTimeout | COpenFailed fault

record codex_wire =
  token :: "string option"
  account :: "string option"
  codex_extra :: dict
  upstream :: string
  codex_timeout_ms :: int
  codex_open :: "string \<Rightarrow> dict \<Rightarrow> dict \<Rightarrow> jval \<Rightarrow> (rat \<times> codex_opened \<times> rat) \<times> (rat \<times> codex_line \<times> rat) list"
  codex_start :: rat
  codex_end :: rat

type_synonym signal = "int \<times> (string \<times> string) list"

definition no_token :: dict where
  "no_token = err ''auth_error'' 0 0 ''no codex access token (run `codex login`)''"

definition codex_timeout :: "codex_wire \<Rightarrow> dict \<Rightarrow> jval res" where
  "codex_timeout n request = py_div (py_or (dget request ''timeout_ms'') (JInt (codex_timeout_ms n))) (JFloat (Fin 1000))"

definition first_timeout_result :: "pyfloat option \<Rightarrow> rat \<Rightarrow> rat \<Rightarrow> dict res" where
  "first_timeout_result timeout start now = (case timeout of
     None \<Rightarrow> Inl (TypeError ''unsupported operand type(s)'') | Some t \<Rightarrow> first_token_timeout_err t (elapsed_ms start now))"

text \<open>
  The lines read before the stream ends or is cut: an exception ends it with what the code makes of it.
  \<open>Inl\<close>: the call returns or raises; \<open>Inr\<close>: the lines, for the aggregation.
\<close>

datatype ending = Returned dict | Signalled dict | Raised_out exn

fun http_ending :: "rat \<Rightarrow> rat \<Rightarrow> fault \<Rightarrow> ending" where
  "http_ending start now (HttpTimeout e) = Signalled (err ''timeout'' 0 (elapsed_ms start now) ''codex request timed out'')"
| "http_ending start now (HttpError e) = Signalled (err ''network_error'' 0 (elapsed_ms start now) (exn_str e))"
| "http_ending start now (OtherFault e) = Raised_out e"

definition res_ending :: "dict res \<Rightarrow> ending" where
  "res_ending r = (case r of Inl e \<Rightarrow> Raised_out e | Inr d \<Rightarrow> Returned d)"

fun read_codex :: "pyfloat option \<Rightarrow> rat \<Rightarrow> bool \<Rightarrow> (rat \<times> codex_line \<times> rat) list \<Rightarrow> ending + string list" where
  "read_codex timeout start saw [] = Inr []"
| "read_codex timeout start saw ((now, l, later) # es) =
     (if before_first_output timeout saw start now = Some (Inl ()) then Inl (res_ending (first_timeout_result timeout start now))
      else case l of
        CEof \<Rightarrow> Inr []
      | CTimedOut \<Rightarrow> Inl (if \<not> saw then res_ending (first_timeout_result timeout start later) else Raised_out (TimeoutError []))
      | CBroken f \<Rightarrow> Inl (http_ending start later f)
      | CLine s \<Rightarrow>
          (case has_output_delta s of
             Inl e \<Rightarrow> Inl (Raised_out e)
           | Inr d \<Rightarrow> (case read_codex timeout start (saw \<or> d) es of Inl x \<Rightarrow> Inl x | Inr ls \<Rightarrow> Inr (s # ls))))"

definition call_codex :: "codex_wire \<Rightarrow> dict \<Rightarrow> dict res \<times> signal list" where
  "call_codex n request = (case token n of
     None \<Rightarrow> (Inr no_token, [(0, [])])
   | Some tok \<Rightarrow>
       if tok = [] then (Inr no_token, [(0, [])])
       else case rbind (build_codex_body request) (\<lambda>body. rbind (codex_timeout n request) (\<lambda>timeout.
              rbind (first_token_timeout_s request) (\<lambda>first. Inr (body, timeout, first)))) of
         Inl e \<Rightarrow> (Inl e, [])
       | Inr (body, timeout, first) \<Rightarrow>
           (case codex_open n (rstrip_slash (upstream n) @ ''/responses'') body
                   (build_codex_headers tok (account n) (codex_extra n)) timeout of ((now, o1, later), events) \<Rightarrow>
             (let start = codex_start n in
              if before_first_output first False start now = Some (Inl ()) then (first_timeout_result first start now, [(0, [])])
              else case o1 of
                COpenTimeout \<Rightarrow> (first_timeout_result first start later, [(0, [])])
              | COpenFailed f \<Rightarrow> (case http_ending start later f of
                    Raised_out e \<Rightarrow> (Inl e, []) | Returned d \<Rightarrow> (Inr d, [(0, [])]) | Signalled d \<Rightarrow> (Inr d, [(0, [])]))
              | COpened code headers detail \<Rightarrow>
                  (let seen = [(code, quota_headers headers)]; latency = elapsed_ms start later in
                   if code = 401 then (Inr (err ''auth_error'' 401 latency ''codex token rejected''), seen)
                   else if code = 429 then (Inr (err ''rate_limit'' 429 latency ''codex rate limited''), seen)
                   else if 400 \<le> code then (Inr (err ''server_error'' code latency (py_take 500 detail)), seen)
                   else case read_codex first start False events of
                     Inl (Returned d) \<Rightarrow> (Inr d, seen)
                   | Inl (Signalled d) \<Rightarrow> (Inr d, seen @ [(0, [])])
                   | Inl (Raised_out e) \<Rightarrow> (Inl e, seen)
                   | Inr lines \<Rightarrow> (aggregate_codex_sse lines (elapsed_ms start (codex_end n)), seen)))))"

section \<open>\<open>streaming.stream_codex\<close>\<close>

text \<open>
  Here the text deltas are emitted as they come (the list \<open>out\<close>), every exception is caught, and a stream
  cut after the first emission is reported as interrupted with the text so far.
\<close>

definition delta_of :: "string \<Rightarrow> jval option res" where
  "delta_of s = (if \<not> prefix_of ''data:'' s then Inr None
     else case json_loads default_hook (py_strip (drop 5 s)) of
       Inl _ \<Rightarrow> Inr None
     | Inr ev \<Rightarrow> rbind (vget ev ''type'') (\<lambda>ty.
         let d = dget (obj_of ev) ''delta'' in
         Inr (if ty = JStr ''response.output_text.delta'' \<and> truthy d then Some d else None)))"

definition stream_broken :: "string list \<Rightarrow> bool \<Rightarrow> int \<Rightarrow> exn \<Rightarrow> dict res" where
  "stream_broken lines emitted_any latency e =
     (if \<not> emitted_any then Inr (err ''network_error'' 0 latency (exn_type e @ '': '' @ exn_str e))
      else rbind (aggregate_codex_sse lines latency) (\<lambda>partial.
        let t = py_or (dget (obj_of (py_or (dget partial ''response'') (JObj []))) ''text'') (JStr []) in
        Inr (err ''stream_interrupted'' 0 latency
          (exn_type e @ '': '' @ exn_str e @ '' (partial: '' @ str_repr (py_take 200 (str_of t)) @ '')''))))"

fun stream_lines :: "pyfloat option \<Rightarrow> rat \<Rightarrow> string list \<Rightarrow> jval list \<Rightarrow> (rat \<times> codex_line \<times> rat) list
    \<Rightarrow> (dict res + string list) \<times> jval list" where
  "stream_lines timeout start lines out [] = (Inr lines, out)"
| "stream_lines timeout start lines out ((now, l, later) # es) =
     (let timed = (\<lambda>t. case first_timeout_result timeout start t of
            Inr d \<Rightarrow> Inr d | Inl e \<Rightarrow> stream_broken lines (out \<noteq> []) (elapsed_ms start t) e) in
      if before_first_output timeout (out \<noteq> []) start now = Some (Inl ()) then (Inl (timed now), out)
      else case l of
        CEof \<Rightarrow> (Inr lines, out)
      | CTimedOut \<Rightarrow> (Inl (if out = [] then timed later
                           else stream_broken lines True (elapsed_ms start later) (TimeoutError [])), out)
      | CBroken f \<Rightarrow> (Inl (stream_broken lines (out \<noteq> []) (elapsed_ms start later) (fault_exn f)), out)
      | CLine s \<Rightarrow>
          (case delta_of s of
             Inl e \<Rightarrow> (Inl (stream_broken (lines @ [s]) (out \<noteq> []) (elapsed_ms start later) e), out)
           | Inr None \<Rightarrow> stream_lines timeout start (lines @ [s]) out es
           | Inr (Some d) \<Rightarrow> stream_lines timeout start (lines @ [s]) (out @ [d]) es))"

definition stream_codex :: "codex_wire \<Rightarrow> dict \<Rightarrow> dict res \<times> jval list \<times> signal list" where
  "stream_codex n request = (case token n of
     None \<Rightarrow> (Inr no_token, [], [(0, [])])
   | Some tok \<Rightarrow>
       if tok = [] then (Inr no_token, [], [(0, [])])
       else case rbind (build_codex_body request) (\<lambda>body. rbind (codex_timeout n request) (\<lambda>timeout.
              rbind (first_token_timeout_s request) (\<lambda>first. Inr (body, timeout, first)))) of
         Inl e \<Rightarrow> (Inl e, [], [])
       | Inr (body, timeout, first) \<Rightarrow>
           (case codex_open n (rstrip_slash (upstream n) @ ''/responses'') body
                   (build_codex_headers tok (account n) (codex_extra n)) timeout of ((now, o1, later), events) \<Rightarrow>
             (let start = codex_start n;
                  timed = (\<lambda>t. case first_timeout_result first start t of
                      Inr d \<Rightarrow> Inr d | Inl e \<Rightarrow> stream_broken [] False (elapsed_ms start t) e) in
              if before_first_output first False start now = Some (Inl ()) then (timed now, [], [])
              else case o1 of
                COpenTimeout \<Rightarrow> (timed later, [], [])
              | COpenFailed f \<Rightarrow> (stream_broken [] False (elapsed_ms start later) (fault_exn f), [], [])
              | COpened code headers detail \<Rightarrow>
                  (let seen = [(code, stream_quota_headers headers)]; latency = elapsed_ms start later in
                   if code = 401 then (Inr (err ''auth_error'' 401 latency ''codex token rejected''), [], seen)
                   else if code = 429 then (Inr (err ''rate_limit'' 429 latency ''codex rate limited''), [], seen)
                   else if 400 \<le> code then (Inr (err ''server_error'' code latency (py_take 500 detail)), [], seen)
                   else case stream_lines first start [] [] events of
                     (Inl r, out) \<Rightarrow> (r, out, seen)
                   | (Inr lines, out) \<Rightarrow> (aggregate_codex_sse lines (elapsed_ms start (codex_end n)), out, seen)))))"

section \<open>Chunk encoding\<close>

definition DONE_EVENT :: string where
  "DONE_EVENT = ''data: [DONE]'' @ nl @ nl"

definition HEARTBEAT :: string where
  "HEARTBEAT = '': keepalive'' @ nl @ nl"

definition new_stream_id :: "string \<Rightarrow> string" where
  "new_stream_id hex = ''chatcmpl-'' @ take 24 hex"

definition chunk_payload :: "int \<Rightarrow> string \<Rightarrow> string \<Rightarrow> dict \<Rightarrow> dict \<Rightarrow> dict" where
  "chunk_payload created stream_id model choice extra =
     dupd [(''id'', JStr stream_id), (''object'', JStr ''chat.completion.chunk''), (''created'', JInt created),
           (''model'', JStr model), (''choices'', JList [JObj (dset ''index'' (JInt 0) choice)])] extra"

definition data_line :: "jval \<Rightarrow> string" where
  "data_line payload = ''data: '' @ json_dumps payload"

definition encode_chunk :: "int \<Rightarrow> string \<Rightarrow> string \<Rightarrow> dict \<Rightarrow> dict \<Rightarrow> string" where
  "encode_chunk created stream_id model choice extra =
     data_line (JObj (chunk_payload created stream_id model choice extra)) @ nl @ nl"

definition encode_role_chunk :: "int \<Rightarrow> string \<Rightarrow> string \<Rightarrow> string" where
  "encode_role_chunk created stream_id model =
     encode_chunk created stream_id model [(''delta'', JObj [(''role'', JStr ''assistant'')]), (''finish_reason'', JNull)] []"

definition encode_text_chunk :: "int \<Rightarrow> string \<Rightarrow> string \<Rightarrow> string \<Rightarrow> string" where
  "encode_text_chunk created stream_id model t =
     encode_chunk created stream_id model [(''delta'', JObj [(''content'', JStr t)]), (''finish_reason'', JNull)] []"

definition encode_final_chunk :: "int \<Rightarrow> string \<Rightarrow> string \<Rightarrow> jval \<Rightarrow> jval \<Rightarrow> jval \<Rightarrow> jval \<Rightarrow> string" where
  "encode_final_chunk created stream_id model finish calls u x_router =
     encode_chunk created stream_id model
       [(''delta'', JObj (if truthy calls then [(''tool_calls'', calls)] else [])), (''finish_reason'', py_or finish (JStr ''stop''))]
       ((if truthy u then [(''usage'', u)] else []) @ (if truthy x_router then [(''x_router'', x_router)] else []))"

definition encode_error_event :: "string \<Rightarrow> jval \<Rightarrow> string" where
  "encode_error_event message code =
     data_line (JObj [(''error'', JObj [(''message'', JStr message), (''type'', JStr ''router_error''), (''code'', code)])]) @ nl @ nl"

text \<open>\<open>dispatcher.py\<close> and its streaming sibling: the handler of an api kind.\<close>

definition dispatch :: "'h \<Rightarrow> (string \<times> 'h) list \<Rightarrow> dict \<Rightarrow> 'h res" where
  "dispatch fallback handlers request = (let k = dget request ''api_kind'' in
     rbind (hashed k) (\<lambda>_. Inr (case k of JStr s \<Rightarrow> dget_or handlers s fallback | _ \<Rightarrow> fallback)))"

definition stream_dispatch :: "'h \<Rightarrow> (string \<times> 'h) list \<Rightarrow> dict \<Rightarrow> 'h res" where
  "stream_dispatch fallback handlers request = (let k = dget_or request ''api_kind'' (JStr ''openai_compatible'') in
     rbind (hashed k) (\<lambda>_. Inr (case k of JStr s \<Rightarrow> dget_or handlers s fallback | _ \<Rightarrow> fallback)))"

definition stream_unsupported_api_kind :: "dict \<Rightarrow> dict" where
  "stream_unsupported_api_kind request =
     err ''bad_request'' 0 0 (''streaming unsupported for api_kind='' @ py_repr (dget request ''api_kind''))"

section \<open>What is emitted is what is returned\<close>

text \<open>A line whose data is read the same way by the emitting loop and by the aggregation.\<close>

definition plain_line :: "string \<Rightarrow> bool" where
  "plain_line l = (py_strip l = l \<and> py_strip (drop 5 l) \<noteq> ''[DONE]'')"

lemma plain_sse: "plain_line l \<Longrightarrow> sse_data (py_strip l) = (if prefix_of ''data:'' l then
    (case json_loads default_hook (py_strip (drop 5 l)) of Inl _ \<Rightarrow> None | Inr ev \<Rightarrow> Some (Some ev)) else None)"
  by (auto simp: plain_line_def sse_data_def Let_def)

definition text_delta :: "jval \<Rightarrow> jval list" where
  "text_delta ev = (if dget (obj_of ev) ''type'' = JStr ''response.output_text.delta'' \<and> truthy (dget (obj_of ev) ''delta'')
     then [dget (obj_of ev) ''delta''] else [])"

lemma put_item_text: "put_item item a = Inr a' \<Longrightarrow> ag_text a' = ag_text a \<and> ag_err a' = ag_err a"
  by (auto simp: put_item_def Let_def res_simps)

lemma put_items_text:
  "rfold (\<lambda>item a. rbind (vget item ''type'') (\<lambda>ty. if ty = JStr ''reasoning'' then put_item item a else Inr a)) items a = Inr a'
     \<Longrightarrow> ag_text a' = ag_text a \<and> ag_err a' = ag_err a"
  by (drule rfold_invariant [where P = "\<lambda>x. ag_text x = ag_text a \<and> ag_err x = ag_err a"])
    (auto simp: res_simps put_item_text split: if_splits)

lemma on_completed_text: "on_completed ev a = Inr a' \<Longrightarrow> ag_text a' = ag_text a \<and> ag_err a' = ag_err a"
  by (auto simp: on_completed_def Let_def res_simps dest!: put_items_text)

lemma change_call_text: "change_call i f a = Inr a' \<Longrightarrow> ag_text a' = ag_text a \<and> ag_err a' = ag_err a"
  by (auto simp: change_call_def res_simps split: option.splits)

definition errors_marked :: "agg \<Rightarrow> bool" where
  "errors_marked a = (\<forall>e. ag_err a = Some e \<longrightarrow> dget e ''ok'' = JBool False)"

lemma vget_obj [simp]: "vget (JObj d) k = Inr (dget d k)"
  by (simp add: vget_def)

lemma codex_event_text:
  assumes "on_codex_event latency ev a = Inr a'"
  shows "ag_text a' = ag_text a @ text_delta ev \<and> (errors_marked a \<longrightarrow> errors_marked a')"
proof -
  obtain d where ev: "ev = JObj d" using assms by (cases ev) (auto simp: on_codex_event_def vget_def)
  show ?thesis
    using assms unfolding ev
    by (auto simp: on_codex_event_def text_delta_def res_simps Let_def errors_marked_def err_def
        dest!: put_item_text on_completed_text change_call_text split: if_splits)
qed

lemma fold_lines_text:
  assumes "list_all plain_line ls" and "fold_lines latency ls a = Inr a'"
  shows "ag_text a' = ag_text a @ concat (map (\<lambda>l. case sse_data (py_strip l) of Some (Some ev) \<Rightarrow> text_delta ev | _ \<Rightarrow> []) ls)
    \<and> (errors_marked a \<longrightarrow> errors_marked a')"
  using assms
proof (induction ls arbitrary: a)
  case (Cons l ls)
  have n: "sse_data (py_strip l) \<noteq> Some None" using Cons.prems(1) plain_sse [of l] by (auto split: sum.splits)
  show ?case
  proof (cases "sse_data (py_strip l)")
    case None
    then show ?thesis using Cons by simp
  next
    case (Some x)
    then obtain ev where "x = Some ev" using n by (cases x) auto
    then obtain a1 where "on_codex_event latency ev a = Inr a1" "fold_lines latency ls a1 = Inr a'"
      using Some Cons.prems(2) by (auto simp: res_simps)
    then show ?thesis using Some \<open>x = Some ev\<close> Cons.IH [of a1] Cons.prems(1) codex_event_text [of latency ev a a1] by auto
  qed
qed simp

lemma delta_of_plain:
  assumes "plain_line l" and "delta_of l = Inr d"
  shows "(case sse_data (py_strip l) of Some (Some ev) \<Rightarrow> text_delta ev | _ \<Rightarrow> []) = (case d of None \<Rightarrow> [] | Some v \<Rightarrow> [v])"
  using assms(2) unfolding plain_sse [OF assms(1)]
  by (auto simp: delta_of_def text_delta_def vget_def res_simps Let_def split: sum.splits if_splits jval.splits)

lemma stream_lines_out:
  assumes "stream_lines timeout start ls0 out0 es = (Inr ls, out)" and "list_all plain_line ls"
  shows "\<exists>ls'. ls = ls0 @ ls' \<and> out = out0 @ concat (map (\<lambda>l. case sse_data (py_strip l) of Some (Some ev) \<Rightarrow> text_delta ev | _ \<Rightarrow> []) ls')"
  using assms
proof (induction timeout start ls0 out0 es rule: stream_lines.induct)
  case (2 timeout start lines out0 now l later es)
  show ?case
  proof (cases l)
    case (CLine s)
    then obtain d where d: "delta_of s = Inr d" using "2.prems"(1) by (auto simp: Let_def split: if_splits sum.splits)
    have r: "stream_lines timeout start (lines @ [s]) (out0 @ (case d of None \<Rightarrow> [] | Some v \<Rightarrow> [v])) es = (Inr ls, out)"
      using "2.prems"(1) CLine d by (auto simp: Let_def split: if_splits option.splits)
    have "\<exists>ls'. ls = (lines @ [s]) @ ls' \<and> out = (out0 @ (case d of None \<Rightarrow> [] | Some v \<Rightarrow> [v]))
        @ concat (map (\<lambda>l. case sse_data (py_strip l) of Some (Some ev) \<Rightarrow> text_delta ev | _ \<Rightarrow> []) ls')"
    proof (cases d)
      case None
      then show ?thesis using "2.IH"(1) [OF refl _ CLine d] r "2.prems"(2) "2.prems"(1) by (auto simp: Let_def split: if_splits)
    next
      case (Some v)
      then show ?thesis using "2.IH"(2) [OF refl _ CLine d] r "2.prems"(2) "2.prems"(1) by (auto simp: Let_def split: if_splits)
    qed
    then obtain ls' where ls': "ls = (lines @ [s]) @ ls'" "out = (out0 @ (case d of None \<Rightarrow> [] | Some v \<Rightarrow> [v]))
        @ concat (map (\<lambda>l. case sse_data (py_strip l) of Some (Some ev) \<Rightarrow> text_delta ev | _ \<Rightarrow> []) ls')" by blast
    have "plain_line s" using "2.prems"(2) ls'(1) by simp
    then show ?thesis using ls' delta_of_plain [OF _ d] by (intro exI [of _ "s # ls'"]) simp
  qed (use "2.prems"(1) in \<open>auto simp: Let_def split: if_splits\<close>)
qed auto

text \<open>
  The Codex stream emits exactly the text it returns: for lines in the shape the endpoint sends, when
  the stream ends and the aggregation succeeds, the deltas emitted to the caller, joined, are the text of
  the complete response the router core gets.
\<close>

lemma codex_emits_result_text:
  assumes "stream_lines timeout start [] [] es = (Inr ls, out)" and "list_all plain_line ls"
    and "aggregate_codex_sse ls latency = Inr r" and "dget r ''ok'' = JBool True"
  shows "\<exists>t response. join_values out = Inr t \<and> dget r ''response'' = JObj response \<and> dget response ''text'' = JStr t"
proof -
  obtain a where a: "fold_lines latency ls new_agg = Inr a" using assms(3) by (auto simp: aggregate_codex_sse_def res_simps)
  have out: "out = ag_text a"
    using stream_lines_out [OF assms(1,2)] fold_lines_text [OF assms(2) a] by (auto simp: new_agg_def)
  show ?thesis
  proof (cases "ag_err a")
    case None
    then show ?thesis using assms(3) a out by (auto simp: aggregate_codex_sse_def res_simps Let_def ok_result_def)
  next
    case (Some e)
    then have "dget e ''ok'' = JBool False"
      using fold_lines_text [OF assms(2) a] by (simp add: errors_marked_def new_agg_def)
    moreover have "r = e" using assms(3) a Some by (simp add: aggregate_codex_sse_def)
    ultimately show ?thesis using assms(4) by simp
  qed
qed

section \<open>Round trip through the Responses surface\<close>

text \<open>Turns of a conversation in chat form: a text of a role, an assistant turn with calls, a tool result.\<close>

datatype turn = Say string string | Calls string "(string \<times> string \<times> string) list" | ToolResult string string

definition chat_text :: "string \<Rightarrow> jval" where
  "chat_text t = (if t = [] then JNull else JStr t)"

fun turn_message :: "turn \<Rightarrow> dict" where
  "turn_message (Say r t) = [(''role'', JStr r), (''content'', JStr t)]"
| "turn_message (Calls t cs) = [(''role'', JStr ''assistant''), (''content'', chat_text t), (''tool_calls'', JList (map chat_call cs))]"
| "turn_message (ToolResult i t) = [(''role'', JStr ''tool''), (''tool_call_id'', JStr i), (''content'', JStr t)]"

fun turn_items :: "turn \<Rightarrow> jval list" where
  "turn_items (Say r t) = [plain_item (JStr r) t]"
| "turn_items (Calls t cs) = (if t = [] then [] else [plain_item (JStr ''assistant'') t])
     @ map (\<lambda>(i, name, args). JObj [(''type'', JStr ''function_call''), (''call_id'', JStr i), (''name'', JStr name), (''arguments'', JStr args)]) cs"
| "turn_items (ToolResult i t) = [JObj [(''type'', JStr ''function_call_output''), (''call_id'', JStr i), (''output'', JStr t)]]"

fun speaks :: "turn \<Rightarrow> bool" where
  "speaks (Say r t) = (r = ''assistant'')" | "speaks (Calls t cs) = True" | "speaks (ToolResult i t) = False"

text \<open>Full ids and names; a call turn without text does not follow another assistant turn.\<close>

fun good_turn :: "bool \<Rightarrow> turn \<Rightarrow> bool" where
  "good_turn after (Say r t) = (r \<noteq> [] \<and> r \<noteq> ''tool'' \<and> r \<noteq> ''developer'')"
| "good_turn after (Calls t cs) = (cs \<noteq> [] \<and> list_all full_call cs \<and> (t = [] \<longrightarrow> \<not> after))"
| "good_turn after (ToolResult i t) = (i \<noteq> [])"

fun good_turns :: "bool \<Rightarrow> turn list \<Rightarrow> bool" where
  "good_turns after [] = True"
| "good_turns after (t # ts) = (good_turn after t \<and> good_turns (speaks t) ts)"

definition ends_assistant :: "dict list \<Rightarrow> bool" where
  "ends_assistant ms = (ms \<noteq> [] \<and> dget (last ms) ''role'' = JStr ''assistant'')"

definition assistant_with :: "jval \<Rightarrow> jval list \<Rightarrow> dict" where
  "assistant_with c tcs = [(''role'', JStr ''assistant''), (''content'', c)] @ (if tcs = [] then [] else [(''tool_calls'', JList tcs)])"

abbreviation call_item_of :: "string \<times> string \<times> string \<Rightarrow> jval" where
  "call_item_of c \<equiv> (case c of (i, name, args) \<Rightarrow>
     JObj [(''type'', JStr ''function_call''), (''call_id'', JStr i), (''name'', JStr name), (''arguments'', JStr args)])"

lemma call_item_value: "full_call c \<Longrightarrow> call_of (obj_of (call_item_of c)) = chat_call c"
  by (cases c) (auto simp: call_of_def chat_call_def full_call_def py_or_def)

lemma call_item_step:
  "full_call c \<Longrightarrow> item_step (call_item_of c) ms = Inr (add_call (chat_call c) ms)"
  using call_item_value [of c] by (cases c) (auto simp: item_step_def)

lemma add_call_assistant: "add_call tc (ms @ [assistant_with c tcs]) = ms @ [assistant_with c (tcs @ [tc])]"
  by (simp add: add_call_def assistant_with_def append_call_def dget_or_def)

lemma add_call_fresh: "\<not> ends_assistant ms \<Longrightarrow> add_call tc ms = ms @ [assistant_with JNull [tc]]"
  by (auto simp: add_call_def ends_assistant_def assistant_with_def)

lemma calls_fold:
  "list_all full_call cs \<Longrightarrow>
     rfold item_step (map call_item_of cs) (ms @ [assistant_with c tcs]) = Inr (ms @ [assistant_with c (tcs @ map chat_call cs)])"
  by (induction cs arbitrary: tcs) (auto simp: call_item_step add_call_assistant)

lemma turn_fold:
  assumes "good_turn after t" and "\<not> after \<Longrightarrow> \<not> ends_assistant ms"
  shows "rfold item_step (turn_items t) ms = Inr (ms @ [turn_message t])"
proof (cases t)
  case (Say r s)
  then show ?thesis
    using assms(1) by (simp add: plain_item_def item_step_def part_text_def)
next
  case (ToolResult i s)
  then show ?thesis using assms(1) by (simp add: item_step_def part_text_def py_or_def)
next
  case (Calls s cs)
  then obtain c cs' where cs: "cs = c # cs'" "full_call c" "list_all full_call cs'" using assms(1) by (cases cs) auto
  show ?thesis
  proof (cases "s = []")
    case True
    then have "\<not> ends_assistant ms" using assms Calls by simp
    then show ?thesis
      using cs Calls True calls_fold [OF cs(3), of ms JNull "[chat_call c]"]
      by (simp add: call_item_step add_call_fresh chat_text_def) (simp add: assistant_with_def)
  next
    case False
    have "item_step (plain_item (JStr ''assistant'') s) ms = Inr (ms @ [assistant_with (JStr s) []])"
      by (simp add: plain_item_def item_step_def part_text_def assistant_with_def)
    then show ?thesis
      using cs Calls False calls_fold [of cs ms "JStr s" "[]"]
      by (simp add: chat_text_def) (simp add: assistant_with_def)
  qed
qed

lemma ends_assistant_turn: "good_turn after t \<Longrightarrow> \<not> speaks t \<Longrightarrow> \<not> ends_assistant (ms @ [turn_message t])"
  by (cases t) (auto simp: ends_assistant_def)

lemma turns_fold:
  assumes "good_turns after ts" and "\<not> after \<Longrightarrow> \<not> ends_assistant ms"
  shows "rfold item_step (concat (map turn_items ts)) ms = Inr (ms @ map turn_message ts)"
  using assms
proof (induction ts arbitrary: after ms)
  case (Cons t ts)
  have "rfold item_step (turn_items t) ms = Inr (ms @ [turn_message t])"
    using Cons.prems by (intro turn_fold [of after]) auto
  moreover have "rfold item_step (concat (map turn_items ts)) (ms @ [turn_message t]) = Inr ((ms @ [turn_message t]) @ map turn_message ts)"
    using Cons.prems by (intro Cons.IH [of "speaks t"]) (auto dest: ends_assistant_turn)
  ultimately show ?case by (simp add: rfold_append)
qed simp

lemma turn_to_items: "good_turn after t \<Longrightarrow> message_items (JObj (turn_message t)) = Inr (turn_items t)"
proof (cases t)
  case (Calls s cs)
  assume "good_turn after t"
  then have full: "list_all full_call cs" and ne: "cs \<noteq> []" using Calls by auto
  have "rmap function_call_item (map chat_call cs) = Inr (map call_item_of cs)"
    using full
  proof (induction cs)
    case (Cons c cs)
    then show ?case
      by (cases c) (auto simp: function_call_item_def chat_call_def full_call_def sub_obj_def name_or_empty_def py_or_def)
  qed simp
  then show ?thesis
    using Calls ne by (auto simp: message_items_def content_to_text_def chat_text_def py_or_def)
qed (auto simp: message_items_def content_to_text_def py_or_def plain_item_def)

lemma turns_to_items: "good_turns after ts \<Longrightarrow> rmap message_items (map (JObj \<circ> turn_message) ts) = Inr (map turn_items ts)"
  by (induction ts arbitrary: after) (auto dest: turn_to_items)

text \<open>
  The translation to Codex input items loses nothing of a conversation: reading the items back as a
  Responses request gives the same chat messages, every text, tool call and tool result in its place.
\<close>

lemma codex_input_roundtrip:
  assumes "good_turns False ts"
  shows "\<exists>items. messages_to_input (JList (map (JObj \<circ> turn_message) ts)) = Inr items
    \<and> input_to_messages (JList items) JNull = Inr (map turn_message ts)"
proof -
  have "messages_to_input (JList (map (JObj \<circ> turn_message) ts)) = Inr (concat (map turn_items ts))"
    by (simp add: messages_to_input_def turns_to_items [OF assms, simplified])
  moreover have "input_to_messages (JList (concat (map turn_items ts))) JNull = Inr (map turn_message ts)"
    using turns_fold [OF assms, of "[]"] by (simp add: input_to_messages_def input_items_def ends_assistant_def)
  ultimately show ?thesis by blast
qed

text \<open>
  The streaming path keeps fewer quota headers than the plain one: when the limit lifts (\<open>retry-after\<close>, the
  reset headers) is dropped there.
\<close>

lemma stream_drops_reset_headers:
  "quota_headers [(''Retry-After'', ''9''), (''x-reset-at'', ''1'')] = [(''retry-after'', ''9''), (''x-reset-at'', ''1'')]
   \<and> stream_quota_headers [(''Retry-After'', ''9''), (''x-reset-at'', ''1'')] = []"
  by code_simp

end
