(* ===== verification/WalletLedger.thy ===== *)
theory WalletLedger
  imports PyNum PyText
begin

text \<open>
  The wallet ledger of \<open>host_store.py\<close>: the table \<open>wallet_ops\<close> and the functions that read and write
  it. A program is a function of the world it changes: the rows in id order, the next id, the control
  requests sent, what the keeper reports, and a counter of the readings it took. What it reads from outside
  (the clock, whether the store answers, the other tables, the sidecar) is the record \<open>outside\<close>, a function
  of that counter. A statement that fails leaves the table as it was.
\<close>

section \<open>The world\<close>

record op_row =
  row_id :: nat
  row_ts :: int
  row_pid :: string
  row_op :: string
  amount_usdc :: "pyfloat option"
  row_reason :: "string option"
  pre_available :: "pyfloat option"
  post_available :: "pyfloat option"
  pre_reserved :: "pyfloat option"
  post_reserved :: "pyfloat option"
  outcome :: string
  row_detail :: "string option"
  updated_at :: int

text \<open>
  What a control request gives: a request that could not be built, no answer (the exception's type and
  text), a cancellation, or a status with its decoded body (\<open>None\<close>: not JSON) and its text.
\<close>

datatype http = Misbuilt string | NoReply string string | Cancelled | Replied int "jval option" string

record outside =
  clock :: "nat \<Rightarrow> rat"
  store_up :: "nat \<Rightarrow> bool"
  status_row :: "nat \<Rightarrow> string \<Rightarrow> dict option"
  observed :: "nat \<Rightarrow> string \<Rightarrow> int \<Rightarrow> int \<times> int"
  chain_row :: "nat \<Rightarrow> string \<Rightarrow> dict"
  knob :: "nat \<Rightarrow> string \<Rightarrow> jval res"
  control_url :: string
  control_token :: string
  reply :: "nat \<Rightarrow> http"

record world =
  ops :: "op_row list"
  op_next :: nat
  ticks :: nat
  sent :: "(string \<times> dict) list"
  keeper_state :: dict

type_synonym 'a prog = "world \<Rightarrow> 'a res \<times> world"

definition pret :: "'a \<Rightarrow> 'a prog" where
  "pret x w = (Inr x, w)"

definition plift :: "'a res \<Rightarrow> 'a prog" where
  "plift r w = (r, w)"

definition pbind :: "'a prog \<Rightarrow> ('a \<Rightarrow> 'b prog) \<Rightarrow> 'b prog" where
  "pbind m f w = (case m w of (Inl e, w') \<Rightarrow> (Inl e, w') | (Inr x, w') \<Rightarrow> f x w')"

definition pcatch :: "'a prog \<Rightarrow> (exn \<Rightarrow> 'a prog) \<Rightarrow> 'a prog" where
  "pcatch m h w = (case m w of (Inl e, w') \<Rightarrow> h e w' | (Inr x, w') \<Rightarrow> (Inr x, w'))"

fun peach :: "('a \<Rightarrow> unit prog) \<Rightarrow> 'a list \<Rightarrow> unit prog" where
  "peach f [] = pret ()"
| "peach f (x # xs) = pbind (f x) (\<lambda>_. peach f xs)"

definition next_tick :: "world \<Rightarrow> world" where
  "next_tick w = w\<lparr> ticks := Suc (ticks w) \<rparr>"

definition time_now :: "outside \<Rightarrow> rat prog" where
  "time_now E w = (Inr (clock E (ticks w)), next_tick w)"

definition unix_now :: "outside \<Rightarrow> int prog" where
  "unix_now E = pbind (time_now E) (\<lambda>t. pret (trunc t))"

text \<open>One access to the store: the statement, or the fail-soft value.\<close>

definition with_store :: "outside \<Rightarrow> 'a \<Rightarrow> 'a prog \<Rightarrow> 'a prog" where
  "with_store E failed act w = (if store_up E (ticks w) then act (next_tick w) else (Inr failed, next_tick w))"

definition query :: "(op_row list \<Rightarrow> 'a) \<Rightarrow> 'a prog" where
  "query q w = (Inr (q (ops w)), w)"

definition change_ops :: "(op_row list \<Rightarrow> op_row list) \<Rightarrow> unit prog" where
  "change_ops f w = (Inr (), w\<lparr> ops := f (ops w) \<rparr>)"

definition insert_row :: "(nat \<Rightarrow> op_row) \<Rightarrow> nat prog" where
  "insert_row r w = (Inr (op_next w), w\<lparr> ops := ops w @ [r (op_next w)], op_next := Suc (op_next w) \<rparr>)"

section \<open>The table\<close>

definition SPENT_OUTCOMES :: "string list" where
  "SPENT_OUTCOMES = [''pending'', ''fired'', ''effective'', ''ineffective'', ''unknown'']"

definition SETTLED_OUTCOMES :: "string list" where
  "SETTLED_OUTCOMES = [''effective'', ''ineffective'']"

definition TERMINAL_OUTCOMES :: "string list" where
  "TERMINAL_OUTCOMES = [''effective'', ''ineffective'', ''ok'', ''failed'', ''unknown'']"

definition ERROR_OUTCOMES :: "string list" where
  "ERROR_OUTCOMES = [''failed'', ''unknown'']"

definition wallet_op_begin ::
  "outside \<Rightarrow> string \<Rightarrow> string \<Rightarrow> pyfloat option \<Rightarrow> string option \<Rightarrow> pyfloat option \<Rightarrow> pyfloat option \<Rightarrow> nat option prog" where
  "wallet_op_begin E pid op amount reason available reserved =
     pbind (unix_now E) (\<lambda>now. with_store E None
       (pbind (insert_row (\<lambda>i. \<lparr> row_id = i, row_ts = now, row_pid = pid, row_op = op, amount_usdc = amount,
           row_reason = reason, pre_available = available, post_available = None, pre_reserved = reserved,
           post_reserved = None, outcome = ''pending'', row_detail = None, updated_at = now \<rparr>)) (\<lambda>i. pret (Some i))))"

definition close_row :: "nat \<Rightarrow> string \<Rightarrow> pyfloat option \<Rightarrow> string option \<Rightarrow> pyfloat option \<Rightarrow> int \<Rightarrow> op_row \<Rightarrow> op_row" where
  "close_row i result available detail reserved now r =
     (if row_id r = i then r\<lparr> outcome := result, post_available := available, post_reserved := reserved,
        row_detail := map_option (py_take 2000) detail, updated_at := now \<rparr> else r)"

definition wallet_op_finish ::
  "outside \<Rightarrow> nat \<Rightarrow> string \<Rightarrow> pyfloat option \<Rightarrow> string option \<Rightarrow> pyfloat option \<Rightarrow> bool prog" where
  "wallet_op_finish E i result available detail reserved = with_store E False
     (pbind (unix_now E) (\<lambda>now.
      pbind (change_ops (map (close_row i result available detail reserved now))) (\<lambda>_. pret True)))"

definition bounded_limit :: "int \<Rightarrow> int \<Rightarrow> nat" where
  "bounded_limit high limit = nat (max 1 (min limit high))"

definition newest :: "nat \<Rightarrow> (op_row \<Rightarrow> bool) \<Rightarrow> op_row list \<Rightarrow> op_row list" where
  "newest n P rows = take n (rev (filter P rows))"

definition wallet_ops_recent :: "outside \<Rightarrow> string option \<Rightarrow> int \<Rightarrow> op_row list prog" where
  "wallet_ops_recent E pid limit = with_store E []
     (query (newest (bounded_limit 1000 limit) (\<lambda>r. case pid of None \<Rightarrow> True | Some p \<Rightarrow> row_pid r = p)))"

definition wallet_ops_open :: "outside \<Rightarrow> string \<Rightarrow> string option \<Rightarrow> op_row list prog" where
  "wallet_ops_open E pid op = with_store E []
     (query (filter (\<lambda>r. row_pid r = pid \<and> outcome r \<in> {''pending'', ''fired''}
        \<and> (case op of None \<Rightarrow> True | Some k \<Rightarrow> row_op r = k))))"

record spend =
  spent_usdc :: pyfloat
  last_spent :: "int option"
  spend_count :: int

text \<open>The sum of a double precision column adds in id order; rows without an amount do not count.\<close>

definition sql_sum :: "pyfloat option list \<Rightarrow> pyfloat" where
  "sql_sum vs = foldl f_add (Fin 0) (List.map_filter (\<lambda>v. v) vs)"

definition max_ts :: "op_row list \<Rightarrow> int option" where
  "max_ts rows = (if rows = [] then None else Some (Max (set (map row_ts rows))))"

definition counts_spent :: "string \<Rightarrow> string \<Rightarrow> int \<Rightarrow> op_row \<Rightarrow> bool" where
  "counts_spent pid op since r \<longleftrightarrow> row_pid r = pid \<and> row_op r = op \<and> since \<le> row_ts r \<and> outcome r \<in> set SPENT_OUTCOMES"

definition spend_of :: "op_row list \<Rightarrow> spend" where
  "spend_of rows = \<lparr> spent_usdc = sql_sum (map amount_usdc rows), last_spent = max_ts rows, spend_count = int (length rows) \<rparr>"

definition wallet_op_spend_since :: "outside \<Rightarrow> string \<Rightarrow> string \<Rightarrow> int \<Rightarrow> spend prog" where
  "wallet_op_spend_since E pid op since =
     pbind (unix_now E) (\<lambda>now.
     with_store E \<lparr> spent_usdc = PInf, last_spent = Some now, spend_count = -1 \<rparr>
       (query (\<lambda>rows. spend_of (filter (counts_spent pid op since) rows))))"

definition wallet_ops_settled :: "outside \<Rightarrow> string \<Rightarrow> string \<Rightarrow> int \<Rightarrow> op_row list prog" where
  "wallet_ops_settled E pid op limit = with_store E []
     (query (newest (bounded_limit 100 limit) (\<lambda>r. row_pid r = pid \<and> row_op r = op \<and> outcome r \<in> set SETTLED_OUTCOMES)))"

definition wallet_ops_terminal :: "outside \<Rightarrow> string \<Rightarrow> string \<Rightarrow> int \<Rightarrow> op_row list prog" where
  "wallet_ops_terminal E pid op limit = with_store E []
     (query (newest (bounded_limit 100 limit) (\<lambda>r. row_pid r = pid \<and> row_op r = op \<and> outcome r \<in> set TERMINAL_OUTCOMES)))"

definition wallet_ops_last_ts :: "outside \<Rightarrow> string \<Rightarrow> string list \<Rightarrow> int option prog" where
  "wallet_ops_last_ts E pid kinds =
     pbind (unix_now E) (\<lambda>now. with_store E (Some now)
       (query (\<lambda>rows. max_ts (filter (\<lambda>r. row_pid r = pid \<and> row_op r \<in> set kinds \<and> outcome r \<noteq> ''halted'') rows))))"

section \<open>Halts\<close>

definition halt_op :: "string \<Rightarrow> string" where
  "halt_op kind = ''halt:'' @ kind"

definition is_halt :: "string \<Rightarrow> string \<Rightarrow> op_row \<Rightarrow> bool" where
  "is_halt pid kind r \<longleftrightarrow> row_pid r = pid \<and> row_op r = halt_op kind \<and> outcome r = ''halted''"

definition halted_in :: "string \<Rightarrow> string \<Rightarrow> op_row list \<Rightarrow> bool" where
  "halted_in pid kind rows \<longleftrightarrow> list_ex (is_halt pid kind) rows"

definition wallet_halt :: "outside \<Rightarrow> string \<Rightarrow> string \<Rightarrow> string \<Rightarrow> bool prog" where
  "wallet_halt E pid kind reason =
     pbind (unix_now E) (\<lambda>now. with_store E False
       (pbind (query (halted_in pid kind)) (\<lambda>there.
        if there then pret True
        else pbind (insert_row (\<lambda>i. \<lparr> row_id = i, row_ts = now, row_pid = pid, row_op = halt_op kind, amount_usdc = None,
            row_reason = Some (py_take 2000 reason), pre_available = None, post_available = None, pre_reserved = None,
            post_reserved = None, outcome = ''halted'', row_detail = None, updated_at = now \<rparr>)) (\<lambda>_. pret True))))"

definition wallet_halted :: "outside \<Rightarrow> string \<Rightarrow> string \<Rightarrow> bool prog" where
  "wallet_halted E pid kind = with_store E True (query (halted_in pid kind))"

definition wallet_clear_halt :: "outside \<Rightarrow> string \<Rightarrow> string \<Rightarrow> bool prog" where
  "wallet_clear_halt E pid kind = with_store E False
     (pbind (change_ops (filter (\<lambda>r. \<not> is_halt pid kind r))) (\<lambda>_. pret True))"

section \<open>Other tables the keeper reads\<close>

definition buyer_status :: "outside \<Rightarrow> string \<Rightarrow> dict option prog" where
  "buyer_status E pid = with_store E None (\<lambda>w. (Inr (status_row E (ticks w) pid), w))"

text \<open>The counts \<open>(ok, failed, total)\<close> of the attempts since a cutoff.\<close>

definition provider_attempt_counts :: "outside \<Rightarrow> string \<Rightarrow> int \<Rightarrow> (int \<times> int \<times> int) prog" where
  "provider_attempt_counts E pid window =
     pbind (time_now E) (\<lambda>now. with_store E (-1, -1, -1)
       (\<lambda>w. case observed E (ticks w) pid (trunc (fl (now * 1000)) - max 0 window) of
          (good, all1) \<Rightarrow> (Inr (good, all1 - good, all1), w)))"

end
