(* ===== verification/WalletKeeper.thy ===== *)
theory WalletKeeper
  imports WalletLedger
begin

text \<open>
  \<open>wallet_keeper.py\<close>: the loop that moves USDC between the hot wallet, the AntSeed escrow and its payment
  channels. Each method is a program over the world of \<open>WalletLedger\<close>; every control request it makes is
  recorded in \<open>sent\<close>. Log lines are not modelled.
\<close>

section \<open>Numbers and texts\<close>

text \<open>\<open>as_float\<close> of \<open>sources/antseed.py\<close>: a finite float, or none.\<close>

definition as_float :: "jval \<Rightarrow> pyfloat option res" where
  "as_float v = (if v = JNull then Inr None else case float_of v of
       Inl (TypeError _) \<Rightarrow> Inr None
     | Inl (ValueError _) \<Rightarrow> Inr None
     | Inl e \<Rightarrow> Inl e
     | Inr f \<Rightarrow> Inr (if f_finite f then Some f else None))"

definition ftext :: "pyfloat \<Rightarrow> string" where
  "ftext f = py_repr (JFloat f)"

text \<open>\<open>f"{x:.nf}"\<close>.\<close>

definition fixed :: "nat \<Rightarrow> pyfloat \<Rightarrow> string" where
  "fixed n f = (case f of
     Fin x \<Rightarrow> (let d = nat (round_even (\<bar>x\<bar> * 10 ^ n)); frac = nat_str (d mod 10 ^ n) in
        (if x < 0 then ''-'' else []) @ nat_str (d div 10 ^ n)
          @ (if n = 0 then [] else ''.'' @ replicate (n - length frac) (CHR ''0'') @ frac))
   | PInf \<Rightarrow> ''inf'' | NInf \<Rightarrow> ''-inf'' | NaN \<Rightarrow> ''nan'')"

definition em_dash :: string where
  "em_dash = [CHR 0xE2, CHR 0x80, CHR 0x94]"

section \<open>Limits\<close>

definition SETTLE_AFTER_S :: int where "SETTLE_AFTER_S = 90"
definition STATUS_MAX_AGE_S :: rat where "STATUS_MAX_AGE_S = 900"
definition CLOCK_SKEW_ALLOWANCE_S :: rat where "CLOCK_SKEW_ALLOWANCE_S = 120"
definition CHAIN_READ_MAX_AGE_S :: rat where "CHAIN_READ_MAX_AGE_S = 900"
definition MAX_TOPUP_USDC :: pyfloat where "MAX_TOPUP_USDC = Fin 50"
definition MIN_TOPUP_USDC :: pyfloat where "MIN_TOPUP_USDC = Fin (fl (1/100))"
definition GAS_FLOOR_ETH :: pyfloat where "GAS_FLOOR_ETH = Fin (fl (5/10000))"
definition MAX_TX_PER_CYCLE :: nat where "MAX_TX_PER_CYCLE = 8"
definition MIN_CHANNEL_RECLAIMABLE :: rat where "MIN_CHANNEL_RECLAIMABLE = fl (5/100)"
definition NO_SUCCESS_WINDOW_S :: int where "NO_SUCCESS_WINDOW_S = 3600"
definition PUMP_EFFECTIVE_FRACTION :: pyfloat where "PUMP_EFFECTIVE_FRACTION = Fin (fl (8/10))"
definition PUMP_STRIKES_TO_HALT :: int where "PUMP_STRIKES_TO_HALT = 2"
definition WEDGE_MIN_ATTEMPTS :: int where "WEDGE_MIN_ATTEMPTS = 10"
definition TOPUP_ERROR_STRIKES_TO_HALT :: int where "TOPUP_ERROR_STRIKES_TO_HALT = 3"
definition TOPUP_BACKOFF_BASE_S :: int where "TOPUP_BACKOFF_BASE_S = 300"
definition TOPUP_BACKOFF_CAP_S :: int where "TOPUP_BACKOFF_CAP_S = 3600"
definition RECLAIM_COOLDOWN_S :: int where "RECLAIM_COOLDOWN_S = 900"
definition RECLAIM_ERROR_STRIKES_TO_HALT :: int where "RECLAIM_ERROR_STRIKES_TO_HALT = 3"
definition RATCHET_RESERVED_RATIO :: pyfloat where "RATCHET_RESERVED_RATIO = Fin 2"

definition NOT_ATTEMPTED_STATUSES :: "int list" where
  "NOT_ATTEMPTED_STATUSES = [400, 401, 404, 405, 429]"

definition ALLOWED_CONTROL_OPS :: "string list" where
  "ALLOWED_CONTROL_OPS = [''deposit'', ''reclaim/scan'', ''reclaim/set-operator'', ''reclaim/request-close'', ''reclaim/withdraw'']"

definition FORBIDDEN_CONTROL_OPS :: "string list" where
  "FORBIDDEN_CONTROL_OPS = [''withdraw'', ''buyer/withdraw'', ''/withdraw'']"

definition RECLAIM_OPS :: "string list" where
  "RECLAIM_OPS = [''reclaim_set_operator'', ''reclaim_request_close'', ''reclaim_withdraw'']"

section \<open>Knobs\<close>

record knobs =
  k_enabled :: bool
  k_min_available :: pyfloat
  k_trigger :: pyfloat
  k_amount :: pyfloat
  k_wallet_floor :: pyfloat
  k_daily_cap :: pyfloat
  k_cooldown :: int
  k_reclaim_min :: pyfloat

definition read_knob :: "outside \<Rightarrow> string \<Rightarrow> jval prog" where
  "read_knob E name w = (knob E (ticks w) (''antseed.'' @ name), next_tick w)"

definition float_knob :: "outside \<Rightarrow> string \<Rightarrow> pyfloat prog" where
  "float_knob E name = pbind (read_knob E name) (\<lambda>v. plift (float_of v))"

definition int_knob :: "outside \<Rightarrow> string \<Rightarrow> int prog" where
  "int_knob E name = pbind (read_knob E name) (\<lambda>v. plift (int_of v))"

definition knob_error :: "string \<Rightarrow> exn" where
  "knob_error m = OtherExc ''KnobError'' m"

definition check_knobs :: "knobs \<Rightarrow> knobs res" where
  "check_knobs k =
     (if f_le (k_trigger k) (k_min_available k) then Inl (knob_error (''antseed.topup_trigger_usdc ('' @ ftext (k_trigger k)
        @ '') must be ABOVE antseed.min_available_usdc ('' @ ftext (k_min_available k)
        @ ''): funding has to react before the offer tourniquet suppresses the provider''))
      else if f_lt (k_daily_cap k) (k_amount k) then Inl (knob_error (''antseed.topup_amount_usdc ('' @ ftext (k_amount k)
        @ '') exceeds antseed.topup_daily_cap_usdc ('' @ ftext (k_daily_cap k)
        @ ''): every top-up would be rejected by its own cap''))
      else if f_lt MAX_TOPUP_USDC (k_amount k) then Inl (knob_error (''antseed.topup_amount_usdc ('' @ ftext (k_amount k)
        @ '') exceeds the hard per-deposit limit ('' @ ftext MAX_TOPUP_USDC @ '' USDC)''))
      else Inr k)"

definition load_knobs :: "outside \<Rightarrow> knobs prog" where
  "load_knobs E =
     pbind (int_knob E ''keeper_enabled'') (\<lambda>en.
     pbind (float_knob E ''min_available_usdc'') (\<lambda>low.
     pbind (float_knob E ''topup_trigger_usdc'') (\<lambda>trigger.
     pbind (float_knob E ''topup_amount_usdc'') (\<lambda>amount.
     pbind (float_knob E ''topup_wallet_floor_usdc'') (\<lambda>wfloor.
     pbind (float_knob E ''topup_daily_cap_usdc'') (\<lambda>cap.
     pbind (int_knob E ''topup_cooldown_s'') (\<lambda>cooldown.
     pbind (float_knob E ''reclaim_min_usdc'') (\<lambda>rmin.
       plift (check_knobs \<lparr> k_enabled = en \<noteq> 0, k_min_available = low, k_trigger = trigger, k_amount = amount,
         k_wallet_floor = wfloor, k_daily_cap = cap, k_cooldown = cooldown, k_reclaim_min = rmin \<rparr>)))))))))"

definition is_antseed :: "jval \<Rightarrow> bool" where
  "is_antseed p \<longleftrightarrow> is_obj p \<and> py_eq (dget (obj_of p) ''discovery'') (JStr ''marketplace'')
     \<and> prefix_of ''antseed'' (py_str (dget_or (obj_of p) ''discovery_id'' (JStr [])))"

definition antseed_provider_ids :: "dict \<Rightarrow> string list" where
  "antseed_provider_ids catalog = map fst (filter (\<lambda>kv. is_antseed (snd kv)) (obj_of (py_or (dget catalog ''providers'') (JObj []))))"

section \<open>The control plane\<close>

fun strip_slashes :: "string \<Rightarrow> string" where
  "strip_slashes s = rev (dropWhile (\<lambda>c. c = CHR ''/'') (rev s))"

definition control_endpoint :: "outside \<Rightarrow> (string \<times> string) option" where
  "control_endpoint E = (let url = strip_slashes (control_url E); token = control_token E in
     if url \<noteq> [] \<and> token \<noteq> [] then Some (url, token) else None)"

definition refused :: "bool \<Rightarrow> string \<Rightarrow> dict" where
  "refused attempted message = [(''ok'', JBool False), (''attempted'', JBool attempted), (''error'', JStr message)]"

definition cancelled :: exn where
  "cancelled = OtherExc ''CancelledError'' []"

definition read_reply :: "int \<Rightarrow> jval option \<Rightarrow> string \<Rightarrow> dict" where
  "read_reply code body content =
     (let value = (case body of None \<Rightarrow> JNull | Some v \<Rightarrow> py_or v (JObj [])); parsed = is_obj value; payload = obj_of value in
      if code \<noteq> 200 then
        [(''ok'', JBool False),
         (''attempted'', (case (if parsed then dget payload ''attempted'' else JNull) of
            JBool b \<Rightarrow> JBool b | _ \<Rightarrow> JBool (code \<notin> set NOT_ATTEMPTED_STATUSES))),
         (''status'', JInt code),
         (''error'', JStr (if parsed \<and> truthy (dget payload ''error'') then py_str (dget payload ''error'') else py_take 300 content))]
      else if \<not> parsed then refused True (''control returned 200 with an unreadable body: '' @ py_take 300 content)
      else (let d = (if has_key payload ''ok'' then payload else dset ''ok'' (JBool True) payload) in
            if has_key d ''attempted'' then d else dset ''attempted'' (JBool True) d))"

definition control_post :: "outside \<Rightarrow> string \<Rightarrow> dict \<Rightarrow> dict prog" where
  "control_post E op body = (case control_endpoint E of
     None \<Rightarrow> pret (refused False ''wallet control not configured'')
   | Some _ \<Rightarrow> (\<lambda>w. let w' = next_tick w; w'' = w'\<lparr> sent := sent w' @ [(op, body)] \<rparr> in
       case reply E (ticks w) of
         Misbuilt m \<Rightarrow> (Inr (refused False (''control endpoint misconfigured: '' @ m)), w')
       | NoReply t m \<Rightarrow> (Inr (refused True (''control unreachable ('' @ t @ ''): '' @ m)), w'')
       | Cancelled \<Rightarrow> (Inl cancelled, w'')
       | Replied code v content \<Rightarrow> (Inr (read_reply code v content), w'')))"

definition control :: "outside \<Rightarrow> string \<Rightarrow> dict \<Rightarrow> dict prog" where
  "control E op body =
     (if op \<in> set FORBIDDEN_CONTROL_OPS then plift (Inl (ValueError (''wallet keeper refuses to automate '' @ str_repr op
        @ '': escrow->wallet withdrawal is human-initiated only'')))
      else if op \<notin> set ALLOWED_CONTROL_OPS then plift (Inl (ValueError (''wallet keeper: '' @ str_repr op @ '' is not an allowlisted verb'')))
      else control_post E op body)"

definition outcome_for :: "dict \<Rightarrow> string" where
  "outcome_for resp = (if truthy (dget resp ''ok'') then ''fired''
     else if dget resp ''attempted'' = JBool False then ''failed'' else ''unknown'')"

section \<open>Readings that can only block\<close>

definition chain_row_now :: "outside \<Rightarrow> string \<Rightarrow> dict prog" where
  "chain_row_now E pid w = (Inr (chain_row E (ticks w) pid), next_tick w)"

fun is_number :: "jval \<Rightarrow> bool" where
  "is_number (JInt _) = True"
| "is_number (JFloat _) = True"
| "is_number _ = False"

definition chain_view :: "outside \<Rightarrow> string \<Rightarrow> jval prog" where
  "chain_view E pid =
     pbind (chain_row_now E pid) (\<lambda>bal. let stamped = dget bal ''fetched_at'' in
     if \<not> is_number stamped then pret (JObj [])
     else pbind (time_now E) (\<lambda>now. pbind (plift (float_of stamped)) (\<lambda>f.
       pret (if f_lt (Fin CHAIN_READ_MAX_AGE_S) (f_sub (Fin now) f) then JObj []
             else py_or (dget bal ''detail'') (JObj [])))))"

section \<open>Strikes\<close>

definition consecutive :: "op_row list \<Rightarrow> string list \<Rightarrow> int" where
  "consecutive rows outcomes = int (length (takeWhile (\<lambda>r. outcome r \<in> set outcomes) rows))"

definition error_strikes :: "outside \<Rightarrow> string \<Rightarrow> string \<Rightarrow> int \<Rightarrow> int prog" where
  "error_strikes E pid op limit = pbind (wallet_ops_terminal E pid op limit) (\<lambda>rows. pret (consecutive rows ERROR_OUTCOMES))"

definition last_touch :: "op_row \<Rightarrow> int" where
  "last_touch r = (if updated_at r \<noteq> 0 then updated_at r else row_ts r)"

section \<open>Settling deposits\<close>

definition orphan_detail :: string where
  "orphan_detail = ''reconciled: keeper restarted before the outcome was known''"

definition reconcile_orphans :: "outside \<Rightarrow> string \<Rightarrow> unit prog" where
  "reconcile_orphans E pid =
     pbind (wallet_ops_open E pid None) (peach (\<lambda>r.
       if row_op r = ''topup'' \<or> outcome r \<noteq> ''pending'' then pret ()
       else pbind (wallet_op_finish E (row_id r) ''unknown'' None (Some orphan_detail) None) (\<lambda>_. pret ())))"

definition gained_since :: "op_row \<Rightarrow> pyfloat \<Rightarrow> pyfloat \<Rightarrow> pyfloat option \<Rightarrow> pyfloat \<times> string" where
  "gained_since r pre available reserved = (case (pre_reserved r, reserved) of
     (Some pr, Some now_reserved) \<Rightarrow>
       (f_sub (f_add available now_reserved) (f_add pre pr),
        ''escrow '' @ fixed 6 (f_add pre pr) @ '' -> '' @ fixed 6 (f_add available now_reserved))
   | _ \<Rightarrow> (f_sub available pre, ''available '' @ ftext pre @ '' -> '' @ ftext available @ '' (no reserved reading)''))"

definition is_effective :: "pyfloat \<Rightarrow> pyfloat \<Rightarrow> bool" where
  "is_effective gained amount = f_le (f_mul PUMP_EFFECTIVE_FRACTION amount) gained"

definition settle_row :: "outside \<Rightarrow> int \<Rightarrow> pyfloat \<Rightarrow> pyfloat option \<Rightarrow> op_row \<Rightarrow> unit prog" where
  "settle_row E now available reserved r =
     (let close = (\<lambda>result detail.
        pbind (wallet_op_finish E (row_id r) result (Some available) (Some detail) reserved) (\<lambda>_. pret ())) in
      if outcome r = ''pending'' then close ''unknown'' orphan_detail
      else if now - last_touch r < SETTLE_AFTER_S then pret ()
      else (case (pre_available r, amount_usdc r) of
          (Some pre, Some amount) \<Rightarrow>
            if f_eq amount (Fin 0) then close ''unknown'' ''no pre-deposit reading to compare''
            else (case gained_since r pre available reserved of (gained, basis) \<Rightarrow>
              close (if is_effective gained amount then ''effective'' else ''ineffective'')
                (basis @ '' (+'' @ fixed 6 gained @ '') for a '' @ ftext amount @ '' USDC deposit''))
        | _ \<Rightarrow> close ''unknown'' ''no pre-deposit reading to compare''))"

definition halt_topups :: "outside \<Rightarrow> string \<Rightarrow> string \<Rightarrow> string \<Rightarrow> string prog" where
  "halt_topups E pid decision why =
     pbind (wallet_halt E pid ''topup'' (why @ '' '' @ em_dash @ '' funding halted pending operator review'')) (\<lambda>_. pret decision)"

definition pump_halted :: "op_row list \<Rightarrow> bool" where
  "pump_halted settled \<longleftrightarrow> PUMP_STRIKES_TO_HALT \<le> int (length settled) \<and> list_all (\<lambda>r. outcome r = ''ineffective'') settled"

definition error_why :: "op_row list \<Rightarrow> int \<Rightarrow> string" where
  "error_why rows strikes =
     (let unresolved = length (filter (\<lambda>r. outcome r = ''unknown'') (take (nat strikes) rows)) in
      int_str strikes @ '' consecutive deposits could not be completed''
      @ (if unresolved \<noteq> 0 then '', '' @ nat_str unresolved @ '' of which may have moved USDC''
         else '' '' @ em_dash @ '' none of them could have broadcast a transaction, so this is a configuration fault, not a chain one''))"

text \<open>The two breakers, from the ledger alone.\<close>

definition check_breakers :: "outside \<Rightarrow> string \<Rightarrow> string option prog" where
  "check_breakers E pid =
     pbind (wallet_ops_settled E pid ''topup'' PUMP_STRIKES_TO_HALT) (\<lambda>settled.
     if pump_halted settled then
       pbind (halt_topups E pid ''pump_halt'' (int_str PUMP_STRIKES_TO_HALT
         @ '' consecutive deposits failed to lift the escrow by 80% of the amount'')) (\<lambda>d. pret (Some d))
     else pbind (wallet_ops_terminal E pid ''topup'' TOPUP_ERROR_STRIKES_TO_HALT) (\<lambda>rows.
       let strikes = consecutive rows ERROR_OUTCOMES in
       if TOPUP_ERROR_STRIKES_TO_HALT \<le> strikes then
         pbind (halt_topups E pid ''error_halt'' (error_why rows strikes)) (\<lambda>d. pret (Some d))
       else pret None))"

definition settle_topups :: "outside \<Rightarrow> string \<Rightarrow> pyfloat \<Rightarrow> pyfloat option \<Rightarrow> string option prog" where
  "settle_topups E pid available reserved =
     pbind (unix_now E) (\<lambda>now.
     pbind (wallet_ops_open E pid (Some ''topup'')) (\<lambda>rows.
     pbind (peach (settle_row E now available reserved) rows) (\<lambda>_. check_breakers E pid)))"

section \<open>Reclaim\<close>

definition wedged :: "outside \<Rightarrow> string \<Rightarrow> knobs \<Rightarrow> pyfloat \<Rightarrow> bool prog" where
  "wedged E pid k available =
     (if f_lt available (k_min_available k) then pret True
      else pbind (provider_attempt_counts E pid (NO_SUCCESS_WINDOW_S * 1000)) (\<lambda>(good, _, all1).
        pret (WEDGE_MIN_ATTEMPTS \<le> all1 \<and> good = 0)))"

definition last_reclaim_ts :: "outside \<Rightarrow> string \<Rightarrow> int option prog" where
  "last_reclaim_ts E pid = wallet_ops_last_ts E pid RECLAIM_OPS"

definition id_char :: "char \<Rightarrow> bool" where
  "id_char c = (let n = of_char c :: nat in 48 \<le> n \<and> n \<le> 57 \<or> 65 \<le> n \<and> n \<le> 90 \<or> 97 \<le> n \<and> n \<le> 122)"

text \<open>\<open>CHANNEL_ID_RE.match\<close>: the \<open>$\<close> of Python also matches before a final newline.\<close>

definition channel_id_ok :: "string \<Rightarrow> bool" where
  "channel_id_ok s = (let t = (if s \<noteq> [] \<and> last s = CHR 0x0A then butlast s else s) in
     t \<noteq> [] \<and> id_char (hd t) \<and> length t \<le> 128 \<and> list_all (\<lambda>c. id_char c \<or> c \<in> set ''_.:-'') (tl t))"

definition channel_ids :: "dict list \<Rightarrow> string list" where
  "channel_ids batch = map (\<lambda>c. py_str (dget c ''id''))
     (filter (\<lambda>c. truthy (dget c ''id'') \<and> channel_id_ok (py_str (dget c ''id''))) batch)"

definition reclaimable :: "dict \<Rightarrow> rat res" where
  "reclaimable c = rbind (as_float (dget c ''reclaimable'')) (\<lambda>f. Inr (case f of Some (Fin x) \<Rightarrow> x | _ \<Rightarrow> 0))"

definition reclaim_value :: "dict \<Rightarrow> rat" where
  "reclaim_value c = (case reclaimable c of Inl _ \<Rightarrow> 0 | Inr x \<Rightarrow> x)"

fun rfilter :: "('a \<Rightarrow> bool res) \<Rightarrow> 'a list \<Rightarrow> 'a list res" where
  "rfilter f [] = Inr []"
| "rfilter f (x # xs) = rbind (f x) (\<lambda>b. rbind (rfilter f xs) (\<lambda>ys. Inr (if b then x # ys else ys)))"

definition eligible :: "bool \<Rightarrow> dict \<Rightarrow> bool res" where
  "eligible requested c = (if truthy (dget c ''closeRequested'') \<noteq> requested then Inr False
     else rbind (reclaimable c) (\<lambda>x. Inr (MIN_CHANNEL_RECLAIMABLE \<le> x)))"

text \<open>A call that ends in an exception closes its row as unknown before the exception goes on.\<close>

definition guarded :: "outside \<Rightarrow> nat \<Rightarrow> dict prog \<Rightarrow> dict prog" where
  "guarded E i call = pcatch call (\<lambda>e.
     pbind (wallet_op_finish E i ''unknown'' None
       (Some (if e = cancelled then ''cancelled before the outcome was known'' else exn_type e @ '': '' @ exn_str e)) None)
     (\<lambda>_. plift (Inl e)))"

definition selection_honoured :: "dict \<Rightarrow> string list \<Rightarrow> bool" where
  "selection_honoured resp ids = (case dget resp ''selected'' of
     JList xs \<Rightarrow> set (map py_str xs) = set ids | _ \<Rightarrow> False)"

definition after_failure :: "outside \<Rightarrow> string \<Rightarrow> string \<Rightarrow> string prog" where
  "after_failure E pid op =
     pbind (error_strikes E pid op RECLAIM_ERROR_STRIKES_TO_HALT) (\<lambda>strikes.
     pbind (if RECLAIM_ERROR_STRIKES_TO_HALT \<le> strikes
            then wallet_halt E pid ''reclaim'' (int_str strikes @ '' consecutive '' @ op
              @ '' phases could not be completed or confirmed '' @ em_dash @ '' reclaim halted pending operator review'')
            else pret False) (\<lambda>_. pret (op @ ''_failed'')))"

definition unbounded_reason :: "string \<Rightarrow> string list \<Rightarrow> jval \<Rightarrow> string" where
  "unbounded_reason op ids echoed = op @ '' did NOT honour the channel selection (sent '' @ nat_str (length ids)
     @ '', echoed '' @ py_repr echoed @ '') '' @ em_dash
     @ '' the sidecar may have acted on every eligible channel; reclaim halted pending operator review''"

definition fire_reclaim_phase ::
  "outside \<Rightarrow> string \<Rightarrow> string \<Rightarrow> string \<Rightarrow> string \<Rightarrow> pyfloat \<Rightarrow> pyfloat option \<Rightarrow> string list option \<Rightarrow> string prog" where
  "fire_reclaim_phase E pid phase op reason available reserved ids =
     (if ids = Some [] then pret ''empty_selection''
      else pbind (wallet_op_begin E pid op None (Some reason) (Some available) reserved) (\<lambda>begun. case begun of
        None \<Rightarrow> pret ''ledger_unavailable''
      | Some i \<Rightarrow>
          pbind (guarded E i (control E phase (case ids of None \<Rightarrow> [] | Some l \<Rightarrow> [(''ids'', JList (map JStr l))]))) (\<lambda>resp.
          let result = outcome_for resp; fired = (result = ''fired'') in
          pbind (wallet_op_finish E i (if fired then ''ok'' else result) None
            (Some (if fired then py_str (JObj resp) else py_str (dget resp ''error''))) None) (\<lambda>_.
          if fired \<and> (case ids of None \<Rightarrow> False | Some l \<Rightarrow> \<not> selection_honoured resp l)
          then pbind (wallet_halt E pid ''reclaim'' (unbounded_reason op (case ids of None \<Rightarrow> [] | Some l \<Rightarrow> l) (dget resp ''selected'')))
                 (\<lambda>_. pret (op @ ''_unbounded''))
          else if \<not> fired then after_failure E pid op
          else pret op))))"

definition fire_batch ::
  "outside \<Rightarrow> string \<Rightarrow> string \<Rightarrow> string \<Rightarrow> string \<Rightarrow> pyfloat \<Rightarrow> pyfloat option \<Rightarrow> nat \<Rightarrow> dict list \<Rightarrow> string prog" where
  "fire_batch E pid phase op why available reserved count batch =
     (let ids = channel_ids (sort_key (\<lambda>c. - reclaim_value c) batch); capped = take MAX_TX_PER_CYCLE ids in
      if length ids \<noteq> length batch then pret ''scan_malformed''
      else fire_reclaim_phase E pid phase op
        (why @ '' ('' @ nat_str (length capped) @ '' of '' @ nat_str count @ '' channels)'') available reserved (Some capped))"

definition dicts_in :: "jval list \<Rightarrow> dict list" where
  "dicts_in vs = map obj_of (filter is_obj vs)"

definition reclaim_channels :: "outside \<Rightarrow> string \<Rightarrow> pyfloat \<Rightarrow> pyfloat option \<Rightarrow> dict \<Rightarrow> string prog" where
  "reclaim_channels E pid available reserved scan =
     pbind (plift (py_iter (py_or (dget scan ''channels'') (JList [])))) (\<lambda>vs. let channels = dicts_in vs in
     pbind (plift (rfilter (eligible True) channels)) (\<lambda>withdrawable.
     pbind (plift (rfilter (eligible False) channels)) (\<lambda>closable.
     if withdrawable \<noteq> [] then fire_batch E pid ''reclaim/withdraw'' ''reclaim_withdraw''
       ''challenge window elapsed'' available reserved (length channels) withdrawable
     else if closable \<noteq> [] then fire_batch E pid ''reclaim/request-close'' ''reclaim_request_close''
       ''start the challenge window on idle channels'' available reserved (length channels) closable
     else pret ''no_eligible_channels'')))"

definition ratcheted :: "knobs \<Rightarrow> pyfloat \<Rightarrow> pyfloat option \<Rightarrow> bool" where
  "ratcheted k available reserved = (case reserved of None \<Rightarrow> False
     | Some r \<Rightarrow> f_le (f_mul RATCHET_RESERVED_RATIO (if f_lt available (k_trigger k) then k_trigger k else available)) r)"

definition above_minimum :: "knobs \<Rightarrow> pyfloat option \<Rightarrow> bool" where
  "above_minimum k reserved = (case reserved of None \<Rightarrow> False | Some r \<Rightarrow> \<not> f_le r (k_reclaim_min k))"

definition scan_and_reclaim :: "outside \<Rightarrow> string \<Rightarrow> pyfloat \<Rightarrow> pyfloat option \<Rightarrow> string prog" where
  "scan_and_reclaim E pid available reserved =
     pbind (control E ''reclaim/scan'' []) (\<lambda>scan.
     if \<not> truthy (dget scan ''ok'') then pret ''scan_failed''
     else pbind (unix_now E) (\<lambda>now. pbind (last_reclaim_ts E pid) (\<lambda>fired_at.
       if (case fired_at of None \<Rightarrow> False | Some t \<Rightarrow> now - t < RECLAIM_COOLDOWN_S) then pret ''cooldown''
       else if \<not> truthy (dget scan ''operatorIsSelf'') then
         fire_reclaim_phase E pid ''reclaim/set-operator'' ''reclaim_set_operator''
           ''bootstrap: buyer is not its own deposits operator'' available reserved None
       else reclaim_channels E pid available reserved scan)))"

definition maybe_reclaim :: "outside \<Rightarrow> string \<Rightarrow> knobs \<Rightarrow> pyfloat \<Rightarrow> pyfloat option \<Rightarrow> string prog" where
  "maybe_reclaim E pid k available reserved =
     pbind (wallet_halted E pid ''reclaim'') (\<lambda>halted.
     if halted then pret ''halted''
     else if \<not> f_lt available (k_trigger k) \<and> \<not> ratcheted k available reserved then pret ''not_short''
     else if \<not> above_minimum k reserved then pret ''nothing_reserved''
     else pbind (wedged E pid k available) (\<lambda>stuck.
       if \<not> stuck then pret ''not_wedged''
       else pbind (chain_view E pid) (\<lambda>view. pbind (plift (rbind (vget view ''wallet_eth'') as_float)) (\<lambda>eth.
         if (case eth of None \<Rightarrow> False | Some x \<Rightarrow> f_lt x GAS_FLOOR_ETH) then pret ''gas_floor''
         else scan_and_reclaim E pid available reserved))))"

section \<open>Top-up\<close>

definition backoff_s :: "knobs \<Rightarrow> int \<Rightarrow> int" where
  "backoff_s k strikes = min (max (k_cooldown k) TOPUP_BACKOFF_BASE_S * 2 ^ nat (strikes - 1)) TOPUP_BACKOFF_CAP_S"

definition topup_cooldown_s :: "outside \<Rightarrow> string \<Rightarrow> knobs \<Rightarrow> int prog" where
  "topup_cooldown_s E pid k = pbind (error_strikes E pid ''topup'' TOPUP_ERROR_STRIKES_TO_HALT) (\<lambda>strikes.
     pret (if strikes = 0 then k_cooldown k else backoff_s k strikes))"

definition retry_gate :: "outside \<Rightarrow> string \<Rightarrow> knobs \<Rightarrow> spend \<Rightarrow> string option prog" where
  "retry_gate E pid k spent =
     pbind (unix_now E) (\<lambda>now.
     if (case last_spent spent of None \<Rightarrow> False | Some t \<Rightarrow> now - t < k_cooldown k) then pret (Some ''cooldown'')
     else pbind (wallet_ops_terminal E pid ''topup'' TOPUP_ERROR_STRIKES_TO_HALT) (\<lambda>rows.
       let strikes = consecutive rows ERROR_OUTCOMES in
       if strikes = 0 then pret None
       else pret (if now - last_touch (hd rows) < backoff_s k strikes then Some ''backoff'' else None)))"

definition attempts_per_cap :: "knobs \<Rightarrow> int res" where
  "attempts_per_cap k = rbind (f_div (k_daily_cap k) (k_amount k)) (\<lambda>q. rbind (int_of (JFloat q)) (\<lambda>n. Inr (max 1 n)))"

definition cap_reached :: "outside \<Rightarrow> string \<Rightarrow> knobs \<Rightarrow> spend \<Rightarrow> string prog" where
  "cap_reached E pid k spent =
     pbind (error_strikes E pid ''topup'' TOPUP_ERROR_STRIKES_TO_HALT) (\<lambda>strikes.
     pbind (plift (attempts_per_cap k)) (\<lambda>attempts.
     if min TOPUP_ERROR_STRIKES_TO_HALT attempts \<le> strikes then
       halt_topups E pid ''error_halt'' (int_str strikes @ '' consecutive deposits could not be completed and the ''
         @ ftext (k_daily_cap k) @ '' USDC daily cap can no longer admit another attempt ('' @ fixed 4 (spent_usdc spent)
         @ '' already consumed by deposits whose effect was never measured)'')
     else pret ''daily_cap''))"

definition topup_amount :: "knobs \<Rightarrow> pyfloat" where
  "topup_amount k = (if f_lt MAX_TOPUP_USDC (k_amount k) then MAX_TOPUP_USDC else k_amount k)"

definition fire_topup :: "outside \<Rightarrow> string \<Rightarrow> knobs \<Rightarrow> pyfloat \<Rightarrow> pyfloat option \<Rightarrow> string prog" where
  "fire_topup E pid k available reserved =
     (let amount = topup_amount k in
      pbind (wallet_op_begin E pid ''topup'' (Some amount)
          (Some (''deposits_available '' @ ftext available @ '' < trigger '' @ ftext (k_trigger k)))
          (Some available) reserved) (\<lambda>begun. case begun of
        None \<Rightarrow> pret ''ledger_unavailable''
      | Some i \<Rightarrow>
          pbind (guarded E i (control E ''deposit'' [(''amount'', JStr (fixed 6 amount))])) (\<lambda>resp.
          let result = outcome_for resp in
          if result = ''fired'' then
            pbind (wallet_op_finish E i ''fired'' None (Some (py_str (py_or (dget resp ''stdout'') (JStr [])))) None)
              (\<lambda>_. pret ''topup_fired'')
          else pbind (wallet_op_finish E i result None (Some (py_str (dget resp ''error''))) None)
            (\<lambda>_. pret (if result = ''unknown'' then ''topup_unknown'' else ''topup_failed'')))))"

definition maybe_topup :: "outside \<Rightarrow> string \<Rightarrow> knobs \<Rightarrow> pyfloat \<Rightarrow> pyfloat option \<Rightarrow> string prog" where
  "maybe_topup E pid k available reserved =
     (if f_le (k_trigger k) available then pret ''funded''
      else pbind (wallet_halted E pid ''topup'') (\<lambda>halted. if halted then pret ''halted''
      else pbind (unix_now E) (\<lambda>now.
      pbind (wallet_op_spend_since E pid ''topup'' (now - 86400)) (\<lambda>spent.
      pbind (retry_gate E pid k spent) (\<lambda>waiting. case waiting of
        Some reason \<Rightarrow> pret reason
      | None \<Rightarrow>
          if f_lt (k_daily_cap k) (f_add (spent_usdc spent) (k_amount k)) then cap_reached E pid k spent
          else if f_lt (topup_amount k) MIN_TOPUP_USDC then pret ''amount_too_small''
          else pbind (chain_view E pid) (\<lambda>view. pbind (plift (rbind (vget view ''wallet_usdc'') as_float)) (\<lambda>wallet.
            case wallet of
              None \<Rightarrow> pret ''wallet_unreadable''
            | Some usdc \<Rightarrow>
                if f_lt (f_sub usdc (topup_amount k)) (k_wallet_floor k) then pret ''wallet_floor''
                else fire_topup E pid k available reserved)))))))"

section \<open>One cycle\<close>

definition status_age_s :: "outside \<Rightarrow> dict \<Rightarrow> pyfloat option prog" where
  "status_age_s E status = (let raw = dget status ''fetched_at'' in
     if \<not> is_number raw then pret None
     else pbind (time_now E) (\<lambda>now. pbind (plift (rbind (float_of raw) (\<lambda>f. f_div f (Fin 1000)))) (\<lambda>t.
       let age = f_sub (Fin now) t in
       pret (if f_lt age (Fin (- CLOCK_SKEW_ALLOWANCE_S)) then None
             else Some (if f_lt (Fin 0) age then age else Fin 0)))))"

definition opt_float :: "pyfloat option \<Rightarrow> jval" where
  "opt_float v = (case v of None \<Rightarrow> JNull | Some f \<Rightarrow> JFloat f)"

definition stale :: "pyfloat option \<Rightarrow> bool" where
  "stale age = (case age of None \<Rightarrow> True | Some a \<Rightarrow> f_lt (Fin STATUS_MAX_AGE_S) a)"

definition act_on :: "outside \<Rightarrow> string \<Rightarrow> knobs \<Rightarrow> pyfloat \<Rightarrow> pyfloat option \<Rightarrow> dict prog" where
  "act_on E pid k available reserved =
     pbind (reconcile_orphans E pid) (\<lambda>_.
     pbind (settle_topups E pid available reserved) (\<lambda>halted.
     pbind (maybe_reclaim E pid k available reserved) (\<lambda>reclaimed.
     pbind (case halted of Some d \<Rightarrow> pret d | None \<Rightarrow> maybe_topup E pid k available reserved) (\<lambda>topped.
       pret [(''available'', JFloat available), (''reserved'', opt_float reserved), (''reclaim'', JStr reclaimed),
         (''topup'', JStr topped), (''decision'', JStr ''acted'')]))))"

definition cycle_provider :: "outside \<Rightarrow> string \<Rightarrow> knobs \<Rightarrow> dict prog" where
  "cycle_provider E pid k =
     pbind (buyer_status E pid) (\<lambda>row. let status = (case row of None \<Rightarrow> [] | Some d \<Rightarrow> d) in
     pbind (plift (as_float (dget status ''deposits_available''))) (\<lambda>avail.
     pbind (plift (as_float (dget status ''deposits_reserved''))) (\<lambda>reserved. case avail of
       None \<Rightarrow> pret [(''decision'', JStr ''status_unreadable'')]
     | Some available \<Rightarrow>
         pbind (status_age_s E status) (\<lambda>age.
           if stale age then pret [(''decision'', JStr ''status_stale''), (''age_s'', opt_float age)]
           else act_on E pid k available reserved))))"

definition report :: "dict \<Rightarrow> dict prog" where
  "report d w = (let s = dupd (keeper_state w) d in (Inr s, w\<lparr> keeper_state := s \<rparr>))"

text \<open>One provider's failure is its own: only a cancellation goes on.\<close>

definition isolated :: "outside \<Rightarrow> knobs \<Rightarrow> string \<Rightarrow> dict prog" where
  "isolated E k pid = pcatch (cycle_provider E pid k) (\<lambda>e. if e = cancelled then plift (Inl e)
     else pret [(''decision'', JStr ''error''), (''error'', JStr (exn_type e @ '': '' @ exn_str e))])"

fun cycle_all :: "outside \<Rightarrow> knobs \<Rightarrow> string list \<Rightarrow> dict \<Rightarrow> dict prog" where
  "cycle_all E k [] done1 = pret done1"
| "cycle_all E k (pid # pids) done1 = pbind (isolated E k pid) (\<lambda>r. cycle_all E k pids (dset pid (JObj r) done1))"

definition cycle_state :: "int \<Rightarrow> dict \<Rightarrow> jval \<Rightarrow> bool \<Rightarrow> dict" where
  "cycle_state now pids failure en =
     [(''last_cycle'', JInt now), (''providers'', JObj pids), (''error'', failure), (''enabled'', JBool en)]"

definition stood_down :: "exn \<Rightarrow> string" where
  "stood_down e = (if exn_type e = ''KnobError'' then exn_str e
     else ''knobs unreadable: '' @ exn_type e @ '': '' @ exn_str e)"

definition keeper_cycle :: "outside \<Rightarrow> string list \<Rightarrow> dict prog" where
  "keeper_cycle E pids =
     pbind (unix_now E) (\<lambda>now.
     pbind (pcatch (pbind (load_knobs E) (\<lambda>k. pret (Inr k))) (\<lambda>e. pret (Inl e))) (\<lambda>loaded. case loaded of
       Inl e \<Rightarrow> report (cycle_state now [] (JStr (stood_down e)) False)
     | Inr k \<Rightarrow>
         if \<not> k_enabled k then report (cycle_state now [] JNull False)
         else if control_endpoint E = None
           then report (cycle_state now [] (JStr ''ANTSEED_CONTROL_URL/TOKEN not configured'') True)
         else pbind (cycle_all E k pids []) (\<lambda>done1. report (cycle_state now done1 JNull True))))"

text \<open>What can happen to the world: a cycle (cancelled or not), an operator's clearing of a halt, time.\<close>

inductive keeper_reaches :: "outside \<Rightarrow> string list \<Rightarrow> world \<Rightarrow> world \<Rightarrow> bool" for E :: outside and pids :: "string list" where
  keeper_start: "keeper_reaches E pids w w"
| keeper_cycles: "keeper_reaches E pids w v \<Longrightarrow> keeper_reaches E pids w (snd (keeper_cycle E pids v))"
| operator_clears: "keeper_reaches E pids w v \<Longrightarrow> keeper_reaches E pids w (snd (wallet_clear_halt E pid kind v))"
| time_passes: "keeper_reaches E pids w v \<Longrightarrow> keeper_reaches E pids w (next_tick v)"

end
