(* ===== verification/WalletSafety.thy ===== *)
theory WalletSafety
  imports WalletKeeper
begin

text \<open>
  How the wallet keeper changes the world. The locale \<open>reclaim_logic\<close> states what a relation between worlds
  must allow (time passing, a row begun with its one request, an open row closed, a halt written, a report)
  for settling and reclaiming to stay within it; \<open>keeper_logic\<close> adds deposits and so covers every cycle,
  \<open>operator_logic\<close> the clearing of halts and so every reachable world. \<open>WalletGuarantees\<close> interprets them.
\<close>

section \<open>Steps of the keeper\<close>

definition append_row :: "op_row \<Rightarrow> world \<Rightarrow> world" where
  "append_row r w = w\<lparr> ops := ops w @ [r], op_next := Suc (op_next w) \<rparr>"

definition post_request :: "string \<Rightarrow> dict \<Rightarrow> world \<Rightarrow> world" where
  "post_request op body w = w\<lparr> sent := sent w @ [(op, body)] \<rparr>"

definition ids_ok :: "world \<Rightarrow> bool" where
  "ids_ok w \<longleftrightarrow> distinct (map row_id (ops w)) \<and> (\<forall>r \<in> set (ops w). row_id r < op_next w)"

definition open_row :: "nat \<Rightarrow> world \<Rightarrow> bool" where
  "open_row i w \<longleftrightarrow> (\<forall>r \<in> set (ops w). row_id r = i \<longrightarrow> outcome r \<in> {''pending'', ''fired''})"

definition CLOSE_RESULTS :: "string list" where
  "CLOSE_RESULTS = [''unknown'', ''effective'', ''ineffective'', ''fired'', ''ok'', ''failed'']"

text \<open>The one request a row of the ledger stands for, within the limits of one cycle.\<close>

definition deposit_request :: "string \<Rightarrow> string \<Rightarrow> dict \<Rightarrow> bool" where
  "deposit_request kind op body \<longleftrightarrow> kind = ''topup'' \<and> op = ''deposit''
     \<and> (\<exists>a. \<not> f_lt MAX_TOPUP_USDC a \<and> body = [(''amount'', JStr (fixed 6 a))])"

definition reclaim_request :: "string \<Rightarrow> string \<Rightarrow> dict \<Rightarrow> bool" where
  "reclaim_request kind op body \<longleftrightarrow>
     kind = ''reclaim_set_operator'' \<and> op = ''reclaim/set-operator'' \<and> body = []
   \<or> (kind, op) \<in> {(''reclaim_withdraw'', ''reclaim/withdraw''), (''reclaim_request_close'', ''reclaim/request-close'')}
     \<and> (\<exists>ids. ids \<noteq> [] \<and> length ids \<le> MAX_TX_PER_CYCLE \<and> list_all channel_id_ok ids \<and> body = [(''ids'', JList (map JStr ids))])"

definition request_for :: "string \<Rightarrow> string \<Rightarrow> dict \<Rightarrow> bool" where
  "request_for kind op body \<longleftrightarrow> deposit_request kind op body \<or> reclaim_request kind op body"

definition new_row :: "string \<Rightarrow> string \<Rightarrow> pyfloat option \<Rightarrow> string option \<Rightarrow> pyfloat option \<Rightarrow> pyfloat option \<Rightarrow> int \<Rightarrow> nat \<Rightarrow> op_row" where
  "new_row pid op amount reason available reserved now i = \<lparr> row_id = i, row_ts = now, row_pid = pid, row_op = op,
     amount_usdc = amount, row_reason = reason, pre_available = available, post_available = None,
     pre_reserved = reserved, post_reserved = None, outcome = ''pending'', row_detail = None, updated_at = now \<rparr>"

lemma new_row_sel [simp]:
  "row_id (new_row pid op amount reason available reserved now i) = i"
  "row_op (new_row pid op amount reason available reserved now i) = op"
  "outcome (new_row pid op amount reason available reserved now i) = ''pending''"
  "row_pid (new_row pid op amount reason available reserved now i) = pid"
  "row_ts (new_row pid op amount reason available reserved now i) = now"
  "amount_usdc (new_row pid op amount reason available reserved now i) = amount"
  by (simp_all add: new_row_def)

lemma insert_row_append: "insert_row r w = (Inr (op_next w), append_row (r (op_next w)) w)"
  by (simp add: insert_row_def append_row_def)

lemma begin_eq:
  "wallet_op_begin E pid op amount reason available reserved w =
     (if store_up E (Suc (ticks w))
      then (Inr (Some (op_next w)), append_row (new_row pid op amount reason available reserved (trunc (clock E (ticks w))) (op_next w))
              (next_tick (next_tick w)))
      else (Inr None, next_tick (next_tick w)))"
  by (simp add: wallet_op_begin_def pbind_def unix_now_def time_now_def pret_def with_store_def insert_row_append
      new_row_def next_tick_def)

lemma pbind_assoc: "pbind (pbind m f) g = pbind m (\<lambda>x. pbind (f x) g)"
  by (rule ext) (simp add: pbind_def split: prod.splits sum.splits)

lemma finish_value: "\<exists>b v. wallet_op_finish E i result a d s w = (Inr b, v)"
  by (auto simp: wallet_op_finish_def with_store_def pbind_def unix_now_def time_now_def pret_def change_ops_def)

text \<open>A program that leaves the rows other than one as they are, and so the open ones open.\<close>

definition spares :: "nat \<Rightarrow> 'a prog \<Rightarrow> bool" where
  "spares i m \<longleftrightarrow> (\<forall>w j. j \<noteq> i \<longrightarrow> open_row j w \<longrightarrow> open_row j (snd (m w)))"

lemma open_row_tick [simp]: "open_row i (next_tick w) = open_row i w"
  by (simp add: open_row_def next_tick_def)

lemma ids_ok_tick [simp]: "ids_ok (next_tick w) = ids_ok w"
  by (simp add: ids_ok_def next_tick_def)

lemma spares_finish: "spares i (wallet_op_finish E i result a d s)"
  by (auto simp: spares_def wallet_op_finish_def with_store_def pbind_def unix_now_def time_now_def pret_def
      change_ops_def open_row_def close_row_def next_tick_def)

lemma spares_pret: "spares i (pret x)"
  by (simp add: spares_def pret_def)

lemma snd_bind_pret: "snd (pbind m (\<lambda>_. pret x) w) = snd (m w)"
  by (simp add: pbind_def pret_def split: prod.splits sum.splits)

lemma spares_bind_pret: "spares i m \<Longrightarrow> spares i (pbind m (\<lambda>_. pret x))"
  by (simp add: spares_def snd_bind_pret)

lemma spares_settle: "spares (row_id r) (settle_row E now available reserved r)"
  unfolding settle_row_def Let_def
  by (auto intro!: spares_bind_pret spares_finish spares_pret split: option.splits prod.splits)

lemma ids_ok_open: "ids_ok w \<Longrightarrow> r \<in> set (ops w) \<Longrightarrow> outcome r \<in> {''pending'', ''fired''} \<Longrightarrow> open_row (row_id r) w"
  unfolding ids_ok_def open_row_def by (metis distinct_map inj_on_def)

locale reclaim_logic =
  fixes R :: "world \<Rightarrow> world \<Rightarrow> bool" and may :: "string \<Rightarrow> string \<Rightarrow> dict \<Rightarrow> bool"
  assumes R_refl: "R w w"
    and R_trans: "R u v \<Longrightarrow> R v w \<Longrightarrow> R u w"
    and R_tick: "R w (next_tick w)"
    and R_report: "R w (w\<lparr> keeper_state := st \<rparr>)"
    and R_halt: "outcome r = ''halted'' \<Longrightarrow> row_op r = halt_op kind \<Longrightarrow> row_id r = op_next w \<Longrightarrow> R w (append_row r w)"
    and R_begin: "outcome r = ''pending'' \<Longrightarrow> row_id r = op_next w \<Longrightarrow> R w (append_row r w)"
    and R_fire: "outcome r = ''pending'' \<Longrightarrow> row_id r = op_next w \<Longrightarrow> may (row_op r) op body \<Longrightarrow>
      R w (post_request op body (append_row r w))"
    and may_reclaim: "reclaim_request kind op body \<Longrightarrow> may kind op body"
    and R_scan: "R w (post_request ''reclaim/scan'' [] w)"
    and R_close: "open_row i w \<Longrightarrow> result \<in> set CLOSE_RESULTS \<Longrightarrow>
      R w (w\<lparr> ops := map (close_row i result a d s now) (ops w) \<rparr>)"
begin

definition keeps_from :: "(world \<Rightarrow> bool) \<Rightarrow> 'a prog \<Rightarrow> bool" where
  "keeps_from P m \<longleftrightarrow> (\<forall>w. ids_ok w \<longrightarrow> P w \<longrightarrow> ids_ok (snd (m w)) \<and> R w (snd (m w)))"

definition keeps :: "'a prog \<Rightarrow> bool" where
  "keeps m \<longleftrightarrow> keeps_from (\<lambda>_. True) m"

lemma keepsD: "keeps m \<Longrightarrow> ids_ok w \<Longrightarrow> ids_ok (snd (m w)) \<and> R w (snd (m w))"
  by (simp add: keeps_def keeps_from_def)

lemma keeps_weaken: "keeps m \<Longrightarrow> keeps_from P m"
  by (simp add: keeps_def keeps_from_def)

lemma keeps_from_bind:
  assumes "keeps_from P m" and "\<And>x. keeps (f x)"
  shows "keeps_from P (pbind m f)"
  unfolding keeps_from_def
proof (intro allI impI)
  fix w assume "ids_ok w" "P w"
  with assms(1) have "ids_ok (snd (m w))" "R w (snd (m w))" by (auto simp: keeps_from_def)
  with keepsD [OF assms(2)] show "ids_ok (snd (pbind m f w)) \<and> R w (snd (pbind m f w))"
    by (auto simp: pbind_def split: prod.splits sum.splits intro: R_trans)
qed

lemma keeps_bind [intro]: "keeps m \<Longrightarrow> (\<And>x. keeps (f x)) \<Longrightarrow> keeps (pbind m f)"
  unfolding keeps_def [of "pbind m f"] by (rule keeps_from_bind) (simp_all add: keeps_weaken)

lemma keeps_bind_stable:
  assumes "\<And>w v. P w \<Longrightarrow> R w v \<Longrightarrow> P v" and "keeps_from P m" and "\<And>x. keeps_from P (f x)"
  shows "keeps_from P (pbind m f)"
  unfolding keeps_from_def
proof (intro allI impI)
  fix w assume w: "ids_ok w" "P w"
  with assms(2) have v: "ids_ok (snd (m w))" "R w (snd (m w))" by (auto simp: keeps_from_def)
  with w assms(1) have "P (snd (m w))" by blast
  with v assms(3) have "ids_ok (snd (f x (snd (m w)))) \<and> R w (snd (f x (snd (m w))))" for x
    by (auto simp: keeps_from_def intro: R_trans)
  with v show "ids_ok (snd (pbind m f w)) \<and> R w (snd (pbind m f w))"
    by (auto simp: pbind_def split: prod.splits sum.splits)
qed

lemma keeps_catch [intro]:
  assumes "keeps m" and "\<And>e. keeps (h e)"
  shows "keeps (pcatch m h)"
  unfolding keeps_def keeps_from_def
proof (intro allI impI)
  fix w assume "ids_ok w"
  from keepsD [OF assms(1) this] keepsD [OF assms(2)]
  show "ids_ok (snd (pcatch m h w)) \<and> R w (snd (pcatch m h w))"
    by (auto simp: pcatch_def split: prod.splits sum.splits intro: R_trans)
qed

lemma keeps_pure [intro, simp]: "keeps (pret x)" "keeps (plift r)" "keeps (query q)"
  by (simp_all add: keeps_def keeps_from_def pret_def plift_def query_def R_refl)

lemma keeps_reading: "(\<And>w. snd (m w) = next_tick w) \<Longrightarrow> keeps m"
  by (simp add: keeps_def keeps_from_def R_tick)

lemma keeps_readings [intro, simp]:
  "keeps (time_now E)" "keeps (read_knob E name)" "keeps (chain_row_now E pid)"
  by (auto intro!: keeps_reading simp: time_now_def read_knob_def chain_row_now_def)

lemma keeps_unix_now [intro, simp]: "keeps (unix_now E)"
  unfolding unix_now_def by auto

lemma keeps_store [intro]: "keeps act \<Longrightarrow> keeps (with_store E failed act)"
  unfolding keeps_def keeps_from_def with_store_def
  by (auto simp: R_tick intro: R_trans [OF R_tick])

lemma ids_ok_append:
  "ids_ok w \<Longrightarrow> row_id r = op_next w \<Longrightarrow> ids_ok (append_row r w)"
  by (fastforce simp: ids_ok_def append_row_def)

lemma row_id_close [simp]: "row_id (close_row i result a d s now r) = row_id r"
  by (simp add: close_row_def)

lemma ids_ok_close: "ids_ok w \<Longrightarrow> ids_ok (w\<lparr> ops := map (close_row i result a d s now) (ops w) \<rparr>)"
  by (auto simp: ids_ok_def comp_def)

lemma keeps_insert:
  assumes "\<And>n. row_id (r n) = n" and "(\<forall>n. outcome (r n) = ''pending'') \<or> (\<exists>kind. \<forall>n. outcome (r n) = ''halted'' \<and> row_op (r n) = halt_op kind)"
  shows "keeps (insert_row r)"
  using assms by (auto simp: keeps_def keeps_from_def insert_row_append ids_ok_append R_begin intro: R_halt)

lemma keeps_begin [intro, simp]: "keeps (wallet_op_begin E pid op amount reason available reserved)"
  unfolding wallet_op_begin_def by (intro keeps_bind keeps_unix_now keeps_store keeps_insert keeps_pure) auto

lemma keeps_halt [intro, simp]: "keeps (wallet_halt E pid kind reason)"
  unfolding wallet_halt_def
  by (intro keeps_bind keeps_unix_now keeps_store) (auto intro!: keeps_bind keeps_insert exI [of _ kind])

lemma keeps_queries [intro, simp]:
  "keeps (wallet_ops_open E pid op)" "keeps (wallet_op_spend_since E pid k since)"
  "keeps (wallet_ops_settled E pid k limit)" "keeps (wallet_ops_terminal E pid k limit)"
  "keeps (wallet_ops_last_ts E pid kinds)" "keeps (wallet_halted E pid kind)"
  unfolding wallet_ops_open_def wallet_op_spend_since_def wallet_ops_settled_def wallet_ops_terminal_def
    wallet_ops_last_ts_def wallet_halted_def by auto

lemma keeps_same: "(\<And>w. snd (m w) = w) \<Longrightarrow> keeps m"
  by (simp add: keeps_def keeps_from_def R_refl)

lemma keeps_tables [intro, simp]: "keeps (buyer_status E pid)" "keeps (provider_attempt_counts E pid window)"
  unfolding buyer_status_def provider_attempt_counts_def
  by (intro keeps_store keeps_bind keeps_readings keeps_same; simp split: prod.splits)+

lemma keeps_finish:
  assumes "result \<in> set CLOSE_RESULTS"
  shows "keeps_from (open_row i) (wallet_op_finish E i result a d s)"
  unfolding keeps_from_def wallet_op_finish_def with_store_def
proof (intro allI impI)
  fix w assume w: "ids_ok w" "open_row i w"
  let ?w = "next_tick (next_tick w)" and ?now = "trunc (clock E (ticks (next_tick w)))"
  let ?c = "?w\<lparr> ops := map (close_row i result a d s ?now) (ops ?w) \<rparr>"
  have "R w ?w" by (blast intro: R_trans R_tick)
  moreover have "R ?w ?c" using w assms by (intro R_close) simp_all
  ultimately have "R w ?c" by (rule R_trans)
  then show "ids_ok (snd ((if store_up E (ticks w) then pbind (unix_now E) (\<lambda>now. pbind (change_ops (map (close_row i result a d s now))) (\<lambda>_. pret True)) (next_tick w) else (Inr False, next_tick w))))
     \<and> R w (snd ((if store_up E (ticks w) then pbind (unix_now E) (\<lambda>now. pbind (change_ops (map (close_row i result a d s now))) (\<lambda>_. pret True)) (next_tick w) else (Inr False, next_tick w))))"
    using w ids_ok_close [of ?w] R_tick [of w]
    by (simp add: pbind_def unix_now_def time_now_def pret_def change_ops_def)
qed

text \<open>A row and its one request, and what is done with the answer while the row is open.\<close>

lemma open_fresh: "ids_ok w \<Longrightarrow> outcome r = ''pending'' \<Longrightarrow> row_id r = op_next w \<Longrightarrow> open_row (op_next w) (append_row r w)"
  by (force simp: open_row_def ids_ok_def append_row_def)

lemma guarded_steps:
  assumes "ids_ok w" and r: "outcome r = ''pending''" "row_id r = op_next w" "may (row_op r) op body"
    and op: "op \<in> set ALLOWED_CONTROL_OPS"
    and f: "\<And>resp. keeps_from (open_row (op_next w)) (f resp)"
  shows "ids_ok (snd (pbind (guarded E (op_next w) (control E op body)) f (append_row r w)))
    \<and> R w (snd (pbind (guarded E (op_next w) (control E op body)) f (append_row r w)))"
proof -
  let ?i = "op_next w" and ?a = "append_row r w"
  let ?p = "next_tick (post_request op body ?a)"
  have a: "ids_ok ?a" "open_row ?i ?a" using assms open_fresh ids_ok_append by auto
  then have p: "ids_ok ?p" "open_row ?i ?p" by (simp_all add: ids_ok_def open_row_def post_request_def next_tick_def)
  have Rp: "R w ?p" using R_fire [OF r] by (rule R_trans) (rule R_tick)
  have Ra: "R w (next_tick ?a)" using R_begin [OF r(1,2)] by (rule R_trans) (rule R_tick)
  have Ra': "R w ?a" using R_begin [OF r(1,2)] .
  have safe: "op \<notin> set FORBIDDEN_CONTROL_OPS" using op by (auto simp: ALLOWED_CONTROL_OPS_def FORBIDDEN_CONTROL_OPS_def)
  have fin: "keeps_from (open_row ?i) (wallet_op_finish E ?i ''unknown'' None d None)" for d
    by (rule keeps_finish) (simp add: CLOSE_RESULTS_def)
  have go: "ids_ok (snd (f resp v)) \<and> R w (snd (f resp v))" if "ids_ok v" "open_row ?i v" "R w v" for resp v
    using f that by (auto simp: keeps_from_def intro: R_trans)
  have down: "ids_ok (snd (wallet_op_finish E ?i ''unknown'' None d None ?p))
      \<and> R w (snd (wallet_op_finish E ?i ''unknown'' None d None ?p))" for d
    using fin p Rp by (auto simp: keeps_from_def intro: R_trans)
  have tick: "next_tick ?a = ?a\<lparr> ticks := Suc (ticks ?a) \<rparr>" by (simp add: next_tick_def)
  have post: "next_tick ?a\<lparr> sent := sent (next_tick ?a) @ [(op, body)] \<rparr> = ?p"
    by (simp add: next_tick_def post_request_def)
  show ?thesis
  proof (cases "control_endpoint E")
    case None
    then show ?thesis
      using safe op go [OF a Ra'] by (simp add: pbind_def guarded_def pcatch_def control_def control_post_def pret_def)
  next
    case (Some e)
    show ?thesis
    proof (cases "reply E (ticks ?a)")
      case (Misbuilt m)
      then show ?thesis
        using Some safe op go [of "next_tick ?a"] a Ra
        by (simp add: pbind_def guarded_def pcatch_def control_def control_post_def Let_def)
    next
      case (NoReply t m)
      then show ?thesis
        using Some safe op go [OF p Rp]
        by (simp add: pbind_def guarded_def pcatch_def control_def control_post_def Let_def post)
    next
      case Cancelled
      then show ?thesis
        using Some safe op down [of "Some ''cancelled before the outcome was known''"]
          finish_value [of E ?i "''unknown''" None "Some ''cancelled before the outcome was known''" None ?p]
        by (auto simp: pbind_def guarded_def pcatch_def control_def control_post_def Let_def post plift_def)
    next
      case (Replied code v content)
      then show ?thesis
        using Some safe op go [OF p Rp]
        by (simp add: pbind_def guarded_def pcatch_def control_def control_post_def Let_def post)
    qed
  qed
qed

lemma keeps_fire:
  assumes "may kind op body" and "op \<in> set ALLOWED_CONTROL_OPS"
    and "\<And>i resp. keeps_from (open_row i) (f i resp)"
  shows "keeps (pbind (wallet_op_begin E pid kind amount reason available reserved) (\<lambda>begun. case begun of
    None \<Rightarrow> pret x | Some i \<Rightarrow> pbind (guarded E i (control E op body)) (f i)))"
  unfolding keeps_def keeps_from_def
proof (intro allI impI)
  fix w assume w: "ids_ok w"
  let ?w = "next_tick (next_tick w)" and ?r = "new_row pid kind amount reason available reserved (trunc (clock E (ticks w))) (op_next w)"
  have w': "ids_ok ?w" "R w ?w" "op_next ?w = op_next w"
    using w by (simp, blast intro: R_trans R_tick, simp add: next_tick_def)
  have "ids_ok (snd (pbind (guarded E (op_next ?w) (control E op body)) (f (op_next ?w)) (append_row ?r ?w)))
      \<and> R ?w (snd (pbind (guarded E (op_next ?w) (control E op body)) (f (op_next ?w)) (append_row ?r ?w)))"
    by (rule guarded_steps [OF w'(1)]) (use assms w'(3) in simp_all)
  with w' show "ids_ok (snd (pbind (wallet_op_begin E pid kind amount reason available reserved) (\<lambda>begun. case begun of
      None \<Rightarrow> pret x | Some i \<Rightarrow> pbind (guarded E i (control E op body)) (f i)) w))
    \<and> R w (snd (pbind (wallet_op_begin E pid kind amount reason available reserved) (\<lambda>begun. case begun of
      None \<Rightarrow> pret x | Some i \<Rightarrow> pbind (guarded E i (control E op body)) (f i)) w))"
    by (auto simp: pbind_def [of "wallet_op_begin E pid kind amount reason available reserved"] begin_eq pret_def intro: R_trans)
qed

lemma peach_open:
  assumes "\<And>r. keeps_from (open_row (row_id r)) (f r)" and "\<And>r. spares (row_id r) (f r)"
  shows "distinct (map row_id rows) \<Longrightarrow> \<forall>r \<in> set rows. open_row (row_id r) w \<Longrightarrow> ids_ok w \<Longrightarrow>
    ids_ok (snd (peach f rows w)) \<and> R w (snd (peach f rows w))"
proof (induction rows arbitrary: w)
  case Nil
  then show ?case by (simp add: pret_def R_refl)
next
  case (Cons r rows)
  let ?v = "snd (f r w)"
  have v: "ids_ok ?v" "R w ?v" using assms(1) [of r] Cons.prems by (auto simp: keeps_from_def)
  have "\<forall>q \<in> set rows. open_row (row_id q) ?v"
  proof
    fix q assume q: "q \<in> set rows"
    with Cons.prems(1) have "row_id q \<noteq> row_id r" by (auto simp: image_iff)
    with q assms(2) [of r] Cons.prems(2) show "open_row (row_id q) ?v" by (simp add: spares_def)
  qed
  then have "ids_ok (snd (peach f rows ?v)) \<and> R ?v (snd (peach f rows ?v))"
    using Cons.prems v by (intro Cons.IH) auto
  with v show ?case by (auto simp: pbind_def split: prod.splits sum.splits intro: R_trans)
qed

lemma keeps_open_rows:
  assumes "\<And>r. keeps_from (open_row (row_id r)) (f r)" and "\<And>r. spares (row_id r) (f r)"
  shows "keeps (pbind (wallet_ops_open E pid k) (peach f))"
  unfolding keeps_def keeps_from_def
proof (intro allI impI)
  fix w assume w: "ids_ok w"
  let ?w = "next_tick w" and ?q = "\<lambda>r. row_pid r = pid \<and> outcome r \<in> {''pending'', ''fired''} \<and> (case k of None \<Rightarrow> True | Some j \<Rightarrow> row_op r = j)"
  let ?rows = "filter ?q (ops ?w)"
  have "ids_ok ?w" "distinct (map row_id ?rows)" "\<forall>r \<in> set ?rows. open_row (row_id r) ?w"
    using w ids_ok_open [OF w] by (auto simp: ids_ok_def distinct_map_filter) (auto simp: next_tick_def distinct_map_filter)
  then have "ids_ok (snd (peach f ?rows ?w)) \<and> R ?w (snd (peach f ?rows ?w))"
    using peach_open [OF assms] by blast
  with w show "ids_ok (snd (pbind (wallet_ops_open E pid k) (peach f) w)) \<and> R w (snd (pbind (wallet_ops_open E pid k) (peach f) w))"
    by (auto simp: wallet_ops_open_def with_store_def query_def pbind_def pret_def intro: R_trans [OF R_tick] R_tick)
qed

lemma keeps_finish_then:
  "result \<in> set CLOSE_RESULTS \<Longrightarrow> (\<And>b. keeps (g b)) \<Longrightarrow> keeps_from (open_row i) (pbind (wallet_op_finish E i result a d s) g)"
  by (rule keeps_from_bind) (auto intro: keeps_finish)

lemma keeps_branches:
  "(b \<Longrightarrow> keeps m) \<Longrightarrow> (\<not> b \<Longrightarrow> keeps n) \<Longrightarrow> keeps (if b then m else n)"
  "keeps m \<Longrightarrow> (\<And>x. keeps (f x)) \<Longrightarrow> keeps (case v of None \<Rightarrow> m | Some x \<Rightarrow> f x)"
  "(\<And>x y. keeps (h x y)) \<Longrightarrow> keeps (case p of (x, y) \<Rightarrow> h x y)"
  by (auto split: option.splits prod.splits)

lemma keeps_from_branches:
  "(b \<Longrightarrow> keeps_from P m) \<Longrightarrow> (\<not> b \<Longrightarrow> keeps_from P n) \<Longrightarrow> keeps_from P (if b then m else n)"
  "keeps_from P m \<Longrightarrow> (\<And>x. keeps_from P (f x)) \<Longrightarrow> keeps_from P (case v of None \<Rightarrow> m | Some x \<Rightarrow> f x)"
  "(\<And>x y. keeps_from P (h x y)) \<Longrightarrow> keeps_from P (case p of (x, y) \<Rightarrow> h x y)"
  "keeps_from P (pret x)"
  by (auto split: option.splits prod.splits intro: keeps_weaken)

lemmas keeps_rules = keeps_bind keeps_catch keeps_pure keeps_readings keeps_unix_now keeps_begin keeps_halt keeps_queries
  keeps_tables keeps_branches

lemma keeps_settle_row: "keeps_from (open_row (row_id r)) (settle_row E now available reserved r)"
  unfolding settle_row_def Let_def
  by (intro keeps_from_branches keeps_finish_then keeps_pure) (simp_all add: CLOSE_RESULTS_def)

lemma keeps_reconcile [intro, simp]: "keeps (reconcile_orphans E pid)"
  unfolding reconcile_orphans_def
proof (rule keeps_open_rows)
  fix r
  show "keeps_from (open_row (row_id r)) (if row_op r = ''topup'' \<or> outcome r \<noteq> ''pending'' then pret ()
      else pbind (wallet_op_finish E (row_id r) ''unknown'' None (Some orphan_detail) None) (\<lambda>_. pret ()))"
    by (intro keeps_from_branches keeps_finish_then keeps_pure) (simp add: CLOSE_RESULTS_def)
  show "spares (row_id r) (if row_op r = ''topup'' \<or> outcome r \<noteq> ''pending'' then pret ()
      else pbind (wallet_op_finish E (row_id r) ''unknown'' None (Some orphan_detail) None) (\<lambda>_. pret ()))"
    by (simp add: spares_pret spares_bind_pret spares_finish)
qed

lemma keeps_halt_topups: "keeps (halt_topups E pid decision why)"
  unfolding halt_topups_def by (intro keeps_rules)

lemma keeps_breakers: "keeps (check_breakers E pid)"
  unfolding check_breakers_def Let_def by (intro keeps_rules keeps_halt_topups)

lemma keeps_settle: "keeps (settle_topups E pid available reserved)"
proof -
  have "settle_topups E pid available reserved = pbind (unix_now E) (\<lambda>now.
      pbind (pbind (wallet_ops_open E pid (Some ''topup'')) (peach (settle_row E now available reserved))) (\<lambda>_. check_breakers E pid))"
    by (simp add: settle_topups_def pbind_assoc)
  then show ?thesis
    by (simp, intro keeps_bind keeps_unix_now keeps_breakers keeps_open_rows keeps_settle_row spares_settle)
qed

lemma keeps_scan: "keeps (control E ''reclaim/scan'' [])"
proof -
  have "ids_ok (post_request op body v) = ids_ok v" for op body v by (simp add: ids_ok_def post_request_def)
  moreover have "next_tick w\<lparr> sent := sent (next_tick w) @ [(op, body)] \<rparr> = next_tick (post_request op body w)" for w op body
    by (simp add: next_tick_def post_request_def)
  moreover have "R w (next_tick (post_request ''reclaim/scan'' [] w))" for w
    by (rule R_trans [OF R_scan R_tick])
  ultimately have "keeps (control_post E ''reclaim/scan'' [])"
    by (auto simp: keeps_def keeps_from_def control_post_def Let_def pret_def R_refl R_tick split: option.splits http.splits)
  then show ?thesis by (simp add: control_def FORBIDDEN_CONTROL_OPS_def ALLOWED_CONTROL_OPS_def)
qed

lemma outcome_closes: "outcome_for resp \<in> set CLOSE_RESULTS"
  by (simp add: outcome_for_def CLOSE_RESULTS_def)

lemma keeps_strikes: "keeps (error_strikes E pid op limit)"
  unfolding error_strikes_def by (intro keeps_rules)

lemma keeps_phase:
  assumes "ids \<noteq> Some [] \<Longrightarrow> may op phase (case ids of None \<Rightarrow> [] | Some l \<Rightarrow> [(''ids'', JList (map JStr l))])"
    and "phase \<in> set ALLOWED_CONTROL_OPS"
  shows "keeps (fire_reclaim_phase E pid phase op reason available reserved ids)"
  unfolding fire_reclaim_phase_def Let_def after_failure_def
  by (intro keeps_branches keeps_fire assms keeps_finish_then keeps_rules keeps_strikes)
    (auto simp: CLOSE_RESULTS_def outcome_for_def)

lemma channel_ids_ok: "list_all channel_id_ok (channel_ids batch)"
  by (auto simp: channel_ids_def list_all_iff)

lemma keeps_batch:
  assumes "batch \<noteq> []" and "(op, phase) \<in> {(''reclaim_withdraw'', ''reclaim/withdraw''), (''reclaim_request_close'', ''reclaim/request-close'')}"
  shows "keeps (fire_batch E pid phase op why available reserved n batch)"
proof -
  let ?ids = "channel_ids (sort_key (\<lambda>c. - reclaim_value c) batch)"
  have "keeps (fire_reclaim_phase E pid phase op reason available reserved (Some (take MAX_TX_PER_CYCLE ?ids)))"
    if "length ?ids = length batch" for reason
  proof (rule keeps_phase)
    have "take MAX_TX_PER_CYCLE ?ids \<noteq> []" using that assms(1) by (auto simp: MAX_TX_PER_CYCLE_def)
    then show "may op phase (case Some (take MAX_TX_PER_CYCLE ?ids) of None \<Rightarrow> [] | Some l \<Rightarrow> [(''ids'', JList (map JStr l))])"
      using assms(2) channel_ids_ok [of "sort_key (\<lambda>c. - reclaim_value c) batch"]
      by (auto simp: reclaim_request_def list_all_iff dest!: in_set_takeD intro!: may_reclaim exI [of _ "take MAX_TX_PER_CYCLE ?ids"])
    show "phase \<in> set ALLOWED_CONTROL_OPS" using assms(2) by (auto simp: ALLOWED_CONTROL_OPS_def)
  qed
  then show ?thesis by (simp add: fire_batch_def Let_def)
qed

lemma keeps_reclaim: "keeps (maybe_reclaim E pid k available reserved)"
proof -
  have "keeps (reclaim_channels E pid available reserved scan)" for scan
    unfolding reclaim_channels_def Let_def by (intro keeps_rules keeps_batch) auto
  moreover have "keeps (fire_reclaim_phase E pid ''reclaim/set-operator'' ''reclaim_set_operator'' reason available reserved None)" for reason
    by (rule keeps_phase) (simp_all add: may_reclaim reclaim_request_def ALLOWED_CONTROL_OPS_def)
  ultimately have "keeps (scan_and_reclaim E pid available reserved)"
    unfolding scan_and_reclaim_def last_reclaim_ts_def by (intro keeps_rules keeps_scan)
  then show ?thesis
    unfolding maybe_reclaim_def wedged_def chain_view_def Let_def by (intro keeps_rules)
qed

end

text \<open>The whole keeper: deposits as well.\<close>

locale keeper_logic = reclaim_logic +
  assumes may_deposit: "deposit_request kind op body \<Longrightarrow> may kind op body"
begin

lemma keeps_fire_topup: "keeps (fire_topup E pid k available reserved)"
proof -
  have "may ''topup'' ''deposit'' [(''amount'', JStr (fixed 6 (topup_amount k)))]"
    by (rule may_deposit) (auto simp: deposit_request_def topup_amount_def MAX_TOPUP_USDC_def intro!: exI [of _ "topup_amount k"])
  then show ?thesis
    unfolding fire_topup_def Let_def
    by (intro keeps_fire keeps_from_branches keeps_finish_then keeps_pure)
      (auto simp: CLOSE_RESULTS_def ALLOWED_CONTROL_OPS_def outcome_for_def)
qed

lemma keeps_topup: "keeps (maybe_topup E pid k available reserved)"
  unfolding maybe_topup_def retry_gate_def cap_reached_def chain_view_def Let_def
  by (intro keeps_rules keeps_strikes keeps_halt_topups keeps_fire_topup)

lemma keeps_act: "keeps (act_on E pid k available reserved)"
  unfolding act_on_def by (intro keeps_rules keeps_reconcile keeps_settle keeps_reclaim keeps_topup)

lemma keeps_provider: "keeps (cycle_provider E pid k)"
  unfolding cycle_provider_def status_age_s_def Let_def by (intro keeps_rules keeps_act)

lemma keeps_all: "keeps (cycle_all E k pids done1)"
  by (induction pids arbitrary: done1) (auto simp: isolated_def intro!: keeps_rules keeps_provider)

lemma keeps_report: "keeps (report d)"
  by (simp add: keeps_def keeps_from_def report_def Let_def R_report ids_ok_def)

lemma keeps_cycle: "keeps (keeper_cycle E pids)"
proof -
  have "keeps (load_knobs E)" unfolding load_knobs_def float_knob_def int_knob_def by (intro keeps_rules)
  then show ?thesis unfolding keeper_cycle_def by (auto intro!: keeps_rules keeps_report keeps_all split: sum.splits)
qed

end

lemma ids_ok_clear: "ids_ok w \<Longrightarrow> ids_ok (snd (wallet_clear_halt E pid kind w))"
  by (auto simp: wallet_clear_halt_def with_store_def pbind_def change_ops_def pret_def ids_ok_def next_tick_def distinct_map_filter)

text \<open>And an operator who clears halts.\<close>

locale operator_logic = keeper_logic +
  assumes R_clear: "R w (w\<lparr> ops := filter (\<lambda>r. \<not> is_halt pid kind r) (ops w) \<rparr>)"
begin

lemma clear_keeps: "R w (snd (wallet_clear_halt E pid kind w))"
  by (auto simp: wallet_clear_halt_def with_store_def pbind_def change_ops_def pret_def
      intro: R_tick R_trans [OF R_tick R_clear])

lemma reaches_keeps:
  assumes "keeper_reaches E pids w v" and "ids_ok w"
  shows "ids_ok v \<and> R w v"
  using assms
proof (induction rule: keeper_reaches.induct)
  case (keeper_cycles w v)
  then show ?case using keepsD [OF keeps_cycle] by (blast intro: R_trans)
next
  case (operator_clears w v pid kind)
  then show ?case using ids_ok_clear clear_keeps by (blast intro: R_trans)
qed (auto intro: R_refl R_trans R_tick)

end

end
