(* ===== verification/WalletDemo.thy ===== *)
theory WalletDemo
  imports WalletKeeper
begin

text \<open>
  A provider at 2 USDC of escrow below its trigger of 3, with 100 USDC in the wallet and a sidecar that
  accepts: the keeper's cycle over an empty ledger deposits 5 USDC. The worlds of the witnesses.
\<close>

definition demo_knob :: "nat \<Rightarrow> string \<Rightarrow> jval res" where
  "demo_knob t name = Inr (
     if name = ''antseed.keeper_enabled'' then JInt 1
     else if name = ''antseed.min_available_usdc'' then JFloat (Fin 1)
     else if name = ''antseed.topup_trigger_usdc'' then JFloat (Fin 3)
     else if name = ''antseed.topup_amount_usdc'' then JFloat (Fin 5)
     else if name = ''antseed.topup_wallet_floor_usdc'' then JFloat (Fin 10)
     else if name = ''antseed.topup_daily_cap_usdc'' then JFloat (Fin 20)
     else if name = ''antseed.topup_cooldown_s'' then JInt 300
     else JFloat (Fin 1))"

definition demo :: outside where
  "demo = \<lparr> clock = (\<lambda>_. 1000), store_up = (\<lambda>_. True),
     status_row = (\<lambda>_ _. Some [(''deposits_available'', JFloat (Fin 2)), (''deposits_reserved'', JFloat (Fin 0)), (''fetched_at'', JFloat (Fin 1000000))]),
     observed = (\<lambda>_ _ _. (5, 5)),
     chain_row = (\<lambda>_ _. [(''fetched_at'', JFloat (Fin 1000)), (''detail'', JObj [(''wallet_usdc'', JFloat (Fin 100))])]),
     knob = demo_knob, control_url = ''http://c'', control_token = ''t'',
     reply = (\<lambda>_. Replied 200 (Some (JObj [(''stdout'', JStr ''0x1'')])) []) \<rparr>"

definition blank :: world where
  "blank = \<lparr> ops = [], op_next = 1, ticks = 0, sent = [], keeper_state = [] \<rparr>"

definition demo_knobs :: knobs where
  "demo_knobs = \<lparr> k_enabled = True, k_min_available = Fin 1, k_trigger = Fin 3, k_amount = Fin 5, k_wallet_floor = Fin 10,
     k_daily_cap = Fin 20, k_cooldown = 300, k_reclaim_min = Fin 1 \<rparr>"

definition demo_row :: "nat \<Rightarrow> string \<Rightarrow> string \<Rightarrow> op_row" where
  "demo_row i op result = \<lparr> row_id = i, row_ts = 100, row_pid = ''p'', row_op = op, amount_usdc = Some (Fin 5),
     row_reason = None, pre_available = Some (Fin 2), post_available = None, pre_reserved = None, post_reserved = None,
     outcome = result, row_detail = None, updated_at = 100 \<rparr>"

definition demo_world :: "op_row list \<Rightarrow> world" where
  "demo_world rows = blank\<lparr> ops := rows, op_next := 10 \<rparr>"

lemma demo_deposits: "sent (snd (keeper_cycle demo [''p''] blank)) = [(''deposit'', [(''amount'', JStr ''5.000000'')])]"
  by code_simp

lemma demo_topup: "sent (snd (maybe_topup demo ''p'' demo_knobs (Fin 2) (Some (Fin 0)) blank)) = [(''deposit'', [(''amount'', JStr ''5.000000'')])]"
  by code_simp

end
