(* ===== verification/WalletGuarantees.thy ===== *)
theory WalletGuarantees
  imports WalletSafety WalletDemo
begin

text \<open>
  The guarantees of the wallet keeper: every transaction has its row, requests stay within their limits,
  outcomes are final, a halt stops deposits, and a deposit fires only under its guardrails. The first four
  interpret the locales of \<open>WalletSafety\<close>.
\<close>

section \<open>Every transaction is logged\<close>

definition TRANSACTIONS :: "(string \<times> string) list" where
  "TRANSACTIONS = [(''topup'', ''deposit''), (''reclaim_set_operator'', ''reclaim/set-operator''),
     (''reclaim_withdraw'', ''reclaim/withdraw''), (''reclaim_request_close'', ''reclaim/request-close'')]"

definition requests :: "string \<Rightarrow> world \<Rightarrow> nat" where
  "requests op w = length (filter (\<lambda>q. fst q = op) (sent w))"

definition entries :: "string \<Rightarrow> world \<Rightarrow> nat" where
  "entries kind w = length (filter (\<lambda>r. row_op r = kind) (ops w))"

definition audited :: "world \<Rightarrow> bool" where
  "audited w \<longleftrightarrow> list_all (\<lambda>(kind, op). requests op w \<le> entries kind w) TRANSACTIONS"

definition logs :: "world \<Rightarrow> world \<Rightarrow> bool" where
  "logs w v \<longleftrightarrow> list_all (\<lambda>(kind, op). requests op v + entries kind w \<le> requests op w + entries kind v) TRANSACTIONS"

lemma row_op_close [simp]: "row_op (close_row i result a d s now r) = row_op r"
  by (simp add: close_row_def)

lemmas world_simps = append_row_def post_request_def next_tick_def

lemma logs_same: "sent v = sent w \<Longrightarrow> map row_op (ops v) = map row_op (ops w) \<Longrightarrow> logs w v"
proof -
  assume s: "sent v = sent w" and "map row_op (ops v) = map row_op (ops w)"
  then have "length (filter (\<lambda>k. k = kind) (map row_op (ops v))) = length (filter (\<lambda>k. k = kind) (map row_op (ops w)))" for kind
    by simp
  then have "entries kind v = entries kind w" for kind by (simp add: entries_def filter_map comp_def)
  with s show "logs w v" by (simp add: logs_def requests_def list_all_iff)
qed

lemma logs_trans: "logs u v \<Longrightarrow> logs v w \<Longrightarrow> logs u w"
proof -
  assume uv: "logs u v" and vw: "logs v w"
  have "requests op w + entries kind u \<le> requests op u + entries kind w" if "(kind, op) \<in> set TRANSACTIONS" for kind op
  proof -
    have "requests op v + entries kind u \<le> requests op u + entries kind v"
      using uv that by (auto simp: logs_def list_all_iff)
    moreover have "requests op w + entries kind v \<le> requests op v + entries kind w"
      using vw that by (auto simp: logs_def list_all_iff)
    ultimately show ?thesis by linarith
  qed
  then show "logs u w" by (auto simp: logs_def list_all_iff)
qed

lemma logs_audited: "logs w v \<Longrightarrow> audited w \<Longrightarrow> audited v"
proof -
  assume wv: "logs w v" and w: "audited w"
  have "requests op v \<le> entries kind v" if "(kind, op) \<in> set TRANSACTIONS" for kind op
  proof -
    have "requests op v + entries kind w \<le> requests op w + entries kind v"
      using wv that by (auto simp: logs_def list_all_iff)
    moreover have "requests op w \<le> entries kind w" using w that by (auto simp: audited_def list_all_iff)
    ultimately show ?thesis by linarith
  qed
  then show "audited v" by (auto simp: audited_def list_all_iff)
qed

lemma logs_append: "logs w (append_row r w)"
  by (simp add: logs_def list_all_iff requests_def entries_def world_simps)

lemma request_transaction: "request_for kind op body \<Longrightarrow> (kind, op) \<in> set TRANSACTIONS"
  unfolding request_for_def deposit_request_def reclaim_request_def TRANSACTIONS_def by auto

lemma transaction_row: "list_all (\<lambda>p. list_all (\<lambda>q. snd p = snd q \<longrightarrow> fst p = fst q) TRANSACTIONS) TRANSACTIONS"
  by code_simp

lemma requests_post: "requests op (post_request op' body w) = requests op w + (if op' = op then 1 else 0)"
  by (simp add: requests_def world_simps)

lemma requests_append [simp]: "requests op (append_row r w) = requests op w"
  by (simp add: requests_def world_simps)

lemma entries_append: "entries kind (append_row r w) = entries kind w + (if row_op r = kind then 1 else 0)"
  by (simp add: entries_def world_simps)

lemma entries_post [simp]: "entries kind (post_request op body w) = entries kind w"
  by (simp add: entries_def world_simps)

lemma logs_fire:
  assumes "request_for (row_op r) op body"
  shows "logs w (post_request op body (append_row r w))"
proof -
  have "row_op r = k" if "(k, op) \<in> set TRANSACTIONS" for k
    using request_transaction [OF assms] that transaction_row by (fastforce simp: list_all_iff)
  then show ?thesis by (auto simp: logs_def list_all_iff requests_post entries_append)
qed

lemma logs_scan: "logs w (post_request ''reclaim/scan'' [] w)"
  by (auto simp: logs_def list_all_iff requests_post TRANSACTIONS_def)

lemma not_halt_op: "k \<in> fst ` set TRANSACTIONS \<Longrightarrow> k \<noteq> halt_op kind"
  by (auto simp: halt_op_def TRANSACTIONS_def)

lemma logs_clear: "logs w (w\<lparr> ops := filter (\<lambda>r. \<not> is_halt pid kind r) (ops w) \<rparr>)"
proof -
  have "filter (\<lambda>r. row_op r = k \<and> \<not> is_halt pid kind r) (ops w) = filter (\<lambda>r. row_op r = k) (ops w)"
    if "k \<in> fst ` set TRANSACTIONS" for k
    using not_halt_op [OF that, of kind] by (intro filter_cong) (auto simp: is_halt_def)
  then have "entries k (w\<lparr> ops := filter (\<lambda>r. \<not> is_halt pid kind r) (ops w) \<rparr>) = entries k w"
    if "(k, op) \<in> set TRANSACTIONS" for k op
    using imageI [OF that, of fst] by (simp add: entries_def conj_commute)
  then show ?thesis by (auto simp: logs_def list_all_iff requests_def)
qed

lemma logs_refl: "logs w w"
  by (simp add: logs_def list_all_iff)

interpretation audit: operator_logic logs request_for
proof unfold_locales
  show "logs w (w\<lparr> ops := map (close_row i result a d s now) (ops w) \<rparr>)" for w i result a d s now
    by (rule logs_same) (simp_all add: comp_def)
qed (rule logs_refl logs_trans logs_append logs_fire logs_scan logs_clear; assumption | simp add: logs_same world_simps request_for_def)+

text \<open>
  C12. No transaction without its ledger row: whatever the store, the sidecar, the clock and the operator do,
  in every world a run of the keeper reaches the requests of each transacting verb are at most the rows of
  its kind.
\<close>

theorem transactions_logged:
  assumes "keeper_reaches E pids w v" and "ids_ok w" and "audited w"
  shows "audited v"
  using audit.reaches_keeps [OF assms(1,2)] logs_audited assms(3) by blast

theorem transactions_logged_witness:
  "audited (snd (keeper_cycle demo [''p''] blank)) \<and> requests ''deposit'' (snd (keeper_cycle demo [''p''] blank)) = 1"
  using transactions_logged [OF keeper_cycles [OF keeper_start], of blank demo "[''p'']"] demo_deposits
  by (simp add: requests_def ids_ok_def audited_def entries_def TRANSACTIONS_def blank_def)

section \<open>Requests stay within their limits\<close>

definition within_limits :: "string \<times> dict \<Rightarrow> bool" where
  "within_limits q \<longleftrightarrow> q = (''reclaim/scan'', []) \<or> (\<exists>kind. request_for kind (fst q) (snd q))"

definition sends_within :: "world \<Rightarrow> world \<Rightarrow> bool" where
  "sends_within w v \<longleftrightarrow> (\<exists>later. sent v = sent w @ later \<and> list_all within_limits later)"

lemma sends_same: "sent v = sent w \<Longrightarrow> sends_within w v"
  by (simp add: sends_within_def)

lemma sends_trans: "sends_within u v \<Longrightarrow> sends_within v w \<Longrightarrow> sends_within u w"
  by (auto simp: sends_within_def)

lemma sends_one: "sent v = sent w @ [q] \<Longrightarrow> within_limits q \<Longrightarrow> sends_within w v"
  by (simp add: sends_within_def)

interpretation limits: operator_logic sends_within request_for
proof unfold_locales
  show "sends_within w (post_request ''reclaim/scan'' [] w)" for w
    by (rule sends_one [where q = "(''reclaim/scan'', [])"]) (auto simp: within_limits_def world_simps)
  show "sends_within w (post_request op body (append_row r w))" if "request_for (row_op r) op body" for r w op body
    using that by (intro sends_one) (auto simp: within_limits_def world_simps)
qed (auto simp: sends_same world_simps request_for_def intro: sends_trans)

lemma within_limitsD:
  assumes "within_limits (op, body)"
  shows "op \<in> set ALLOWED_CONTROL_OPS"
    and "op = ''deposit'' \<Longrightarrow> \<exists>a. \<not> f_lt MAX_TOPUP_USDC a \<and> body = [(''amount'', JStr (fixed 6 a))]"
    and "op \<in> {''reclaim/withdraw'', ''reclaim/request-close''} \<Longrightarrow>
      \<exists>ids. ids \<noteq> [] \<and> length ids \<le> MAX_TX_PER_CYCLE \<and> list_all channel_id_ok ids \<and> body = [(''ids'', JList (map JStr ids))]"
  using assms unfolding within_limits_def request_for_def deposit_request_def reclaim_request_def ALLOWED_CONTROL_OPS_def
  by auto

text \<open>
  C13. The blast radius of the keeper: in every run each request goes to an allowlisted verb, a deposit is
  for an amount not above the hard limit of 50 USDC, and a transaction on payment channels names at least
  one and at most eight well-formed channels. Escrow is never withdrawn to the wallet.
\<close>

theorem requests_bounded:
  assumes "keeper_reaches E pids w v" and "ids_ok w" and "sent w = []" and "(op, body) \<in> set (sent v)"
  shows "op \<in> set ALLOWED_CONTROL_OPS \<and> op \<notin> set FORBIDDEN_CONTROL_OPS
    \<and> (op = ''deposit'' \<longrightarrow> (\<exists>a. \<not> f_lt MAX_TOPUP_USDC a \<and> body = [(''amount'', JStr (fixed 6 a))]))
    \<and> (op \<in> {''reclaim/withdraw'', ''reclaim/request-close''} \<longrightarrow>
        (\<exists>ids. ids \<noteq> [] \<and> length ids \<le> MAX_TX_PER_CYCLE \<and> list_all channel_id_ok ids \<and> body = [(''ids'', JList (map JStr ids))]))"
proof -
  have q: "within_limits (op, body)"
    using limits.reaches_keeps [OF assms(1,2)] assms(3,4) by (auto simp: sends_within_def list_all_iff)
  have "op \<notin> set FORBIDDEN_CONTROL_OPS"
    using within_limitsD(1) [OF q] by (auto simp: ALLOWED_CONTROL_OPS_def FORBIDDEN_CONTROL_OPS_def)
  with within_limitsD [OF q] show ?thesis by blast
qed

theorem requests_bounded_witness:
  "''deposit'' \<in> set ALLOWED_CONTROL_OPS \<and> ''deposit'' \<notin> set FORBIDDEN_CONTROL_OPS
    \<and> (\<exists>a. \<not> f_lt MAX_TOPUP_USDC a \<and> [(''amount'', JStr ''5.000000'')] = [(''amount'', JStr (fixed 6 a))])"
  using requests_bounded [OF keeper_cycles [OF keeper_start], of blank "''deposit''" "[(''amount'', JStr ''5.000000'')]" demo "[''p'']"]
    demo_deposits by (simp add: ids_ok_def blank_def)

section \<open>Outcomes are final\<close>

definition same_op :: "op_row \<Rightarrow> op_row \<Rightarrow> bool" where
  "same_op r q \<longleftrightarrow> row_id q = row_id r \<and> row_ts q = row_ts r \<and> row_pid q = row_pid r \<and> row_op q = row_op r
     \<and> amount_usdc q = amount_usdc r \<and> (outcome r \<in> set TERMINAL_OUTCOMES \<longrightarrow> outcome q = outcome r)"

definition remembers :: "world \<Rightarrow> world \<Rightarrow> bool" where
  "remembers w v \<longleftrightarrow> (\<forall>r \<in> set (ops w). outcome r \<noteq> ''halted'' \<longrightarrow> (\<exists>q \<in> set (ops v). outcome q \<noteq> ''halted'' \<and> same_op r q))"

lemma same_op_refl [simp]: "same_op r r"
  by (simp add: same_op_def)

lemma same_op_trans: "same_op p q \<Longrightarrow> same_op q r \<Longrightarrow> same_op p r"
  by (simp add: same_op_def)

lemma remembers_trans: "remembers u v \<Longrightarrow> remembers v w \<Longrightarrow> remembers u w"
  unfolding remembers_def by (blast intro: same_op_trans)

lemma remembers_subset: "set (ops w) \<subseteq> set (ops v) \<Longrightarrow> remembers w v"
  by (auto simp: remembers_def intro: bexI [of _ r for r])

lemma remembers_close:
  assumes "open_row i w" and "result \<in> set CLOSE_RESULTS"
  shows "remembers w (w\<lparr> ops := map (close_row i result a d s now) (ops w) \<rparr>)"
proof -
  have "outcome (close_row i result a d s now r) \<noteq> ''halted'' \<and> same_op r (close_row i result a d s now r)"
    if "r \<in> set (ops w)" "outcome r \<noteq> ''halted''" for r
    using assms that by (auto simp: same_op_def close_row_def open_row_def CLOSE_RESULTS_def TERMINAL_OUTCOMES_def)
  then show ?thesis by (auto simp: remembers_def)
qed

interpretation memory: operator_logic remembers request_for
proof unfold_locales
  show "remembers w (w\<lparr> ops := map (close_row i result a d s now) (ops w) \<rparr>)"
    if "open_row i w" "result \<in> set CLOSE_RESULTS" for w i result a d s now
    using that by (rule remembers_close)
  show "remembers w (w\<lparr> ops := filter (\<lambda>r. \<not> is_halt pid kind r) (ops w) \<rparr>)" for w pid kind
    by (auto simp: remembers_def is_halt_def)
  show "remembers u v \<Longrightarrow> remembers v w \<Longrightarrow> remembers u w" for u v w
    by (rule remembers_trans)
qed (auto simp: request_for_def world_simps intro!: remembers_subset)



section \<open>A halt stops deposits\<close>

definition stays_halted :: "world \<Rightarrow> world \<Rightarrow> bool" where
  "stays_halted w v \<longleftrightarrow> (\<forall>pid kind. halted_in pid kind (ops w) \<longrightarrow> halted_in pid kind (ops v))"

lemma stays_halted_close:
  assumes "open_row i w"
  shows "stays_halted w (w\<lparr> ops := map (close_row i result a d s now) (ops w) \<rparr>)"
proof -
  have "is_halt pid kind (close_row i result a d s now r)" if "r \<in> set (ops w)" "is_halt pid kind r" for pid kind r
    using assms that by (auto simp: open_row_def is_halt_def close_row_def)
  then show ?thesis by (auto simp: stays_halted_def halted_in_def list_ex_iff)
qed

interpretation halt: keeper_logic stays_halted request_for
proof unfold_locales
  show "stays_halted w (w\<lparr> ops := map (close_row i result a d s now) (ops w) \<rparr>)"
    if "open_row i w" for w i result a d s now
    using that by (rule stays_halted_close)
qed (auto simp: stays_halted_def halted_in_def world_simps request_for_def)

definition calmly :: "world \<Rightarrow> world \<Rightarrow> bool" where
  "calmly w v \<longleftrightarrow> stays_halted w v \<and> requests ''deposit'' v = requests ''deposit'' w"

interpretation calm: reclaim_logic calmly reclaim_request
proof unfold_locales
  show "calmly w (w\<lparr> ops := map (close_row i result a d s now) (ops w) \<rparr>)"
    if "open_row i w" for w i result a d s now
    using stays_halted_close [OF that] by (simp add: calmly_def requests_def)
qed (auto simp: calmly_def stays_halted_def halted_in_def requests_def world_simps reclaim_request_def)

lemma halted_reads_true: "halted_in pid kind (ops w) \<Longrightarrow> wallet_halted E pid kind w = (Inr True, next_tick w)"
  by (simp add: wallet_halted_def with_store_def query_def next_tick_def)

lemma halted_no_topup:
  assumes "halted_in pid ''topup'' (ops w)"
  shows "maybe_topup E pid k available reserved w \<in> {(Inr ''funded'', w), (Inr ''halted'', next_tick w)}"
  using halted_reads_true [OF assms] by (simp add: maybe_topup_def pbind_def pret_def)

lemma calm_provider:
  "calm.keeps_from (\<lambda>w. halted_in pid ''topup'' (ops w)) (cycle_provider E pid k)"
proof -
  let ?P = "\<lambda>w. halted_in pid ''topup'' (ops w)"
  have stable: "?P w \<Longrightarrow> calmly w v \<Longrightarrow> ?P v" for w v by (simp add: calmly_def stays_halted_def)
  have "calm.keeps_from ?P (maybe_topup E pid k available reserved)" for available reserved
    unfolding calm.keeps_from_def using halted_no_topup [of pid _ E k available reserved] calm.R_refl calm.R_tick by fastforce
  then have "calm.keeps_from ?P (act_on E pid k available reserved)" for available reserved
    unfolding act_on_def
    by (intro calm.keeps_bind_stable [OF stable] calm.keeps_from_branches calm.keeps_weaken [OF calm.keeps_reconcile]
        calm.keeps_weaken [OF calm.keeps_settle] calm.keeps_weaken [OF calm.keeps_reclaim])
  then show ?thesis
    unfolding cycle_provider_def status_age_s_def Let_def
    by (intro calm.keeps_bind_stable [OF stable] calm.keeps_from_branches calm.keeps_weaken [OF calm.keeps_tables(1)]
        calm.keeps_weaken [OF calm.keeps_pure(2)] calm.keeps_weaken [OF calm.keeps_readings(1)])
qed

text \<open>
  C20. A halt of deposits holds: a cycle on a provider whose top-ups are halted sends no deposit, whatever its
  balances, and leaves the halt in place; only the operator's clearing removes it.
\<close>

theorem halt_stops_deposits:
  assumes "halted_in pid ''topup'' (ops w)" and "ids_ok w" and "cycle_provider E pid k w = (res, v)"
  shows "requests ''deposit'' v = requests ''deposit'' w \<and> halted_in pid ''topup'' (ops v)"
  using calm_provider [of pid E k] assms unfolding calm.keeps_from_def calmly_def stays_halted_def by fastforce

theorem halt_stops_deposits_witness:
  "let v = snd (cycle_provider demo ''p'' demo_knobs (demo_world [demo_row 1 ''halt:topup'' ''halted''])) in
    requests ''deposit'' v = 0 \<and> halted_in ''p'' ''topup'' (ops v)"
proof -
  let ?w = "demo_world [demo_row 1 ''halt:topup'' ''halted'']"
  have "halted_in ''p'' ''topup'' (ops ?w)" "ids_ok ?w" "requests ''deposit'' ?w = 0"
    by (simp_all add: halted_in_def is_halt_def halt_op_def demo_world_def demo_row_def ids_ok_def requests_def blank_def)
  with halt_stops_deposits [OF this(1,2) prod.collapse [symmetric], of demo demo_knobs] show ?thesis by (simp add: Let_def)
qed

end
