(* ===== verification/WalletDeposits.thy ===== *)
theory WalletDeposits
  imports WalletSafety WalletDemo
begin

text \<open>
  What a deposit needs, what a cycle reports, and what clearing a halt does. The readings of one attempt are
  taken at successive ticks, so the guards are stated at the tick each one reads.
\<close>

section \<open>Readings as equations\<close>

lemma tick_sel [simp]:
  "ticks (next_tick w) = Suc (ticks w)" "ops (next_tick w) = ops w" "sent (next_tick w) = sent w"
  "op_next (next_tick w) = op_next w" "keeper_state (next_tick w) = keeper_state w"
  by (simp_all add: next_tick_def)

lemma unix_now_eq: "unix_now E w = (Inr (trunc (clock E (ticks w))), next_tick w)"
  by (simp add: unix_now_def pbind_def time_now_def pret_def)

lemma halted_eq: "wallet_halted E pid kind w = (Inr (store_up E (ticks w) \<longrightarrow> halted_in pid kind (ops w)), next_tick w)"
  by (simp add: wallet_halted_def with_store_def query_def)

lemma spend_eq: "wallet_op_spend_since E pid op since w =
   (Inr (if store_up E (Suc (ticks w)) then spend_of (filter (counts_spent pid op since) (ops w))
         else \<lparr> spent_usdc = PInf, last_spent = Some (trunc (clock E (ticks w))), spend_count = -1 \<rparr>),
    next_tick (next_tick w))"
  by (simp add: wallet_op_spend_since_def pbind_def unix_now_eq with_store_def query_def)

definition terminal_rows :: "string \<Rightarrow> string \<Rightarrow> int \<Rightarrow> op_row list \<Rightarrow> op_row list" where
  "terminal_rows pid op limit = newest (bounded_limit 100 limit) (\<lambda>r. row_pid r = pid \<and> row_op r = op \<and> outcome r \<in> set TERMINAL_OUTCOMES)"

definition settled_rows :: "string \<Rightarrow> string \<Rightarrow> int \<Rightarrow> op_row list \<Rightarrow> op_row list" where
  "settled_rows pid op limit = newest (bounded_limit 100 limit) (\<lambda>r. row_pid r = pid \<and> row_op r = op \<and> outcome r \<in> set SETTLED_OUTCOMES)"

lemma terminal_eq: "wallet_ops_terminal E pid op limit w =
   (Inr (if store_up E (ticks w) then terminal_rows pid op limit (ops w) else []), next_tick w)"
  by (simp add: wallet_ops_terminal_def with_store_def query_def terminal_rows_def)

lemma settled_eq: "wallet_ops_settled E pid op limit w =
   (Inr (if store_up E (ticks w) then settled_rows pid op limit (ops w) else []), next_tick w)"
  by (simp add: wallet_ops_settled_def with_store_def query_def settled_rows_def)

text \<open>The ledger keeps the ledger: a halt is one row more, nothing sent.\<close>

lemma halt_sent: "sent (snd (wallet_halt E pid kind reason w)) = sent w"
  by (simp add: wallet_halt_def pbind_def unix_now_eq with_store_def query_def pret_def insert_row_def)

lemma finish_sent: "sent (snd (wallet_op_finish E i result a d s w)) = sent w"
  by (simp add: wallet_op_finish_def with_store_def pbind_def unix_now_eq pret_def change_ops_def)

lemma bind_pret_sent: "sent (snd (pbind m (\<lambda>x. pret (f x)) w)) = sent (snd (m w))"
  by (simp add: pbind_def pret_def split: prod.splits sum.splits)

lemma cap_reached_sent: "sent (snd (cap_reached E pid k spent w)) = sent w"
proof -
  have "sent (snd (halt_topups E pid d why w)) = sent w" for d why w
    unfolding halt_topups_def by (simp only: bind_pret_sent halt_sent)
  then show ?thesis
    by (simp add: cap_reached_def error_strikes_def pbind_def terminal_eq plift_def pret_def split: sum.splits)
qed

lemma control_allowed: "op \<in> set ALLOWED_CONTROL_OPS \<Longrightarrow> control E op body = control_post E op body"
  by (auto simp: control_def ALLOWED_CONTROL_OPS_def FORBIDDEN_CONTROL_OPS_def)

lemma post_sends: "sent (snd (control_post E op body w)) \<in> {sent w, sent w @ [(op, body)]}"
  by (simp add: control_post_def Let_def pret_def split: option.splits http.splits)

lemma guarded_sends:
  assumes "op \<in> set ALLOWED_CONTROL_OPS" and f: "\<And>resp v. sent (snd (f resp v)) = sent v"
  shows "sent (snd (pbind (guarded E i (control E op body)) f w)) \<in> {sent w, sent w @ [(op, body)]}"
proof -
  have c: "sent (snd (pbind m (\<lambda>_. plift r) v)) = sent (snd (m v))" for m :: "bool prog" and r :: "dict res" and v
    by (simp add: pbind_def plift_def split: prod.splits sum.splits)
  have "sent (snd (guarded E i (control_post E op body) w)) = sent (snd (control_post E op body w))"
    by (simp add: guarded_def pcatch_def c finish_sent split: prod.splits sum.splits)
  moreover have "sent (snd (pbind m f v)) = sent (snd (m v))" for m v
    using f by (simp add: pbind_def split: prod.splits sum.splits)
  ultimately show ?thesis using post_sends by (simp add: control_allowed assms(1))
qed

lemma fire_topup_sends:
  assumes "sent (snd (fire_topup E pid k available reserved w)) \<noteq> sent w"
  shows "store_up E (Suc (ticks w))
    \<and> sent (snd (fire_topup E pid k available reserved w)) = sent w @ [(''deposit'', [(''amount'', JStr (fixed 6 (topup_amount k)))])]"
proof (cases "store_up E (Suc (ticks w))")
  case True
  let ?i = "op_next w" and ?body = "[(''amount'', JStr (fixed 6 (topup_amount k)))]"
  let ?f = "\<lambda>i resp. let result = outcome_for resp in
      if result = ''fired'' then
        pbind (wallet_op_finish E i ''fired'' None (Some (py_str (py_or (dget resp ''stdout'') (JStr [])))) None) (\<lambda>_. pret ''topup_fired'')
      else pbind (wallet_op_finish E i result None (Some (py_str (dget resp ''error''))) None)
        (\<lambda>_. pret (if result = ''unknown'' then ''topup_unknown'' else ''topup_failed''))"
  have f: "sent (snd (?f i resp v)) = sent v" for i resp v
    by (simp add: Let_def bind_pret_sent finish_sent)
  obtain u where u: "snd (fire_topup E pid k available reserved w) = snd (pbind (guarded E ?i (control E ''deposit'' ?body)) (?f ?i) u)"
    and "sent u = sent w"
    using True by (simp add: fire_topup_def Let_def pbind_def [of "wallet_op_begin _ _ _ _ _ _ _"] begin_eq append_row_def)
  then show ?thesis
    using True assms guarded_sends [of "''deposit''" "?f ?i" E ?i ?body u, OF _ f]
    by (simp add: ALLOWED_CONTROL_OPS_def)
next
  case False
  then show ?thesis using assms by (simp add: fire_topup_def pbind_def begin_eq pret_def Let_def)
qed

section \<open>The guards of a deposit\<close>

definition day_spend :: "outside \<Rightarrow> string \<Rightarrow> world \<Rightarrow> spend" where
  "day_spend E pid w = spend_of (filter (counts_spent pid ''topup'' (trunc (clock E (Suc (ticks w))) - 86400)) (ops w))"

text \<open>What \<open>retry_gate\<close> lets pass at tick \<open>t\<close>, from what was spent.\<close>

definition may_retry :: "outside \<Rightarrow> string \<Rightarrow> knobs \<Rightarrow> spend \<Rightarrow> nat \<Rightarrow> op_row list \<Rightarrow> bool" where
  "may_retry E pid k spent t rows =
     ((case last_spent spent of None \<Rightarrow> True | Some x \<Rightarrow> k_cooldown k \<le> trunc (clock E t) - x)
      \<and> (let past = (if store_up E (Suc t) then terminal_rows pid ''topup'' TOPUP_ERROR_STRIKES_TO_HALT rows else []);
             strikes = consecutive past ERROR_OUTCOMES in
         strikes \<noteq> 0 \<longrightarrow> backoff_s k strikes \<le> trunc (clock E t) - last_touch (hd past)))"

lemma retry_gate_eq: "retry_gate E pid k spent w =
  (if (case last_spent spent of None \<Rightarrow> False | Some x \<Rightarrow> trunc (clock E (ticks w)) - x < k_cooldown k)
   then (Inr (Some ''cooldown''), next_tick w)
   else (Inr (if may_retry E pid k spent (ticks w) (ops w) then None else Some ''backoff''), next_tick (next_tick w)))"
  by (auto simp: retry_gate_def pbind_def unix_now_eq terminal_eq pret_def may_retry_def Let_def not_less split: option.splits)

definition wallet_reading :: "outside \<Rightarrow> string \<Rightarrow> nat \<Rightarrow> pyfloat option res" where
  "wallet_reading E pid t = (let bal = chain_row E t pid; stamped = dget bal ''fetched_at'' in
     rbind (if \<not> is_number stamped then Inr (JObj [])
       else rbind (float_of stamped) (\<lambda>f. Inr (if f_lt (Fin CHAIN_READ_MAX_AGE_S) (f_sub (Fin (clock E (Suc t))) f)
         then JObj [] else py_or (dget bal ''detail'') (JObj [])))) (\<lambda>view. rbind (vget view ''wallet_usdc'') as_float))"

lemma chain_view_reading:
  "pbind (chain_view E pid) (\<lambda>view. pbind (plift (rbind (vget view ''wallet_usdc'') as_float)) f) w =
    (case wallet_reading E pid (ticks w) of
      Inl e \<Rightarrow> (Inl e, snd (chain_view E pid w))
    | Inr x \<Rightarrow> f x (snd (chain_view E pid w)))"
  by (auto simp: chain_view_def wallet_reading_def chain_row_now_def time_now_def pbind_def plift_def pret_def Let_def rbind_def
      split: sum.splits)

lemma chain_view_sel: "sent (snd (chain_view E pid w)) = sent w" "ops (snd (chain_view E pid w)) = ops w"
  by (simp_all add: chain_view_def chain_row_now_def time_now_def pbind_def plift_def pret_def Let_def split: sum.splits)

text \<open>The rest of \<open>maybe_topup\<close>, from the tick the retry gate reads.\<close>

definition gated :: "outside \<Rightarrow> string \<Rightarrow> knobs \<Rightarrow> pyfloat \<Rightarrow> pyfloat option \<Rightarrow> spend \<Rightarrow> string prog" where
  "gated E pid k available reserved spent = pbind (retry_gate E pid k spent) (\<lambda>waiting. case waiting of
      Some reason \<Rightarrow> pret reason
    | None \<Rightarrow>
        if f_lt (k_daily_cap k) (f_add (spent_usdc spent) (k_amount k)) then cap_reached E pid k spent
        else if f_lt (topup_amount k) MIN_TOPUP_USDC then pret ''amount_too_small''
        else pbind (chain_view E pid) (\<lambda>view. pbind (plift (rbind (vget view ''wallet_usdc'') as_float)) (\<lambda>wallet.
          case wallet of
            None \<Rightarrow> pret ''wallet_unreadable''
          | Some usdc \<Rightarrow>
              if f_lt (f_sub usdc (topup_amount k)) (k_wallet_floor k) then pret ''wallet_floor''
              else fire_topup E pid k available reserved)))"

lemma gated_sends:
  assumes "sent (snd (gated E pid k available reserved spent w)) \<noteq> sent w"
  shows "may_retry E pid k spent (ticks w) (ops w) \<and> \<not> f_lt (k_daily_cap k) (f_add (spent_usdc spent) (k_amount k))
    \<and> \<not> f_lt (topup_amount k) MIN_TOPUP_USDC
    \<and> (\<exists>usdc. wallet_reading E pid (Suc (Suc (ticks w))) = Inr (Some usdc) \<and> \<not> f_lt (f_sub usdc (topup_amount k)) (k_wallet_floor k))
    \<and> sent (snd (gated E pid k available reserved spent w)) = sent w @ [(''deposit'', [(''amount'', JStr (fixed 6 (topup_amount k)))])]"
proof -
  let ?w = "next_tick (next_tick w)" and ?v = "snd (chain_view E pid (next_tick (next_tick w)))"
  note bind_gate = gated_def pbind_def [of "retry_gate E pid k spent"]
  have gate: "retry_gate E pid k spent w = (Inr None, ?w)" "may_retry E pid k spent (ticks w) (ops w)"
    using assms by (auto simp: bind_gate retry_gate_eq pret_def split: if_splits)
  then have cap: "\<not> f_lt (k_daily_cap k) (f_add (spent_usdc spent) (k_amount k))"
    using assms by (auto simp: bind_gate cap_reached_sent)
  then have amount: "\<not> f_lt (topup_amount k) MIN_TOPUP_USDC"
    using assms gate by (auto simp: bind_gate pret_def)
  then obtain usdc where usdc: "wallet_reading E pid (Suc (Suc (ticks w))) = Inr (Some usdc)"
      "\<not> f_lt (f_sub usdc (topup_amount k)) (k_wallet_floor k)"
    and m: "gated E pid k available reserved spent w = fire_topup E pid k available reserved ?v"
    using assms gate cap
    by (auto simp: bind_gate chain_view_reading chain_view_sel pret_def split: sum.splits option.splits if_splits)
  moreover have "sent ?v = sent w" by (simp add: chain_view_sel)
  ultimately show ?thesis
    using assms gate(2) cap amount fire_topup_sends [of E pid k available reserved ?v] by simp
qed

lemma deposit_guards:
  assumes sends: "sent (snd (maybe_topup E pid k available reserved w)) \<noteq> sent w"
    and "f_finite (k_daily_cap k)" and "f_finite (k_amount k)"
  shows "\<not> f_le (k_trigger k) available \<and> store_up E (ticks w) \<and> \<not> halted_in pid ''topup'' (ops w)
    \<and> \<not> f_lt (k_daily_cap k) (f_add (spent_usdc (day_spend E pid w)) (k_amount k))
    \<and> may_retry E pid k (day_spend E pid w) (ticks w + 4) (ops w)
    \<and> \<not> f_lt (topup_amount k) MIN_TOPUP_USDC
    \<and> (\<exists>usdc. wallet_reading E pid (ticks w + 6) = Inr (Some usdc) \<and> \<not> f_lt (f_sub usdc (topup_amount k)) (k_wallet_floor k))
    \<and> sent (snd (maybe_topup E pid k available reserved w)) = sent w @ [(''deposit'', [(''amount'', JStr (fixed 6 (topup_amount k)))])]"
proof -
  let ?spent = "if store_up E (ticks w + 3) then day_spend E pid w
    else \<lparr> spent_usdc = PInf, last_spent = Some (trunc (clock E (ticks w + 2))), spend_count = -1 \<rparr>"
  let ?v = "next_tick (next_tick (next_tick (next_tick w)))"
  obtain c a where fin: "k_daily_cap k = Fin c" "k_amount k = Fin a" using assms(2,3) by (auto simp: f_finite_iff)
  have short: "\<not> f_le (k_trigger k) available" using sends by (auto simp: maybe_topup_def pret_def)
  moreover have up: "store_up E (ticks w)" "\<not> halted_in pid ''topup'' (ops w)"
    using sends by (auto simp: maybe_topup_def pbind_def pret_def halted_eq split: if_splits)
  ultimately have m: "maybe_topup E pid k available reserved w = gated E pid k available reserved ?spent ?v"
    unfolding maybe_topup_def gated_def
    by (simp add: pbind_def [of "wallet_halted _ _ _"] pbind_def [of "unix_now _"] pbind_def [of "wallet_op_spend_since _ _ _ _"]
        halted_eq unix_now_eq spend_eq day_spend_def numeral_eq_Suc)
  have s: "sent w = sent ?v" by simp
  note g = gated_sends [OF sends [unfolded m s]]
  then have "store_up E (ticks w + 3)" by (auto simp: fin f_lt_def split: if_splits)
  then have "?spent = day_spend E pid w" by simp
  with g short up show ?thesis unfolding m s by (simp add: numeral_eq_Suc)
qed

text \<open>
  C1. The daily cap binds: a top-up sends at most one request, the configured amount, and only when the
  ledger was readable and shows no halt, and what the last 24 hours' rows count as spent plus the amount is
  within the cap. A store that does not answer is a full cap.
\<close>

theorem deposit_within_daily_cap:
  assumes "maybe_topup E pid k available reserved w = (res, v)" and "sent v \<noteq> sent w"
    and "f_finite (k_daily_cap k)" and "f_finite (k_amount k)"
  shows "sent v = sent w @ [(''deposit'', [(''amount'', JStr (fixed 6 (topup_amount k)))])]
    \<and> store_up E (ticks w) \<and> \<not> halted_in pid ''topup'' (ops w) \<and> \<not> f_le (k_trigger k) available
    \<and> \<not> f_lt (k_daily_cap k) (f_add (spent_usdc (spend_of
        (filter (counts_spent pid ''topup'' (trunc (clock E (Suc (ticks w))) - 86400)) (ops w)))) (k_amount k))"
  using deposit_guards [of E pid k available reserved w] assms by (simp add: day_spend_def)

theorem deposit_within_daily_cap_witness:
  "let v = snd (maybe_topup demo ''p'' demo_knobs (Fin 2) (Some (Fin 0)) blank) in
    sent v = [(''deposit'', [(''amount'', JStr (fixed 6 (topup_amount demo_knobs)))])]
    \<and> \<not> f_lt (Fin 20) (f_add (spent_usdc (spend_of [])) (Fin 5))"
  using deposit_within_daily_cap [OF prod.collapse [symmetric], of demo "''p''" demo_knobs "Fin 2" "Some (Fin 0)" blank] demo_topup
  by (simp add: blank_def demo_knobs_def Let_def)

text \<open>
  The wallet keeps its floor: a deposit goes out only on a chain reading that carries a numeric stamp,
  is at most 900 seconds old when it is read, and leaves at least the floor after the amount.
\<close>

lemma deposit_spares_wallet:
  assumes "maybe_topup E pid k available reserved w = (res, v)" and "sent v \<noteq> sent w"
    and "f_finite (k_daily_cap k)" and "f_finite (k_amount k)"
  shows "let bal = chain_row E (ticks w + 6) pid in
    is_number (dget bal ''fetched_at'')
    \<and> (\<exists>f usdc. float_of (dget bal ''fetched_at'') = Inr f
      \<and> \<not> f_lt (Fin 900) (f_sub (Fin (clock E (ticks w + 7))) f)
      \<and> rbind (vget (dget bal ''detail'') ''wallet_usdc'') as_float = Inr (Some usdc)
      \<and> \<not> f_lt (f_sub usdc (topup_amount k)) (k_wallet_floor k))"
proof -
  let ?bal = "chain_row E (ticks w + 6) pid"
  obtain usdc where r: "wallet_reading E pid (ticks w + 6) = Inr (Some usdc)"
    and fl: "\<not> f_lt (f_sub usdc (topup_amount k)) (k_wallet_floor k)"
    using deposit_guards [of E pid k available reserved w] assms by auto
  have no: "rbind (vget (JObj []) ''wallet_usdc'') as_float = Inr None"
    by (simp add: vget_def rbind_def as_float_def)
  have num: "is_number (dget ?bal ''fetched_at'')"
    using r no by (auto simp: wallet_reading_def Let_def rbind_def split: if_splits)
  with r obtain f where f: "float_of (dget ?bal ''fetched_at'') = Inr f"
    by (cases "float_of (dget ?bal ''fetched_at'')") (auto simp: wallet_reading_def Let_def rbind_def)
  with r num no have fresh: "\<not> f_lt (Fin 900) (f_sub (Fin (clock E (ticks w + 7))) f)"
    by (auto simp: wallet_reading_def Let_def rbind_def CHAIN_READ_MAX_AGE_S_def numeral_eq_Suc split: if_splits)
  with r num f no have "rbind (vget (py_or (dget ?bal ''detail'') (JObj [])) ''wallet_usdc'') as_float = Inr (Some usdc)"
    by (simp add: wallet_reading_def Let_def rbind_def CHAIN_READ_MAX_AGE_S_def numeral_eq_Suc)
  with no have "rbind (vget (dget ?bal ''detail'') ''wallet_usdc'') as_float = Inr (Some usdc)"
    by (auto simp: py_or_def split: if_splits)
  with num f fresh fl show ?thesis by (auto simp: Let_def)
qed

lemma max_ts_ge: "r \<in> set rows \<Longrightarrow> \<exists>t. max_ts rows = Some t \<and> row_ts r \<le> t"
  by (auto simp: max_ts_def)



section \<open>What a failure says\<close>

lemma reply_failed:
  assumes "dget resp ''attempted'' = JBool False" and "\<not> truthy (dget resp ''ok'')" and "resp = read_reply code content page"
  shows "code \<in> set NOT_ATTEMPTED_STATUSES \<or> (\<exists>d. content = Some (JObj d) \<and> dget d ''attempted'' = JBool False)"
proof -
  let ?sent_back = "case content of None \<Rightarrow> JNull | Some v \<Rightarrow> py_or v (JObj [])"
  have body: "content = Some (JObj d)" if "?sent_back = JObj d" "d \<noteq> []" for d
    using that by (auto simp: py_or_def split: option.splits if_splits)
  show ?thesis
  proof (cases "is_obj ?sent_back")
    case True
    then obtain d where d: "?sent_back = JObj d" by (cases ?sent_back) auto
    show ?thesis
    proof (cases "dget d ''attempted'' = JBool False")
      case True
      then have "d \<noteq> []" by auto
      with True body [OF d] show ?thesis by blast
    next
      case False
      have "code \<noteq> 200"
      proof
        assume "code = 200"
        with d assms(3) have r: "resp = (let d = (if has_key d ''ok'' then d else dset ''ok'' (JBool True) d) in
            if has_key d ''attempted'' then d else dset ''attempted'' (JBool True) d)" by (simp add: read_reply_def)
        with False assms(1) show False by (simp add: Let_def dget_dset split: if_splits)
      qed
      with assms(1,3) d False show ?thesis
        by (cases "dget d ''attempted''") (auto simp: read_reply_def Let_def)
    qed
  next
    case False
    then show ?thesis using assms by (auto simp: read_reply_def Let_def refused_def split: if_splits)
  qed
qed

text \<open>
  A deposit is written off as failed only on proof: when nothing was sent, or the sidecar answered with
  one of the statuses it gives before it acts, or said itself that it did not attempt the call. Everything
  else stays unknown and keeps counting.
\<close>

lemma failed_not_attempted:
  assumes "control_post E op body w = (Inr resp, v)" and "outcome_for resp = ''failed''"
  shows "sent v = sent w
    \<or> (\<exists>code content page. reply E (ticks w) = Replied code content page
        \<and> (code \<in> set NOT_ATTEMPTED_STATUSES \<or> (\<exists>d. content = Some (JObj d) \<and> dget d ''attempted'' = JBool False)))"
  using assms
proof -
  have f: "dget resp ''attempted'' = JBool False" "\<not> truthy (dget resp ''ok'')"
    using assms(2) by (auto simp: outcome_for_def split: if_splits)
  show ?thesis
  proof (cases "control_endpoint E")
    case (Some e)
    show ?thesis
    proof (cases "reply E (ticks w)")
      case (Replied code content page)
      then have "resp = read_reply code content page"
        using assms(1) Some by (simp add: control_post_def Let_def)
      with f have "code \<in> set NOT_ATTEMPTED_STATUSES \<or> (\<exists>d. content = Some (JObj d) \<and> dget d ''attempted'' = JBool False)"
        by (intro reply_failed)
      with Replied show ?thesis by blast
    next
      case (Misbuilt m)
      then show ?thesis using assms(1) Some by (auto simp: control_post_def Let_def)
    next
      case (NoReply t m)
      then show ?thesis using assms(1) Some f by (auto simp: control_post_def Let_def refused_def)
    next
      case Cancelled
      then show ?thesis using assms(1) Some by (simp add: control_post_def Let_def)
    qed
  next
    case None
    then show ?thesis using assms(1) by (simp add: control_post_def pret_def)
  qed
qed

section \<open>One provider's failure\<close>

lemma isolated_raises: "isolated E k pid w = (Inl e, v) \<Longrightarrow> e = cancelled"
  by (auto simp: isolated_def pcatch_def pret_def plift_def split: prod.splits sum.splits if_splits)

lemma cycle_all_done:
  assumes "cycle_all E k pids done1 w = (res, v)"
  shows "(\<forall>e. res = Inl e \<longrightarrow> e = cancelled) \<and> (\<forall>d. res = Inr d \<longrightarrow> set (keys d) = set (keys done1) \<union> set pids)"
  using assms
proof (induction pids arbitrary: done1 w)
  case (Cons pid pids)
  obtain r u where r: "isolated E k pid w = (r, u)" by (cases "isolated E k pid w")
  show ?case
  proof (cases r)
    case (Inl e)
    then show ?thesis using Cons.prems r isolated_raises by (auto simp: pbind_def)
  next
    case (Inr d)
    then have "cycle_all E k pids (dset pid (JObj d) done1) u = (res, v)" using Cons.prems r by (simp add: pbind_def)
    from Cons.IH [OF this] show ?thesis by (auto simp: keys_dset)
  qed
qed (auto simp: pret_def)

text \<open>
  A cycle isolates its providers: nothing but a cancellation leaves it, and a cycle that ran reports a
  result for every provider of the catalog, and no other, however many of them failed.
\<close>

lemma cycle_isolates:
  assumes "keeper_cycle E pids w = (res, v)"
  shows "case res of Inl e \<Rightarrow> e = cancelled
    | Inr s \<Rightarrow> keeper_state v = s \<and> (\<exists>d. dget s ''providers'' = JObj d
        \<and> set (keys d) = (if dget s ''error'' = JNull \<and> dget s ''enabled'' = JBool True then set pids else {}))"
proof -
  let ?loaded = "pcatch (pbind (load_knobs E) (\<lambda>k. pret (Inr k))) (\<lambda>e. pret (Inl e)) :: (exn + knobs) prog"
  have state: "dget (dupd old (cycle_state now d failure en)) ''providers'' = JObj d"
    "dget (dupd old (cycle_state now d failure en)) ''error'' = failure"
    "dget (dupd old (cycle_state now d failure en)) ''enabled'' = JBool en" for old now d failure en
    by (simp_all add: dget_dupd cycle_state_def)
  have "\<exists>x u. ?loaded (next_tick w) = (Inr x, u)"
    by (auto simp: pcatch_def pret_def split: prod.splits sum.splits)
  then obtain x u where x: "?loaded (next_tick w) = (Inr x, u)" by blast
  show ?thesis
  proof (cases x)
    case (Inl e)
    then show ?thesis
      using assms by (auto simp: keeper_cycle_def pbind_def [of "unix_now E"] pbind_def [of ?loaded] unix_now_eq x report_def Let_def state)
  next
    case (Inr k)
    show ?thesis
    proof (cases "k_enabled k \<and> control_endpoint E \<noteq> None")
      case True
      obtain r u' where r: "cycle_all E k pids [] u = (r, u')" by (cases "cycle_all E k pids [] u")
      show ?thesis
        using assms True Inr cycle_all_done [OF r]
        by (cases r) (auto simp: keeper_cycle_def pbind_def [of "unix_now E"] pbind_def [of ?loaded] pbind_def [of "cycle_all E k pids []"]
            unix_now_eq x r report_def Let_def state)
    next
      case False
      then show ?thesis
        using assms Inr by (cases "k_enabled k"; cases "control_endpoint E") (auto simp: keeper_cycle_def pbind_def [of "unix_now E"] pbind_def [of ?loaded] unix_now_eq x report_def Let_def state)
    qed
  qed
qed

section \<open>Clearing a halt\<close>

definition trips :: "string \<Rightarrow> op_row list \<Rightarrow> bool" where
  "trips pid rows \<longleftrightarrow> pump_halted (settled_rows pid ''topup'' PUMP_STRIKES_TO_HALT rows)
     \<or> TOPUP_ERROR_STRIKES_TO_HALT \<le> consecutive (terminal_rows pid ''topup'' TOPUP_ERROR_STRIKES_TO_HALT rows) ERROR_OUTCOMES"

lemma newest_clear:
  assumes "''halted'' \<notin> set os"
  shows "newest n (\<lambda>r. row_pid r = pid \<and> row_op r = op \<and> outcome r \<in> set os) (filter (\<lambda>r. \<not> is_halt p kind r) rows) =
    newest n (\<lambda>r. row_pid r = pid \<and> row_op r = op \<and> outcome r \<in> set os) rows"
proof -
  have "filter (\<lambda>r. (row_pid r = pid \<and> row_op r = op \<and> outcome r \<in> set os) \<and> \<not> is_halt p kind r) rows =
      filter (\<lambda>r. row_pid r = pid \<and> row_op r = op \<and> outcome r \<in> set os) rows"
    using assms by (intro filter_cong) (auto simp: is_halt_def)
  then show ?thesis by (simp add: newest_def filter_filter conj_commute cong: conj_cong)
qed

lemma trips_clear: "trips pid (filter (\<lambda>r. \<not> is_halt p kind r) rows) = trips pid rows"
proof -
  have "''halted'' \<notin> set SETTLED_OUTCOMES" "''halted'' \<notin> set TERMINAL_OUTCOMES"
    by (simp_all add: SETTLED_OUTCOMES_def TERMINAL_OUTCOMES_def)
  then show ?thesis by (simp add: trips_def settled_rows_def terminal_rows_def newest_clear)
qed

lemma halt_halts:
  assumes "store_up E = (\<lambda>_. True)"
  shows "halted_in pid kind (ops (snd (wallet_halt E pid kind reason w)))"
  using assms by (auto simp: wallet_halt_def pbind_def unix_now_eq with_store_def query_def pret_def insert_row_def
      halted_in_def is_halt_def)

lemma halt_topups_eq: "halt_topups E pid d why w =
   (Inr d, snd (wallet_halt E pid ''topup'' (why @ '' '' @ em_dash @ '' funding halted pending operator review'') w))"
  by (simp add: halt_topups_def pbind_def pret_def wallet_halt_def unix_now_eq with_store_def query_def insert_row_def)

lemma breakers_halt:
  assumes up: "store_up E = (\<lambda>_. True)" and "trips pid (ops w)"
  shows "\<exists>d v. check_breakers E pid w = (Inr (Some d), v) \<and> halted_in pid ''topup'' (ops v)"
proof (cases "pump_halted (settled_rows pid ''topup'' PUMP_STRIKES_TO_HALT (ops w))")
  case True
  then show ?thesis by (simp add: check_breakers_def pbind_def settled_eq up pret_def halt_topups_eq halt_halts)
next
  case False
  then show ?thesis
    using assms(2) by (simp add: trips_def check_breakers_def pbind_def settled_eq terminal_eq up pret_def Let_def halt_topups_eq halt_halts)
qed

text \<open>
  Clearing a top-up halt does not last: while the rows that tripped a breaker are still the newest of the
  ledger, the cycle after the operator's clearing halts the provider again before any deposit, so the halt
  cannot be lifted without another deposit, which the halt forbids.
\<close>

lemma cleared_halt_returns:
  assumes "store_up E = (\<lambda>_. True)" and "trips pid (ops w)"
    and "filter (\<lambda>r. row_pid r = pid \<and> row_op r = ''topup'' \<and> outcome r \<in> {''pending'', ''fired''}) (ops w) = []"
  shows "case settle_topups E pid available reserved (snd (wallet_clear_halt E pid ''topup'' w)) of
    (res, v) \<Rightarrow> (\<exists>d. res = Inr (Some d)) \<and> halted_in pid ''topup'' (ops v)"
proof -
  let ?c = "snd (wallet_clear_halt E pid ''topup'' w)"
  have c: "ops ?c = filter (\<lambda>r. \<not> is_halt pid ''topup'' r) (ops w)"
    using assms(1) by (simp add: wallet_clear_halt_def with_store_def pbind_def change_ops_def pret_def)
  have "filter (\<lambda>r. row_pid r = pid \<and> outcome r \<in> {''pending'', ''fired''} \<and> row_op r = ''topup'') (ops ?c) = []"
    using assms(3) by (auto simp: c filter_empty_conv)
  then have "settle_topups E pid available reserved ?c = check_breakers E pid (next_tick (next_tick ?c))"
    using assms(1) by (simp add: settle_topups_def pbind_def unix_now_eq wallet_ops_open_def with_store_def query_def pret_def)
  moreover have "trips pid (ops (next_tick (next_tick ?c)))" using assms(2) by (simp add: c trips_clear)
  ultimately show ?thesis using breakers_halt [OF assms(1)] by fastforce
qed

end
