(* ===== verification/Settings.thy ===== *)
theory Settings
  imports PyNum PyText
begin

text \<open>
  \<open>settings.py\<close> and \<open>env_coerce.py\<close>: the operator's knobs. A schema gives each knob its type, bounds and
  default; overrides are kept in the host store and, as last read, in memory. The table holds what
  \<open>json.loads\<close> gives of its rows; whether a statement succeeds is an argument.
\<close>

section \<open>Defaults from the environment\<close>

definition env_int :: "(string \<Rightarrow> string option) \<Rightarrow> string \<Rightarrow> int \<Rightarrow> int" where
  "env_int g name dflt = (case int_of_text (case g name of None \<Rightarrow> int_str dflt | Some s \<Rightarrow> s) of
     Inl _ \<Rightarrow> dflt | Inr i \<Rightarrow> i)"

definition env_float :: "(string \<Rightarrow> string option) \<Rightarrow> string \<Rightarrow> jval \<Rightarrow> jval" where
  "env_float g name dflt = (case float_of_text (case g name of None \<Rightarrow> py_str dflt | Some s \<Rightarrow> s) of
     Inl _ \<Rightarrow> dflt | Inr f \<Rightarrow> JFloat f)"

section \<open>Knobs and their values\<close>

record spec_row =
  sk_provider :: string
  sk_type :: string
  sk_default :: jval
  sk_min :: jval
  sk_max :: jval
  sk_label :: string
  sk_help :: string

type_synonym schema = "(string \<times> spec_row) list"

text \<open>The state: the rows of \<open>settings_overrides\<close> and the overrides in memory.\<close>

record setting_state =
  stored :: dict
  live :: dict

definition in_bounds :: "spec_row \<Rightarrow> jval \<Rightarrow> bool res" where
  "in_bounds d v = rbind (py_le (sk_min d) v) (\<lambda>low. if low then py_le v (sk_max d) else Inr False)"

definition clean_step :: "string \<Rightarrow> string list \<Rightarrow> string list" where
  "clean_step it out = (let s = py_strip it in if s \<noteq> [] \<and> s \<notin> set out then out @ [s] else out)"

definition clean_items :: "string list \<Rightarrow> string list" where
  "clean_items items = fold clean_step items []"

definition coerce_list :: "jval \<Rightarrow> spec_row \<Rightarrow> jval option res" where
  "coerce_list v d =
     (case (case v of JStr s \<Rightarrow> Some (split_on (CHR '','') s) | JList xs \<Rightarrow> Some (map py_str xs) | _ \<Rightarrow> None) of
        None \<Rightarrow> Inr None
      | Some items \<Rightarrow> (let out = clean_items items in
          rbind (in_bounds d (JInt (int (length out)))) (\<lambda>fits. Inr (if fits then Some (JList (map JStr out)) else None))))"

definition number_as :: "string \<Rightarrow> jval \<Rightarrow> jval res" where
  "number_as kind v = (if kind = ''int'' then rbind (int_of v) (\<lambda>i. Inr (JInt i)) else rbind (float_of v) (\<lambda>f. Inr (JFloat f)))"

definition coerce :: "spec_row \<Rightarrow> jval \<Rightarrow> jval option res" where
  "coerce d v = (if sk_type d = ''list'' then coerce_list v d else
     (case number_as (sk_type d) v of
        Inl (TypeError _) \<Rightarrow> Inr None
      | Inl (ValueError _) \<Rightarrow> Inr None
      | Inl e \<Rightarrow> Inl e
      | Inr x \<Rightarrow> rbind (in_bounds d x) (\<lambda>fits. Inr (if fits then Some x else None))))"

definition setting_get :: "schema \<Rightarrow> dict \<Rightarrow> string \<Rightarrow> jval res" where
  "setting_get sch overrides key = (case map_of sch key of
     None \<Rightarrow> Inl (KeyError key)
   | Some d \<Rightarrow> (case dget overrides key of
       JNull \<Rightarrow> Inr (sk_default d)
     | ov \<Rightarrow> rbind (coerce d ov) (\<lambda>c. Inr (case c of None \<Rightarrow> sk_default d | Some x \<Rightarrow> x))))"

section \<open>Reading and writing the overrides\<close>

definition kept :: "schema \<Rightarrow> bool \<Rightarrow> setting_state \<Rightarrow> dict" where
  "kept sch readable w = filter (\<lambda>kv. has_key sch (fst kv)) (if readable then stored w else [])"

definition reload :: "schema \<Rightarrow> bool \<Rightarrow> setting_state \<Rightarrow> setting_state" where
  "reload sch readable w = w\<lparr> live := kept sch readable w \<rparr>"

definition current_row :: "dict \<Rightarrow> string \<times> spec_row \<Rightarrow> jval \<Rightarrow> jval" where
  "current_row ov kd v = (case kd of (key, d) \<Rightarrow>
     JObj [(''key'', JStr key), (''provider'', JStr (sk_provider d)), (''type'', JStr (sk_type d)), (''label'', JStr (sk_label d)),
       (''help'', JStr (sk_help d)), (''min'', sk_min d), (''max'', sk_max d), (''default'', sk_default d), (''value'', v),
       (''overridden'', JBool (has_key ov key))])"

definition current :: "schema \<Rightarrow> setting_state \<Rightarrow> jval list res" where
  "current sch w = rmap (\<lambda>kd. rbind (setting_get sch (live w) (fst kd)) (\<lambda>v. Inr (current_row (live w) kd v))) sch"

definition out_of_bounds :: "string \<Rightarrow> spec_row \<Rightarrow> string" where
  "out_of_bounds key d = (if sk_type d = ''list'' then key @ '': must be a list of <= '' @ py_str (sk_max d) @ '' items''
     else key @ '': must be '' @ sk_type d @ '' in ['' @ py_str (sk_min d) @ '', '' @ py_str (sk_max d) @ '']'')"

definition update_one :: "schema \<Rightarrow> string \<times> jval \<Rightarrow> string list \<times> dict \<Rightarrow> (string list \<times> dict) res" where
  "update_one sch kv s = (case (kv, s) of ((key, v), (errors, new)) \<Rightarrow>
     (case map_of sch key of
        None \<Rightarrow> Inr (errors @ [''unknown knob '' @ str_repr key], new)
      | Some d \<Rightarrow>
          if v = JNull then Inr (errors, dpop key new)
          else rbind (coerce d v) (\<lambda>c. Inr (case c of
             None \<Rightarrow> (errors @ [out_of_bounds key d], new)
           | Some x \<Rightarrow> (errors, dset key x new)))))"

text \<open>The store may refuse the first read, the write or the second read.\<close>

definition validate_and_write ::
  "schema \<Rightarrow> dict \<Rightarrow> bool \<Rightarrow> bool \<Rightarrow> bool \<Rightarrow> setting_state \<Rightarrow> (dict \<times> string list) res \<times> setting_state" where
  "validate_and_write sch updates readable writable readable' w =
     (let w1 = reload sch readable w in
      case rfold (update_one sch) updates ([], live w1) of
        Inl e \<Rightarrow> (Inl e, w1)
      | Inr (errors, new) \<Rightarrow>
          if errors \<noteq> [] then (Inr ([], errors), w1)
          else if \<not> writable then (Inr ([], [''failed to persist config overrides'']), w1)
          else (Inr (new, []), reload sch readable' (w1\<lparr> stored := new \<rparr>)))"

section \<open>What a read returns\<close>

definition valid_value :: "spec_row \<Rightarrow> jval \<Rightarrow> bool" where
  "valid_value d v = (if sk_type d = ''list''
     then (\<exists>xs. v = JList (map JStr xs) \<and> distinct xs \<and> [] \<notin> set xs \<and> in_bounds d (JInt (int (length xs))) = Inr True)
     else (if sk_type d = ''int'' then is_int v else \<exists>f. v = JFloat f) \<and> in_bounds d v = Inr True)"

lemma clean_fold:
  "distinct out \<Longrightarrow> [] \<notin> set out \<Longrightarrow>
   distinct (fold clean_step items out)
   \<and> [] \<notin> set (fold clean_step items out)"
proof (induction items arbitrary: out)
  case (Cons it items)
  then have "distinct (clean_step it out)" "[] \<notin> set (clean_step it out)" by (auto simp: clean_step_def Let_def)
  then show ?case using Cons.IH by simp
qed simp

lemma clean_items_ok: "distinct (clean_items items)" "[] \<notin> set (clean_items items)"
  using clean_fold [of "[]" items] by (simp_all add: clean_items_def)

lemma coerce_valid:
  assumes "coerce d v = Inr (Some x)"
  shows "valid_value d x"
proof (cases "sk_type d = ''list''")
  case True
  with assms obtain items where "in_bounds d (JInt (int (length (clean_items items)))) = Inr True"
    and "x = JList (map JStr (clean_items items))"
    by (auto simp: coerce_def coerce_list_def Let_def res_simps split: jval.splits if_splits)
  with True clean_items_ok [of items] show ?thesis by (auto simp: valid_value_def)
next
  case False
  with assms have "number_as (sk_type d) v = Inr x" "in_bounds d x = Inr True"
    by (auto simp: coerce_def res_simps split: sum.splits exn.splits if_splits)
  with False show ?thesis by (auto simp: valid_value_def number_as_def res_simps split: if_splits)
qed

definition demo_schema :: schema where
  "demo_schema = [(''k'', \<lparr> sk_provider = ''p'', sk_type = ''int'', sk_default = JInt 3, sk_min = JInt 0, sk_max = JInt 10,
     sk_label = [], sk_help = [] \<rparr>)]"

text \<open>
  A knob always reads as its default or as a value of its type within its bounds: whatever is stored in
  the overrides, a list knob is a bounded list of distinct non-empty tokens, a number lies in its range (and
  so is never NaN).
\<close>

lemma setting_get_valid:
  assumes "setting_get sch overrides key = Inr v"
  shows "\<exists>d. map_of sch key = Some d \<and> (v = sk_default d \<or> valid_value d v)"
proof -
  obtain d where d: "map_of sch key = Some d" using assms by (auto simp: setting_get_def split: option.splits)
  show ?thesis
  proof (cases "dget overrides key = JNull")
    case False
    then have "setting_get sch overrides key = rbind (coerce d (dget overrides key)) (\<lambda>c. Inr (case c of None \<Rightarrow> sk_default d | Some x \<Rightarrow> x))"
      using d by (simp add: setting_get_def split: jval.splits)
    with assms d coerce_valid show ?thesis by (auto simp: res_simps split: option.splits)
  qed (use assms d in \<open>simp add: setting_get_def\<close>)
qed

section \<open>Reading back what was saved\<close>

lemma utf8_strip: "utf8_chars (py_strip s) = rev (dropWhile (\<lambda>c. c \<in> set py_spaces) (rev (dropWhile (\<lambda>c. c \<in> set py_spaces) (utf8_chars s))))"
proof -
  let ?sp = "\<lambda>c. c \<in> set py_spaces"
  obtain j where j: "dropWhile ?sp (utf8_chars s) = drop j (utf8_chars s)" using dropWhile_eq_drop by blast
  obtain m where "dropWhile ?sp (rev (drop j (utf8_chars s))) = drop m (rev (drop j (utf8_chars s)))"
    using dropWhile_eq_drop by blast
  then obtain k where k: "rev (dropWhile ?sp (rev (drop j (utf8_chars s)))) = take k (drop j (utf8_chars s))"
    by (metis rev_drop rev_rev_ident)
  have "drop j (utf8_chars s) = utf8_chars (concat (drop j (utf8_chars s)))" by (simp add: utf8_drop)
  then have "utf8_chars (concat (take k (drop j (utf8_chars s)))) = take k (drop j (utf8_chars s))"
    using utf8_take by metis
  then show ?thesis by (simp add: py_strip_def j k)
qed

lemma dropWhile_rev_fix:
  assumes "ys = rev (dropWhile P (rev (dropWhile P xs)))"
  shows "rev (dropWhile P (rev (dropWhile P ys))) = ys"
proof -
  obtain m where "dropWhile P (rev (dropWhile P xs)) = drop m (rev (dropWhile P xs))"
    using dropWhile_eq_drop by blast
  then obtain k where k: "ys = take k (dropWhile P xs)" using assms by (metis rev_drop rev_rev_ident)
  have "dropWhile P ys = ys"
  proof (cases ys)
    case (Cons y t)
    then have "y = hd (dropWhile P xs)" "dropWhile P xs \<noteq> []" using k by (cases "dropWhile P xs"; cases k; simp)+
    then show ?thesis using Cons hd_dropWhile by force
  qed simp
  moreover have "dropWhile P (rev ys) = rev ys" using assms by simp
  ultimately show ?thesis by simp
qed

lemma py_strip_idem: "py_strip (py_strip s) = py_strip s"
proof -
  let ?sp = "\<lambda>c. c \<in> set py_spaces"
  have "py_strip (py_strip s) = concat (rev (dropWhile ?sp (rev (dropWhile ?sp (utf8_chars (py_strip s))))))"
    unfolding py_strip_def [of "py_strip s"] Let_def ..
  also have "\<dots> = concat (utf8_chars (py_strip s))"
    unfolding dropWhile_rev_fix [OF utf8_strip] ..
  finally show ?thesis unfolding concat_utf8_chars .
qed

lemma clean_fold_fixed:
  "distinct (out @ xs) \<Longrightarrow> [] \<notin> set xs \<Longrightarrow> \<forall>x \<in> set xs. py_strip x = x \<Longrightarrow> fold clean_step xs out = out @ xs"
proof (induction xs arbitrary: out)
  case (Cons x xs)
  then have "clean_step x out = out @ [x]" by (auto simp: clean_step_def Let_def)
  then show ?case using Cons.IH [of "out @ [x]"] Cons.prems by simp
qed simp

lemma clean_fold_stripped: "set (fold clean_step items out) \<subseteq> set out \<union> range py_strip"
proof (induction items arbitrary: out)
  case (Cons it items)
  have "set (clean_step it out) \<subseteq> set out \<union> range py_strip" by (auto simp: clean_step_def Let_def)
  with Cons.IH [of "clean_step it out"] show ?case by auto
qed simp

lemma clean_items_idem: "clean_items (clean_items items) = clean_items items"
proof -
  have "\<forall>x \<in> set (clean_items items). py_strip x = x"
  proof
    fix x assume "x \<in> set (clean_items items)"
    then obtain t where "x = py_strip t" using clean_fold_stripped [of items "[]"] by (auto simp: clean_items_def)
    then show "py_strip x = x" by (simp add: py_strip_idem)
  qed
  then show ?thesis
    using clean_fold_fixed [of "[]" "clean_items items"] clean_items_ok [of items]
    unfolding clean_items_def [of "clean_items items"] by simp
qed

text \<open>A coerced value coerces to itself.\<close>

lemma coerce_again:
  assumes "coerce d v = Inr (Some x)"
  shows "coerce d x = Inr (Some x)"
proof (cases "sk_type d = ''list''")
  case True
  with assms obtain items where i: "in_bounds d (JInt (int (length (clean_items items)))) = Inr True"
    "x = JList (map JStr (clean_items items))"
    by (auto simp: coerce_def coerce_list_def Let_def res_simps split: jval.splits if_splits)
  have "map py_str (map JStr xs) = xs" for xs by (simp add: py_str_def comp_def)
  with i True show ?thesis by (simp add: coerce_def coerce_list_def clean_items_idem Let_def)
next
  case False
  with assms have n: "number_as (sk_type d) v = Inr x" and b: "in_bounds d x = Inr True"
    by (auto simp: coerce_def res_simps split: sum.splits exn.splits if_splits)
  from n have "number_as (sk_type d) x = Inr x"
    by (auto simp: number_as_def int_of_def float_of_def res_simps split: if_splits)
  with False b show ?thesis by (simp add: coerce_def)
qed

lemma coerce_not_null: "coerce d v = Inr (Some x) \<Longrightarrow> x \<noteq> JNull"
  using coerce_valid [of d v x] by (auto simp: valid_value_def split: if_splits)

lemma update_one_errors: "update_one sch kv (errors, new) = Inr (errors', new') \<Longrightarrow> \<exists>more1. errors' = errors @ more1"
  by (auto simp: update_one_def res_simps split: prod.splits option.splits if_splits)

lemma updates_errors: "rfold (update_one sch) updates (errors, new) = Inr (errors', new') \<Longrightarrow> \<exists>more1. errors' = errors @ more1"
proof (induction updates arbitrary: errors new)
  case (Cons kv updates)
  then obtain e1 n1 where 1: "update_one sch kv (errors, new) = Inr (e1, n1)"
    "rfold (update_one sch) updates (e1, n1) = Inr (errors', new')" by (auto simp: res_simps)
  from update_one_errors [OF 1(1)] Cons.IH [OF 1(2)] show ?case by auto
qed simp

text \<open>What one accepted update does to the overrides.\<close>

definition saved_as :: "schema \<Rightarrow> string \<Rightarrow> jval \<Rightarrow> jval option \<Rightarrow> bool" where
  "saved_as sch key v r \<longleftrightarrow> (\<exists>d. map_of sch key = Some d
     \<and> (if v = JNull then r = None else \<exists>x. r = Some x \<and> coerce d v = Inr (Some x)))"

lemma update_one_saves:
  "update_one sch (key, v) ([], new) = Inr ([], new') \<Longrightarrow>
   saved_as sch key v (map_of new' key) \<and> (\<forall>k. k \<noteq> key \<longrightarrow> map_of new' k = map_of new k)"
  by (auto simp: update_one_def saved_as_def res_simps map_of_dset map_of_dpop split: option.splits if_splits)

lemma updates_save:
  "rfold (update_one sch) updates ([], new) = Inr ([], new') \<Longrightarrow> wf_dict updates \<Longrightarrow>
   (\<forall>k v. map_of updates k = Some v \<longrightarrow> saved_as sch k v (map_of new' k))
   \<and> (\<forall>k. map_of updates k = None \<longrightarrow> map_of new' k = map_of new k)"
proof (induction updates arbitrary: new)
  case (Cons kv updates)
  obtain key v where kv: "kv = (key, v)" by (cases kv)
  from Cons.prems(1) obtain e1 n1 where 1: "update_one sch (key, v) ([], new) = Inr (e1, n1)"
    and 2: "rfold (update_one sch) updates (e1, n1) = Inr ([], new')" by (auto simp: kv res_simps)
  have e1: "e1 = []" using updates_errors [OF 2] by simp
  have fresh: "map_of updates key = None" using Cons.prems(2) by (simp add: kv map_of_eq_None_iff)
  have "wf_dict updates" using Cons.prems(2) by simp
  from Cons.IH [OF 2 [unfolded e1] this] update_one_saves [OF 1 [unfolded e1]] fresh
  show ?case by (auto simp: kv)
qed simp

lemma map_of_kept: "map_of (filter (\<lambda>kv. has_key sch (fst kv)) d) k = (if has_key sch k then map_of d k else None)"
  by (induction d) auto

text \<open>
  What the dashboard saves is what the router reads: after an accepted update whose reads and write
  succeeded, every knob that was set reads as its coerced value, every knob that was cleared as its default,
  and every other knob as what the stored overrides gave before.
\<close>

lemma saved_settings_read_back:
  assumes "validate_and_write sch updates True True True w = (Inr (new, []), w')" and "wf_dict updates"
    and "map_of sch key = Some d"
  shows "setting_get sch (live w') key = (case map_of updates key of
      None \<Rightarrow> setting_get sch (stored w) key
    | Some v \<Rightarrow> if v = JNull then Inr (sk_default d) else rbind (coerce d v) (\<lambda>c. Inr (the c)))
    \<and> (\<forall>v. map_of updates key = Some v \<and> v \<noteq> JNull \<longrightarrow> (\<exists>x. coerce d v = Inr (Some x)))"
proof -
  let ?kept = "filter (\<lambda>kv. has_key sch (fst kv)) (stored w)"
  have f: "rfold (update_one sch) updates ([], ?kept) = Inr ([], new)"
    and w': "live w' = filter (\<lambda>kv. has_key sch (fst kv)) new"
    using assms(1) by (auto simp: validate_and_write_def reload_def kept_def Let_def split: sum.splits if_splits)
  have k: "has_key sch key" using assms(3) by (simp add: has_key_iff)
  have get: "setting_get sch ov key = (case map_of ov key of None \<Rightarrow> Inr (sk_default d)
      | Some JNull \<Rightarrow> Inr (sk_default d)
      | Some v \<Rightarrow> rbind (coerce d v) (\<lambda>c. Inr (case c of None \<Rightarrow> sk_default d | Some x \<Rightarrow> x)))" for ov
    using assms(3) by (auto simp: setting_get_def split: option.splits jval.splits)
  show ?thesis
  proof (cases "map_of updates key")
    case None
    then have "map_of (live w') key = map_of (stored w) key"
      using updates_save [OF f assms(2)] k by (simp add: w' map_of_kept)
    with None show ?thesis by (simp add: get)
  next
    case (Some v)
    then have s: "saved_as sch key v (map_of (live w') key)"
      using updates_save [OF f assms(2)] k by (simp add: w' map_of_kept)
    show ?thesis
    proof (cases "v = JNull")
      case True
      with s have "map_of (live w') key = None" by (simp add: saved_as_def)
      with Some True show ?thesis by (simp add: get)
    next
      case False
      with s assms(3) obtain x where x: "map_of (live w') key = Some x" "coerce d v = Inr (Some x)"
        by (auto simp: saved_as_def)
      have "setting_get sch (live w') key = Inr x"
        using x(1) coerce_not_null [OF x(2)] coerce_again [OF x(2)] by (cases x) (simp_all add: get)
      with Some False x show ?thesis by simp
    qed
  qed
qed

text \<open>
  A refused update changes nothing that is stored: when an update is reported with an error, or ends in
  an exception, the stored overrides are the ones from before, whatever knobs came first in the request.
\<close>

lemma refused_update_keeps_stored:
  assumes "validate_and_write sch updates readable writable readable' w = (res, w')"
    and "\<forall>new. res \<noteq> Inr (new, [])"
  shows "stored w' = stored w"
  using assms by (auto simp: validate_and_write_def reload_def Let_def split: sum.splits if_splits)

text \<open>
  A store that answers the write but not the read before it loses every override: the update replaces the
  whole set by what it could read.
\<close>

lemma unreadable_store_loses_overrides:
  "validate_and_write sch [] False True True w = (Inr ([], []), w\<lparr> stored := [], live := [] \<rparr>)"
  by (simp add: validate_and_write_def reload_def kept_def Let_def)

text \<open>A number too large for its type is not refused but raises out of the request.\<close>

lemma infinite_knob_raises:
  assumes "sk_type d = ''int''"
  shows "coerce d (JFloat PInf) = Inl (OverflowError ''cannot convert float infinity to integer'')"
  using assms by (simp add: coerce_def number_as_def int_of_def)

end
