(* ===== verification/KnobSchema.thy ===== *)
theory KnobSchema
  imports Settings WalletDeposits
begin

text \<open>
  The knobs declared in \<open>providers.py\<close> and \<open>settings.py\<close>, with their types, bounds, environment defaults and
  texts, and what their bounds mean for the wallet keeper, which reads its limits through \<open>settings.get\<close>.
\<close>

section \<open>The schema\<close>

definition spec_of :: "string \<Rightarrow> jval \<Rightarrow> jval \<Rightarrow> jval \<Rightarrow> string \<Rightarrow> string \<Rightarrow> spec_row" where
  "spec_of kind dflt low high label help = \<lparr> sk_provider = [], sk_type = kind, sk_default = dflt, sk_min = low, sk_max = high,
     sk_label = label, sk_help = help \<rparr>"

definition openrouter_knobs :: "(string \<Rightarrow> string option) \<Rightarrow> (string \<times> spec_row) list" where
  "openrouter_knobs g =
    [(''runway_credits_low_usd'', spec_of ''float'' (env_float g ''RUNWAY_CREDITS_LOW_USD'' (JInt 25)) (JInt 0) (JInt 1000000)
       (''Credits runway: low (USD)'')
       (''Credits below this read as '' @ [CHR 0x27] @ ''low'' @ [CHR 0x27] @ ''.'')),
     (''runway_credits_empty_usd'', spec_of ''float'' (env_float g ''RUNWAY_CREDITS_EMPTY_USD'' (JInt 1)) (JInt 0) (JInt 1000000)
       (''Credits runway: empty (USD)'')
       (''Credits at/below this read as '' @ [CHR 0x27] @ ''empty'' @ [CHR 0x27] @ ''.''))]"

definition antseed_knobs :: "(string \<Rightarrow> string option) \<Rightarrow> (string \<times> spec_row) list" where
  "antseed_knobs g =
    [(''offers_top_n'', spec_of ''int'' (JInt (env_int g ''ANTSEED_OFFERS_TOP_N'' 3)) (JInt 1) (JInt 10)
       (''Offers per family (top-N peers)'')
       (''Best viable distinct sellers per family after route health, reachability and reputation admission; ''
        @ ''price ranks inside that set.'')),
     (''reputation_min'', spec_of ''float'' (env_float g ''ANTSEED_REPUTATION_MIN'' (JInt 0)) (JInt 0) (JInt 100)
       (''Min peer on-chain reputation'')
       (''Drop AntSeed peers whose on-chain reputation score (0-100) is below this. 0 = off. Peers that ''
        @ ''report no reputation are kept (cold-start safe).'')),
     (''peer_allowlist'', spec_of ''list'' (JList []) (JInt 0) (JInt 500)
       (''Peer allowlist (peer IDs)'')
       (''If non-empty, ONLY these AntSeed peer IDs are offered. Comma-separated. Empty (default) = every ''
        @ ''peer is eligible.'')),
     (''peer_denylist'', spec_of ''list'' (JList []) (JInt 0) (JInt 500)
       (''Peer denylist (peer IDs)'')
       (''AntSeed peer IDs that are never offered. Comma-separated. Takes precedence over the allowlist. ''
        @ ''Empty (default) = none denied.'')),
     (''runway_deposits_low_usdc'', spec_of ''float'' (env_float g ''RUNWAY_DEPOSITS_LOW_USDC'' (JInt 2)) (JInt 0) (JInt 100000)
       (''Wallet runway: low (USDC)'')
       (''Deposits below this read as '' @ [CHR 0x27] @ ''low '' @ [CHR 0xC2, CHR 0xB7] @ '' top up'' @ [CHR 0x27] @ ''.'')),
     (''runway_deposits_empty_usdc'', spec_of ''float'' (env_float g ''RUNWAY_DEPOSITS_EMPTY_USDC'' (lit (1 / 100))) (JInt 0) (JInt 100000)
       (''Wallet runway: empty (USDC)'')
       (''Deposits at/below this read as '' @ [CHR 0x27] @ ''empty'' @ [CHR 0x27] @ ''.'')),
     (''keeper_enabled'', spec_of ''int'' (JInt (env_int g ''ANTSEED_KEEPER_ENABLED'' 0)) (JInt 0) (JInt 1)
       (''Wallet keeper: enabled'')
       (''Global kill switch for the autonomous funding loop (reclaim + top-up). 0 = OFF (default: the loop ''
        @ ''ships dark and is armed deliberately), 1 = ON. Off means the keeper reads nothing and fires nothing.'')),
     (''min_available_usdc'', spec_of ''float'' (env_float g ''ANTSEED_MIN_AVAILABLE_USDC'' (lit (11 / 10))) (lit 1) (JInt 100000)
       (''Offer tourniquet: min available (USDC)'')
       (''Stop offering AntSeed routes at all when escrow deposits_available falls below this. Opening a ''
        @ ''payment channel RESERVES ~1 USDC, so below one reserve every call 402s insufficient_deposits. ''
        @ ''Default 1.1 = just above one reserve. Cannot go below 1.0: the host policy envelope rejects AntSeed ''
        @ ''below that regardless, so a lower value here would suppress nothing and explain nothing.'')),
     (''topup_trigger_usdc'', spec_of ''float'' (env_float g ''ANTSEED_TOPUP_TRIGGER_USDC'' (lit 2)) (JInt 0) (JInt 100000)
       (''Top-up trigger (USDC)'')
       (''Deposit when escrow deposits_available falls below this. Must be ABOVE the offer tourniquet so ''
        @ ''funding reacts before routing is suppressed.'')),
     (''topup_amount_usdc'', spec_of ''float'' (env_float g ''ANTSEED_TOPUP_AMOUNT_USDC'' (JInt 5)) (lit (1 / 100)) (JInt 50)
       (''Top-up amount (USDC)'')
       (''USDC moved wallet->escrow per top-up. Hard-capped at 50 here AND server-side in antseed/control.js.'')),
     (''topup_wallet_floor_usdc'', spec_of ''float'' (env_float g ''ANTSEED_TOPUP_WALLET_FLOOR_USDC'' (JInt 1)) (JInt 0) (JInt 100000)
       (''Top-up: hot-wallet floor (USDC)'')
       (''Never deposit if it would leave the hot wallet below this. VETO-ONLY: the wallet balance comes from ''
        @ ''an untrusted public RPC, so a low read blocks a top-up but a high read never authorizes one. An ''
        @ ''ABSENT or stale read blocks too ''
        @ [CHR 0xE2, CHR 0x80, CHR 0x94]
        @ '' a floor that is skipped whenever the RPC declines to answer is not a floor ''
        @ [CHR 0xE2, CHR 0x80, CHR 0x94]
        @ '' so setting ANTSEED_WALLET_RPC_URL=off disables top-ups entirely (reported as ''
        @ [CHR 0x60]
        @ ''wallet_unreadable''
        @ [CHR 0x60]
        @ '' on /x/runtime). Reclaim is deliberately unaffected: failing closed on the one action that recovers ''
        @ ''money would let an RPC outage strand the escrow.'')),
     (''topup_daily_cap_usdc'', spec_of ''float'' (env_float g ''ANTSEED_TOPUP_DAILY_CAP_USDC'' (JInt 10)) (JInt 0) (JInt 100000)
       (''Top-up: daily cap (USDC)'')
       (''Maximum USDC the keeper may deposit in any rolling 24h, derived from the durable wallet_ops ledger ''
        @ ''(a pod restart does not reset it).'')),
     (''topup_cooldown_s'', spec_of ''int'' (JInt (env_int g ''ANTSEED_TOPUP_COOLDOWN_S'' 900)) (JInt 0) (JInt 86400)
       (''Top-up: cooldown (s)'')
       (''Minimum seconds between top-ups, also derived from the durable ledger.'')),
     (''reclaim_min_usdc'', spec_of ''float'' (env_float g ''ANTSEED_RECLAIM_MIN_USDC'' (JInt 3)) (JInt 0) (JInt 100000)
       (''Reclaim: min reserved (USDC)'')
       (''Only force-close idle payment channels when escrow deposits_reserved exceeds this AND the provider ''
        @ ''has served zero successful calls for an hour.''))]"

definition codex_knobs :: "(string \<Rightarrow> string option) \<Rightarrow> (string \<times> spec_row) list" where
  "codex_knobs g =
    [(''imputed_price_in'', spec_of ''float'' (env_float g ''CODEX_IMPUTED_PRICE_IN'' (JInt 5)) (JInt 0) (JInt 1000)
       (''Scarcity price in ($/Mtok at full demote)'')
       (''Imputed input price when the subscription quota is fully strained.'')),
     (''imputed_price_out'', spec_of ''float'' (env_float g ''CODEX_IMPUTED_PRICE_OUT'' (JInt 25)) (JInt 0) (JInt 1000)
       (''Scarcity price out ($/Mtok at full demote)'')
       (''Imputed output price at full demote.'')),
     (''quota_demote_start'', spec_of ''float'' (env_float g ''CODEX_QUOTA_DEMOTE_START'' (lit (1 / 2))) (JInt 0) (JInt 1)
       (''Quota demote start (fraction)'')
       (''Quota-used fraction at which the scarcity price ramp begins.'')),
     (''quota_429_window_s'', spec_of ''float'' (env_float g ''CODEX_QUOTA_429_WINDOW_S'' (JInt 120)) (JInt 1) (JInt 3600)
       (''429 window (s)'')
       (''How long an observed 429 counts toward the scarcity ramp.'')),
     (''quota_429_shed'', spec_of ''float'' (env_float g ''CODEX_QUOTA_429_SHED'' (JInt 3)) (JInt 1) (JInt 100)
       (''429s to full demote'')
       (''Recent 429s within the window that ramp the price to full.'')),
     (''runway_quota_low_fraction'', spec_of ''float'' (env_float g ''RUNWAY_QUOTA_LOW_FRACTION'' (lit (4 / 5))) (JInt 0) (JInt 1)
       (''Quota runway: low (fraction)'')
       (''Quota-used above this reads as '' @ [CHR 0x27] @ ''low'' @ [CHR 0x27] @ ''.''))]"

definition price_multiplier_knob :: spec_row where
  "price_multiplier_knob = spec_of ''float'' (lit 1) (lit (1 / 10)) (lit 100) ''Ranking price multiplier''
     (''A FICTITIOUS routing lever: scales this provider'' @ [CHR 0x27] @ ''s price for ''
      @ ''RANKING only (< 1 = prefer it, > 1 = avoid it). It does NOT change ''
      @ ''billing '' @ em_dash @ '' cost_usd always settles at the real reported cost or the ''
      @ ''raw list price. 1.0 = no nudge. Raw source prices stay raw; the ''
      @ ''ranking price is computed from the current multiplier at selection time.'')"

text \<open>\<open>PROVIDERS\<close>: every provider has a source; those with knobs of their own.\<close>

definition provider_knobs :: "(string \<Rightarrow> string option) \<Rightarrow> (string \<times> (string \<times> spec_row) list) list" where
  "provider_knobs g = [(''openrouter'', openrouter_knobs g), (''antseed'', antseed_knobs g), (''ollama'', []), (''bedrock'', []),
     (''openai'', []), (''anthropic'', []), (''google'', []), (''codex'', codex_knobs g)]"

definition knobs_of :: "string \<times> (string \<times> spec_row) list \<Rightarrow> schema" where
  "knobs_of p = map (\<lambda>(name, d). (fst p @ ''.'' @ name, d\<lparr> sk_provider := fst p \<rparr>)) ((''price_multiplier'', price_multiplier_knob) # snd p)"

definition provider_knob_schema :: "(string \<Rightarrow> string option) \<Rightarrow> schema" where
  "provider_knob_schema g = concat (map knobs_of (provider_knobs g))"

definition compaction_knob :: "(string \<Rightarrow> string option) \<Rightarrow> spec_row" where
  "compaction_knob g = \<lparr> sk_provider = ''compaction'', sk_type = ''int'', sk_default = JInt (env_int g ''COMPACT_AT_TOKENS'' 24000),
     sk_min = JInt 1000, sk_max = JInt 2000000, sk_label = ''Suggest compaction at (input tokens)'',
     sk_help = ''When a call'' @ [CHR 0x27] @ ''s input exceeds this, the response carries ''
       @ ''x_router.compact=true so the agent knows to POST /v1/compact.'' \<rparr>"

definition SCHEMA :: "(string \<Rightarrow> string option) \<Rightarrow> schema" where
  "SCHEMA g = (''compaction.at_tokens'', compaction_knob g) # provider_knob_schema g"

section \<open>The keeper on its settings\<close>

definition on_settings :: "(string \<Rightarrow> string option) \<Rightarrow> (nat \<Rightarrow> dict) \<Rightarrow> outside \<Rightarrow> outside" where
  "on_settings g overrides E = E\<lparr> knob := \<lambda>t name. setting_get (SCHEMA g) (overrides t) name \<rparr>"

lemma knobs_of_miss: "\<forall>n. fst p @ ''.'' @ n \<noteq> k \<Longrightarrow> map_of (knobs_of p) k = None"
  by (auto simp: knobs_of_def map_of_eq_None_iff)

lemma knobs_of_hit: "name \<noteq> ''price_multiplier'' \<Longrightarrow>
   map_of (knobs_of (pid, ks)) (pid @ ''.'' @ name) = map_option (\<lambda>d. d\<lparr> sk_provider := pid \<rparr>) (map_of ks name)"
proof -
  assume "name \<noteq> ''price_multiplier''"
  moreover have "map_of (map (\<lambda>(n, d). (pid @ ''.'' @ n, d\<lparr> sk_provider := pid \<rparr>)) ks) (pid @ ''.'' @ name) =
      map_option (\<lambda>d. d\<lparr> sk_provider := pid \<rparr>) (map_of ks name)"
    by (induction ks) auto
  ultimately show ?thesis by (simp add: knobs_of_def)
qed

lemma schema_antseed:
  assumes "name \<noteq> ''price_multiplier''"
  shows "map_of (SCHEMA g) (''antseed.'' @ name) = map_option (\<lambda>d. d\<lparr> sk_provider := ''antseed'' \<rparr>) (map_of (antseed_knobs g) name)"
proof -
  let ?k = "''antseed.'' @ name"
  have "map_of (knobs_of (''openrouter'', ks)) ?k = None" "map_of (knobs_of (''ollama'', ks)) ?k = None"
    "map_of (knobs_of (''bedrock'', ks)) ?k = None" "map_of (knobs_of (''openai'', ks)) ?k = None"
    "map_of (knobs_of (''anthropic'', ks)) ?k = None" "map_of (knobs_of (''google'', ks)) ?k = None"
    "map_of (knobs_of (''codex'', ks)) ?k = None" for ks
    by (rule knobs_of_miss, simp)+
  moreover have "map_of (knobs_of (''antseed'', antseed_knobs g)) ?k = map_option (\<lambda>d. d\<lparr> sk_provider := ''antseed'' \<rparr>) (map_of (antseed_knobs g) name)"
    using knobs_of_hit [OF assms, of "''antseed''" "antseed_knobs g"] by simp
  ultimately show ?thesis by (simp add: SCHEMA_def provider_knob_schema_def provider_knobs_def map_add_def split: option.splits)
qed

definition FLOAT_KNOBS :: "string list" where
  "FLOAT_KNOBS = [''min_available_usdc'', ''topup_trigger_usdc'', ''topup_amount_usdc'', ''topup_wallet_floor_usdc'', ''topup_daily_cap_usdc'', ''reclaim_min_usdc'']"

definition bounded_float :: "spec_row option \<Rightarrow> bool" where
  "bounded_float o1 = (case o1 of None \<Rightarrow> False | Some d \<Rightarrow> sk_type d = ''float''
     \<and> (case (num_of (sk_min d), num_of (sk_max d)) of (Some (Fin _), Some (Fin _)) \<Rightarrow> True | _ \<Rightarrow> False))"

lemma bounded_spec [simp]: "bounded_float (Some (spec_of ''float'' dflt low high label help)) =
    (case (num_of low, num_of high) of (Some (Fin _), Some (Fin _)) \<Rightarrow> True | _ \<Rightarrow> False)"
  by (simp add: bounded_float_def spec_of_def)

lemma antseed_floats: "list_all (\<lambda>n. bounded_float (map_of (antseed_knobs g) n)) FLOAT_KNOBS"
  unfolding FLOAT_KNOBS_def antseed_knobs_def
  by (simp add: lit_def del: append_Cons append.simps)

text \<open>Defaults taken from the environment are not checked against the bounds; this is what the keeper needs of them.\<close>

definition finite_default :: "spec_row option \<Rightarrow> bool" where
  "finite_default o1 = (case o1 of None \<Rightarrow> False | Some d \<Rightarrow> (case float_of (sk_default d) of Inr f \<Rightarrow> f_finite f | Inl _ \<Rightarrow> False))"

definition env_finite :: "(string \<Rightarrow> string option) \<Rightarrow> bool" where
  "env_finite g = list_all (\<lambda>n. finite_default (map_of (antseed_knobs g) n)) FLOAT_KNOBS"

lemma valid_float:
  assumes "bounded_float (Some d)" and "valid_value d v"
  shows "\<exists>f. v = JFloat f \<and> f_finite f"
proof -
  from assms obtain f x y where f: "v = JFloat f" and b: "num_of (sk_min d) = Some (Fin x)" "num_of (sk_max d) = Some (Fin y)"
    and i: "in_bounds d v = Inr True"
    by (auto simp: bounded_float_def valid_value_def split: option.splits pyfloat.splits)
  from i b f have "f_le (Fin x) f" "f_le f (Fin y)"
    by (auto simp: in_bounds_def py_le_def res_simps split: if_splits)
  then have "f_finite f" by (cases f) auto
  with f show ?thesis by simp
qed

lemma setting_float:
  assumes "name \<in> set FLOAT_KNOBS" and "env_finite g" and "setting_get (SCHEMA g) ov (''antseed.'' @ name) = Inr v"
    and "float_of v = Inr f"
  shows "f_finite f"
proof -
  have n: "name \<noteq> ''price_multiplier''" using assms(1) by (auto simp: FLOAT_KNOBS_def)
  obtain d0 where d0: "map_of (antseed_knobs g) name = Some d0" and b: "bounded_float (Some d0)"
    using antseed_floats [of g] assms(1) by (cases "map_of (antseed_knobs g) name") (auto simp: list_all_iff bounded_float_def)
  let ?d = "d0\<lparr> sk_provider := ''antseed'' \<rparr>"
  have d: "map_of (SCHEMA g) (''antseed.'' @ name) = Some ?d" using schema_antseed [OF n, of g] d0 by simp
  have b': "bounded_float (Some ?d)" using b by (simp add: bounded_float_def)
  have fd: "case float_of (sk_default ?d) of Inr f \<Rightarrow> f_finite f | Inl _ \<Rightarrow> False"
    using assms(1,2) d0 by (auto simp: env_finite_def list_all_iff finite_default_def split: option.splits)
  have "v = sk_default ?d \<or> valid_value ?d v"
    using assms(3) d coerce_valid [of ?d] by (auto simp: setting_get_def res_simps split: jval.splits option.splits)
  then show ?thesis
  proof
    assume "v = sk_default ?d"
    with fd assms(4) show ?thesis by simp
  next
    assume "valid_value ?d v"
    from valid_float [OF b' this] assms(4) show ?thesis by (auto simp: float_of_def)
  qed
qed

lemma pbind_Inr: "pbind m f w = (Inr y, v) \<Longrightarrow> \<exists>x u. m w = (Inr x, u) \<and> f x u = (Inr y, v)"
  by (auto simp: pbind_def split: prod.splits sum.splits)

lemma knob_float:
  assumes "float_knob (on_settings g overrides E) name w = (Inr f, v)" and "name \<in> set FLOAT_KNOBS" and "env_finite g"
  shows "f_finite f"
  using assms setting_float [OF assms(2,3), of "overrides (ticks w)"]
  by (auto simp: float_knob_def read_knob_def on_settings_def pbind_def plift_def split: sum.splits)

lemma loaded_finite:
  assumes "load_knobs (on_settings g overrides E) w = (Inr k, v)" and "env_finite g"
  shows "f_finite (k_amount k) \<and> f_finite (k_daily_cap k) \<and> f_finite (k_trigger k) \<and> f_finite (k_wallet_floor k)
    \<and> \<not> f_lt (k_daily_cap k) (k_amount k) \<and> \<not> f_lt MAX_TOPUP_USDC (k_amount k)"
proof -
  have n: "''topup_amount_usdc'' \<in> set FLOAT_KNOBS" "''topup_daily_cap_usdc'' \<in> set FLOAT_KNOBS"
    "''topup_trigger_usdc'' \<in> set FLOAT_KNOBS" "''topup_wallet_floor_usdc'' \<in> set FLOAT_KNOBS"
    by (simp_all add: FLOAT_KNOBS_def)
  note k = knob_float [OF _ _ assms(2)]
  from assms(1) show ?thesis
    unfolding load_knobs_def
    by (elim exE conjE pbind_Inr [elim_format])
      (auto simp: plift_def check_knobs_def dest!: k [OF _ n(1)] k [OF _ n(2)] k [OF _ n(3)] k [OF _ n(4)] split: if_splits)
qed

text \<open>
  C21. Saved settings bind the keeper: when the keeper's limits come from the settings store and the
  environment's defaults are finite, then whatever overrides are stored, a cycle that loads its limits and
  sends a deposit sends the configured amount, at most 50 USDC, within the configured daily cap.
\<close>

theorem settings_bind_deposits:
  assumes "load_knobs (on_settings g overrides E) u = (Inr k, u')" and "env_finite g"
    and "maybe_topup (on_settings g overrides E) pid k available reserved w = (res, v)" and "sent v \<noteq> sent w"
  shows "sent v = sent w @ [(''deposit'', [(''amount'', JStr (fixed 6 (k_amount k)))])]
    \<and> f_finite (k_amount k) \<and> \<not> f_lt (Fin 50) (k_amount k)
    \<and> \<not> f_lt (k_daily_cap k) (f_add (spent_usdc (spend_of
        (filter (counts_spent pid ''topup'' (trunc (clock E (Suc (ticks w))) - 86400)) (ops w)))) (k_amount k))"
proof -
  note l = loaded_finite [OF assms(1,2)]
  have "topup_amount k = k_amount k" using l by (simp add: topup_amount_def)
  moreover have "clock (on_settings g overrides E) = clock E" by (simp add: on_settings_def)
  ultimately show ?thesis
    using deposit_guards [of "on_settings g overrides E" pid k available reserved w] assms(3,4) l
    by (simp add: day_spend_def MAX_TOPUP_USDC_def)
qed

text \<open>An environment that says 5 everywhere, and an override of the trigger: the keeper deposits 5 USDC.\<close>

definition five :: "string \<Rightarrow> string option" where
  "five = (\<lambda>_. Some ''5'')"

definition demo_overrides :: dict where
  "demo_overrides = [(''antseed.topup_trigger_usdc'', JFloat (Fin 9))]"

definition five_knobs :: knobs where
  "five_knobs = \<lparr> k_enabled = True, k_min_available = Fin 5, k_trigger = Fin 9, k_amount = Fin 5, k_wallet_floor = Fin 5,
     k_daily_cap = Fin 5, k_cooldown = 5, k_reclaim_min = Fin 5 \<rparr>"

lemma spec_sel [simp]:
  "sk_default (spec_of kind dflt low high label help) = dflt" "sk_type (spec_of kind dflt low high label help) = kind"
  "sk_min (spec_of kind dflt low high label help) = low" "sk_max (spec_of kind dflt low high label help) = high"
  by (simp_all add: spec_of_def)

lemma five_env: "env_float five n d = JFloat (Fin 5)" "env_int five n i = 5"
proof -
  have "float_of_text ''5'' = Inr (Fin 5)" "int_of_text ''5'' = Inr 5" by code_simp+
  then show "env_float five n d = JFloat (Fin 5)" "env_int five n i = 5" by (simp_all add: env_float_def env_int_def five_def)
qed

lemma five_floats: "list_all (\<lambda>n. map_option sk_default (map_of (antseed_knobs five) n) = Some (JFloat (Fin 5))) FLOAT_KNOBS"
  unfolding FLOAT_KNOBS_def antseed_knobs_def
  by (simp add: five_env del: append_Cons append.simps)

lemma five_ints: "map_option sk_default (map_of (antseed_knobs five) ''keeper_enabled'') = Some (JInt 5)"
  "map_option sk_default (map_of (antseed_knobs five) ''topup_cooldown_s'') = Some (JInt 5)"
  "map_option (\<lambda>d. (sk_type d, sk_min d, sk_max d)) (map_of (antseed_knobs five) ''topup_trigger_usdc'') = Some (''float'', JInt 0, JInt 100000)"
  unfolding antseed_knobs_def by (simp_all add: five_env del: append_Cons append.simps)

lemma five_finite: "env_finite five"
  unfolding env_finite_def list_all_iff
proof
  fix n assume "n \<in> set FLOAT_KNOBS"
  with five_floats have "map_option sk_default (map_of (antseed_knobs five) n) = Some (JFloat (Fin 5))"
    unfolding list_all_iff by blast
  then show "finite_default (map_of (antseed_knobs five) n)"
    by (cases "map_of (antseed_knobs five) n") (auto simp: finite_default_def float_of_def)
qed

lemma five_get:
  assumes "name \<noteq> ''price_multiplier''" and "name \<noteq> ''topup_trigger_usdc''"
    and "map_option sk_default (map_of (antseed_knobs five) name) = Some v"
  shows "setting_get (SCHEMA five) demo_overrides (''antseed.'' @ name) = Inr v"
  using assms schema_antseed [OF assms(1), of five] by (auto simp: setting_get_def demo_overrides_def)

lemma five_trigger: "setting_get (SCHEMA five) demo_overrides (''antseed.'' @ ''topup_trigger_usdc'') = Inr (JFloat (Fin 9))"
proof -
  obtain d where d: "map_of (antseed_knobs five) ''topup_trigger_usdc'' = Some d"
    "sk_type d = ''float''" "sk_min d = JInt 0" "sk_max d = JInt 100000"
    using five_ints(3) by auto
  have "map_of (SCHEMA five) (''antseed.'' @ ''topup_trigger_usdc'') = Some (d\<lparr> sk_provider := ''antseed'' \<rparr>)"
    using schema_antseed [of "''topup_trigger_usdc''" five] d(1) by simp
  with d(2-4) show ?thesis
    by (simp add: setting_get_def demo_overrides_def coerce_def number_as_def float_of_def in_bounds_def py_le_def)
qed

lemma five_load: "fst (load_knobs (on_settings five (\<lambda>_. demo_overrides) demo) blank) = Inr five_knobs"
proof -
  let ?E = "on_settings five (\<lambda>_. demo_overrides) demo"
  have n: "''min_available_usdc'' \<in> set FLOAT_KNOBS" "''topup_amount_usdc'' \<in> set FLOAT_KNOBS" "''topup_daily_cap_usdc'' \<in> set FLOAT_KNOBS"
    "''topup_wallet_floor_usdc'' \<in> set FLOAT_KNOBS" "''reclaim_min_usdc'' \<in> set FLOAT_KNOBS"
    by (simp_all add: FLOAT_KNOBS_def)
  have f: "float_knob ?E name w = (Inr (Fin 5), next_tick w)"
    if "name \<in> set FLOAT_KNOBS" "name \<noteq> ''topup_trigger_usdc''" for name w
  proof -
    have "map_option sk_default (map_of (antseed_knobs five) name) = Some (JFloat (Fin 5))"
      using five_floats that(1) unfolding list_all_iff by blast
    moreover have "name \<noteq> ''price_multiplier''" using that(1) by (auto simp: FLOAT_KNOBS_def)
    ultimately show ?thesis
      using five_get [OF _ that(2)] by (simp add: float_knob_def read_knob_def on_settings_def pbind_def plift_def float_of_def)
  qed
  have i: "int_knob ?E name w = (Inr 5, next_tick w)" if "name \<in> {''keeper_enabled'', ''topup_cooldown_s''}" for name w
    using that five_ints(1,2) five_get [of name "JInt 5"]
    by (auto simp: int_knob_def read_knob_def on_settings_def pbind_def plift_def int_of_def)
  have t: "float_knob ?E ''topup_trigger_usdc'' w = (Inr (Fin 9), next_tick w)" for w
    using five_trigger by (simp add: float_knob_def read_knob_def on_settings_def pbind_def plift_def float_of_def)
  show ?thesis
    by (simp add: load_knobs_def pbind_def i f [OF n(1)] f [OF n(2)] f [OF n(3)] f [OF n(4)] f [OF n(5)] t plift_def check_knobs_def
        five_knobs_def MAX_TOPUP_USDC_def)
qed

text \<open>A top-up reads nothing of the settings.\<close>

lemma knob_unused:
  "time_now (E\<lparr> knob := h \<rparr>) = time_now E" "with_store (E\<lparr> knob := h \<rparr>) = with_store E"
  "chain_row_now (E\<lparr> knob := h \<rparr>) = chain_row_now E" "control_post (E\<lparr> knob := h \<rparr>) = control_post E"
  by ((intro ext)?, simp add: time_now_def with_store_def chain_row_now_def control_post_def control_endpoint_def cong: option.case_cong)+

lemma knob_unused_ledger:
  "unix_now (E\<lparr> knob := h \<rparr>) = unix_now E" "wallet_halted (E\<lparr> knob := h \<rparr>) = wallet_halted E"
  "wallet_ops_terminal (E\<lparr> knob := h \<rparr>) = wallet_ops_terminal E"
  by ((intro ext)?, simp add: unix_now_def wallet_halted_def wallet_ops_terminal_def knob_unused)+

lemma knob_unused_ops:
  "wallet_op_spend_since (E\<lparr> knob := h \<rparr>) = wallet_op_spend_since E" "wallet_halt (E\<lparr> knob := h \<rparr>) = wallet_halt E"
  "wallet_op_begin (E\<lparr> knob := h \<rparr>) = wallet_op_begin E" "wallet_op_finish (E\<lparr> knob := h \<rparr>) = wallet_op_finish E"
  "control (E\<lparr> knob := h \<rparr>) = control E" "chain_view (E\<lparr> knob := h \<rparr>) = chain_view E" "retry_gate (E\<lparr> knob := h \<rparr>) = retry_gate E"
  by ((intro ext)?, simp add: wallet_op_spend_since_def wallet_halt_def wallet_op_begin_def wallet_op_finish_def control_def chain_view_def
      retry_gate_def knob_unused knob_unused_ledger cong: if_cong option.case_cong)+

lemma knob_unused_steps:
  "cap_reached (E\<lparr> knob := h \<rparr>) = cap_reached E" "fire_topup (E\<lparr> knob := h \<rparr>) = fire_topup E"
  by ((intro ext)?, simp add: cap_reached_def error_strikes_def halt_topups_def fire_topup_def guarded_def
      knob_unused knob_unused_ledger knob_unused_ops cong: if_cong option.case_cong)+

lemma topup_knob_free: "maybe_topup (E\<lparr> knob := h \<rparr>) = maybe_topup E"
  by (intro ext) (simp add: maybe_topup_def knob_unused_ledger knob_unused_ops knob_unused_steps cong: if_cong option.case_cong)

theorem settings_bind_deposits_witness:
  "let v = snd (maybe_topup (on_settings five (\<lambda>_. demo_overrides) demo) ''p'' five_knobs (Fin 2) None blank) in
    sent v = [(''deposit'', [(''amount'', JStr (fixed 6 (k_amount five_knobs)))])]"
proof -
  let ?E = "on_settings five (\<lambda>_. demo_overrides) demo"
  have E: "maybe_topup ?E = maybe_topup demo" by (simp add: on_settings_def topup_knob_free)
  have s: "sent blank = []" by (simp add: blank_def)
  have "sent (snd (maybe_topup demo ''p'' five_knobs (Fin 2) None blank)) \<noteq> []" by code_simp
  then have "sent (snd (maybe_topup ?E ''p'' five_knobs (Fin 2) None blank)) \<noteq> sent blank" unfolding E s .
  moreover have "load_knobs ?E blank = (Inr five_knobs, snd (load_knobs ?E blank))" by (simp only: prod_eq_iff five_load fst_conv snd_conv)
  ultimately have "sent (snd (maybe_topup ?E ''p'' five_knobs (Fin 2) None blank)) =
      sent blank @ [(''deposit'', [(''amount'', JStr (fixed 6 (k_amount five_knobs)))])]"
    by (rule settings_bind_deposits [OF _ five_finite prod.collapse [symmetric], THEN conjunct1, rotated])
  then show ?thesis unfolding Let_def s by simp
qed

end
