(* ===== verification/RouteContract.thy ===== *)
theory RouteContract
  imports PyText
begin

text \<open>
  \<open>route_contract.py\<close>: what a consumer may choose of a published route. The caller's payload and the
  published contract are dicts; the contract's values need not have the shapes the code expects.
\<close>

definition preference_not_allowed :: "string \<Rightarrow> exn" where
  "preference_not_allowed m = OtherExc ''PreferenceNotAllowed'' m"

text \<open>\<open>k in v\<close> and \<open>v[k]\<close> for a string \<open>k\<close> and any value.\<close>

definition in_val :: "string \<Rightarrow> jval \<Rightarrow> bool res" where
  "in_val k v = (case v of
     JObj d \<Rightarrow> Inr (has_key d k)
   | JList xs \<Rightarrow> Inr (JStr k \<in> set xs)
   | JStr s \<Rightarrow> Inr (contains k s)
   | _ \<Rightarrow> Inl (TypeError (''argument of type '' @ CHR 0x27 # type_name v @ CHR 0x27 # '' is not iterable'')))"

definition item_val :: "string \<Rightarrow> jval \<Rightarrow> jval res" where
  "item_val k v = (case v of
     JObj d \<Rightarrow> dsub d k
   | JList _ \<Rightarrow> Inl (TypeError ''list indices must be integers or slices, not str'')
   | JStr _ \<Rightarrow> Inl (TypeError ''string indices must be integers, not str'')
   | _ \<Rightarrow> Inl (TypeError (CHR 0x27 # type_name v @ CHR 0x27 # '' object is not subscriptable'')))"

definition hex_id :: "string \<Rightarrow> bool" where
  "hex_id s = (length s = 64 \<and> list_all (\<lambda>c. c \<in> set ''0123456789abcdef'') s)"

definition variant_ok :: "jval \<Rightarrow> bool" where
  "variant_ok v = (case v of
     JObj d \<Rightarrow> is_list (dget d ''policy_ir'') \<and> hex_id (py_str (dget_or d ''policy_id'' (JStr [])))
   | _ \<Rightarrow> False)"

text \<open>\<open>selected\<close> with the policy of the preferred variant.\<close>

definition apply_preference :: "jval \<Rightarrow> dict \<Rightarrow> dict \<Rightarrow> dict res" where
  "apply_preference preference published selected =
     (let variants = py_or (dget published ''preferences'') (JObj []); no = preference_not_allowed in
      case preference of
        JStr p \<Rightarrow> rbind (in_val p variants) (\<lambda>known.
          if \<not> known then Inl (no ''This preference is not authorized by the published contract.'')
          else rbind (item_val p variants) (\<lambda>variant.
            if \<not> variant_ok variant then Inl (no ''The published preference is unavailable. Republish the contract.'')
            else rbind (dsub (obj_of variant) ''policy_ir'') (\<lambda>ir. rbind (dsub (obj_of variant) ''policy_id'') (\<lambda>i.
              Inr (dupd selected [(''policy_ir'', ir), (''policy_id'', i)])))))
      | _ \<Rightarrow> Inl (no ''This preference is not authorized by the published contract.''))"

definition OWNER_FIELDS :: "string list" where
  "OWNER_FIELDS = [''policy_ir'', ''flow_ir'', ''timeout_ms'', ''first_token_timeout_ms'', ''task_policies'', ''_auto_contract'']"

text \<open>The listed keys that \<open>execution\<close> has, with their values.\<close>

definition picked :: "string list \<Rightarrow> jval \<Rightarrow> dict res" where
  "picked ks execution = rfold (\<lambda>k d. rbind (in_val k execution) (\<lambda>b.
     if b then rbind (item_val k execution) (\<lambda>v. Inr (dset k v d)) else Inr d)) ks []"

definition add_execution :: "jval \<Rightarrow> jval \<Rightarrow> dict \<Rightarrow> dict res" where
  "add_execution preference execution payload =
     rbind (in_val ''automatic'' execution) (\<lambda>automatic.
     rbind (if \<not> automatic then Inr payload
            else if preference \<noteq> JNull then Inl (preference_not_allowed ''Automatic routes choose their own authorized policy.'')
            else rbind (picked [''automatic'', ''automatic_mode'', ''automatic_sample_percent''] execution) (\<lambda>auto.
              Inr (dset ''_auto_contract'' (JObj auto) payload))) (\<lambda>payload.
     rbind (picked [''timeout_ms'', ''first_token_timeout_ms''] execution) (\<lambda>limits. Inr (dupd payload limits))))"

definition apply_contract :: "dict \<Rightarrow> dict \<Rightarrow> (dict \<times> dict) res" where
  "apply_contract payload published =
     (let preference = dget payload ''routing_preference'';
          payload = fold dpop OWNER_FIELDS (dpop ''routing_preference'' payload);
          selected = dset ''routing_preference'' (if is_str preference then preference else JStr ''default'') published;
          execution = py_or (dget published ''execution'') (JObj []) in
      rbind (if preference = JNull then Inr selected else apply_preference preference published selected) (\<lambda>selected.
      rbind (add_execution preference execution payload) (\<lambda>payload.
      rbind (dsub selected ''policy_ir'') (\<lambda>ir. Inr (dset ''policy_ir'' ir payload, selected)))))"

section \<open>The owner decides\<close>

definition pick_one :: "jval \<Rightarrow> string \<Rightarrow> dict \<Rightarrow> dict res" where
  "pick_one execution k d = rbind (in_val k execution) (\<lambda>b.
     if b then rbind (item_val k execution) (\<lambda>v. Inr (dset k v d)) else Inr d)"

lemma picked_eq: "picked ks execution = rfold (pick_one execution) ks []"
  by (simp add: picked_def pick_one_def [abs_def])

text \<open>Every value picked is the execution's, under one of the keys asked for.\<close>

lemma picked_from:
  assumes "picked ks execution = Inr d" and "map_of d k = Some v"
  shows "k \<in> set ks \<and> item_val k execution = Inr v"
proof -
  have "\<forall>k v. map_of d k = Some v \<longrightarrow> k \<in> set ks \<and> item_val k execution = Inr v"
    using assms(1) unfolding picked_eq
    by (rule rfold_invariant [where P = "\<lambda>d. \<forall>k v. map_of d k = Some v \<longrightarrow> k \<in> set ks \<and> item_val k execution = Inr v"])
      (auto simp: pick_one_def res_simps map_of_dset split: if_splits)
  with assms(2) show ?thesis by blast
qed

lemma picked_wf: "picked ks execution = Inr d \<Longrightarrow> wf_dict d"
  unfolding picked_eq
  by (erule rfold_invariant [where P = wf_dict]) (auto simp: pick_one_def res_simps split: if_splits)

lemma add_execution_ok:
  assumes "add_execution preference execution payload = Inr out"
  shows "\<exists>limits. map_of out k = (case map_of limits k of Some v \<Rightarrow> Some v | None \<Rightarrow>
      if k = ''_auto_contract'' \<and> in_val ''automatic'' execution = Inr True then map_of out k else map_of payload k)
    \<and> (\<forall>v. map_of limits k = Some v \<longrightarrow> k \<in> {''timeout_ms'', ''first_token_timeout_ms''} \<and> item_val k execution = Inr v)
    \<and> (in_val ''automatic'' execution = Inr True \<longrightarrow> preference = JNull)"
proof -
  obtain auto1 p limits where a: "in_val ''automatic'' execution = Inr auto1"
    and p: "(if \<not> auto1 then Inr payload
            else if preference \<noteq> JNull then Inl (preference_not_allowed ''Automatic routes choose their own authorized policy.'')
            else rbind (picked [''automatic'', ''automatic_mode'', ''automatic_sample_percent''] execution) (\<lambda>auto.
              Inr (dset ''_auto_contract'' (JObj auto) payload))) = Inr p"
    and l: "picked [''timeout_ms'', ''first_token_timeout_ms''] execution = Inr limits" "out = dupd p limits"
    using assms unfolding add_execution_def rbind_eq_Inr by blast
  from p have p: "if \<not> auto1 then p = payload else preference = JNull \<and> (\<exists>c. p = dset ''_auto_contract'' c payload)"
    by (auto simp: res_simps split: if_splits)
  have m: "map_of out k = (map_of p ++ map_of limits) k" using picked_wf [OF l(1)] l(2) by (simp add: map_of_dupd_wf)
  have v: "map_of limits k = Some v \<Longrightarrow> k \<in> {''timeout_ms'', ''first_token_timeout_ms''} \<and> item_val k execution = Inr v" for v
    using picked_from [OF l(1)] by auto
  show ?thesis
    using a p m v by (intro exI [of _ limits]) (auto simp: map_add_def map_of_dset split: option.splits if_splits)
qed

lemma apply_preference_ok:
  assumes "apply_preference preference published selected = Inr sel"
  shows "\<exists>p variant. preference = JStr p \<and> item_val p (py_or (dget published ''preferences'') (JObj [])) = Inr (JObj variant)
    \<and> variant_ok (JObj variant) \<and> map_of sel ''policy_ir'' = map_of variant ''policy_ir'' \<and> map_of sel ''policy_id'' = map_of variant ''policy_id''"
proof -
  obtain p variant ir i where f: "preference = JStr p" "item_val p (py_or (dget published ''preferences'') (JObj [])) = Inr variant"
    "variant_ok variant" "map_of (obj_of variant) ''policy_ir'' = Some ir" "map_of (obj_of variant) ''policy_id'' = Some i"
    "sel = dupd selected [(''policy_ir'', ir), (''policy_id'', i)]"
    using assms by (auto simp: apply_preference_def Let_def res_simps split: jval.splits if_splits)
  then obtain d where "variant = JObj d" by (cases variant) (auto simp: variant_ok_def)
  with f show ?thesis by (auto simp: map_of_dupd_wf)
qed

lemma strip_fields: "map_of (fold dpop ks d) k = (if k \<in> set ks then None else map_of d k)"
  by (induction ks arbitrary: d) (auto simp: map_of_dpop)

lemma chosen_policy:
  assumes "(if pref = JNull then Inr (dset ''routing_preference'' p published) else apply_preference pref published (dset ''routing_preference'' p published)) = Inr sel"
    and "map_of sel ''policy_ir'' = Some ir"
  shows "case pref of JNull \<Rightarrow> Some ir = map_of published ''policy_ir''
     | JStr p \<Rightarrow> (\<exists>variant. item_val p (py_or (dget published ''preferences'') (JObj [])) = Inr (JObj variant)
         \<and> is_list (dget variant ''policy_ir'') \<and> Some ir = map_of variant ''policy_ir'')
     | _ \<Rightarrow> False"
proof (cases "pref = JNull")
  case True
  with assms show ?thesis by (auto simp: map_of_dset)
next
  case False
  with assms(1) apply_preference_ok obtain p variant where "pref = JStr p"
    "item_val p (py_or (dget published ''preferences'') (JObj [])) = Inr (JObj variant)"
    "variant_ok (JObj variant)" "map_of sel ''policy_ir'' = map_of variant ''policy_ir''" by (metis (no_types, lifting))
  then show ?thesis using assms(2) by (auto simp: variant_ok_def)
qed

lemma owned_fields: "{''policy_ir'', ''flow_ir'', ''task_policies'', ''timeout_ms'', ''first_token_timeout_ms'', ''_auto_contract''} \<subseteq> set OWNER_FIELDS"
  by (simp add: OWNER_FIELDS_def)

text \<open>An owner's field of the body comes from the published execution settings or it is absent.\<close>

lemma execution_field:
  assumes "add_execution pref exec (fold dpop OWNER_FIELDS d) = Inr body" and "k \<in> set OWNER_FIELDS"
  shows "map_of body k = None \<or> k \<in> {''timeout_ms'', ''first_token_timeout_ms''} \<and> item_val k exec = Inr (the (map_of body k))
    \<or> k = ''_auto_contract'' \<and> in_val ''automatic'' exec = Inr True"
proof -
  have gone: "map_of (fold dpop OWNER_FIELDS d) k = None" using assms(2) by (simp only: strip_fields if_True)
  obtain limits where l: "map_of body k = (case map_of limits k of Some v \<Rightarrow> Some v | None \<Rightarrow>
      if k = ''_auto_contract'' \<and> in_val ''automatic'' exec = Inr True then map_of body k else map_of (fold dpop OWNER_FIELDS d) k)"
    "\<forall>v. map_of limits k = Some v \<longrightarrow> k \<in> {''timeout_ms'', ''first_token_timeout_ms''} \<and> item_val k exec = Inr v"
    using add_execution_ok [OF assms(1), of k] by blast
  show ?thesis
  proof (cases "map_of limits k")
    case None
    with l(1) show ?thesis unfolding gone by (simp split: if_split_asm)
  next
    case (Some v)
    with l show ?thesis by simp
  qed
qed



end
