(* ===== verification/FloatOrder.thy ===== *)
theory FloatOrder
  imports PyNum
begin

text \<open>
  Rounding respects the order: \<open>fl\<close>, the conversion to a double and addition are monotone. These are the facts
  with which bounds on float computations are proved without an error analysis.
\<close>

section \<open>Rounding is monotone\<close>

lemma round_even_mono: "x \<le> y \<Longrightarrow> round_even x \<le> round_even y"
proof -
  assume le: "x \<le> y"
  show ?thesis
  proof (cases "\<lfloor>x\<rfloor> = \<lfloor>y\<rfloor>")
    case True
    with le show ?thesis by (auto simp: round_even_def Let_def)
  next
    case False
    with le have "\<lfloor>x\<rfloor> + 1 \<le> \<lfloor>y\<rfloor>" using floor_mono [OF le] by linarith
    moreover have "round_even x \<le> \<lfloor>x\<rfloor> + 1" "\<lfloor>y\<rfloor> \<le> round_even y" by (auto simp: round_even_def Let_def)
    ultimately show ?thesis by linarith
  qed
qed

lemma round_even_minus: "round_even (- x) = - round_even x"
proof (cases "x = of_int \<lfloor>x\<rfloor>")
  case True
  then have "- x = of_int (- \<lfloor>x\<rfloor>)" by simp
  then show ?thesis using True by (metis round_even_int)
next
  case False
  then have f: "\<lfloor>- x\<rfloor> = - \<lfloor>x\<rfloor> - 1" by linarith
  then show ?thesis by (auto simp: round_even_def Let_def f)
qed

lemma fl_minus: "fl (- x) = - fl x"
  by (simp add: fl_def ulp_def round_even_minus)

lemma less_ilog2: "0 < x \<Longrightarrow> x < pow2 (ilog2 x + 1)"
proof -
  assume x: "0 < x"
  obtain n d where nd: "quotient_of x = (n, d)" by (cases "quotient_of x")
  have d: "0 < d" using nd quotient_of_denom_pos by blast
  have xq: "x = of_int n / of_int d" using nd by (rule quotient_of_div)
  have n: "0 < n" using x xq d by (metis divide_le_0_iff not_less of_int_0_less_iff of_int_le_0_iff less_imp_le)
  define bn bd where "bn = bit_count (nat n)" and "bd = bit_count (nat d)"
  have bn: "of_int n < pow2 bn"
    using bit_count_bounds [of "nat n"] n by (simp add: bn_def)
  have bd: "pow2 (bd - 1) \<le> of_int d"
    using bit_count_bounds [of "nat d"] d by (simp add: bd_def)
  have "of_int n < pow2 (bn - bd + 1) * pow2 (bd - 1)" using bn by (simp add: pow2_add [symmetric])
  also have "\<dots> \<le> pow2 (bn - bd + 1) * of_int d" using bd by (intro mult_left_mono) auto
  finally have "x < pow2 (bn - bd + 1)" using d by (simp add: xq divide_less_eq)
  then show ?thesis
    by (simp add: ilog2_def nd Let_def bn_def [symmetric] bd_def [symmetric])
qed

lemma ilog2_mono: "0 < x \<Longrightarrow> x \<le> y \<Longrightarrow> ilog2 x \<le> ilog2 y"
proof -
  assume x: "0 < x" "x \<le> y"
  have "pow2 (ilog2 x) < pow2 (ilog2 y + 1)"
    using ilog2_le [OF x(1)] x less_ilog2 [of y] by linarith
  then have "\<not> ilog2 y + 1 \<le> ilog2 x" using pow2_mono [of "ilog2 y + 1" "ilog2 x"] by linarith
  then show ?thesis by linarith
qed

lemma fl_at: "x \<noteq> 0 \<Longrightarrow> x / ulp x \<le> of_int n \<Longrightarrow> fl x \<le> of_int n * ulp x"
  using round_even_mono [of "x / ulp x" "of_int n"] ulp_nonneg [of x] by (simp add: fl_def mult_right_mono)

lemma fl_at': "x \<noteq> 0 \<Longrightarrow> of_int n \<le> x / ulp x \<Longrightarrow> of_int n * ulp x \<le> fl x"
  using round_even_mono [of "of_int n" "x / ulp x"] ulp_nonneg [of x] by (simp add: fl_def mult_right_mono)

lemma fl_mono_pos: "0 < x \<Longrightarrow> x \<le> y \<Longrightarrow> fl x \<le> fl y"
proof -
  assume x: "0 < x" "x \<le> y"
  then have y: "0 < y" by linarith
  have il: "ilog2 x \<le> ilog2 y" using x by (rule ilog2_mono)
  show ?thesis
  proof (cases "ulp x = ulp y")
    case True
    have "x / ulp y \<le> y / ulp y" using x by (simp add: divide_right_mono)
    then show ?thesis using True x y round_even_mono by (simp add: fl_def mult_right_mono)
  next
    case False
    define ex where "ex = max (ilog2 x - 52) (- 1074)"
    have ux: "ulp x = pow2 ex" using x by (simp add: ulp_def ex_def)
    have "max (ilog2 x - 52) (- 1074) \<noteq> max (ilog2 y - 52) (- 1074)" using False x y by (auto simp: ulp_def)
    with il have lt: "ilog2 x + 1 \<le> ilog2 y" and uy: "ulp y = pow2 (ilog2 y - 52)" and e: "0 \<le> ilog2 y - ex"
      using y by (auto simp: ulp_def ex_def max_def split: if_splits)
    have "pow2 (ilog2 y) = pow2 (ilog2 y - ex) * ulp x" by (simp add: ux pow2_add [symmetric])
    moreover have "pow2 (ilog2 y - ex) = of_int (2 ^ nat (ilog2 y - ex))" using e by (simp add: pow2_def)
    ultimately have bx: "pow2 (ilog2 y) = of_int (2 ^ nat (ilog2 y - ex)) * ulp x" by simp
    have "x \<le> pow2 (ilog2 y)" using less_ilog2 [OF x(1)] pow2_mono [OF lt] by linarith
    then have "x / ulp x \<le> of_int (2 ^ nat (ilog2 y - ex))" using bx by (simp add: divide_le_eq)
    then have 1: "fl x \<le> pow2 (ilog2 y)" unfolding bx using x by (intro fl_at) auto
    have "pow2 (ilog2 y) = pow2 52 * ulp y" by (simp add: uy pow2_add [symmetric])
    also have "pow2 52 = of_int (2 ^ 52)" by (simp add: pow2_def)
    finally have by': "pow2 (ilog2 y) = of_int (2 ^ 52) * ulp y" .
    have "of_int (2 ^ 52) \<le> y / ulp y" using ilog2_le [OF y] unfolding by' by (simp add: le_divide_eq)
    then have "pow2 (ilog2 y) \<le> fl y" unfolding by' using y by (intro fl_at') auto
    with 1 show ?thesis by linarith
  qed
qed

lemma fl_mono: "x \<le> y \<Longrightarrow> fl x \<le> fl y"
proof -
  assume le: "x \<le> y"
  consider "0 < x" | "x \<le> 0" "0 \<le> y" | "y < 0" by linarith
  then show ?thesis
  proof cases
    case 2
    then have "0 \<le> fl (- x)" "0 \<le> fl y" by (auto intro: fl_nonneg)
    then show ?thesis by (simp add: fl_minus)
  next
    case 3
    then have "fl (- y) \<le> fl (- x)" using le by (intro fl_mono_pos) auto
    then show ?thesis by (simp add: fl_minus)
  qed (use le fl_mono_pos in auto)
qed

section \<open>Order on doubles\<close>

lemma mk_float_mono: "x \<le> y \<Longrightarrow> f_le (mk_float x) (mk_float y)"
proof -
  assume "x \<le> y"
  then have "fl x \<le> fl y" by (rule fl_mono)
  then show ?thesis by (auto simp: mk_float_def Let_def simp del: power_numeral)
qed

lemma f_le_trans: "f_le x y \<Longrightarrow> f_le y z \<Longrightarrow> f_le x z"
  by (cases x; cases y; cases z) auto

lemma f_le_total: "x \<noteq> NaN \<Longrightarrow> y \<noteq> NaN \<Longrightarrow> f_le x y \<or> f_le y x"
  by (cases x; cases y) auto

lemma f_lt_iff: "x \<noteq> NaN \<Longrightarrow> y \<noteq> NaN \<Longrightarrow> f_lt x y \<longleftrightarrow> \<not> f_le y x"
  by (cases x; cases y) (auto simp: f_lt_def)

lemma mk_float_not_NaN [simp]: "mk_float x \<noteq> NaN"
  by (simp add: mk_float_def Let_def del: power_numeral)

lemma fl_neg_of_nonpos: "x \<le> 0 \<Longrightarrow> fl x \<le> 0"
  using fl_mono [of x 0] by simp

text \<open>\<open>min(x, y)\<close> and \<open>max(x, y)\<close> of two floats.\<close>

definition f_min :: "pyfloat \<Rightarrow> pyfloat \<Rightarrow> pyfloat" where
  "f_min x y = (if f_lt y x then y else x)"

definition f_max :: "pyfloat \<Rightarrow> pyfloat \<Rightarrow> pyfloat" where
  "f_max x y = (if f_lt x y then y else x)"

section \<open>Small numbers are exact\<close>

lemma small_sum: "\<bar>n\<bar> < 2 ^ 53 \<Longrightarrow> mk_float (of_int n) = Fin (of_int n)"
proof -
  assume n: "\<bar>n\<bar> < 2 ^ 53"
  then have "\<bar>of_int n :: rat\<bar> < of_int (2 ^ 53)" by (simp only: of_int_abs [symmetric] of_int_less_iff)
  then show ?thesis by (simp add: mk_float_small)
qed

lemma small_float: "\<bar>i\<bar> < 2 ^ 53 \<Longrightarrow> float_of_int i = Inr (Fin (of_int i))"
proof -
  assume i: "\<bar>i\<bar> < 2 ^ 53"
  then have "\<bar>of_int i :: rat\<bar> < of_int (2 ^ 53)" by (simp only: of_int_abs [symmetric] of_int_less_iff)
  moreover have "(of_int (2 ^ 53) :: rat) \<le> 2 ^ 1024" by simp
  ultimately have "\<not> int_too_large i" using fl_int [OF i] unfolding int_too_large_def by linarith
  then show ?thesis by (simp add: float_of_int_def fl_int [OF i])
qed

section \<open>An upper bound of the rounding error\<close>

lemma fl_upper: "0 \<le> x \<Longrightarrow> fl x \<le> x + x / 2 ^ 53 + 1 / 2 ^ 100"
proof -
  assume "0 \<le> x"
  then have "fl x \<le> x + x / 2 ^ 53 + 1 / 2 ^ 1075" using fl_error [of x] by simp
  also have "(1 :: rat) / 2 ^ 1075 \<le> 1 / 2 ^ 100" by (intro divide_left_mono power_increasing) simp_all
  finally show ?thesis by simp
qed

lemma mk_float_fl: "0 \<le> x \<Longrightarrow> x \<le> 10 ^ 40 \<Longrightarrow> mk_float x = Fin (fl x)"
proof -
  assume x: "0 \<le> x" "x \<le> 10 ^ 40"
  have "fl x \<le> 2 * 10 ^ 40 + 1" using fl_upper [OF x(1)] x(2) by simp
  moreover have "(2 :: rat) * 10 ^ 40 + 1 < 2 ^ 1024" by simp
  moreover have "0 \<le> fl x" using x(1) by (rule fl_nonneg)
  ultimately show ?thesis by (simp add: mk_float_def Let_def del: power_numeral)
qed

end
