(* ===== verification/StoreTransaction.thy ===== *)
theory StoreTransaction
  imports FloatOrder PyText
begin

text \<open>
  How \<open>host_store.py\<close> runs a transaction: everything inside \<open>try: with _get_pool().connection() as conn\<close> commits as a
  whole; an exception of the code or of the database, or no connection, leaves the tables as they were and
  the function reports the failure.
\<close>

text \<open>The value and the tables after a transaction, or the value that reports its failure.\<close>

definition transact :: "bool \<Rightarrow> 'a \<Rightarrow> ('s \<Rightarrow> ('a \<times> 's) res) \<Rightarrow> 's \<Rightarrow> 'a \<times> 's" where
  "transact up failed act db = (if \<not> up then (failed, db) else case act db of Inl e \<Rightarrow> (failed, db) | Inr r \<Rightarrow> r)"

lemma transact_down [simp]: "transact False failed act db = (failed, db)"
  by (simp add: transact_def)

lemma transact_up: "transact True failed act db = (case act db of Inl e \<Rightarrow> (failed, db) | Inr r \<Rightarrow> r)"
  by (simp add: transact_def)

end
