(* ===== verification/Budgets.thy ===== *)
theory Budgets
  imports StoreTransaction
begin

text \<open>
  The monthly budgets of \<open>host_store.py\<close>: the tables \<open>subject_budget_usage\<close> and
  \<open>subject_budget_reservations\<close> and the functions that reserve, settle and report. Each call is one
  transaction, whose row lock serialises the calls of all replicas; a call whose transaction fails leaves
  both tables as they were. Rows stand in insertion order, in which a sum of the database adds.
\<close>

section \<open>The tables\<close>

text \<open>The key \<open>(tenant_id, subject, period)\<close> of a budget.\<close>

datatype budget_key = BudgetKey int string string

record usage_row =
  spent_usd :: pyfloat
  reserved_usd :: pyfloat
  usage_updated :: int

record reservation =
  resv_id :: string
  resv_key :: budget_key
  resv_amount :: pyfloat
  resv_expires :: pyfloat
  released :: bool

record budget_db =
  budget_usage :: "(budget_key \<times> usage_row) list"
  reservations :: "reservation list"

text \<open>The database adds like the host but refuses a sum beyond the largest double.\<close>

definition pg_add :: "pyfloat \<Rightarrow> pyfloat \<Rightarrow> pyfloat res" where
  "pg_add x y = (if f_finite x \<and> f_finite y \<and> \<not> f_finite (f_add x y)
     then Inl (OtherExc ''NumericValueOutOfRange'' ''value out of range: overflow'') else Inr (f_add x y))"

definition pg_sum :: "pyfloat list \<Rightarrow> pyfloat res" where
  "pg_sum vs = rfold (\<lambda>v s. pg_add s v) vs (Fin 0)"

definition holds :: "budget_key \<Rightarrow> reservation \<Rightarrow> bool" where
  "holds key r \<longleftrightarrow> resv_key r = key \<and> \<not> released r"

definition held_amounts :: "budget_key \<Rightarrow> reservation list \<Rightarrow> pyfloat list" where
  "held_amounts key rs = map resv_amount (filter (holds key) rs)"

definition write_usage :: "budget_key \<Rightarrow> (usage_row \<Rightarrow> usage_row) \<Rightarrow> (budget_key \<times> usage_row) list \<Rightarrow> (budget_key \<times> usage_row) list" where
  "write_usage key f us = map (\<lambda>(k, u). if k = key then (k, f u) else (k, u)) us"

section \<open>Operations\<close>

definition open_usage :: "budget_key \<Rightarrow> int \<Rightarrow> budget_db \<Rightarrow> budget_db" where
  "open_usage key now db = (if key \<in> fst ` set (budget_usage db) then db
     else db\<lparr> budget_usage := budget_usage db @ [(key, \<lparr> spent_usd = Fin 0, reserved_usd = Fin 0, usage_updated = now \<rparr>)] \<rparr>)"

definition spent_of :: "budget_key \<Rightarrow> budget_db \<Rightarrow> pyfloat" where
  "spent_of key db = (case map_of (budget_usage db) key of None \<Rightarrow> Fin 0 | Some u \<Rightarrow> spent_usd u)"

definition sweep_row :: "budget_key \<Rightarrow> rat \<Rightarrow> reservation \<Rightarrow> reservation" where
  "sweep_row key stamp r = (if holds key r \<and> f_le (resv_expires r) (Fin stamp) then r\<lparr> released := True \<rparr> else r)"

definition sweep :: "budget_key \<Rightarrow> rat \<Rightarrow> budget_db \<Rightarrow> budget_db" where
  "sweep key stamp db = db\<lparr> reservations := map (sweep_row key stamp) (reservations db) \<rparr>"

definition insert_reservation :: "reservation \<Rightarrow> budget_db \<Rightarrow> budget_db res" where
  "insert_reservation r db = (if resv_id r \<in> resv_id ` set (reservations db)
     then Inl (OtherExc ''UniqueViolation'' ''duplicate key value violates unique constraint'')
     else Inr (db\<lparr> reservations := reservations db @ [r] \<rparr>))"

text \<open>\<open>max(0.0, x)\<close>.\<close>

definition non_negative :: "pyfloat \<Rightarrow> pyfloat" where
  "non_negative x = (if f_lt (Fin 0) x then x else Fin 0)"

definition fits_budget :: "pyfloat \<Rightarrow> pyfloat \<Rightarrow> pyfloat \<Rightarrow> pyfloat \<Rightarrow> bool" where
  "fits_budget spent reserved amount limit =
     f_le (f_add (f_add spent reserved) amount) (f_add limit (Fin (fl (1 / 10 ^ 9))))"

definition reserve_subject_budget ::
  "bool \<Rightarrow> budget_key \<Rightarrow> pyfloat \<Rightarrow> pyfloat \<Rightarrow> string \<Rightarrow> pyfloat \<Rightarrow> rat \<Rightarrow> budget_db
     \<Rightarrow> (bool \<times> bool \<times> pyfloat \<times> pyfloat) \<times> budget_db" where
  "reserve_subject_budget up key limit amount_usd i ttl stamp = transact up (False, False, Fin 0, Fin 0) (\<lambda>db.
     let opened = sweep key stamp (open_usage key (trunc stamp) db); spent = spent_of key opened in
     rbind (pg_sum (held_amounts key (reservations opened))) (\<lambda>reserved.
     let amount = non_negative amount_usd; allowed = fits_budget spent reserved amount limit;
         held = (if allowed then f_add reserved amount else reserved) in
     rbind (if allowed
            then insert_reservation \<lparr> resv_id = i, resv_key = key, resv_amount = amount,
                   resv_expires = f_add (Fin stamp) ttl, released = False \<rparr> opened
            else Inr opened) (\<lambda>written.
       Inr ((allowed, True, spent, held),
         written\<lparr> budget_usage := write_usage key (\<lambda>u. u\<lparr> reserved_usd := held, usage_updated := trunc stamp \<rparr>) (budget_usage written) \<rparr>))))"

definition booked_cost :: "jval \<Rightarrow> pyfloat res" where
  "booked_cost cost_usd = rbind (if cost_usd = JNull then Inr (Fin 0) else float_of cost_usd) (\<lambda>cost.
     Inr (if \<not> f_finite cost \<or> f_lt cost (Fin 0) then Fin 0 else cost))"

definition settle_subject_budget :: "bool \<Rightarrow> string \<Rightarrow> jval \<Rightarrow> rat \<Rightarrow> budget_db \<Rightarrow> (bool \<times> bool) \<times> budget_db" where
  "settle_subject_budget up i cost_usd now = transact up (False, False) (\<lambda>db.
     rbind (booked_cost cost_usd) (\<lambda>cost.
     case find (\<lambda>r. resv_id r = i) (reservations db) of
       None \<Rightarrow> Inr ((False, True), db)
     | Some r \<Rightarrow>
         let key = resv_key r; left = filter (\<lambda>r. resv_id r \<noteq> i) (reservations db) in
         rbind (pg_add (spent_of key db) cost) (\<lambda>spent. rbind (pg_sum (held_amounts key left)) (\<lambda>held.
           Inr ((True, True), \<lparr> budget_usage = write_usage key (\<lambda>u. u\<lparr> spent_usd := spent, reserved_usd := held,
              usage_updated := trunc now \<rparr>) (budget_usage db), reservations = left \<rparr>)))))"

text \<open>The part of the retention sweep that concerns reservations.\<close>

definition prune_reservations :: "bool \<Rightarrow> rat \<Rightarrow> budget_db \<Rightarrow> budget_db" where
  "prune_reservations up now db = (if \<not> up then db else
     db\<lparr> reservations := filter (\<lambda>r. \<not> (released r \<and> f_lt (resv_expires r) (Fin (fl (now - 86400))))) (reservations db) \<rparr>)"

definition round_6 :: "pyfloat \<Rightarrow> pyfloat" where
  "round_6 x = (case x of Fin r \<Rightarrow> Fin (fl (of_int (round_even (r * 10 ^ 6)) / 10 ^ 6)) | _ \<Rightarrow> x)"

text \<open>What a subject has spent and what it holds; a store that fails raises.\<close>

definition live_amounts :: "budget_key \<Rightarrow> rat \<Rightarrow> reservation list \<Rightarrow> pyfloat list" where
  "live_amounts key stamp rs = map resv_amount (filter (\<lambda>r. holds key r \<and> f_lt (Fin stamp) (resv_expires r)) rs)"

definition budget_report :: "int \<Rightarrow> string \<Rightarrow> rat \<Rightarrow> budget_db \<Rightarrow> string \<Rightarrow> (string \<times> pyfloat \<times> pyfloat) res" where
  "budget_report tenant period stamp db s =
     rbind (pg_sum (live_amounts (BudgetKey tenant s period) stamp (reservations db))) (\<lambda>held.
       Inr (s, round_6 (spent_of (BudgetKey tenant s period) db), round_6 held))"

definition subject_budgets :: "int \<Rightarrow> string \<Rightarrow> string list \<Rightarrow> rat \<Rightarrow> budget_db \<Rightarrow> (string \<times> pyfloat \<times> pyfloat) list res" where
  "subject_budgets tenant period subjects stamp db =
     rmap (budget_report tenant period stamp db) (rev (remdups (rev subjects)))"


section \<open>Histories\<close>

text \<open>
  What happened: a reservation admitted with its budget, amount and expiry, and a cost booked for one. The
  spent amount and the open reservations of a budget are read off the history alone.
\<close>

datatype budget_event = Admitted string budget_key pyfloat pyfloat | Booked string budget_key pyfloat

fun admitted_id :: "budget_event \<Rightarrow> string list" where
  "admitted_id (Admitted i k a e) = [i]"
| "admitted_id (Booked i k c) = []"

fun booked_id :: "budget_event \<Rightarrow> string list" where
  "booked_id (Admitted i k a e) = []"
| "booked_id (Booked i k c) = [i]"

fun booked_for :: "budget_key \<Rightarrow> budget_event \<Rightarrow> pyfloat list" where
  "booked_for key (Admitted i k a e) = []"
| "booked_for key (Booked i k c) = (if k = key then [c] else [])"

fun open_for :: "budget_key \<Rightarrow> rat \<Rightarrow> string set \<Rightarrow> budget_event \<Rightarrow> (string \<times> pyfloat) list" where
  "open_for key stamp booked (Admitted i k a e) = (if k = key \<and> i \<notin> booked \<and> \<not> f_le e (Fin stamp) then [(i, a)] else [])"
| "open_for key stamp booked (Booked i k c) = []"

definition admitted_ids :: "budget_event list \<Rightarrow> string list" where
  "admitted_ids h = concat (map admitted_id h)"

definition booked_ids :: "budget_event list \<Rightarrow> string list" where
  "booked_ids h = concat (map booked_id h)"

definition spent_in :: "budget_event list \<Rightarrow> budget_key \<Rightarrow> pyfloat" where
  "spent_in h key = foldl f_add (Fin 0) (concat (map (booked_for key) h))"

definition open_in :: "budget_event list \<Rightarrow> budget_key \<Rightarrow> rat \<Rightarrow> (string \<times> pyfloat) list" where
  "open_in h key stamp = concat (map (open_for key stamp (set (booked_ids h))) h)"

fun settled_key :: "budget_event list \<Rightarrow> string \<Rightarrow> budget_key option" where
  "settled_key [] i = None"
| "settled_key (Admitted j k a e # h) i = (if i = j then Some k else settled_key h i)"
| "settled_key (Booked j k c # h) i = settled_key h i"

definition booking :: "budget_event list \<Rightarrow> string \<Rightarrow> jval \<Rightarrow> budget_event list" where
  "booking h i cost_usd = (case (settled_key h i, booked_cost cost_usd) of (Some key, Inr c) \<Rightarrow> [Booked i key c] | _ \<Rightarrow> [])"

text \<open>
  Runs of the store: any calls in any order, each of which may fail, on a clock that does not go back.
  The reservation ids are random and so do not recur.
\<close>

inductive budget_runs :: "budget_event list \<Rightarrow> rat \<Rightarrow> budget_db \<Rightarrow> bool" where
  budget_start: "budget_runs [] t \<lparr> budget_usage = [], reservations = [] \<rparr>"
| budget_reserve: "budget_runs h t db \<Longrightarrow> t \<le> stamp \<Longrightarrow> i \<notin> set (admitted_ids h) \<Longrightarrow>
    reserve_subject_budget up key limit amount i ttl stamp db = ((allowed, ok, spent, held), db') \<Longrightarrow>
    budget_runs (h @ (if allowed then [Admitted i key (non_negative amount) (f_add (Fin stamp) ttl)] else [])) stamp db'"
| budget_settle: "budget_runs h t db \<Longrightarrow> t \<le> now \<Longrightarrow>
    settle_subject_budget up i cost_usd now db = ((settled, ok), db') \<Longrightarrow>
    budget_runs (h @ (if settled then booking h i cost_usd else [])) now db'"
| budget_prune: "budget_runs h t db \<Longrightarrow> t \<le> now \<Longrightarrow> budget_runs h now (prune_reservations up now db)"


section \<open>The tables and the history\<close>

definition unexpired :: "budget_key \<Rightarrow> rat \<Rightarrow> reservation list \<Rightarrow> (string \<times> pyfloat) list" where
  "unexpired key stamp rs = map (\<lambda>r. (resv_id r, resv_amount r))
     (filter (\<lambda>r. holds key r \<and> \<not> f_le (resv_expires r) (Fin stamp)) rs)"

definition recorded :: "budget_event list \<Rightarrow> reservation \<Rightarrow> bool" where
  "recorded h r \<longleftrightarrow> Admitted (resv_id r) (resv_key r) (resv_amount r) (resv_expires r) \<in> set h \<and> resv_id r \<notin> set (booked_ids h)"

definition ids_once :: "budget_event list \<Rightarrow> bool" where
  "ids_once h \<longleftrightarrow> distinct (admitted_ids h) \<and> distinct (booked_ids h) \<and> set (booked_ids h) \<subseteq> set (admitted_ids h)"

definition kept_until :: "rat \<Rightarrow> budget_event list \<Rightarrow> reservation list \<Rightarrow> bool" where
  "kept_until t h rs \<longleftrightarrow> (\<forall>i k a e. Admitted i k a e \<in> set h \<and> i \<notin> set (booked_ids h)
     \<and> \<not> f_lt e (Fin (fl (t - 86400))) \<longrightarrow> i \<in> resv_id ` set rs)"

definition mirrored :: "budget_db \<Rightarrow> bool" where
  "mirrored db \<longleftrightarrow> (\<forall>(k, u)\<in>set (budget_usage db). \<forall>y. pg_sum (held_amounts k (reservations db)) = Inr y \<longrightarrow> reserved_usd u = y)"

definition rows_ok :: "budget_event list \<Rightarrow> budget_db \<Rightarrow> bool" where
  "rows_ok h db \<longleftrightarrow> distinct (map fst (budget_usage db)) \<and> distinct (map resv_id (reservations db))
     \<and> (\<forall>r\<in>set (reservations db). recorded h r \<and> resv_key r \<in> fst ` set (budget_usage db))"

definition budget_inv :: "budget_event list \<Rightarrow> rat \<Rightarrow> budget_db \<Rightarrow> bool" where
  "budget_inv h t db \<longleftrightarrow> (\<forall>key. spent_of key db = spent_in h key)
     \<and> (\<forall>key stamp. t \<le> stamp \<longrightarrow> unexpired key stamp (reservations db) = open_in h key stamp)
     \<and> rows_ok h db \<and> ids_once h \<and> kept_until t h (reservations db) \<and> mirrored db"

lemma admitted_ids_append [simp]: "admitted_ids (h @ h') = admitted_ids h @ admitted_ids h'"
  by (simp add: admitted_ids_def)

lemma booked_ids_append [simp]: "booked_ids (h @ h') = booked_ids h @ booked_ids h'"
  by (simp add: booked_ids_def)

lemma ids_of_event [simp]:
  "admitted_ids [Admitted i k a e] = [i]" "booked_ids [Admitted i k a e] = []"
  "admitted_ids [Booked i k c] = []" "booked_ids [Booked i k c] = [i]" "admitted_ids [] = []" "booked_ids [] = []"
  by (simp_all add: admitted_ids_def booked_ids_def)

lemma admitted_id_in: "Admitted i k a e \<in> set h \<Longrightarrow> i \<in> set (admitted_ids h)"
  by (force simp: admitted_ids_def)

lemma spent_in_admit [simp]: "spent_in (h @ [Admitted i k a e]) key = spent_in h key"
  by (simp add: spent_in_def)

lemma spent_in_book: "spent_in (h @ [Booked i k c]) key = (if k = key then f_add (spent_in h key) c else spent_in h key)"
  by (simp add: spent_in_def)

lemma open_in_admit: "i \<notin> set (booked_ids h) \<Longrightarrow> open_in (h @ [Admitted i k a e]) key stamp =
    open_in h key stamp @ (if k = key \<and> \<not> f_le e (Fin stamp) then [(i, a)] else [])"
  by (simp add: open_in_def)

lemma open_for_book: "open_for key stamp (insert i booked) ev = filter (\<lambda>p. fst p \<noteq> i) (open_for key stamp booked ev)"
  by (cases ev) auto

lemma open_in_book: "open_in (h @ [Booked i k c]) key stamp = filter (\<lambda>p. fst p \<noteq> i) (open_in h key stamp)"
proof -
  have "concat (map (open_for key stamp (insert i booked)) h) = filter (\<lambda>p. fst p \<noteq> i) (concat (map (open_for key stamp booked) h))" for booked
    by (induction h) (auto simp: open_for_book)
  then show ?thesis by (simp add: open_in_def)
qed

lemma admitted_ids_Cons: "admitted_ids (ev # h) = admitted_id ev @ admitted_ids h"
  by (simp add: admitted_ids_def)

lemma settled_key_admitted: "Admitted i k a e \<in> set h \<Longrightarrow> distinct (admitted_ids h) \<Longrightarrow> settled_key h i = Some k"
proof (induction h)
  case (Cons ev h)
  show ?case
  proof (cases ev)
    case (Admitted j k' a' e')
    with Cons.prems have j: "j \<notin> set (admitted_ids h)" and d: "distinct (admitted_ids h)" by (auto simp: admitted_ids_Cons)
    show ?thesis
    proof (cases "Admitted i k a e \<in> set h")
      case True
      then have "i \<in> set (admitted_ids h)" by (rule admitted_id_in)
      with j have "i \<noteq> j" by blast
      with True d Cons.IH Admitted show ?thesis by simp
    qed (use Cons.prems Admitted in auto)
  qed (use Cons in \<open>auto simp: admitted_ids_Cons\<close>)
qed simp

lemma admitted_unique: "Admitted i k a e \<in> set h \<Longrightarrow> Admitted i k' a' e' \<in> set h \<Longrightarrow> distinct (admitted_ids h) \<Longrightarrow> e = e'"
proof (induction h)
  case (Cons ev h)
  then show ?case by (cases ev) (auto simp: admitted_ids_Cons dest: admitted_id_in)
qed simp

lemma recorded_admit: "recorded h r \<Longrightarrow> recorded (h @ [Admitted i k a e]) r"
  by (simp add: recorded_def)

lemma recorded_unique:
  "recorded h r \<Longrightarrow> Admitted (resv_id r) k a e \<in> set h \<Longrightarrow> distinct (admitted_ids h) \<Longrightarrow> e = resv_expires r"
  unfolding recorded_def using admitted_unique by blast

lemma pg_sum_snoc: "pg_sum (vs @ [v]) = rbind (pg_sum vs) (\<lambda>s. pg_add s v)"
proof -
  have "rfold (\<lambda>v s. pg_add s v) [v] = (\<lambda>s. pg_add s v)" by (rule ext) (simp add: rbind_def split: sum.splits)
  then show ?thesis by (simp add: pg_sum_def rfold_append)
qed

lemma pg_add_Inr: "pg_add x y = Inr z \<Longrightarrow> z = f_add x y"
  by (auto simp: pg_add_def split: if_splits)

lemma sweep_row_sel [simp]:
  "resv_id (sweep_row k s r) = resv_id r" "resv_key (sweep_row k s r) = resv_key r"
  "resv_amount (sweep_row k s r) = resv_amount r" "resv_expires (sweep_row k s r) = resv_expires r"
  by (simp_all add: sweep_row_def)

lemma f_le_later: "f_le e (Fin s) \<Longrightarrow> s \<le> s' \<Longrightarrow> f_le e (Fin s')"
  by (cases e) auto

lemma sweep_unexpired: "s \<le> s' \<Longrightarrow> unexpired key s' (map (sweep_row k s) rs) = unexpired key s' rs"
  unfolding unexpired_def by (induction rs) (auto simp: holds_def sweep_row_def dest: f_le_later)

lemma sweep_held: "held_amounts key (map (sweep_row key s) rs) = map snd (unexpired key s rs)"
  unfolding unexpired_def held_amounts_def by (induction rs) (auto simp: holds_def sweep_row_def)

lemma sweep_other: "k \<noteq> key \<Longrightarrow> held_amounts k (map (sweep_row key s) rs) = held_amounts k rs"
  unfolding held_amounts_def by (induction rs) (auto simp: holds_def sweep_row_def)


lemma unexpired_insert: "unexpired key s (rs @ [r]) = unexpired key s rs @
    (if resv_key r = key \<and> \<not> released r \<and> \<not> f_le (resv_expires r) (Fin s) then [(resv_id r, resv_amount r)] else [])"
  by (simp add: unexpired_def holds_def)

lemma unexpired_filter: "unexpired key s (filter (\<lambda>r. resv_id r \<noteq> i) rs) = filter (\<lambda>p. fst p \<noteq> i) (unexpired key s rs)"
  unfolding unexpired_def by (induction rs) auto

lemma map_of_write_usage: "map_of (write_usage key f us) k = (if k = key then map_option f (map_of us k) else map_of us k)"
  by (induction us) (auto simp: write_usage_def)

lemma keys_write_usage [simp]: "map fst (write_usage key f us) = map fst us"
  by (induction us) (auto simp: write_usage_def)

lemma key_write_usage [simp]: "fst ` set (write_usage key f us) = fst ` set us"
  by (metis keys_write_usage set_map)

lemma in_write_usage: "(k, u) \<in> set (write_usage key f us) \<Longrightarrow> (\<exists>u0. (k, u0) \<in> set us \<and> u = (if k = key then f u0 else u0))"
  by (auto simp: write_usage_def split: if_splits)

lemma spent_open: "spent_of k (open_usage key now db) = spent_of k db"
  by (auto simp: open_usage_def spent_of_def map_add_def split: option.splits dest: map_of_SomeD) 

lemma kept_later: "kept_until t h rs \<Longrightarrow> t \<le> t' \<Longrightarrow> kept_until t' h rs"
proof -
  assume k: "kept_until t h rs" and t: "t \<le> t'"
  have "fl (t - 86400) \<le> fl (t' - 86400)" using t by (intro fl_mono) simp
  then have "f_lt e (Fin (fl (t - 86400))) \<Longrightarrow> f_lt e (Fin (fl (t' - 86400)))" for e
    by (cases e) (auto simp: f_lt_def)
  with k show ?thesis unfolding kept_until_def by blast
qed

lemma budget_inv_later: "budget_inv h t db \<Longrightarrow> t \<le> t' \<Longrightarrow> budget_inv h t' db"
  unfolding budget_inv_def by (auto dest: kept_later)


lemma open_usage_sel [simp]: "reservations (open_usage key now db) = reservations db"
  by (simp add: open_usage_def)

lemma open_usage_keys: "fst ` set (budget_usage (open_usage key now db)) = insert key (fst ` set (budget_usage db))"
  by (auto simp: open_usage_def)

lemma open_usage_distinct: "distinct (map fst (budget_usage db)) \<Longrightarrow> distinct (map fst (budget_usage (open_usage key now db)))"
  by (auto simp: open_usage_def)

definition new_reservation :: "string \<Rightarrow> budget_key \<Rightarrow> pyfloat \<Rightarrow> pyfloat \<Rightarrow> rat \<Rightarrow> reservation" where
  "new_reservation i key amount_usd ttl stamp = \<lparr> resv_id = i, resv_key = key, resv_amount = non_negative amount_usd,
     resv_expires = f_add (Fin stamp) ttl, released = False \<rparr>"

lemma reserve_cases:
  assumes "reserve_subject_budget up key limit amount i ttl stamp db = ((allowed, ok, spent, held), db')"
  shows "(\<not> ok \<and> \<not> allowed \<and> db' = db) \<or>
    (\<exists>reserved. up \<and> ok \<and> spent = spent_of key db
      \<and> pg_sum (map snd (unexpired key stamp (reservations db))) = Inr reserved
      \<and> allowed = fits_budget spent reserved (non_negative amount) limit
      \<and> held = (if allowed then f_add reserved (non_negative amount) else reserved)
      \<and> (allowed \<longrightarrow> i \<notin> resv_id ` set (reservations db))
      \<and> budget_usage db' = write_usage key (\<lambda>u. u\<lparr> reserved_usd := held, usage_updated := trunc stamp \<rparr>)
           (budget_usage (open_usage key (trunc stamp) db))
      \<and> reservations db' = map (sweep_row key stamp) (reservations db)
           @ (if allowed then [new_reservation i key amount ttl stamp] else []))"
proof -
  have s: "spent_of key (sweep key stamp (open_usage key (trunc stamp) db)) = spent_of key db"
    using spent_open [of key key "trunc stamp" db] by (simp add: sweep_def spent_of_def)
  have r: "reservations (sweep key stamp (open_usage key (trunc stamp) db)) = map (sweep_row key stamp) (reservations db)"
    by (simp add: sweep_def)
  have u: "budget_usage (sweep key stamp (open_usage key (trunc stamp) db)) = budget_usage (open_usage key (trunc stamp) db)"
    by (simp add: sweep_def)
  have ids: "resv_id ` set (map (sweep_row key stamp) (reservations db)) = resv_id ` set (reservations db)"
    by (simp add: image_image)
  show ?thesis
    using assms unfolding reserve_subject_budget_def transact_def Let_def s r sweep_held insert_reservation_def
    by (auto simp: r u ids image_image new_reservation_def rbind_def split: if_splits sum.splits)
qed

lemma find_in: "find P xs = Some x \<Longrightarrow> x \<in> set xs \<and> P x"
  by (auto simp: find_Some_iff)

lemma settle_cases:
  assumes "settle_subject_budget up i cost_usd now db = ((settled, ok), db')"
  shows "(\<not> settled \<and> db' = db) \<or>
    (\<exists>r cost held. up \<and> settled \<and> ok \<and> booked_cost cost_usd = Inr cost \<and> r \<in> set (reservations db) \<and> resv_id r = i
      \<and> pg_sum (held_amounts (resv_key r) (filter (\<lambda>r. resv_id r \<noteq> i) (reservations db))) = Inr held
      \<and> db' = \<lparr> budget_usage = write_usage (resv_key r) (\<lambda>u. u\<lparr> spent_usd := f_add (spent_of (resv_key r) db) cost,
           reserved_usd := held, usage_updated := trunc now \<rparr>) (budget_usage db),
         reservations = filter (\<lambda>r. resv_id r \<noteq> i) (reservations db) \<rparr>)"
proof (cases "find (\<lambda>r. resv_id r = i) (reservations db)")
  case None
  then show ?thesis
    using assms unfolding settle_subject_budget_def transact_def
    by (auto simp: rbind_def split: if_splits sum.splits)
next
  case (Some r)
  then have "r \<in> set (reservations db)" "resv_id r = i" using find_in [of _ _ r] by auto
  then show ?thesis
    using assms Some unfolding settle_subject_budget_def transact_def Let_def
    by (auto simp: rbind_def dest!: pg_add_Inr split: if_splits sum.splits)
qed


lemma held_amounts_append: "held_amounts k (rs @ [r]) = held_amounts k rs @ (if resv_key r = k \<and> \<not> released r then [resv_amount r] else [])"
  by (simp add: held_amounts_def holds_def)

lemma mirrored_open:
  assumes "mirrored db" and "rows_ok h db"
  shows "mirrored (open_usage key now db)"
proof (cases "key \<in> fst ` set (budget_usage db)")
  case False
  with assms(2) have "held_amounts key (reservations db) = []"
    by (auto simp: rows_ok_def held_amounts_def holds_def filter_empty_conv)
  with False assms(1) show ?thesis by (auto simp: mirrored_def open_usage_def pg_sum_def)
qed (use assms(1) in \<open>simp add: open_usage_def\<close>)

lemma rows_ok_admit: "rows_ok h db \<Longrightarrow> rows_ok (h @ [Admitted i k a e]) db"
  by (simp add: rows_ok_def recorded_admit)

lemma reserve_inv:
  assumes inv: "budget_inv h t db" and t: "t \<le> stamp" and i: "i \<notin> set (admitted_ids h)"
    and run: "reserve_subject_budget up key limit amount i ttl stamp db = ((allowed, ok, spent, held), db')"
  shows "budget_inv (h @ (if allowed then [Admitted i key (non_negative amount) (f_add (Fin stamp) ttl)] else [])) stamp db'"
  using reserve_cases [OF run]
proof (elim disjE exE conjE)
  assume "\<not> allowed" "db' = db"
  with budget_inv_later [OF inv t] show ?thesis by simp
next
  fix reserved
  let ?new = "new_reservation i key amount ttl stamp"
  let ?h = "h @ (if allowed then [Admitted i key (non_negative amount) (f_add (Fin stamp) ttl)] else [])"
  assume sum: "pg_sum (map snd (unexpired key stamp (reservations db))) = Inr reserved"
    and held: "held = (if allowed then f_add reserved (non_negative amount) else reserved)"
    and us: "budget_usage db' = write_usage key (\<lambda>u. u\<lparr> reserved_usd := held, usage_updated := trunc stamp \<rparr>)
           (budget_usage (open_usage key (trunc stamp) db))"
    and rs: "reservations db' = map (sweep_row key stamp) (reservations db) @ (if allowed then [?new] else [])"
  have inv': "budget_inv h stamp db" using inv t by (rule budget_inv_later)
  have booked: "i \<notin> set (booked_ids h)" using inv i by (auto simp: budget_inv_def ids_once_def)
  have spent: "spent_of k db' = spent_of k (open_usage key (trunc stamp) db)" for k
    by (auto simp: spent_of_def us map_of_write_usage split: option.splits)
  then have 1: "spent_of k db' = spent_in ?h k" for k
    using inv by (simp add: spent_open budget_inv_def)
  have 2: "unexpired k s (reservations db') = open_in ?h k s" if "stamp \<le> s" for k s
    using inv' that booked by (simp add: budget_inv_def rs unexpired_insert sweep_unexpired open_in_admit new_reservation_def)
  have 3: "rows_ok ?h db'"
  proof -
    have "rows_ok h db" using inv by (simp add: budget_inv_def)
    then have ok: "rows_ok ?h db" by (simp add: rows_ok_admit)
    have new: "recorded ?h ?new" "resv_key ?new = key" if allowed
      using that booked by (simp_all add: recorded_def new_reservation_def)
    have fresh: "i \<notin> resv_id ` set (reservations db)"
      using \<open>rows_ok h db\<close> i admitted_id_in by (fastforce simp: rows_ok_def recorded_def)
    have old: "recorded ?h (sweep_row key stamp r)" if "r \<in> set (reservations db)" for r
      using ok that by (simp add: rows_ok_def recorded_def)
    have keys: "fst ` set (budget_usage db') = insert key (fst ` set (budget_usage db))"
      unfolding us using open_usage_keys [of key "trunc stamp" db] keys_write_usage by (metis set_map)
    show ?thesis
      unfolding rows_ok_def rs keys
      using ok new old fresh open_usage_distinct [of db key "trunc stamp"]
      by (auto simp: rows_ok_def us comp_def image_image new_reservation_def)
  qed
  have 4: "ids_once ?h" using inv i by (auto simp: budget_inv_def ids_once_def)
  have 5: "kept_until stamp ?h (reservations db')"
  proof -
    have "kept_until stamp h (reservations db)" using inv' by (simp add: budget_inv_def)
    then show ?thesis unfolding kept_until_def rs by (simp add: image_image image_Un new_reservation_def) blast
  qed
  have 6: "mirrored db'"
  proof -
    have m: "mirrored (open_usage key (trunc stamp) db)" using inv mirrored_open [of db h] by (simp add: budget_inv_def)
    have other: "held_amounts k (reservations db') = held_amounts k (reservations db)" if "k \<noteq> key" for k
      using that by (simp add: rs held_amounts_append sweep_other new_reservation_def)
    have this1: "held_amounts key (reservations db') = map snd (unexpired key stamp (reservations db)) @ (if allowed then [non_negative amount] else [])"
      by (simp add: rs held_amounts_append sweep_held new_reservation_def)
    show ?thesis
      unfolding mirrored_def us
    proof (clarify dest!: in_write_usage)
      fix k u0 y
      assume u0: "(k, u0) \<in> set (budget_usage (open_usage key (trunc stamp) db))"
        and y: "pg_sum (held_amounts k (reservations db')) = Inr y"
      show "reserved_usd (if k = key then u0\<lparr> reserved_usd := held, usage_updated := trunc stamp \<rparr> else u0) = y"
      proof (cases "k = key")
        case True
        with y have "y = held" by (auto simp: this1 held sum pg_sum_snoc dest: pg_add_Inr split: if_splits)
        with True show ?thesis by simp
      next
        case False
        with m u0 y show ?thesis by (auto simp: mirrored_def other)
      qed
    qed
  qed
  show ?thesis unfolding budget_inv_def using 1 2 3 4 5 6 by blast
qed


lemma held_removed:
  assumes "distinct (map resv_id rs)" and "r \<in> set rs" and "resv_key r \<noteq> k"
  shows "held_amounts k (filter (\<lambda>r'. resv_id r' \<noteq> resv_id r) rs) = held_amounts k rs"
proof -
  have "resv_id r' \<noteq> resv_id r" if "r' \<in> set rs" "holds k r'" for r'
    using assms that by (auto simp: distinct_map holds_def dest: inj_onD)
  then have "filter (\<lambda>r'. resv_id r' \<noteq> resv_id r \<and> holds k r') rs = filter (holds k) rs"
    by (intro filter_cong) auto
  then show ?thesis by (simp add: held_amounts_def conj_commute)
qed

lemma settle_inv:
  assumes inv: "budget_inv h t db" and t: "t \<le> now"
    and run: "settle_subject_budget up i cost_usd now db = ((settled, ok), db')"
  shows "budget_inv (h @ (if settled then booking h i cost_usd else [])) now db'"
  using settle_cases [OF run]
proof (elim disjE exE conjE)
  assume "\<not> settled" "db' = db"
  with budget_inv_later [OF inv t] show ?thesis by simp
next
  fix r cost held
  assume settled and cost: "booked_cost cost_usd = Inr cost" and r: "r \<in> set (reservations db)" "resv_id r = i"
    and sum: "pg_sum (held_amounts (resv_key r) (filter (\<lambda>r. resv_id r \<noteq> i) (reservations db))) = Inr held"
    and db': "db' = \<lparr> budget_usage = write_usage (resv_key r) (\<lambda>u. u\<lparr> spent_usd := f_add (spent_of (resv_key r) db) cost,
           reserved_usd := held, usage_updated := trunc now \<rparr>) (budget_usage db),
         reservations = filter (\<lambda>r. resv_id r \<noteq> i) (reservations db) \<rparr>"
  have inv': "budget_inv h now db" using inv t by (rule budget_inv_later)
  then have rows: "rows_ok h db" and ids: "ids_once h" by (simp_all add: budget_inv_def)
  from rows r have a: "Admitted i (resv_key r) (resv_amount r) (resv_expires r) \<in> set h" and b: "i \<notin> set (booked_ids h)"
    and row: "resv_key r \<in> fst ` set (budget_usage db)" by (auto simp: rows_ok_def recorded_def)
  from a ids have "settled_key h i = Some (resv_key r)" using settled_key_admitted by (simp add: ids_once_def)
  then have ev: "booking h i cost_usd = [Booked i (resv_key r) cost]" by (simp add: booking_def cost)
  let ?h = "h @ [Booked i (resv_key r) cost]"
  have 1: "spent_of k db' = spent_in ?h k" for k
  proof -
    have "spent_of k db = spent_in h k" using inv by (simp add: budget_inv_def)
    moreover have "map_of (budget_usage db) (resv_key r) \<noteq> None" using row by (simp add: map_of_eq_None_iff)
    ultimately show ?thesis by (auto simp: db' spent_of_def map_of_write_usage spent_in_book)
  qed
  have 2: "unexpired k s (reservations db') = open_in ?h k s" if "now \<le> s" for k s
    using inv' that by (simp add: budget_inv_def db' unexpired_filter open_in_book)
  have 3: "rows_ok ?h db'"
    using rows by (auto simp: rows_ok_def db' recorded_def distinct_map_filter)
  have 4: "ids_once ?h" using ids b admitted_id_in [OF a] by (auto simp: ids_once_def)
  have 5: "kept_until now ?h (reservations db')"
    using inv' unfolding budget_inv_def kept_until_def db' by simp blast
  have 6: "mirrored db'"
    unfolding mirrored_def
  proof (clarify)
    fix k u y
    assume u: "(k, u) \<in> set (budget_usage db')" and y: "pg_sum (held_amounts k (reservations db')) = Inr y"
    show "reserved_usd u = y"
    proof (cases "k = resv_key r")
      case True
      with u y sum show ?thesis by (auto simp: db' dest!: in_write_usage)
    next
      case False
      with rows r have "held_amounts k (reservations db') = held_amounts k (reservations db)"
        using held_removed [of "reservations db" r k] by (simp add: db' rows_ok_def)
      with False u y inv show ?thesis by (auto simp: db' budget_inv_def mirrored_def dest!: in_write_usage)
    qed
  qed
  show ?thesis unfolding budget_inv_def using 1 2 3 4 5 6 \<open>settled\<close> ev by simp
qed


lemma unexpired_unreleased:
  "(\<And>r. P r \<Longrightarrow> released r) \<Longrightarrow> unexpired key s (filter (\<lambda>r. \<not> P r) rs) = unexpired key s rs"
  unfolding unexpired_def by (induction rs) (auto simp: holds_def)

lemma held_unreleased: "(\<And>r. P r \<Longrightarrow> released r) \<Longrightarrow> held_amounts key (filter (\<lambda>r. \<not> P r) rs) = held_amounts key rs"
  unfolding held_amounts_def by (induction rs) (auto simp: holds_def)

lemma prune_inv:
  assumes inv: "budget_inv h t db" and t: "t \<le> now"
  shows "budget_inv h now (prune_reservations up now db)"
proof (cases up)
  case False
  then show ?thesis using budget_inv_later [OF inv t] by (simp add: prune_reservations_def)
next
  case True
  let ?P = "\<lambda>r. released r \<and> f_lt (resv_expires r) (Fin (fl (now - 86400)))"
  let ?rs = "filter (\<lambda>r. \<not> ?P r) (reservations db)"
  have db': "prune_reservations up now db = db\<lparr> reservations := ?rs \<rparr>" using True by (simp add: prune_reservations_def)
  have inv': "budget_inv h now db" using inv t by (rule budget_inv_later)
  have "kept_until now h ?rs"
    unfolding kept_until_def
  proof (intro allI impI)
    fix i k a e
    assume a: "Admitted i k a e \<in> set h \<and> i \<notin> set (booked_ids h) \<and> \<not> f_lt e (Fin (fl (now - 86400)))"
    with inv' obtain r where r: "r \<in> set (reservations db)" "resv_id r = i"
      unfolding budget_inv_def kept_until_def by blast
    with a inv' have "e = resv_expires r"
      using recorded_unique [of h r k a e] by (auto simp: budget_inv_def rows_ok_def ids_once_def)
    with r a show "i \<in> resv_id ` set ?rs" by auto
  qed
  moreover have "rows_ok h (db\<lparr> reservations := ?rs \<rparr>)"
    using inv' by (auto simp: budget_inv_def rows_ok_def distinct_map_filter)
  moreover have "unexpired key s ?rs = unexpired key s (reservations db)"
    and "held_amounts key ?rs = held_amounts key (reservations db)" for key s
    using unexpired_unreleased [of ?P] held_unreleased [of ?P] by blast+
  ultimately show ?thesis
    using inv' unfolding budget_inv_def db' mirrored_def spent_of_def by simp
qed

lemma budget_runs_inv: "budget_runs h t db \<Longrightarrow> budget_inv h t db"
proof (induction rule: budget_runs.induct)
  case (budget_start t)
  show ?case
    by (simp add: budget_inv_def spent_of_def spent_in_def unexpired_def open_in_def rows_ok_def ids_once_def kept_until_def mirrored_def)
qed (blast intro: reserve_inv settle_inv prune_inv)+


section \<open>What the budgets promise\<close>


text \<open>
  C15. A call's cost is booked once: in every run no reservation is booked twice or without having been
  admitted, and the spent amount of every budget is the sum, in order, of the costs booked for it.
\<close>

theorem budget_booked_once:
  assumes "budget_runs h t db"
  shows "distinct (booked_ids h) \<and> set (booked_ids h) \<subseteq> set (admitted_ids h) \<and> spent_of key db = spent_in h key"
  using budget_runs_inv [OF assms] by (simp add: budget_inv_def ids_once_def)

text \<open>
  C16. No late settle is lost: as long as an admitted call is unbooked and expired less than a day ago, even if
  it was swept, settling it books its cost (unless a sum leaves the range of a double) and a second settle of
  the same call books nothing.
\<close>

theorem late_settle_books:
  assumes "budget_runs h t db" and "Admitted i k a e \<in> set h" and "i \<notin> set (booked_ids h)"
    and "\<not> f_lt e (Fin (fl (t - 86400)))" and "booked_cost c = Inr cost" and "pg_add (spent_in h k) cost = Inr spent"
    and "pg_sum (held_amounts k (filter (\<lambda>r. resv_id r \<noteq> i) (reservations db))) = Inr held"
  shows "\<exists>db'. settle_subject_budget True i c now db = ((True, True), db') \<and> spent_of k db' = spent
    \<and> settle_subject_budget True i c later db' = ((False, True), db')"
proof -
  have inv: "budget_inv h t db" using assms(1) by (rule budget_runs_inv)
  then have "i \<in> resv_id ` set (reservations db)" using assms(2-4) unfolding budget_inv_def kept_until_def by blast
  then obtain r where f: "find (\<lambda>r. resv_id r = i) (reservations db) = Some r"
    by (cases "find (\<lambda>r. resv_id r = i) (reservations db)") (auto simp: find_None_iff)
  then have r: "r \<in> set (reservations db)" "resv_id r = i" using find_in by fastforce+
  with inv have rec1: "recorded h r" and row: "resv_key r \<in> fst ` set (budget_usage db)" and d: "distinct (admitted_ids h)"
    by (auto simp: budget_inv_def rows_ok_def ids_once_def)
  have "settled_key h i = Some (resv_key r)" "settled_key h i = Some k"
    using settled_key_admitted [OF _ d] rec1 r(2) assms(2) unfolding recorded_def by blast+
  then have k: "resv_key r = k" by simp
  have s: "spent_of k db = spent_in h k" using inv by (simp add: budget_inv_def)
  have "map_of (budget_usage db) k \<noteq> None" using row by (simp add: k map_of_eq_None_iff)
  moreover have "find (\<lambda>r. resv_id r = i) (filter (\<lambda>r. resv_id r \<noteq> i) (reservations db)) = None"
    by (auto simp: find_None_iff)
  ultimately show ?thesis
    using f assms(5-7) s by (auto simp: settle_subject_budget_def transact_def k spent_of_def map_of_write_usage)
qed

section \<open>An example\<close>

text \<open>A budget of 10: 4 is admitted and settled for 3; 7 fits, a further 1 does not.\<close>

definition demo_key :: budget_key where
  "demo_key = BudgetKey 1 ''g:team'' ''2026-01''"

definition demo_after :: budget_db where
  "demo_after = snd (settle_subject_budget True ''a'' (JFloat (Fin 3)) 5
     (snd (reserve_subject_budget True demo_key (Fin 10) (Fin 4) ''a'' (Fin 900) 0 \<lparr> budget_usage = [], reservations = [] \<rparr>)))"

definition demo_history :: "budget_event list" where
  "demo_history = [Admitted ''a'' demo_key (Fin 4) (Fin 900), Booked ''a'' demo_key (Fin 3)]"

lemma fits_small:
  assumes "\<bar>a\<bar> < 2 ^ 50" "\<bar>b\<bar> < 2 ^ 50" "\<bar>c\<bar> < 2 ^ 50" "\<bar>l\<bar> < 2 ^ 50" and "a + b + c \<le> l"
  shows "fits_budget (Fin (of_int a)) (Fin (of_int b)) (Fin (of_int c)) (Fin (of_int l))"
proof -
  have "f_add (Fin (of_int a)) (Fin (of_int b)) = Fin (of_int (a + b))"
    using assms small_sum [of "a + b"] by simp
  moreover have "f_add (Fin (of_int (a + b))) (Fin (of_int c)) = Fin (of_int (a + b + c))"
    using assms small_sum [of "a + b + c"] by simp
  moreover have "f_le (Fin (of_int (a + b + c))) (Fin (of_int l))" using assms(5) by simp
  moreover have "f_le (Fin (of_int l)) (f_add (Fin (of_int l)) (Fin (fl (1 / 10 ^ 9))))"
    using assms small_sum [of l] mk_float_mono [of "of_int l" "of_int l + fl (1 / 10 ^ 9)"] fl_nonneg [of "1 / 10 ^ 9"] by simp
  ultimately show ?thesis unfolding fits_budget_def by (simp only: f_le_trans)
qed

lemma demo_fits: "fits_budget (Fin 0) (Fin 0) (Fin 4) (Fin 10)" "fits_budget (Fin 3) (Fin 0) (Fin 7) (Fin 10)"
  using fits_small [of 0 0 4 10] fits_small [of 3 0 7 10] by simp_all

lemmas demo_sums = mk_float_small pg_sum_def pg_add_def held_amounts_def holds_def non_negative_def

lemma demo_first:
  "reserve_subject_budget True demo_key (Fin 10) (Fin 4) ''a'' (Fin 900) 0 \<lparr> budget_usage = [], reservations = [] \<rparr> =
     ((True, True, Fin 0, Fin 4), \<lparr> budget_usage = [(demo_key, \<lparr> spent_usd = Fin 0, reserved_usd = Fin 4, usage_updated = 0 \<rparr>)],
        reservations = [\<lparr> resv_id = ''a'', resv_key = demo_key, resv_amount = Fin 4, resv_expires = Fin 900, released = False \<rparr>] \<rparr>)"
  by (simp add: reserve_subject_budget_def transact_def open_usage_def sweep_def spent_of_def Let_def demo_fits insert_reservation_def
      write_usage_def trunc_def demo_sums)

lemma demo_second: "demo_after = \<lparr> budget_usage = [(demo_key, \<lparr> spent_usd = Fin 3, reserved_usd = Fin 0, usage_updated = 5 \<rparr>)], reservations = [] \<rparr>"
  by (simp add: demo_after_def demo_first settle_subject_budget_def transact_def booked_cost_def float_of_def
      spent_of_def Let_def write_usage_def trunc_def demo_sums)


lemma demo_cost: "booked_cost (JFloat (Fin 3)) = Inr (Fin 3)"
  by (simp add: booked_cost_def float_of_def)

lemma demo_run1: "budget_runs [Admitted ''a'' demo_key (Fin 4) (Fin 900)] 0
    (snd (reserve_subject_budget True demo_key (Fin 10) (Fin 4) ''a'' (Fin 900) 0 \<lparr> budget_usage = [], reservations = [] \<rparr>))"
  using budget_reserve [OF budget_start [of 0], of 0 "''a''" True demo_key "Fin 10" "Fin 4" "Fin 900"]
  by (simp add: demo_first non_negative_def mk_float_small)

lemma demo_run2: "budget_runs demo_history 5 demo_after"
proof -
  have "settle_subject_budget True ''a'' (JFloat (Fin 3)) 5
      (snd (reserve_subject_budget True demo_key (Fin 10) (Fin 4) ''a'' (Fin 900) 0 \<lparr> budget_usage = [], reservations = [] \<rparr>))
      = ((True, True), demo_after)"
    by (simp add: demo_second) (simp add: demo_first settle_subject_budget_def transact_def demo_cost spent_of_def Let_def write_usage_def trunc_def demo_sums)
  from budget_settle [OF demo_run1 _ this] show ?thesis by (simp add: demo_history_def booking_def demo_cost)
qed


theorem budget_booked_once_witness: "spent_of demo_key demo_after = spent_in demo_history demo_key"
  using budget_booked_once [OF demo_run2] by simp

theorem late_settle_books_witness:
  "\<exists>db. settle_subject_budget True ''a'' (JFloat (Fin 3)) 5
     (snd (reserve_subject_budget True demo_key (Fin 10) (Fin 4) ''a'' (Fin 900) 0 \<lparr> budget_usage = [], reservations = [] \<rparr>)) = ((True, True), db)"
proof -
  have "fl (0 - 86400) = (-86400 :: rat)" using fl_int [of "-86400"] by simp
  then show ?thesis
    using late_settle_books [OF demo_run1, of "''a''" demo_key "Fin 4" "Fin 900" "JFloat (Fin 3)" "Fin 3" "Fin 3" "Fin 0" 5 5]
    by (simp add: demo_first demo_cost demo_sums spent_in_def) blast
qed

end
