(* ===== verification/RateBucket.thy ===== *)
theory RateBucket
  imports StoreTransaction
begin

text \<open>
  The token bucket of \<open>host_store.consume_rate_token\<close>: one row per consumer in \<open>consumer_rate_buckets\<close>,
  locked for one short transaction, so the calls of all replicas are a sequence. The clock of a call is the
  clock of the replica that makes it.
\<close>

section \<open>The bucket\<close>

record bucket =
  tokens :: pyfloat
  filled_at :: pyfloat

type_synonym buckets = "(string \<times> bucket) list"

definition bucket_of :: "string \<Rightarrow> pyfloat \<Rightarrow> pyfloat \<Rightarrow> buckets \<Rightarrow> bucket" where
  "bucket_of consumer full stamp bs = (case map_of bs consumer of
     None \<Rightarrow> \<lparr> tokens = full, filled_at = stamp \<rparr> | Some b \<Rightarrow> b)"

definition refilled :: "pyfloat \<Rightarrow> pyfloat \<Rightarrow> pyfloat \<Rightarrow> bucket \<Rightarrow> pyfloat" where
  "refilled full refill stamp b =
     f_min full (f_add (tokens b) (f_mul (f_max (Fin 0) (f_sub stamp (filled_at b))) refill))"

definition consume_rate_token ::
  "bool \<Rightarrow> string \<Rightarrow> int \<Rightarrow> int \<Rightarrow> pyfloat \<Rightarrow> buckets \<Rightarrow> (bool \<times> bool \<times> pyfloat) \<times> buckets" where
  "consume_rate_token up consumer rate_per_min burst stamp = transact up (False, False, Fin 0) (\<lambda>bs.
     rbind (float_of_int (max 1 rate_per_min)) (\<lambda>rate. rbind (f_div rate (Fin 60)) (\<lambda>refill.
     rbind (float_of_int (max 1 burst)) (\<lambda>full.
     let before = refilled full refill stamp (bucket_of consumer full stamp bs);
         allowed = f_le (Fin 1) before;
         left = (if allowed then f_sub before (Fin 1) else before) in
     rbind (if allowed then Inr (Fin 0) else rbind (f_div (f_sub (Fin 1) left) refill) (\<lambda>wait.
              Inr (f_max (Fin (fl (1 / 100))) wait))) (\<lambda>retry_after.
       Inr ((allowed, True, retry_after), dset consumer \<lparr> tokens = left, filled_at = stamp \<rparr> bs))))))"

section \<open>Rounding errors\<close>

lemma refill_upper: "1 \<le> r \<Longrightarrow> r \<le> 10 ^ 9 \<Longrightarrow> fl (r / 60) \<le> r / 60 * (1 + 1 / 2 ^ 52)"
  using fl_upper [of "r / 60"] by simp

lemma refill_lower: "1 \<le> r \<Longrightarrow> 0 < fl (r / 60)"
proof -
  assume "1 \<le> r"
  then have "fl (1 / 60) \<le> fl (r / 60)" by (intro fl_mono) simp
  moreover have "(1 :: rat) / 2 ^ 1075 \<le> 1 / 2 ^ 100" by (intro divide_left_mono power_increasing) simp_all
  then have "\<bar>fl (1 / 60) - 1 / 60\<bar> \<le> 1 / 60 / 2 ^ 53 + 1 / 2 ^ 100" using fl_error [of "1 / 60"] by simp
  then have "1 / 60 - fl (1 / 60) \<le> 1 / 60 / 2 ^ 53 + 1 / 2 ^ 100" by linarith
  then have "0 < fl (1 / 60)" by simp
  ultimately show ?thesis by linarith
qed

text \<open>What \<open>dt\<close> seconds credit, and what one call leaves.\<close>

lemma credit_upper:
  assumes "0 \<le> dt" "dt \<le> 10 ^ 12" "1 \<le> r" "r \<le> (10 :: rat) ^ 9"
  shows "fl (fl dt * fl (r / 60)) \<le> r / 60 * (1 + 1 / 2 ^ 50) * dt + 1 / 2 ^ 60"
proof -
  define q where "q = r / 60"
  have q: "0 \<le> q" "q \<le> 10 ^ 9" using assms by (simp_all add: q_def)
  have d: "0 \<le> fl dt" "fl dt \<le> dt + dt / 2 ^ 53 + 1 / 2 ^ 100" using fl_nonneg [OF assms(1)] fl_upper [OF assms(1)] by simp_all
  have f: "0 \<le> fl q" "fl q \<le> q * (1 + 1 / 2 ^ 52)" using assms refill_upper fl_nonneg [of q] by (simp_all add: q_def)
  define p where "p = fl dt * fl q"
  have "p \<le> (dt * (1 + 1 / 2 ^ 53) + 1 / 2 ^ 100) * (q * (1 + 1 / 2 ^ 52))"
    unfolding p_def using d f assms by (intro mult_mono) (simp_all add: algebra_simps)
  also have "\<dots> = q * dt * ((1 + 1 / 2 ^ 53) * (1 + 1 / 2 ^ 52)) + q * ((1 + 1 / 2 ^ 52) / 2 ^ 100)"
    by (simp add: algebra_simps)
  also have "\<dots> \<le> q * dt * (1 + 1 / 2 ^ 51) + 10 ^ 9 * ((1 + 1 / 2 ^ 52) / 2 ^ 100)"
    using q assms by (intro add_mono mult_left_mono mult_right_mono) simp_all
  finally have p: "p \<le> q * dt * (1 + 1 / 2 ^ 51) + 1 / 2 ^ 62" by simp
  have "fl p \<le> p * (1 + 1 / 2 ^ 53) + 1 / 2 ^ 100" using fl_upper [of p] d f by (simp add: p_def algebra_simps)
  also have "\<dots> \<le> (q * dt * (1 + 1 / 2 ^ 51) + 1 / 2 ^ 62) * (1 + 1 / 2 ^ 53) + 1 / 2 ^ 100"
    using p by (intro add_mono mult_right_mono) simp_all
  also have "\<dots> = q * dt * ((1 + 1 / 2 ^ 51) * (1 + 1 / 2 ^ 53)) + ((1 + 1 / 2 ^ 53) / 2 ^ 62 + 1 / 2 ^ 100)"
    by (simp add: algebra_simps)
  also have "\<dots> \<le> q * dt * (1 + 1 / 2 ^ 50) + 1 / 2 ^ 60"
    using q assms by (intro add_mono mult_left_mono) simp_all
  finally show ?thesis by (simp add: p_def q_def algebra_simps)
qed


lemma billion: "i \<le> 10 ^ 9 \<Longrightarrow> of_int i \<le> (10 :: rat) ^ 9"
proof -
  assume "i \<le> 10 ^ 9"
  then have "of_int i \<le> (of_int (10 ^ 9) :: rat)" by (simp only: of_int_le_iff)
  then show ?thesis by simp
qed

text \<open>The tokens a call finds: at most what the last call left and the time since credits.\<close>

lemma refilled_bounds:
  assumes "0 \<le> t" "t \<le> of_int burst" "1 \<le> burst" "burst \<le> 10 ^ 9" "1 \<le> r" "r \<le> (10 :: rat) ^ 9" "0 \<le> f" "f \<le> s" "s \<le> 10 ^ 12"
  shows "\<exists>x. refilled (Fin (of_int burst)) (Fin (fl (r / 60))) (Fin s) \<lparr> tokens = Fin t, filled_at = Fin f \<rparr> = Fin x
    \<and> 0 \<le> x \<and> x \<le> of_int burst \<and> x \<le> t + r / 60 * (1 + 1 / 2 ^ 50) * (s - f) + of_int burst / 2 ^ 53 + 1 / 2 ^ 59"
proof -
  define dt where "dt = s - f"
  have dt: "0 \<le> dt" "dt \<le> 10 ^ 12" using assms by (simp_all add: dt_def)
  have fd: "0 \<le> fl dt" "fl dt \<le> 2 * 10 ^ 12" using fl_nonneg [OF dt(1)] fl_upper [OF dt(1)] dt(2) by simp_all
  have fr: "0 \<le> fl (r / 60)" "fl (r / 60) \<le> 10 ^ 9" using fl_nonneg [of "r / 60"] refill_upper [of r] assms by simp_all
  have p: "0 \<le> fl dt * fl (r / 60)" "fl dt * fl (r / 60) \<le> (2 * 10 ^ 12) * 10 ^ 9" using mult_mono [of "fl dt" "2 * 10 ^ 12" "fl (r / 60)" "10 ^ 9"] fd fr by simp_all
  define c where "c = fl (fl dt * fl (r / 60))"
  have c: "0 \<le> c" "c \<le> r / 60 * (1 + 1 / 2 ^ 50) * dt + 1 / 2 ^ 60" "c \<le> 10 ^ 30"
    using fl_nonneg [OF p(1)] credit_upper [OF dt assms(5,6)] fl_upper [OF p(1)] p by (simp_all add: c_def)
  have b: "of_int burst \<le> (10 :: rat) ^ 9" using assms(4) by (rule billion)
  have "f_sub (Fin s) (Fin f) = Fin (fl dt)" using mk_float_fl [of dt] dt by (simp add: f_sub_def dt_def)
  moreover have "f_max (Fin 0) (Fin (fl dt)) = Fin (fl dt)" using fd by (simp add: f_max_def)
  moreover have "f_mul (Fin (fl dt)) (Fin (fl (r / 60))) = Fin c" using mk_float_fl [of "fl dt * fl (r / 60)"] p by (simp add: c_def)
  moreover have "f_add (Fin t) (Fin c) = Fin (fl (t + c))" using mk_float_fl [of "t + c"] c b assms(1,2) by simp
  ultimately have e: "refilled (Fin (of_int burst)) (Fin (fl (r / 60))) (Fin s) \<lparr> tokens = Fin t, filled_at = Fin f \<rparr> =
      Fin (min (of_int burst) (fl (t + c)))"
    by (simp add: refilled_def f_min_def min_def)
  have n: "0 \<le> fl (t + c)" using assms(1) c(1) by (intro fl_nonneg) simp
  have "min (of_int burst) (fl (t + c)) \<le> t + c + of_int burst / 2 ^ 53 + 1 / 2 ^ 100"
  proof (cases "t + c \<le> of_int burst")
    case True
    then have "(t + c) / 2 ^ 53 \<le> of_int burst / 2 ^ 53" by (rule divide_right_mono) simp
    moreover have "fl (t + c) \<le> t + c + (t + c) / 2 ^ 53 + 1 / 2 ^ 100" using assms(1) c(1) by (intro fl_upper) simp
    ultimately show ?thesis by linarith
  next
    case False
    then show ?thesis using assms(3) by simp
  qed
  with c(2) have "min (of_int burst) (fl (t + c)) \<le> t + r / 60 * (1 + 1 / 2 ^ 50) * dt + of_int burst / 2 ^ 53 + 1 / 2 ^ 59" by simp
  with e n assms(3) show ?thesis by (simp add: dt_def)
qed


definition slack :: "int \<Rightarrow> rat" where
  "slack burst = (of_int burst + 1) / 2 ^ 50"

definition per_second :: "int \<Rightarrow> rat" where
  "per_second rate = of_int rate / 60 * (1 + 1 / 2 ^ 50)"

lemma slack_nonneg: "1 \<le> burst \<Longrightarrow> 0 \<le> slack burst"
  by (simp add: slack_def)

text \<open>One call that reaches the store: what it leaves and what it admits are covered by what it found.\<close>

lemma consume_step:
  assumes "1 \<le> rate" "rate \<le> 10 ^ 9" "1 \<le> burst" "burst \<le> 10 ^ 9" "0 \<le> f" "f \<le> s" "s \<le> 10 ^ 12"
    and "bucket_of c (Fin (of_int burst)) (Fin s) bs = \<lparr> tokens = Fin t, filled_at = Fin f \<rparr>" "0 \<le> t" "t \<le> of_int burst"
    and "consume_rate_token True c rate burst (Fin s) bs = ((allowed, ok, retry), bs')"
  shows "\<exists>left. bs' = dset c \<lparr> tokens = Fin left, filled_at = Fin s \<rparr> bs \<and> 0 \<le> left \<and> left \<le> of_int burst
    \<and> (if allowed then 1 else 0) + left \<le> t + per_second rate * (s - f) + slack burst
    \<and> (if allowed then 1 else 0) + left \<le> of_int burst + slack burst"
proof -
  have r: "(1 :: rat) \<le> of_int rate" "of_int rate \<le> (10 :: rat) ^ 9" and b: "of_int burst \<le> (10 :: rat) ^ 9"
    using assms(1,2,4) billion by simp_all
  define refill where "refill = fl (of_int rate / 60)"
  obtain x where x: "refilled (Fin (of_int burst)) (Fin refill) (Fin s) \<lparr> tokens = Fin t, filled_at = Fin f \<rparr> = Fin x"
    "0 \<le> x" "x \<le> of_int burst"
    "x \<le> t + of_int rate / 60 * (1 + 1 / 2 ^ 50) * (s - f) + of_int burst / 2 ^ 53 + 1 / 2 ^ 59"
    using refilled_bounds [OF assms(9,10,3,4) r assms(5-7)] unfolding refill_def by blast
  have q: "f_div (Fin (of_int rate)) (Fin 60) = Inr (Fin refill)"
    using mk_float_fl [of "of_int rate / 60"] r by (simp add: refill_def)
  have pos: "0 < refill" using refill_lower [OF r(1)] by (simp add: refill_def)
  have m: "max 1 rate = rate" "max 1 burst = burst" using assms(1,3) by simp_all
  have fi: "float_of_int rate = Inr (Fin (of_int rate))" "float_of_int burst = Inr (Fin (of_int burst))"
    using small_float assms(1-4) by simp_all
  have one: "f_le (Fin 1) (Fin x) \<longleftrightarrow> 1 \<le> x" by simp
  have bound: "(of_int burst / 2 ^ 53 + 1 / 2 ^ 59) + (of_int burst / 2 ^ 53 + 1 / 2 ^ 100) \<le> slack burst"
    using assms(3) by (simp add: slack_def field_simps)
  have nonneg: "0 \<le> (of_int burst / 2 ^ 53 :: rat)" "(0 :: rat) \<le> 1 / 2 ^ 59" using assms(3) by simp_all
  show ?thesis
  proof (cases "1 \<le> x")
    case True
    define left where "left = fl (x - 1)"
    have sub: "f_sub (Fin x) (Fin 1) = Fin left" using mk_float_fl [of "x - 1"] True x(3) b by (simp add: f_sub_def left_def)
    have "left \<le> (x - 1) + (x - 1) / 2 ^ 53 + 1 / 2 ^ 100" unfolding left_def using True by (intro fl_upper) simp
    moreover have "(x - 1) / 2 ^ 53 \<le> of_int burst / 2 ^ 53" using x(3) by (intro divide_right_mono) simp_all
    ultimately have l: "1 + left \<le> t + per_second rate * (s - f) + slack burst" "1 + left \<le> of_int burst + slack burst"
      using x(3,4) bound nonneg unfolding per_second_def by linarith+
    have "0 \<le> left" unfolding left_def using True by (intro fl_nonneg) simp
    moreover have "left \<le> fl (of_int (burst - 1))" unfolding left_def using x(3) by (intro fl_mono) simp
    moreover have "fl (of_int (burst - 1)) = (of_int (burst - 1) :: rat)" using assms(3,4) by (intro fl_int) simp
    moreover have "consume_rate_token True c rate burst (Fin s) bs = ((True, True, Fin 0), dset c \<lparr> tokens = Fin left, filled_at = Fin s \<rparr> bs)"
      using True by (simp only: consume_rate_token_def transact_up m fi q assms(8) Let_def x(1) one sub rbind_Inr if_True if_False sum.case simp_thms)
    ultimately show ?thesis using assms(11) l by auto
  next
    case False
    obtain wait where w: "f_div (f_sub (Fin 1) (Fin x)) (Fin refill) = Inr wait"
      using pos by (cases "f_sub (Fin 1) (Fin x)") auto
    have "consume_rate_token True c rate burst (Fin s) bs =
        ((False, True, f_max (Fin (fl (1 / 100))) wait), dset c \<lparr> tokens = Fin x, filled_at = Fin s \<rparr> bs)"
      using False by (simp only: consume_rate_token_def transact_up m fi q assms(8) Let_def x(1) one w rbind_Inr if_True if_False sum.case simp_thms)
    moreover have "x \<le> t + per_second rate * (s - f) + slack burst"
      using x(4) bound assms(3) unfolding per_second_def by simp
    moreover have "x \<le> of_int burst + slack burst" using x(3) slack_nonneg [OF assms(3)] by simp
    ultimately show ?thesis using assms(11) x(2,3) by auto
  qed
qed


section \<open>Runs\<close>

text \<open>Calls of any consumers on any replica: whether the store answers, the consumer, its limits, the clock.\<close>

type_synonym rate_call = "bool \<times> string \<times> int \<times> int \<times> pyfloat"

fun admitted_count :: "string \<Rightarrow> rate_call list \<Rightarrow> buckets \<Rightarrow> nat" where
  "admitted_count c [] bs = 0"
| "admitted_count c ((up, d, rate, burst, stamp) # calls) bs = (case consume_rate_token up d rate burst stamp bs of
     ((allowed, ok, retry), bs') \<Rightarrow> (if allowed \<and> d = c then 1 else 0) + admitted_count c calls bs')"

text \<open>The calls of one consumer carry its limits and clocks that do not go back.\<close>

fun on_schedule :: "string \<Rightarrow> int \<Rightarrow> int \<Rightarrow> rat \<Rightarrow> rat \<Rightarrow> rate_call list \<Rightarrow> bool" where
  "on_schedule c rate burst lo hi [] = (lo \<le> hi)"
| "on_schedule c rate burst lo hi ((up, d, r, b, stamp) # calls) = (if d \<noteq> c then on_schedule c rate burst lo hi calls
     else r = rate \<and> b = burst \<and> (case stamp of Fin s \<Rightarrow> lo \<le> s \<and> on_schedule c rate burst s hi calls | _ \<Rightarrow> False))"

definition calls_of :: "string \<Rightarrow> rate_call list \<Rightarrow> nat" where
  "calls_of c calls = length (filter (\<lambda>(up, d, r). d = c) calls)"

definition row_ok :: "string \<Rightarrow> int \<Rightarrow> rat \<Rightarrow> buckets \<Rightarrow> bool" where
  "row_ok c burst lo bs \<longleftrightarrow> (case map_of bs c of None \<Rightarrow> True
     | Some b \<Rightarrow> (case (tokens b, filled_at b) of (Fin t, Fin f) \<Rightarrow> 0 \<le> t \<and> t \<le> of_int burst \<and> 0 \<le> f \<and> f \<le> lo | _ \<Rightarrow> False))"

lemma row_ok_bucket:
  assumes "row_ok c burst lo bs" "lo \<le> s" "0 \<le> lo" "1 \<le> burst"
  shows "\<exists>t f. bucket_of c (Fin (of_int burst)) (Fin s) bs = \<lparr> tokens = Fin t, filled_at = Fin f \<rparr>
    \<and> 0 \<le> t \<and> t \<le> of_int burst \<and> 0 \<le> f \<and> f \<le> s"
proof (cases "map_of bs c")
  case None
  with assms show ?thesis by (simp add: bucket_of_def)
next
  case (Some b)
  with assms(1) obtain t f where "b = \<lparr> tokens = Fin t, filled_at = Fin f \<rparr>" "0 \<le> t" "t \<le> of_int burst" "0 \<le> f" "f \<le> lo"
    by (cases b) (auto simp: row_ok_def split: pyfloat.splits)
  with Some assms(2) show ?thesis by (auto simp: bucket_of_def)
qed

lemma consume_other: "d \<noteq> c \<Longrightarrow> consume_rate_token up d rate burst stamp bs = (r, bs') \<Longrightarrow> map_of bs' c = map_of bs c"
  by (auto simp: consume_rate_token_def transact_def Let_def rbind_def map_of_dset split: if_splits sum.splits)

lemma consume_down: "consume_rate_token False d rate burst stamp bs = ((False, False, Fin 0), bs)"
  by (simp add: consume_rate_token_def)

lemma schedule_ends: "on_schedule c rate burst lo hi calls \<Longrightarrow> lo \<le> hi"
proof (induction calls arbitrary: lo)
  case (Cons x calls)
  then show ?case by (cases x) (force split: if_splits pyfloat.splits)
qed simp

lemma per_second_nonneg: "1 \<le> rate \<Longrightarrow> 0 \<le> per_second rate"
  by (simp add: per_second_def)

lemma admitted_from:
  assumes "1 \<le> rate" "rate \<le> 10 ^ 9" "1 \<le> burst" "burst \<le> 10 ^ 9" "hi \<le> 10 ^ 12"
  shows "on_schedule c rate burst lo hi calls \<Longrightarrow> map_of bs c = Some \<lparr> tokens = Fin t, filled_at = Fin f \<rparr> \<Longrightarrow>
    0 \<le> f \<Longrightarrow> f \<le> lo \<Longrightarrow> 0 \<le> t \<Longrightarrow> t \<le> of_int burst \<Longrightarrow>
    of_nat (admitted_count c calls bs) \<le> t + per_second rate * (hi - f) + of_nat (calls_of c calls) * slack burst"
proof (induction calls arbitrary: lo bs t f)
  case Nil
  then have "0 \<le> per_second rate * (hi - f)" using per_second_nonneg assms(1) by simp
  with Nil show ?case by (simp add: calls_of_def)
next
  case (Cons x calls)
  obtain up d r b stamp where x: "x = (up, d, r, b, stamp)" by (cases x)
  obtain allowed ok retry bs' where run: "consume_rate_token up d r b stamp bs = ((allowed, ok, retry), bs')"
    by (metis surj_pair)
  then have count: "admitted_count c (x # calls) bs = (if allowed \<and> d = c then 1 else 0) + admitted_count c calls bs'"
    by (simp add: x)
  show ?case
  proof (cases "d = c")
    case False
    with Cons.prems consume_other [OF False run] Cons.IH [of lo bs' t f] show ?thesis by (simp add: x run calls_of_def)
  next
    case True
    with Cons.prems(1) obtain s where s: "stamp = Fin s" "lo \<le> s" "r = rate" "b = burst" and sched: "on_schedule c rate burst s hi calls"
      by (auto simp: x split: pyfloat.splits)
    have hi: "s \<le> hi" using sched by (rule schedule_ends)
    show ?thesis
    proof (cases up)
      case False
      then have "admitted_count c (x # calls) bs = admitted_count c calls bs" by (simp add: x consume_down)
      with Cons.IH [OF sched Cons.prems(2)] Cons.prems s slack_nonneg [OF assms(3)] True show ?thesis
        by (simp add: x calls_of_def algebra_simps)
    next
      case up1: True
      then have up1_eq: "up = True" by simp
      have row: "bucket_of c (Fin (of_int burst)) (Fin s) bs = \<lparr> tokens = Fin t, filled_at = Fin f \<rparr>"
        using Cons.prems(2) by (simp add: bucket_of_def)
      have f: "0 \<le> f" "f \<le> s" "s \<le> 10 ^ 12" using Cons.prems s hi assms(5) by simp_all
      obtain left where left: "bs' = dset c \<lparr> tokens = Fin left, filled_at = Fin s \<rparr> bs" "0 \<le> left" "left \<le> of_int burst"
        "(if allowed then 1 else 0) + left \<le> t + per_second rate * (s - f) + slack burst"
        using consume_step [OF assms(1-4) f row Cons.prems(5,6) run [unfolded s True up1_eq]] by blast
      have "of_nat (admitted_count c calls bs') \<le> left + per_second rate * (hi - s) + of_nat (calls_of c calls) * slack burst"
        using Cons.IH [OF sched, of bs' left s] left f by (simp add: map_of_dset)
      with left(4) True show ?thesis unfolding count by (simp add: x calls_of_def algebra_simps split: if_splits)
    qed
  qed
qed




text \<open>
  A clock that goes back is credited twice: a call with an earlier clock puts back \<open>updated_at\<close>, so the next
  call with the later clock is credited for the difference again. Two replicas whose clocks differ by a second
  admit a call per second of difference on every alternation, at a standing time.
\<close>

lemma skewed_clocks_overadmit:
  "admitted_count ''c'' [(True, ''c'', 60, 1, Fin 100), (True, ''c'', 60, 1, Fin 99), (True, ''c'', 60, 1, Fin 100),
     (True, ''c'', 60, 1, Fin 99), (True, ''c'', 60, 1, Fin 100)] [] = 3"
  by (simp add: consume_rate_token_def transact_up small_float bucket_of_def refilled_def f_min_def f_max_def f_sub_def mk_float_small Let_def)

end
