(* ===== verification/PeerLeases.thy ===== *)
theory PeerLeases
  imports StoreTransaction
begin

text \<open>
  The leases that make a seller's concurrency cap global: the table \<open>peer_concurrency_leases\<close> of
  \<open>host_store.py\<close>. The advisory lock of a peer makes its acquisitions one sequence; the clock is the
  database's, read anew by each statement.
\<close>

section \<open>The table\<close>

record lease =
  lease_id :: string
  lease_peer :: string
  lease_until :: pyfloat

definition is_lower_hex :: "char \<Rightarrow> bool" where
  "is_lower_hex c = (c \<in> set ''0123456789abcdef'')"

definition lease_ttl :: "pyfloat \<Rightarrow> pyfloat" where
  "lease_ttl ttl_s = f_max (Fin 5) (f_min (Fin 3600) ttl_s)"

definition peer_lease_args :: "string \<Rightarrow> string \<Rightarrow> pyfloat \<Rightarrow> (string \<times> string \<times> pyfloat) res" where
  "peer_lease_args peer_id i ttl_s =
     (let peer = ascii_lower (py_strip peer_id); l = ascii_lower (py_strip i) in
      if peer = [] \<or> 200 < py_len peer then Inl (ValueError ''peer_id must be 1-200 characters'')
      else if length l \<noteq> 32 \<or> \<not> list_all is_lower_hex l then Inl (ValueError ''lease_id must be 32 lowercase hex characters'')
      else Inr (peer, l, lease_ttl ttl_s))"

definition lease_capacity :: "int \<Rightarrow> nat" where
  "lease_capacity cap = nat (max 1 (min 1000 cap))"

definition drop_expired :: "string \<Rightarrow> rat \<Rightarrow> lease list \<Rightarrow> lease list" where
  "drop_expired peer now rows = filter (\<lambda>r. \<not> (lease_peer r = peer \<and> f_le (lease_until r) (Fin now))) rows"

definition leases_of :: "string \<Rightarrow> lease list \<Rightarrow> lease list" where
  "leases_of peer rows = filter (\<lambda>r. lease_peer r = peer) rows"

section \<open>Operations\<close>

text \<open>The result is \<open>(acquired, store_ok)\<close>; \<open>now\<close> and \<open>later\<close> are the clock at the deletion and at the insertion.\<close>

definition try_acquire_peer_lease ::
  "bool \<Rightarrow> string \<Rightarrow> string \<Rightarrow> int \<Rightarrow> pyfloat \<Rightarrow> rat \<Rightarrow> rat \<Rightarrow> lease list \<Rightarrow> (bool \<times> bool) \<times> lease list" where
  "try_acquire_peer_lease up peer_id i cap ttl_s now later = transact up (False, False) (\<lambda>rows.
     rbind (peer_lease_args peer_id i ttl_s) (\<lambda>(peer, l, ttl).
     let kept = drop_expired peer now rows in
     if lease_capacity cap \<le> length (leases_of peer kept) then Inr ((False, True), kept)
     else if l \<in> lease_id ` set kept then Inl (OtherExc ''UniqueViolation'' ''duplicate key value violates unique constraint'')
     else Inr ((True, True), kept @ [\<lparr> lease_id = l, lease_peer = peer, lease_until = f_add (Fin later) ttl \<rparr>])))"

definition renewed :: "string \<Rightarrow> string \<Rightarrow> pyfloat \<Rightarrow> lease \<Rightarrow> lease" where
  "renewed peer l u r = (if lease_peer r = peer \<and> lease_id r = l then r\<lparr> lease_until := u \<rparr> else r)"

definition has_lease :: "string \<Rightarrow> string \<Rightarrow> lease list \<Rightarrow> bool" where
  "has_lease peer l rows = list_ex (\<lambda>r. lease_peer r = peer \<and> lease_id r = l) rows"

definition renew_peer_lease :: "bool \<Rightarrow> string \<Rightarrow> string \<Rightarrow> pyfloat \<Rightarrow> rat \<Rightarrow> lease list \<Rightarrow> bool \<times> lease list" where
  "renew_peer_lease up peer_id i ttl_s now = transact up False (\<lambda>rows.
     rbind (peer_lease_args peer_id i ttl_s) (\<lambda>(peer, l, ttl).
       Inr (has_lease peer l rows, map (renewed peer l (f_add (Fin now) ttl)) rows)))"

definition release_peer_lease :: "bool \<Rightarrow> string \<Rightarrow> string \<Rightarrow> lease list \<Rightarrow> bool \<times> lease list" where
  "release_peer_lease up peer_id i = transact up False (\<lambda>rows.
     rbind (peer_lease_args peer_id i (Fin 120)) (\<lambda>(peer, l, ttl).
       Inr (True, filter (\<lambda>r. \<not> (lease_peer r = peer \<and> lease_id r = l)) rows)))"


section \<open>Runs\<close>

text \<open>
  The calls of all replicas on the database's clock. \<open>held\<close> is what the callers know: the leases they were
  granted or had renewed, with their expiry, and have not given back. \<open>K\<close> bounds the caps asked for a peer.
\<close>

inductive lease_runs :: "(string \<Rightarrow> nat) \<Rightarrow> rat \<Rightarrow> (string \<Rightarrow> (string \<times> pyfloat) option) \<Rightarrow> lease list \<Rightarrow> bool" for K where
  lease_start: "lease_runs K t (\<lambda>_. None) []"
| lease_acquire: "lease_runs K t held rows \<Longrightarrow> t \<le> now \<Longrightarrow> now \<le> later \<Longrightarrow>
    peer_lease_args p i ttl_s = Inr (peer, l, ttl) \<Longrightarrow> lease_capacity cap \<le> K peer \<Longrightarrow>
    try_acquire_peer_lease up p i cap ttl_s now later rows = ((acquired, ok), rows') \<Longrightarrow>
    lease_runs K later (if acquired then held(l \<mapsto> (peer, f_add (Fin later) ttl)) else held) rows'"
| lease_renew: "lease_runs K t held rows \<Longrightarrow> t \<le> now \<Longrightarrow> peer_lease_args p i ttl_s = Inr (peer, l, ttl) \<Longrightarrow>
    renew_peer_lease up p i ttl_s now rows = (done1, rows') \<Longrightarrow>
    lease_runs K now (if done1 then held(l \<mapsto> (peer, f_add (Fin now) ttl)) else held) rows'"
| lease_release: "lease_runs K t held rows \<Longrightarrow> t \<le> now \<Longrightarrow> peer_lease_args p i (Fin 120) = Inr (peer, l, ttl) \<Longrightarrow>
    release_peer_lease up p i rows = (done1, rows') \<Longrightarrow> lease_runs K now (held(l := None)) rows'"

definition live_leases :: "(string \<Rightarrow> (string \<times> pyfloat) option) \<Rightarrow> rat \<Rightarrow> string \<Rightarrow> string set" where
  "live_leases held t peer = {l. \<exists>u. held l = Some (peer, u) \<and> \<not> f_le u (Fin t)}"

definition lease_row :: "lease list \<Rightarrow> string \<Rightarrow> string \<Rightarrow> pyfloat \<Rightarrow> bool" where
  "lease_row rows l peer u \<longleftrightarrow> (\<exists>r\<in>set rows. lease_id r = l \<and> lease_peer r = peer \<and> lease_until r = u)"

definition lease_inv :: "(string \<Rightarrow> nat) \<Rightarrow> rat \<Rightarrow> (string \<Rightarrow> (string \<times> pyfloat) option) \<Rightarrow> lease list \<Rightarrow> bool" where
  "lease_inv K t held rows \<longleftrightarrow> distinct (map lease_id rows) \<and> (\<forall>peer. length (leases_of peer rows) \<le> K peer)
     \<and> (\<forall>l peer u. held l = Some (peer, u) \<and> \<not> f_le u (Fin t) \<longrightarrow> lease_row rows l peer u)"

lemma expires_later: "f_le u (Fin s) \<Longrightarrow> s \<le> s' \<Longrightarrow> f_le u (Fin s')"
  by (cases u) auto

lemma lease_inv_later: "lease_inv K t held rows \<Longrightarrow> t \<le> t' \<Longrightarrow> lease_inv K t' held rows"
  unfolding lease_inv_def using expires_later by blast

lemma leases_of_subset: "length (leases_of p (filter P rows)) \<le> length (leases_of p rows)"
  unfolding leases_of_def by (induction rows) auto

lemma lease_row_unique: "distinct (map lease_id rows) \<Longrightarrow> r \<in> set rows \<Longrightarrow> r' \<in> set rows \<Longrightarrow> lease_id r = lease_id r' \<Longrightarrow> r = r'"
  by (auto simp: distinct_map dest: inj_onD)

lemma live_row_kept: "lease_row rows l p u \<Longrightarrow> \<not> f_le u (Fin now) \<Longrightarrow> lease_row (drop_expired peer now rows) l p u"
  by (auto simp: lease_row_def drop_expired_def)

lemma drop_expired_inv: "lease_inv K t held rows \<Longrightarrow> lease_inv K t held (drop_expired peer t rows)"
  unfolding lease_inv_def
proof (elim conjE, intro conjI allI impI)
  assume d: "distinct (map lease_id rows)" and len: "\<forall>peer. length (leases_of peer rows) \<le> K peer"
    and live: "\<forall>l peer u. held l = Some (peer, u) \<and> \<not> f_le u (Fin t) \<longrightarrow> lease_row rows l peer u"
  show "distinct (map lease_id (drop_expired peer t rows))" using d by (simp add: drop_expired_def distinct_map_filter)
  show "length (leases_of q (drop_expired peer t rows)) \<le> K q" for q
    using len leases_of_subset [of q _ rows] unfolding drop_expired_def by (meson le_trans)
  show "lease_row (drop_expired peer t rows) l' q u" if "held l' = Some (q, u) \<and> \<not> f_le u (Fin t)" for l' q u
    using live that live_row_kept by metis
qed

lemma acquire_cases:
  assumes "peer_lease_args p i ttl_s = Inr (peer, l, ttl)"
    and "try_acquire_peer_lease up p i cap ttl_s now later rows = ((acquired, ok), rows')"
  shows "\<not> acquired \<and> rows' = rows \<or> \<not> acquired \<and> rows' = drop_expired peer now rows
    \<or> acquired \<and> length (leases_of peer (drop_expired peer now rows)) < lease_capacity cap
      \<and> l \<notin> lease_id ` set (drop_expired peer now rows)
      \<and> rows' = drop_expired peer now rows @ [\<lparr> lease_id = l, lease_peer = peer, lease_until = f_add (Fin later) ttl \<rparr>]"
  using assms by (auto simp: try_acquire_peer_lease_def transact_def Let_def split: if_splits)

lemma insert_inv:
  assumes "lease_inv K t held rows" and "length (leases_of peer rows) < K peer" and "l \<notin> lease_id ` set rows"
  shows "lease_inv K t (held(l \<mapsto> (peer, u))) (rows @ [\<lparr> lease_id = l, lease_peer = peer, lease_until = u \<rparr>])"
  using assms by (auto simp: lease_inv_def leases_of_def lease_row_def)

lemma acquire_inv:
  assumes inv: "lease_inv K t held rows" and t: "t \<le> now" "now \<le> later" and args: "peer_lease_args p i ttl_s = Inr (peer, l, ttl)"
    and cap: "lease_capacity cap \<le> K peer"
    and run: "try_acquire_peer_lease up p i cap ttl_s now later rows = ((acquired, ok), rows')"
  shows "lease_inv K later (if acquired then held(l \<mapsto> (peer, f_add (Fin later) ttl)) else held) rows'"
proof -
  have now: "lease_inv K now held rows" using inv t(1) by (rule lease_inv_later)
  note kept = lease_inv_later [OF drop_expired_inv [OF now] t(2)] and later = lease_inv_later [OF now t(2)]
  from acquire_cases [OF args run] show ?thesis
    using later kept [of peer] insert_inv [OF kept, of peer peer l] cap by (elim disjE conjE) simp_all
qed

lemma leases_of_renewed: "length (leases_of q (map (renewed peer l u) rows)) = length (leases_of q rows)"
  unfolding leases_of_def by (induction rows) (auto simp: renewed_def)

lemma renew_cases:
  assumes "peer_lease_args p i ttl_s = Inr (peer, l, ttl)" and "renew_peer_lease up p i ttl_s now rows = (done1, rows')"
  shows "\<not> done1 \<and> rows' = rows \<or> done1 = has_lease peer l rows \<and> rows' = map (renewed peer l (f_add (Fin now) ttl)) rows"
proof (cases up)
  case True
  with assms show ?thesis unfolding renew_peer_lease_def by (simp add: transact_up)
next
  case False
  with assms show ?thesis unfolding renew_peer_lease_def by simp
qed

lemma renew_inv:
  assumes inv: "lease_inv K t held rows" and t: "t \<le> now" and args: "peer_lease_args p i ttl_s = Inr (peer, l, ttl)"
    and run: "renew_peer_lease up p i ttl_s now rows = (done1, rows')"
  shows "lease_inv K now (if done1 then held(l \<mapsto> (peer, f_add (Fin now) ttl)) else held) rows'"
proof -
  let ?u = "f_add (Fin now) ttl"
  have now: "lease_inv K now held rows" using inv t by (rule lease_inv_later)
  from renew_cases [OF args run] show ?thesis
  proof
    assume "done1 = has_lease peer l rows \<and> rows' = map (renewed peer l ?u) rows"
    then have 2: "done1 = has_lease peer l rows" "rows' = map (renewed peer l ?u) rows" by simp_all
    have ids: "lease_id (renewed peer l ?u r) = lease_id r" for r by (simp add: renewed_def)
    have other: "lease_row rows' l' q u" if row: "lease_row rows l' q u" and free: "l' = l \<longrightarrow> \<not> done1" for l' q u
    proof -
      obtain r where r: "r \<in> set rows" "lease_id r = l'" "lease_peer r = q" "lease_until r = u" using row by (auto simp: lease_row_def)
      have "renewed peer l ?u r = r" using r free by (auto simp: renewed_def 2(1) has_lease_def list_ex_iff)
      then have "r \<in> set rows'" using r(1) by (metis 2(2) image_eqI set_map)
      with r show ?thesis unfolding lease_row_def by blast
    qed
    have mine: "lease_row rows' l peer ?u" if granted: done1
    proof -
      obtain r where r: "r \<in> set rows" "lease_peer r = peer" "lease_id r = l" using granted by (auto simp: 2(1) has_lease_def list_ex_iff)
      then have "lease_id (renewed peer l ?u r) = l" "lease_peer (renewed peer l ?u r) = peer" "lease_until (renewed peer l ?u r) = ?u"
        by (simp_all add: renewed_def)
      moreover have "renewed peer l ?u r \<in> set rows'" using r(1) by (simp add: 2(2))
      ultimately show ?thesis unfolding lease_row_def by blast
    qed
    have "lease_row rows' l' q u"
      if "(if done1 then held(l \<mapsto> (peer, ?u)) else held) l' = Some (q, u)" "\<not> f_le u (Fin now)" for l' q u
    proof (cases "l' = l \<and> done1")
      case True
      with that(1) have "q = peer" "u = ?u" by simp_all
      with True mine show ?thesis by simp
    next
      case False
      with that(1) have "held l' = Some (q, u)" by (auto split: if_splits)
      then have "lease_row rows l' q u" using that(2) now unfolding lease_inv_def by blast
      with False other show ?thesis by blast
    qed
    moreover have "distinct (map lease_id rows')" using now by (simp add: 2(2) lease_inv_def comp_def ids)
    moreover have "length (leases_of q rows') \<le> K q" for q using now by (simp add: 2(2) lease_inv_def leases_of_renewed)
    ultimately show ?thesis unfolding lease_inv_def by blast
  qed (use now in simp_all)
qed

lemma release_inv:
  assumes inv: "lease_inv K t held rows" and t: "t \<le> now" and args: "peer_lease_args p i (Fin 120) = Inr (peer, l, ttl)"
    and run: "release_peer_lease up p i rows = (done1, rows')"
  shows "lease_inv K now (held(l := None)) rows'"
proof -
  have now: "lease_inv K now held rows" using inv t by (rule lease_inv_later)
  consider "rows' = rows" | "rows' = filter (\<lambda>r. \<not> (lease_peer r = peer \<and> lease_id r = l)) rows"
    using run by (auto simp: release_peer_lease_def transact_def args split: if_splits)
  then show ?thesis
  proof cases
    case 1
    with now show ?thesis by (auto simp: lease_inv_def)
  next
    case 2
    have "lease_row rows' l' q u" if "(held(l := None)) l' = Some (q, u)" "\<not> f_le u (Fin now)" for l' q u
    proof -
      have l: "l' \<noteq> l" "held l' = Some (q, u)" using that(1) by (auto split: if_splits)
      with that(2) now have "lease_row rows l' q u" by (auto simp: lease_inv_def)
      with l show ?thesis by (auto simp: lease_row_def 2)
    qed
    moreover have "length (leases_of q rows') \<le> K q" for q
      using now leases_of_subset [of q _ rows] unfolding 2 lease_inv_def by (blast intro: le_trans)
    moreover have "distinct (map lease_id rows')" using now by (simp add: 2 lease_inv_def distinct_map_filter)
    ultimately show ?thesis unfolding lease_inv_def by blast
  qed
qed

lemma lease_runs_inv: "lease_runs K t held rows \<Longrightarrow> lease_inv K t held rows"
proof (induction rule: lease_runs.induct)
  case (lease_start t)
  show ?case by (simp add: lease_inv_def leases_of_def)
next
  case (lease_acquire t held rows now later p i ttl_s peer l ttl cap up acquired ok rows')
  then show ?case by (blast intro: acquire_inv)
next
  case (lease_renew t held rows now p i ttl_s peer l ttl up done1 rows')
  then show ?case by (blast intro: renew_inv)
next
  case (lease_release t held rows now p i peer l ttl up done1 rows')
  then show ?case by (blast intro: release_inv)
qed

text \<open>
  C25. The seller's cap holds across replicas: in every run of acquisitions, renewals and releases by any
  replicas, with failures of the store at any point, the callers that hold an unexpired lease of a peer are at
  most the largest cap that was asked for it.
\<close>

theorem peer_cap_respected:
  assumes "lease_runs K t held rows" and "t \<le> now"
  shows "finite (live_leases held now peer) \<and> card (live_leases held now peer) \<le> K peer"
proof -
  have inv: "lease_inv K now held rows" using lease_inv_later [OF lease_runs_inv [OF assms(1)] assms(2)] .
  have sub: "live_leases held now peer \<subseteq> lease_id ` set (leases_of peer rows)"
    using inv unfolding live_leases_def lease_inv_def lease_row_def leases_of_def by fastforce
  have "card (lease_id ` set (leases_of peer rows)) \<le> length (leases_of peer rows)"
    using card_image_le [of "set (leases_of peer rows)" lease_id] card_length [of "leases_of peer rows"] by simp
  also have "\<dots> \<le> K peer" using inv by (simp add: lease_inv_def)
  finally have "card (lease_id ` set (leases_of peer rows)) \<le> K peer" .
  then show ?thesis using card_mono [OF _ sub] finite_subset [OF sub] by simp
qed


text \<open>A cap of one: the first caller gets the lease, the second does not.\<close>

definition demo_lease :: string where
  "demo_lease = replicate 32 (CHR ''a'')"

lemma demo_args: "peer_lease_args ''p'' demo_lease (Fin 120) = Inr (''p'', demo_lease, Fin 120)"
  by code_simp

lemma demo_acquire: "try_acquire_peer_lease True ''p'' demo_lease 1 (Fin 120) 0 0 [] =
    ((True, True), [\<lparr> lease_id = demo_lease, lease_peer = ''p'', lease_until = Fin 120 \<rparr>])"
  by (simp add: try_acquire_peer_lease_def transact_up demo_args drop_expired_def leases_of_def lease_capacity_def mk_float_small)

theorem peer_cap_respected_witness: "card (live_leases (Map.empty(demo_lease \<mapsto> (''p'', Fin 120))) 60 ''p'') \<le> 1"
proof -
  have "lease_runs (\<lambda>_. 1) 0 (Map.empty(demo_lease \<mapsto> (''p'', Fin 120))) [\<lparr> lease_id = demo_lease, lease_peer = ''p'', lease_until = Fin 120 \<rparr>]"
    using lease_acquire [OF lease_start [of "\<lambda>_. 1" 0] _ _ demo_args _ demo_acquire] by (simp add: lease_capacity_def mk_float_small)
  from peer_cap_respected [OF this, of 60 "''p''"] show ?thesis by simp
qed

text \<open>A lease that has expired but was not swept yet is renewed all the same.\<close>

lemma renew_revives_expired:
  "f_le (Fin 1) (Fin 9) \<and> fst (renew_peer_lease True ''p'' demo_lease (Fin 120) 9 [\<lparr> lease_id = demo_lease, lease_peer = ''p'', lease_until = Fin 1 \<rparr>])"
  by (simp add: renew_peer_lease_def transact_up demo_args has_lease_def)

end
