(* ===== verification/PeerGates.thy ===== *)
theory PeerGates
  imports PeerLeases ProviderWire
begin

text \<open>
  The seller's cap inside one process, and how a call takes a slot
  (\<open>provider_adapters/openai_compatible.py\<close>). Semaphores are numbered in the order they are made; a
  semaphore is its number of free permits. The event loop runs one coroutine at a time, so the code between
  two awaits is one step.
\<close>

section \<open>Which peer and which cap\<close>

definition is_byo_buyer :: "dict \<Rightarrow> (string \<Rightarrow> string option) \<Rightarrow> bool" where
  "is_byo_buyer request env =
     (env ''SAAS_TENANT_SCOPE'' \<notin> {None, Some []} \<and> env ''ANTSEED_BYO_TOKEN'' \<notin> {None, Some []}
      \<and> dget request ''provider_id'' = JStr ''antseed'')"

definition env_str :: "(string \<Rightarrow> string option) \<Rightarrow> string \<Rightarrow> string" where
  "env_str env name = (case env name of None \<Rightarrow> ''None'' | Some s \<Rightarrow> s)"

text \<open>The gate's name and the cap, or \<open>None\<close>: the call is not gated.\<close>

definition gate_of :: "dict \<Rightarrow> (string \<Rightarrow> string option) option \<Rightarrow> (string \<times> int) option res" where
  "gate_of request env =
     rbind (vget (py_or (dget request ''offer'') (JObj [])) ''peer_id'') (\<lambda>peer_id.
     rbind (vget (py_or (dget request ''offer'') (JObj [])) ''max_concurrency'') (\<lambda>cap.
     case cap of
       JInt n \<Rightarrow>
         if \<not> truthy peer_id \<or> n \<le> 0 then Inr None
         else let peer = ascii_lower (py_strip (py_str peer_id)) in
           (case env of
              Some e \<Rightarrow> if is_byo_buyer request e
                then Inr (Some (''tenant:'' @ env_str e ''SAAS_TENANT_SCOPE'' @ '':'' @ peer, n)) else Inr (Some (peer, n))
            | None \<Rightarrow> Inr (Some (peer, n)))
     | _ \<Rightarrow> Inr None))"

definition enabled :: "string option \<Rightarrow> bool" where
  "enabled v = (ascii_lower (py_strip (case v of None \<Rightarrow> [] | Some s \<Rightarrow> s)) \<in> {''1'', ''true'', ''yes'', ''on''})"

definition peer_gate_wait_s :: "string option \<Rightarrow> pyfloat \<Rightarrow> pyfloat" where
  "peer_gate_wait_s setting call_timeout_s =
     (let raw = py_strip (case setting of None \<Rightarrow> [] | Some s \<Rightarrow> s); floor1 = Fin (fl (1 / 100)) in
      if raw = [] then f_max floor1 call_timeout_s
      else (case float_of_text raw of
          Inl _ \<Rightarrow> f_max floor1 call_timeout_s
        | Inr w \<Rightarrow> f_max floor1 (f_min call_timeout_s w)))"

definition peer_lease_ttl_s :: "string option \<Rightarrow> pyfloat" where
  "peer_lease_ttl_s setting = (case float_of_text (case setting of None \<Rightarrow> ''120'' | Some s \<Rightarrow> s) of
     Inl _ \<Rightarrow> Fin 120 | Inr x \<Rightarrow> f_max (Fin 15) (f_min (Fin 3600) x))"

definition peer_capacity_error :: "string \<Rightarrow> int \<Rightarrow> string \<Rightarrow> int \<Rightarrow> dict" where
  "peer_capacity_error peer_id cap reason latency =
     err (if reason = ''unavailable'' then ''network_error'' else ''rate_limit'') 0 latency
       (''antseed peer '' @ py_take 10 peer_id @ '' '' @ (if reason = ''unavailable'' then ''shared peer gate unavailable''
          else ''in-flight cap '' @ int_str cap @ '' saturated''))"

section \<open>The gates of a process\<close>

definition PEER_GATE_TTL :: rat where
  "PEER_GATE_TTL = 600"

record gate_table =
  gate_ids :: "(string \<times> nat) list"
  gate_stamps :: "(string \<times> rat) list"
  permits :: "nat list"

definition stale_gates :: "rat \<Rightarrow> gate_table \<Rightarrow> string list" where
  "stale_gates now g = map fst (filter (\<lambda>(k, ts). PEER_GATE_TTL < fl (now - ts)) (gate_stamps g))"

definition evict :: "rat \<Rightarrow> gate_table \<Rightarrow> gate_table" where
  "evict now g = (if 256 < length (gate_ids g)
     then g\<lparr> gate_ids := fold dpop (stale_gates now g) (gate_ids g), gate_stamps := fold dpop (stale_gates now g) (gate_stamps g) \<rparr>
     else g)"

text \<open>The semaphore of a peer, made with the cap of this call when there is none.\<close>

definition peer_gate :: "string \<Rightarrow> nat \<Rightarrow> rat \<Rightarrow> rat \<Rightarrow> gate_table \<Rightarrow> nat \<times> gate_table" where
  "peer_gate peer_id cap now later g =
     (let g = evict now g in
      case map_of (gate_ids g) peer_id of
        Some s \<Rightarrow> (s, g\<lparr> gate_stamps := dset peer_id later (gate_stamps g) \<rparr>)
      | None \<Rightarrow> let s = length (permits g) in
          (s, g\<lparr> gate_ids := dset peer_id s (gate_ids g), permits := permits g @ [cap],
                 gate_stamps := dset peer_id later (gate_stamps g) \<rparr>))"

definition take_permit :: "nat \<Rightarrow> gate_table \<Rightarrow> gate_table option" where
  "take_permit s g = (if permits g ! s = 0 then None else Some (g\<lparr> permits := (permits g)[s := permits g ! s - 1] \<rparr>))"

definition give_permit :: "nat \<Rightarrow> gate_table \<Rightarrow> gate_table" where
  "give_permit s g = g\<lparr> permits := (permits g)[s := Suc (permits g ! s)] \<rparr>"

section \<open>Polling the shared leases\<close>

text \<open>
  What the loop reads: the result of each attempt and the monotonic clock after it. \<open>None\<close>: still polling.
\<close>

fun lease_loop :: "rat \<Rightarrow> (bool \<times> bool \<times> rat) list \<Rightarrow> string option option" where
  "lease_loop deadline [] = None"
| "lease_loop deadline ((acquired, store_ok, now) # polls) =
     (if \<not> store_ok then Some (Some ''unavailable'')
      else if acquired then Some None
      else if fl (deadline - now) \<le> 0 then Some (Some ''saturated'')
      else lease_loop deadline polls)"


section \<open>Runs of a process\<close>

text \<open>
  Calls ask for the gate of a peer, wait for its semaphore, give up waiting, hold a permit, give it back.
  \<open>caps\<close> is the cap each semaphore was made with; waiting and holding calls are pairs of peer and semaphore.
\<close>

inductive gate_runs :: "gate_table \<Rightarrow> nat list \<Rightarrow> (string \<times> nat) list \<Rightarrow> (string \<times> nat) list \<Rightarrow> bool" where
  gates_start: "gate_runs \<lparr> gate_ids = [], gate_stamps = [], permits = [] \<rparr> [] [] []"
| gates_ask: "gate_runs g caps waiting holding \<Longrightarrow> peer_gate p cap now later g = (s, g') \<Longrightarrow>
    gate_runs g' (caps @ drop (length caps) (permits g')) ((p, s) # waiting) holding"
| gates_take: "gate_runs g caps waiting holding \<Longrightarrow> (p, s) \<in> set waiting \<Longrightarrow> take_permit s g = Some g' \<Longrightarrow>
    gate_runs g' caps (remove1 (p, s) waiting) ((p, s) # holding)"
| gates_giveup: "gate_runs g caps waiting holding \<Longrightarrow> (p, s) \<in> set waiting \<Longrightarrow> gate_runs g caps (remove1 (p, s) waiting) holding"
| gates_give: "gate_runs g caps waiting holding \<Longrightarrow> (p, s) \<in> set holding \<Longrightarrow>
    gate_runs (give_permit s g) caps waiting (remove1 (p, s) holding)"

definition holders_of :: "nat \<Rightarrow> (string \<times> nat) list \<Rightarrow> nat" where
  "holders_of s holding = length (filter (\<lambda>h. snd h = s) holding)"

text \<open>Every semaphore accounts for its permits; while no gate can have been evicted, a peer has one semaphore.\<close>

definition gates_ok :: "gate_table \<Rightarrow> nat list \<Rightarrow> (string \<times> nat) list \<Rightarrow> (string \<times> nat) list \<Rightarrow> bool" where
  "gates_ok g caps waiting holding \<longleftrightarrow> length caps = length (permits g) \<and> length (gate_ids g) \<le> length (permits g)
     \<and> (\<forall>s < length (permits g). permits g ! s + holders_of s holding = caps ! s)
     \<and> (\<forall>(p, s)\<in>set (waiting @ holding). s < length (permits g))
     \<and> (\<forall>(p, s)\<in>set (gate_ids g). s < length (permits g))
     \<and> (length (permits g) \<le> 256 \<longrightarrow> (\<forall>(p, s)\<in>set (waiting @ holding). map_of (gate_ids g) p = Some s))"

lemma gates_okD:
  assumes "gates_ok g caps waiting holding"
  shows "length caps = length (permits g)" "length (gate_ids g) \<le> length (permits g)"
    "s < length (permits g) \<Longrightarrow> permits g ! s + holders_of s holding = caps ! s"
    "(p, s) \<in> set waiting \<union> set holding \<Longrightarrow> s < length (permits g)"
    "(p, s) \<in> set (gate_ids g) \<Longrightarrow> s < length (permits g)"
    "length (permits g) \<le> 256 \<Longrightarrow> (p, s) \<in> set waiting \<union> set holding \<Longrightarrow> map_of (gate_ids g) p = Some s"
  using assms unfolding gates_ok_def by fastforce+

lemma length_fold_dpop: "length (fold dpop ks d) \<le> length d"
proof (induction ks arbitrary: d)
  case (Cons k ks)
  have "length (fold dpop ks (dpop k d)) \<le> length (dpop k d)" by (rule Cons.IH)
  also have "\<dots> \<le> length d" by (simp add: length_delete_le)
  finally show ?case by simp
qed simp

lemma set_fold_dpop: "set (fold dpop ks d) \<subseteq> set d"
proof (induction ks arbitrary: d)
  case (Cons k ks)
  have "set (dpop k d) \<subseteq> set d" by (auto simp: AList.delete_eq)
  with Cons.IH [of "dpop k d"] show ?case by auto
qed simp

lemma evict_sel: "permits (evict now g) = permits g" "length (gate_ids (evict now g)) \<le> length (gate_ids g)"
  "set (gate_ids (evict now g)) \<subseteq> set (gate_ids g)"
  by (simp_all add: evict_def length_fold_dpop set_fold_dpop)

lemma evict_small: "length (gate_ids g) \<le> 256 \<Longrightarrow> evict now g = g"
  by (simp add: evict_def)

lemma length_dset: "length (dset k v d) \<le> Suc (length d)"
  by (induction d) auto

lemma set_dset: "(k', v') \<in> set (dset k v d) \<Longrightarrow> (k', v') = (k, v) \<or> (k', v') \<in> set d"
  by (induction d) (auto split: if_splits)

lemma ask_ok:
  assumes ok: "gates_ok g caps waiting holding" and ask: "peer_gate p cap now later g = (s, g')"
  shows "gates_ok g' (caps @ drop (length caps) (permits g')) ((p, s) # waiting) holding"
proof (cases "map_of (gate_ids (evict now g)) p")
  case (Some s')
  then have s: "s = s'" and g': "gate_ids g' = gate_ids (evict now g)" "permits g' = permits g"
    using ask by (auto simp: peer_gate_def Let_def evict_sel)
  have old: "(p, s) \<in> set (gate_ids g)" using Some s evict_sel(3) [of now g] map_of_SomeD by fastforce
  have same: "gate_ids g' = gate_ids g" if "length (permits g) \<le> 256"
    using that ok evict_small [of g now] by (simp add: g' gates_ok_def)
  show ?thesis
    unfolding gates_ok_def g'(2)
  proof (intro conjI impI)
    show "length (gate_ids g') \<le> length (permits g)"
      using gates_okD(2) [OF ok] evict_sel(2) [of now g] by (simp add: g')
    show "\<forall>(p, s)\<in>set (gate_ids g'). s < length (permits g)"
      using gates_okD(5) [OF ok] evict_sel(3) [of now g] by (auto simp: g')
    show "\<forall>(p, s)\<in>set (((p, s) # waiting) @ holding). s < length (permits g)"
      using gates_okD(5) [OF ok old] gates_okD(4) [OF ok] by fastforce
    show "\<forall>(p, s)\<in>set (((p, s) # waiting) @ holding). map_of (gate_ids g') p = Some s" if small: "length (permits g) \<le> 256"
      using same [OF small] gates_okD(6) [OF ok small] Some s g'(1) by fastforce
    have caps: "caps @ drop (length caps) (permits g) = caps" using gates_okD(1) [OF ok] by simp
    show "length (caps @ drop (length caps) (permits g)) = length (permits g)" unfolding caps by (rule gates_okD(1) [OF ok])
    show "\<forall>s < length (permits g). permits g ! s + holders_of s holding = (caps @ drop (length caps) (permits g)) ! s"
      unfolding caps using gates_okD(3) [OF ok] by blast
  qed
next
  case None
  let ?n = "length (permits g)"
  have s: "s = ?n" and g': "gate_ids g' = dset p ?n (gate_ids (evict now g))" "permits g' = permits g @ [cap]"
    using ask None by (auto simp: peer_gate_def Let_def evict_sel)
  have caps: "length caps = ?n" using ok by (simp add: gates_ok_def)
  have none: "holders_of ?n holding = 0" using ok by (auto simp: holders_of_def filter_empty_conv gates_ok_def)
  have small: "evict now g = g" if "Suc ?n \<le> 256" using that ok evict_small [of g now] by (simp add: gates_ok_def)
  show ?thesis
    unfolding gates_ok_def
  proof (intro conjI)
    show "length (caps @ drop (length caps) (permits g')) = length (permits g')" by (simp add: caps g')
    show "length (gate_ids g') \<le> length (permits g')"
      using ok evict_sel(2) [of now g] length_dset [of p ?n "gate_ids (evict now g)"] by (simp add: gates_ok_def g')
    show "\<forall>s < length (permits g'). permits g' ! s + holders_of s holding = (caps @ drop (length caps) (permits g')) ! s"
      using ok none by (auto simp: gates_ok_def g' caps nth_append less_Suc_eq)
    show "\<forall>(p, s)\<in>set (((p, s) # waiting) @ holding). s < length (permits g')"
      using gates_okD(4) [OF ok] by (auto simp: g' s intro: less_SucI)
    show "\<forall>(p, s)\<in>set (gate_ids g'). s < length (permits g')"
      using gates_okD(5) [OF ok] evict_sel(3) [of now g] by (auto simp: g' dest!: set_dset intro: less_SucI)
    show "length (permits g') \<le> 256 \<longrightarrow> (\<forall>(p, s)\<in>set (((p, s) # waiting) @ holding). map_of (gate_ids g') p = Some s)"
    proof
      assume l: "length (permits g') \<le> 256"
      then have e: "evict now g = g" and l': "length (permits g) \<le> 256" using small by (simp_all add: g')
      have "map_of (gate_ids g') p' = Some s'" if "(p', s') \<in> set waiting \<union> set holding" for p' s'
      proof -
        have "map_of (gate_ids g) p' = Some s'" using gates_okD(6) [OF ok l' that] .
        moreover from this have "p' \<noteq> p" using None e by auto
        ultimately show ?thesis by (simp add: g' e map_of_dset)
      qed
      moreover have "map_of (gate_ids g') p = Some s" by (simp add: g' s map_of_dset)
      ultimately show "\<forall>(p, s)\<in>set (((p, s) # waiting) @ holding). map_of (gate_ids g') p = Some s" by auto
    qed
  qed
qed


lemma length_filter_mono: "(\<And>x. x \<in> set xs \<Longrightarrow> P x \<Longrightarrow> Q x) \<Longrightarrow> length (filter P xs) \<le> length (filter Q xs)"
  by (induction xs) (auto simp: le_SucI)

lemma nth_updated: "s < length xs \<Longrightarrow> xs[s := v] ! t = (if t = s then v else xs ! t)"
  by (simp add: nth_list_update)

lemma holders_remove1: "(p, s) \<in> set holding \<Longrightarrow> holders_of t holding = (if t = s then 1 else 0) + holders_of t (remove1 (p, s) holding)"
  unfolding holders_of_def by (induction holding) auto

lemma take_ok:
  assumes ok: "gates_ok g caps waiting holding" and w: "(p, s) \<in> set waiting" and take1: "take_permit s g = Some g'"
  shows "gates_ok g' caps (remove1 (p, s) waiting) ((p, s) # holding)"
proof -
  have s: "s < length (permits g)" using ok w by (auto simp: gates_ok_def)
  have g': "gate_ids g' = gate_ids g" "permits g' = (permits g)[s := permits g ! s - 1]" "0 < permits g ! s"
    using take1 by (auto simp: take_permit_def split: if_splits)
  have "permits g' ! t + holders_of t ((p, s) # holding) = caps ! t" if "t < length (permits g)" for t
    using ok that s g'(3) by (auto simp: gates_ok_def g'(2) nth_updated holders_of_def)
  moreover have "set (remove1 (p, s) waiting @ (p, s) # holding) \<subseteq> set (waiting @ holding)"
    using w set_remove1_subset [of "(p, s)" waiting] by auto
  ultimately show ?thesis using ok unfolding gates_ok_def g'(1) by (simp add: g'(2)) blast
qed

lemma give_ok:
  assumes ok: "gates_ok g caps waiting holding" and h: "(p, s) \<in> set holding"
  shows "gates_ok (give_permit s g) caps waiting (remove1 (p, s) holding)"
proof -
  have s: "s < length (permits g)" using ok h by (auto simp: gates_ok_def)
  have "permits (give_permit s g) ! t + holders_of t (remove1 (p, s) holding) = caps ! t" if "t < length (permits g)" for t
    using ok that s holders_remove1 [OF h, of t] by (auto simp: gates_ok_def give_permit_def nth_updated)
  moreover have "set (waiting @ remove1 (p, s) holding) \<subseteq> set (waiting @ holding)"
    using set_remove1_subset [of "(p, s)" holding] by auto
  ultimately show ?thesis using ok unfolding gates_ok_def by (simp add: give_permit_def) blast
qed

lemma giveup_ok:
  assumes "gates_ok g caps waiting holding"
  shows "gates_ok g caps (remove1 x waiting) holding"
proof -
  have "set (remove1 x waiting @ holding) \<subseteq> set (waiting @ holding)" using set_remove1_subset [of x waiting] by auto
  with assms show ?thesis unfolding gates_ok_def by blast
qed

lemma gate_runs_ok: "gate_runs g caps waiting holding \<Longrightarrow> gates_ok g caps waiting holding"
proof (induction rule: gate_runs.induct)
  case gates_start
  show ?case by (simp add: gates_ok_def)
qed (blast intro: ask_ok take_ok give_ok giveup_ok)+

text \<open>
  C27. The seller's cap holds inside a process: in every run of calls that ask, wait, give up, hold and give back,
  no semaphore ever has more holders than the cap it was made with, and while the process has met at most 256
  peers, all calls of a peer share one semaphore, so at most that many of its calls are in flight.
\<close>

theorem gate_cap_respected:
  assumes "gate_runs g caps waiting holding"
  shows "(\<forall>s. s < length (permits g) \<longrightarrow> holders_of s holding \<le> caps ! s)
    \<and> (length (permits g) \<le> 256 \<longrightarrow> length (filter (\<lambda>h. fst h = peer) holding)
         \<le> (case map_of (gate_ids g) peer of None \<Rightarrow> 0 | Some s \<Rightarrow> caps ! s))"
proof -
  have ok: "gates_ok g caps waiting holding" using assms by (rule gate_runs_ok)
  have each: "holders_of s holding \<le> caps ! s" if "s < length (permits g)" for s
    using ok that unfolding gates_ok_def by (metis le_add2)
  have "length (filter (\<lambda>h. fst h = peer) holding) \<le> (case map_of (gate_ids g) peer of None \<Rightarrow> 0 | Some s \<Rightarrow> caps ! s)"
    if small: "length (permits g) \<le> 256"
  proof (cases "map_of (gate_ids g) peer")
    case None
    have "fst h \<noteq> peer" if "h \<in> set holding" for h
      using gates_okD(6) [OF ok small, of "fst h" "snd h"] None that by auto
    then show ?thesis by (simp add: None filter_empty_conv)
  next
    case (Some s)
    have "snd h = s" if "h \<in> set holding" "fst h = peer" for h
      using gates_okD(6) [OF ok small, of "fst h" "snd h"] Some that by auto
    then have "length (filter (\<lambda>h. fst h = peer) holding) \<le> holders_of s holding"
      unfolding holders_of_def by (rule length_filter_mono)
    moreover have "s < length (permits g)" using Some by (intro gates_okD(5) [OF ok] map_of_SomeD)
    ultimately show ?thesis using each [of s] Some by simp
  qed
  with each show ?thesis by blast
qed


definition one_gate :: gate_table where
  "one_gate = \<lparr> gate_ids = [(''p'', 0)], gate_stamps = [(''p'', 0)], permits = [1] \<rparr>"

lemma one_gate_asked: "peer_gate ''p'' 1 0 0 \<lparr> gate_ids = [], gate_stamps = [], permits = [] \<rparr> = (0, one_gate)"
  by (simp add: peer_gate_def evict_def one_gate_def)

lemma one_gate_taken: "gate_runs (one_gate\<lparr> permits := [0] \<rparr>) [1] [] [(''p'', 0)]"
proof -
  have "gate_runs one_gate [1] [(''p'', 0)] []"
    using gates_ask [OF gates_start one_gate_asked] by (simp add: one_gate_def)
  moreover have "take_permit 0 one_gate = Some (one_gate\<lparr> permits := [0] \<rparr>)" by (simp add: take_permit_def one_gate_def)
  ultimately show ?thesis using gates_take [of one_gate "[1]" "[(''p'', 0)]" "[]" "''p''" 0] by simp
qed

theorem gate_cap_respected_witness: "length (filter (\<lambda>h. fst h = ''p'') [(''p'', 0 :: nat)]) \<le> 1 \<and> holders_of 0 [(''p'', 0)] \<le> 1"
  using gate_cap_respected [OF one_gate_taken, of "''p''"] by (simp add: one_gate_def)

text \<open>
  Where the bound ends. A semaphore keeps the cap it was made with: a seller that lowers its cap is still sent
  the old number of calls. And a gate evicted while calls hold its permits is made anew with all its permits.
\<close>

lemma gate_keeps_first_cap:
  "map_of (gate_ids g) p = Some s \<Longrightarrow> length (gate_ids g) \<le> 256 \<Longrightarrow>
   fst (peer_gate p cap now later g) = s \<and> permits (snd (peer_gate p cap now later g)) = permits g"
  by (simp add: peer_gate_def evict_def Let_def)

lemma fold_dpop_gone: "map_of d k = None \<Longrightarrow> map_of (fold dpop ks d) k = None"
  by (induction ks arbitrary: d) (auto simp: map_of_dpop)

lemma fold_dpop_None: "k \<in> set ks \<Longrightarrow> map_of (fold dpop ks d) k = None"
  by (induction ks arbitrary: d) (auto simp: map_of_dpop fold_dpop_gone)

lemma evicted_gate_reissues:
  assumes "256 < length (gate_ids g)" and "(p, ts) \<in> set (gate_stamps g)" and "PEER_GATE_TTL < fl (now - ts)"
  shows "fst (peer_gate p cap now later g) = length (permits g)
    \<and> permits (snd (peer_gate p cap now later g)) = permits g @ [cap]"
proof -
  have "p \<in> set (stale_gates now g)" using assms(2,3) by (force simp: stale_gates_def)
  then have "map_of (gate_ids (evict now g)) p = None" using assms(1) fold_dpop_None by (simp add: evict_def)
  then show ?thesis by (simp add: peer_gate_def Let_def evict_sel)
qed

text \<open>The polling loop ends with the first clock reading past its deadline.\<close>

lemma lease_loop_ends: "\<exists>(acquired, store_ok, now)\<in>set polls. fl (deadline - now) \<le> 0 \<Longrightarrow> lease_loop deadline polls \<noteq> None"
  by (induction deadline polls rule: lease_loop.induct) auto

end
