(* ===== verification/LedgerQueue.thy ===== *)
theory LedgerQueue
  imports StoreTransaction
begin

text \<open>
  The background writer of \<open>host_store.py\<close> and the watermark up to which the call ledger is complete. A request
  thread enqueues in two steps (the pending count, then the queue), the writer thread takes a row and settles
  it in two more; any interleaving of these steps can happen. What a job writes is the row it carries.
\<close>

section \<open>The writer\<close>

definition WRITE_QUEUE_MAX :: nat where
  "WRITE_QUEUE_MAX = 10000"

type_synonym job = "int option \<times> dict"

record writer =
  pending :: "(int \<times> int) list"
  arriving :: "job list"
  queued :: "job list"
  in_hand :: "job option"
  written :: "dict list"
  lost :: "dict list"

definition pending_add :: "int option \<Rightarrow> (int \<times> int) list \<Rightarrow> (int \<times> int) list" where
  "pending_add ts p = (case ts of None \<Rightarrow> p | Some t \<Rightarrow> dset t (dget_or p t 0 + 1) p)"

definition pending_done :: "int option \<Rightarrow> (int \<times> int) list \<Rightarrow> (int \<times> int) list" where
  "pending_done ts p = (case ts of None \<Rightarrow> p
     | Some t \<Rightarrow> let left = dget_or p t 0 - 1 in if 0 < left then dset t left p else dpop t p)"

text \<open>The snapshot of a row with its time, made before it is enqueued.\<close>

definition stamped :: "rat \<Rightarrow> dict \<Rightarrow> job res" where
  "stamped now row = rbind (int_of (py_or (dget row ''ts'') (JFloat (Fin now)))) (\<lambda>ts.
     Inr (Some ts, dset ''ts'' (JInt ts) row))"

definition enqueue_begin :: "job \<Rightarrow> writer \<Rightarrow> writer" where
  "enqueue_begin j w = w\<lparr> pending := pending_add (fst j) (pending w), arriving := j # arriving w \<rparr>"

definition enqueue_put :: "job \<Rightarrow> writer \<Rightarrow> writer" where
  "enqueue_put j w = (let w = w\<lparr> arriving := remove1 j (arriving w) \<rparr> in
     if length (queued w) < WRITE_QUEUE_MAX then w\<lparr> queued := queued w @ [j] \<rparr>
     else w\<lparr> pending := pending_done (fst j) (pending w), lost := snd j # lost w \<rparr>)"

definition writer_get :: "writer \<Rightarrow> writer" where
  "writer_get w = (case (in_hand w, queued w) of (None, j # js) \<Rightarrow> w\<lparr> queued := js, in_hand := Some j \<rparr> | _ \<Rightarrow> w)"

text \<open>The job returns or raises; either way its time is settled after it.\<close>

definition writer_done :: "bool \<Rightarrow> writer \<Rightarrow> writer" where
  "writer_done ok w = (case in_hand w of None \<Rightarrow> w
     | Some j \<Rightarrow> (let w = w\<lparr> in_hand := None, pending := pending_done (fst j) (pending w) \<rparr> in
         if ok then w\<lparr> written := snd j # written w \<rparr> else w\<lparr> lost := snd j # lost w \<rparr>))"

section \<open>The watermark\<close>

definition watermark_lag_s :: "string option \<Rightarrow> pyfloat" where
  "watermark_lag_s setting = (case float_of_text (case setting of None \<Rightarrow> ''120'' | Some s \<Rightarrow> s) of
     Inl _ \<Rightarrow> Fin 120 | Inr x \<Rightarrow> f_max (Fin 0) x)"

definition ledger_watermark :: "string option \<Rightarrow> rat \<Rightarrow> writer \<Rightarrow> int res" where
  "ledger_watermark setting now w =
     rbind (int_of (JFloat (f_sub (Fin now) (watermark_lag_s setting)))) (\<lambda>mark.
       Inr (if pending w = [] then mark else min mark (Min (set (keys (pending w))))))"

section \<open>Runs\<close>

inductive writer_runs :: "job list \<Rightarrow> writer \<Rightarrow> bool" where
  writer_start: "writer_runs [] \<lparr> pending = [], arriving = [], queued = [], in_hand = None, written = [], lost = [] \<rparr>"
| writer_begin: "writer_runs seen w \<Longrightarrow> writer_runs (j # seen) (enqueue_begin j w)"
| writer_put: "writer_runs seen w \<Longrightarrow> j \<in> set (arriving w) \<Longrightarrow> writer_runs seen (enqueue_put j w)"
| writer_take: "writer_runs seen w \<Longrightarrow> writer_runs seen (writer_get w)"
| writer_settle: "writer_runs seen w \<Longrightarrow> writer_runs seen (writer_done ok w)"

definition in_flight :: "writer \<Rightarrow> job list" where
  "in_flight w = arriving w @ queued w @ (case in_hand w of None \<Rightarrow> [] | Some j \<Rightarrow> [j])"

definition count_at :: "int \<Rightarrow> job list \<Rightarrow> nat" where
  "count_at t js = length (filter (\<lambda>j. fst j = Some t) js)"

definition tally :: "(int \<times> int) list \<Rightarrow> (int \<Rightarrow> nat) \<Rightarrow> bool" where
  "tally p n \<longleftrightarrow> (\<forall>t. map_of p t = (if n t = 0 then None else Some (int (n t))))"

definition here :: "job \<Rightarrow> int \<Rightarrow> nat" where
  "here j t = (if fst j = Some t then 1 else 0)"

definition accounted :: "job list \<Rightarrow> writer \<Rightarrow> bool" where
  "accounted seen w \<longleftrightarrow> (\<forall>j\<in>set seen. j \<in> set (in_flight w) \<or> snd j \<in> set (written w) \<or> snd j \<in> set (lost w))"

definition writer_ok :: "job list \<Rightarrow> writer \<Rightarrow> bool" where
  "writer_ok seen w \<longleftrightarrow> tally (pending w) (\<lambda>t. count_at t (in_flight w)) \<and> accounted seen w"

lemma count_at_simps [simp]: "count_at t (js @ ks) = count_at t js + count_at t ks" "count_at t [] = 0"
  "count_at t (j # js) = here j t + count_at t js"
  by (simp_all add: count_at_def here_def)

lemma count_remove1: "j \<in> set js \<Longrightarrow> count_at t js = here j t + count_at t (remove1 j js)"
  by (induction js) auto

lemma tally_add: "tally p n \<Longrightarrow> tally (pending_add (fst j) p) (\<lambda>t. here j t + n t)"
  by (auto simp: tally_def pending_add_def here_def map_of_dset dget_or_def split: option.splits if_splits)

lemma tally_done: "tally p (\<lambda>t. here j t + n t) \<Longrightarrow> tally (pending_done (fst j) p) n"
  by (cases "fst j") (auto simp: tally_def pending_done_def here_def map_of_dset map_of_dpop dget_or_def Let_def split: option.splits if_splits)

lemma remove1_covers: "x \<in> set xs \<Longrightarrow> x = j \<or> x \<in> set (remove1 j xs)"
  by (induction xs) auto

lemma begin_ok: "writer_ok seen w \<Longrightarrow> writer_ok (j # seen) (enqueue_begin j w)"
  using tally_add [of "pending w" "\<lambda>t. count_at t (in_flight w)" j]
  by (auto simp: writer_ok_def accounted_def enqueue_begin_def in_flight_def add.assoc)

lemma put_ok:
  assumes ok: "writer_ok seen w" and j: "j \<in> set (arriving w)"
  shows "writer_ok seen (enqueue_put j w)"
proof -
  define rest where "rest = w\<lparr> arriving := remove1 j (arriving w) \<rparr>"
  have count: "(\<lambda>t. count_at t (in_flight w)) = (\<lambda>t. here j t + count_at t (in_flight rest))"
    by (rule ext) (simp add: in_flight_def rest_def count_remove1 [OF j])
  have cover: "x = j \<or> x \<in> set (in_flight rest)" if "x \<in> set (in_flight w)" for x
    using that remove1_covers [of x "arriving w" j] by (auto simp: in_flight_def rest_def)
  show ?thesis
  proof (cases "length (queued rest) < WRITE_QUEUE_MAX")
    case True
    then have put: "enqueue_put j w = rest\<lparr> queued := queued rest @ [j] \<rparr>" by (simp add: enqueue_put_def rest_def)
    have "(\<lambda>t. count_at t (in_flight (enqueue_put j w))) = (\<lambda>t. count_at t (in_flight w))"
      unfolding count put by (rule ext) (simp add: in_flight_def)
    moreover have "accounted seen (enqueue_put j w)"
      using ok cover by (fastforce simp: writer_ok_def accounted_def put in_flight_def rest_def)
    ultimately show ?thesis using ok by (simp add: writer_ok_def put rest_def)
  next
    case False
    then have put: "enqueue_put j w = rest\<lparr> pending := pending_done (fst j) (pending w), lost := snd j # lost w \<rparr>"
      by (simp add: enqueue_put_def rest_def)
    have "in_flight (enqueue_put j w) = in_flight rest" by (simp add: put in_flight_def)
    moreover have "tally (pending_done (fst j) (pending w)) (\<lambda>t. count_at t (in_flight rest))"
      using ok count by (intro tally_done) (simp add: writer_ok_def)
    moreover have "accounted seen (enqueue_put j w)"
      using ok cover by (fastforce simp: writer_ok_def accounted_def put in_flight_def rest_def)
    ultimately show ?thesis by (simp add: writer_ok_def put)
  qed
qed

lemma get_ok: "writer_ok seen w \<Longrightarrow> writer_ok seen (writer_get w)"
proof (cases "in_hand w = None \<and> queued w \<noteq> []")
  case True
  assume ok: "writer_ok seen w"
  from True obtain j js where q: "queued w = j # js" "in_hand w = None" by (cases "queued w") auto
  have "(\<lambda>t. count_at t (in_flight (writer_get w))) = (\<lambda>t. count_at t (in_flight w))" "set (in_flight (writer_get w)) = set (in_flight w)"
    by (auto simp: writer_get_def q in_flight_def)
  with ok show ?thesis by (simp add: writer_ok_def accounted_def) (simp add: writer_get_def q)
qed (auto simp: writer_get_def split: option.splits list.splits)

lemma done_ok: "writer_ok seen w \<Longrightarrow> writer_ok seen (writer_done ok w)"
proof (cases "in_hand w")
  case (Some j)
  assume inv: "writer_ok seen w"
  let ?rest = "w\<lparr> in_hand := None \<rparr>"
  have "(\<lambda>t. count_at t (in_flight w)) = (\<lambda>t. here j t + count_at t (in_flight ?rest))"
    by (rule ext) (simp add: in_flight_def Some)
  then have "tally (pending_done (fst j) (pending w)) (\<lambda>t. count_at t (in_flight ?rest))"
    using inv by (intro tally_done) (simp add: writer_ok_def)
  moreover have "in_flight (writer_done ok w) = in_flight ?rest" "pending (writer_done ok w) = pending_done (fst j) (pending w)"
    by (simp_all add: writer_done_def Some Let_def in_flight_def)
  moreover have "accounted seen (writer_done ok w)"
    using inv by (auto simp: writer_ok_def accounted_def writer_done_def Some Let_def in_flight_def)
  ultimately show ?thesis by (simp add: writer_ok_def)
qed (simp add: writer_done_def)

lemma writer_runs_ok: "writer_runs seen w \<Longrightarrow> writer_ok seen w"
proof (induction rule: writer_runs.induct)
  case writer_start
  show ?case by (simp add: writer_ok_def tally_def accounted_def in_flight_def)
qed (blast intro: begin_ok put_ok get_ok done_ok)+

text \<open>
  C26. Below the watermark the ledger is complete: in every interleaving of request threads with the writer, a row
  this process has begun to record with a time before the watermark is written, or was given up for good
  (dropped from a full queue, or its write failed); none is still queued or in the writer's hands.
\<close>

theorem watermark_complete:
  assumes "writer_runs seen w" and "(Some t, row) \<in> set seen" and "ledger_watermark setting now w = Inr mark" and "t < mark"
  shows "row \<in> set (written w) \<or> row \<in> set (lost w)"
proof -
  have ok: "tally (pending w) (\<lambda>t. count_at t (in_flight w))" "accounted seen w"
    using writer_runs_ok [OF assms(1)] by (simp_all add: writer_ok_def)
  have "(Some t, row) \<notin> set (in_flight w)"
  proof
    assume "(Some t, row) \<in> set (in_flight w)"
    then have "count_at t (in_flight w) \<noteq> 0" by (force simp: count_at_def filter_empty_conv)
    then have "map_of (pending w) t \<noteq> None" using ok(1) by (simp add: tally_def)
    then have k: "t \<in> set (keys (pending w))" by (metis map_of_eq_None_iff set_map)
    then have ne: "pending w \<noteq> []" by auto
    obtain x where "mark = min x (Min (set (keys (pending w))))"
      using assms(3) ne unfolding ledger_watermark_def rbind_eq_Inr by auto
    then have "mark \<le> Min (set (keys (pending w)))" by (simp only: min.cobounded2)
    also have "\<dots> \<le> t" using k by (intro Min_le) simp_all
    finally show False using assms(4) by simp
  qed
  with ok(2) assms(2) show ?thesis by (fastforce simp: accounted_def)
qed

text \<open>A row is written; with a lag of 0 the watermark passes it at once.\<close>

definition demo_job :: job where
  "demo_job = (Some 5, [(''ts'', JInt 5)])"

definition demo_writer :: writer where
  "demo_writer = writer_done True (writer_get (enqueue_put demo_job (enqueue_begin demo_job
     \<lparr> pending = [], arriving = [], queued = [], in_hand = None, written = [], lost = [] \<rparr>)))"

theorem watermark_complete_witness: "[(''ts'', JInt 5)] \<in> set (written demo_writer)"
proof -
  let ?w = "enqueue_begin demo_job \<lparr> pending = [], arriving = [], queued = [], in_hand = None, written = [], lost = [] \<rparr>"
  have run: "writer_runs [demo_job] demo_writer"
    unfolding demo_writer_def
    by (intro writer_settle writer_take writer_put writer_begin writer_start) (simp add: enqueue_begin_def)
  have w: "demo_writer = \<lparr> pending = [], arriving = [], queued = [], in_hand = None, written = [snd demo_job], lost = [] \<rparr>"
    by (simp add: demo_writer_def enqueue_begin_def enqueue_put_def writer_get_def writer_done_def pending_add_def pending_done_def
        WRITE_QUEUE_MAX_def demo_job_def dget_or_def Let_def)
  have "watermark_lag_s (Some ''0'') = Fin 0" by code_simp
  then have "ledger_watermark (Some ''0'') 9 demo_writer = Inr 9"
    by (simp add: ledger_watermark_def w f_sub_def mk_float_small int_of_def trunc_def)
  with watermark_complete [OF run _ this, of 5 "snd demo_job"] show ?thesis by (simp add: demo_job_def w)
qed

end
