(* ===== verification/PyEffect.thy ===== *)
theory PyEffect
  imports Prelude
begin

text \<open>
  Steps that change a state and may raise: what a step did before it raised stays done. \<open>e_read\<close> uses the
  value of an expression that may raise, \<open>e_raise\<close> raises, \<open>e_do\<close> changes the state, \<open>e_then\<close> runs two steps, \<open>e_each\<close> runs a
  step for every item.
\<close>

type_synonym 's eff = "'s \<Rightarrow> exn option \<times> 's"

definition e_skip :: "'s eff" where
  "e_skip s = (None, s)"

definition e_do :: "('s \<Rightarrow> 's) \<Rightarrow> 's eff" where
  "e_do f s = (None, f s)"

definition e_raise :: "exn \<Rightarrow> 's eff" where
  "e_raise e s = (Some e, s)"

definition e_read :: "'a res \<Rightarrow> ('a \<Rightarrow> 's eff) \<Rightarrow> 's eff" where
  "e_read r k s = (case r of Inl e \<Rightarrow> (Some e, s) | Inr x \<Rightarrow> k x s)"

definition e_get :: "('s \<Rightarrow> 's eff) \<Rightarrow> 's eff" where
  "e_get g s = g s s"

definition e_then :: "'s eff \<Rightarrow> 's eff \<Rightarrow> 's eff" where
  "e_then m k s = (case m s of (None, s') \<Rightarrow> k s' | (Some e, s') \<Rightarrow> (Some e, s'))"

fun e_each :: "('a \<Rightarrow> 's eff) \<Rightarrow> 'a list \<Rightarrow> 's eff" where
  "e_each f [] = e_skip"
| "e_each f (x # xs) = e_then (f x) (e_each f xs)"

lemma e_skip_run [simp]: "e_skip s = (None, s)"
  by (simp add: e_skip_def)

lemma e_raise_run [simp]: "e_raise e s = (Some e, s)"
  by (simp add: e_raise_def)

lemma e_do_run [simp]: "e_do f s = (None, f s)"
  by (simp add: e_do_def)

lemma e_read_Inr [simp]: "e_read (Inr x) k s = k x s"
  by (simp add: e_read_def)

lemma e_read_Inl [simp]: "e_read (Inl e) k s = (Some e, s)"
  by (simp add: e_read_def)

lemma e_get_run [simp]: "e_get k s = k s s"
  by (simp add: e_get_def)

lemma e_then_ok [simp]: "m s = (None, s') \<Longrightarrow> e_then m k s = k s'"
  by (simp add: e_then_def)

lemma e_then_done: "e_then m k s = (None, t) \<longleftrightarrow> (\<exists>s'. m s = (None, s') \<and> k s' = (None, t))"
  by (auto simp: e_then_def split: prod.splits option.splits)

lemma e_each_append: "e_each f (xs @ ys) = e_then (e_each f xs) (e_each f ys)"
proof (induction xs)
  case Nil
  show ?case by (rule ext) (simp add: e_then_def)
next
  case (Cons x xs)
  then show ?case by (simp add: e_then_def split: prod.splits option.splits) (auto simp: e_then_def fun_eq_iff split: prod.splits option.splits)
qed

text \<open>An invariant of every step is one of the whole, whether it ends or raises.\<close>

definition e_keeps :: "('s \<Rightarrow> bool) \<Rightarrow> 's eff \<Rightarrow> bool" where
  "e_keeps P m \<longleftrightarrow> (\<forall>s. P s \<longrightarrow> P (snd (m s)))"

lemma e_keeps_skip [intro, simp]: "e_keeps P e_skip"
  by (simp add: e_keeps_def)

lemma e_keeps_raise [intro, simp]: "e_keeps P (e_raise e)"
  by (simp add: e_keeps_def)

lemma e_keeps_do: "(\<And>s. P s \<Longrightarrow> P (f s)) \<Longrightarrow> e_keeps P (e_do f)"
  by (simp add: e_keeps_def)

lemma e_keeps_read [intro]: "(\<And>x. r = Inr x \<Longrightarrow> e_keeps P (k x)) \<Longrightarrow> e_keeps P (e_read r k)"
  by (cases r) (auto simp: e_keeps_def)

lemma e_keeps_get: "(\<And>s. P s \<Longrightarrow> P (snd (k s s))) \<Longrightarrow> e_keeps P (e_get k)"
  by (simp add: e_keeps_def)

lemma e_keeps_then [intro]: "e_keeps P m \<Longrightarrow> e_keeps P k \<Longrightarrow> e_keeps P (e_then m k)"
  by (fastforce simp: e_keeps_def e_then_def split: prod.splits option.splits)

lemma e_keeps_each [intro]: "(\<And>x. x \<in> set xs \<Longrightarrow> e_keeps P (f x)) \<Longrightarrow> e_keeps P (e_each f xs)"
  by (induction xs) auto

end
