(* ===== verification/Diagnostics.thy ===== *)
theory Diagnostics
  imports ProviderWire PyEffect
begin

text \<open>
  \<open>provider_adapters/diagnostics.py\<close>: what a provider call may report about itself. Only known fields of known
  types leave, texts cut, numbers within bounds. The two field sets are frozensets, whose order the code does
  not use; here they are lists.
\<close>

section \<open>Bounded evidence\<close>

definition TEXT_FIELDS :: "string list" where
  "TEXT_FIELDS = [''mode'', ''phase'', ''timeout_source'', ''upstream_id'', ''upstream_provider'', ''provider_id'',
     ''model_family'', ''error_kind'', ''requested_reasoning_effort'']"

definition NUMBER_FIELDS :: "string list" where
  "NUMBER_FIELDS = [''http_status'', ''elapsed_ms'', ''request_sent_ms'', ''response_headers_ms'', ''body_complete_ms'',
     ''connect_ms'', ''tls_ms'', ''first_output_ms'', ''first_reasoning_ms'', ''tokens_reasoning'', ''requested_timeout_ms'',
     ''requested_max_tokens'', ''attempt'']"

definition diagnostic_text :: "dict \<Rightarrow> string \<Rightarrow> dict" where
  "diagnostic_text v k = (case dget v k of JStr s \<Rightarrow> [(k, JStr (py_take 160 s))] | _ \<Rightarrow> [])"

definition diagnostic_number :: "dict \<Rightarrow> string \<Rightarrow> dict" where
  "diagnostic_number v k = (if is_num (dget v k) \<and> num_between 0 (dget v k) (10 ^ 15) then [(k, dget v k)] else [])"

definition bounded_diagnostics :: "jval \<Rightarrow> dict" where
  "bounded_diagnostics value1 = (case value1 of
     JObj v \<Rightarrow> concat (map (diagnostic_text v) TEXT_FIELDS) @ concat (map (diagnostic_number v) NUMBER_FIELDS)
       @ (case dget v ''requested_reasoning_enabled'' of JBool b \<Rightarrow> [(''requested_reasoning_enabled'', JBool b)] | _ \<Rightarrow> [])
   | _ \<Rightarrow> [])"

text \<open>\<open>x if isinstance(x, dict) else {}\<close> after \<open>x or {}\<close>.\<close>

definition dict_or_empty :: "jval \<Rightarrow> dict" where
  "dict_or_empty v = obj_of (py_or v (JObj []))"

definition upstream_metadata :: "jval \<Rightarrow> dict res" where
  "upstream_metadata data =
     rbind (vget data ''usage'') (\<lambda>usage.
     let details = dict_or_empty (dget (dict_or_empty usage) ''completion_tokens_details'') in
     Inr (bounded_diagnostics (JObj [(''upstream_id'', dget (obj_of data) ''id''), (''upstream_provider'', dget (obj_of data) ''provider''),
       (''tokens_reasoning'', dget details ''reasoning_tokens'')])))"

section \<open>The timing of a call\<close>

record timing =
  timing_start :: rat
  timing_starts :: "(string \<times> rat) list"
  timing_data :: dict

definition round_3 :: "rat \<Rightarrow> rat" where
  "round_3 x = fl (of_int (round_even (x * 10 ^ 3)) / 10 ^ 3)"

definition new_timing :: "dict \<Rightarrow> jval \<Rightarrow> string \<Rightarrow> rat \<Rightarrow> timing res" where
  "new_timing request timeout mode now =
     (let reasoning = obj_of (dget request ''reasoning'') in
      rbind (py_mul timeout (JInt 1000)) (\<lambda>ms.
      Inr \<lparr> timing_start = now, timing_starts = [], timing_data = bounded_diagnostics (JObj
        [(''mode'', JStr mode), (''phase'', JStr ''peer_capacity''), (''requested_timeout_ms'', ms),
         (''requested_max_tokens'', dget request ''max_tokens''),
         (''requested_reasoning_effort'', dget_or reasoning ''effort'' (dget request ''reasoning_effort'')),
         (''requested_reasoning_enabled'', dget reasoning ''enabled'')]) \<rparr>))"

definition timing_elapsed :: "timing \<Rightarrow> rat \<Rightarrow> jval" where
  "timing_elapsed tm now = JFloat (Fin (round_3 (fl (fl (now - timing_start tm) * 1000))))"

definition set_timing :: "string \<Rightarrow> jval \<Rightarrow> timing \<Rightarrow> timing" where
  "set_timing k v tm = tm\<lparr> timing_data := dset k v (timing_data tm) \<rparr>"

definition default_timing :: "string \<Rightarrow> jval \<Rightarrow> timing \<Rightarrow> timing" where
  "default_timing k v tm = (if has_key (timing_data tm) k then tm else set_timing k v tm)"

text \<open>The phases of the HTTP client and the milestones of their ends.\<close>

definition PHASES :: "(string \<times> string) list" where
  "PHASES = [(''connect_tcp'', ''connect''), (''start_tls'', ''tls''), (''send_request_headers'', ''request_headers''),
     (''send_request_body'', ''request_body''), (''receive_response_headers'', ''response_headers''),
     (''receive_response_body'', ''response_body'')]"

definition MILESTONES :: "(string \<times> string) list" where
  "MILESTONES = [(''send_request_body'', ''request_sent_ms''), (''receive_response_headers'', ''response_headers_ms''),
     (''receive_response_body'', ''body_complete_ms'')]"

definition after_last_dot :: "string \<Rightarrow> string" where
  "after_last_dot s = rev (takeWhile (\<lambda>c. c \<noteq> CHR ''.'') (rev s))"

definition before_last_dot :: "string \<Rightarrow> string" where
  "before_last_dot s = rev (drop 1 (dropWhile (\<lambda>c. c \<noteq> CHR ''.'') (rev s)))"

definition is_int_instance :: "jval \<Rightarrow> bool" where
  "is_int_instance v = (case v of JInt _ \<Rightarrow> True | JBool _ \<Rightarrow> True | _ \<Rightarrow> False)"

text \<open>The status in the tuple the client returns: after the HTTP version, or first (HTTP/2).\<close>

definition traced_status :: "jval \<Rightarrow> jval option" where
  "traced_status v = (case list_of v of
     _ # b # _ \<Rightarrow> if is_int_instance b then Some b
        else if is_int_instance (hd (list_of v)) then Some (hd (list_of v)) else None
   | [a] \<Rightarrow> if is_int_instance a then Some a else None
   | [] \<Rightarrow> None)"

definition trace_started :: "string \<Rightarrow> string \<Rightarrow> rat \<Rightarrow> timing \<Rightarrow> timing" where
  "trace_started operation phase now tm =
     (set_timing ''phase'' (JStr phase) tm)\<lparr> timing_starts := dset operation now (timing_starts tm) \<rparr>"

definition trace_complete :: "string \<Rightarrow> jval \<Rightarrow> rat \<Rightarrow> rat \<Rightarrow> timing \<Rightarrow> timing" where
  "trace_complete operation returned now later tm =
     (let tm = (case (operation \<in> {''connect_tcp'', ''start_tls''}, map_of (timing_starts tm) operation) of
                 (True, Some s) \<Rightarrow> set_timing (if operation = ''connect_tcp'' then ''connect_ms'' else ''tls_ms'')
                    (JFloat (Fin (round_3 (fl (fl (now - s) * 1000))))) tm
               | _ \<Rightarrow> tm);
          tm = (case map_of MILESTONES operation of None \<Rightarrow> tm | Some k \<Rightarrow> set_timing k (timing_elapsed tm later) tm) in
      if operation \<noteq> ''receive_response_headers'' then tm
      else (case traced_status returned of None \<Rightarrow> tm | Some v \<Rightarrow> set_timing ''http_status'' v tm))"

definition trace :: "string \<Rightarrow> jval \<Rightarrow> rat \<Rightarrow> rat \<Rightarrow> timing \<Rightarrow> timing" where
  "trace event returned now later tm =
     (let outcome1 = after_last_dot event; operation = after_last_dot (before_last_dot event) in
      case map_of PHASES operation of
        None \<Rightarrow> tm
      | Some phase \<Rightarrow>
          if outcome1 = ''started'' then trace_started operation phase now tm
          else if outcome1 = ''complete'' then trace_complete operation returned now later tm
          else tm)"

text \<open>What a chunk of a stream adds; what it added before it raised stays.\<close>

definition observe_choice :: "rat \<Rightarrow> jval \<Rightarrow> timing eff" where
  "observe_choice now choice =
     e_read (sub_obj choice ''delta'') (\<lambda>delta. e_read (vget delta ''reasoning'') (\<lambda>r.
     let d = obj_of delta in
     e_then (if truthy r \<or> truthy (dget d ''reasoning_details'')
             then e_do (\<lambda>tm. default_timing ''first_reasoning_ms'' (timing_elapsed tm now) tm) else e_skip)
       (if truthy (dget d ''content'') \<or> truthy (dget d ''tool_calls'')
        then e_do (\<lambda>tm. default_timing ''first_output_ms'' (timing_elapsed tm now) tm) else e_skip)))"

definition observe_chunk :: "rat \<Rightarrow> jval \<Rightarrow> timing eff" where
  "observe_chunk now chunk =
     e_read (upstream_metadata chunk) (\<lambda>m.
     e_then (e_do (\<lambda>tm. tm\<lparr> timing_data := dupd (timing_data tm) m \<rparr>))
       (e_read (items_of (dget (obj_of chunk) ''choices'')) (e_each (observe_choice now))))"

text \<open>\<open>{**data, **nested, **metadata}\<close>: the two must be mappings.\<close>

definition spread_dict :: "jval \<Rightarrow> dict res" where
  "spread_dict v = (case py_or v (JObj []) of JObj d \<Rightarrow> Inr d
     | x \<Rightarrow> Inl (TypeError (CHR 0x27 # type_name x @ CHR 0x27 # '' object is not a mapping'')))"

definition attach :: "timing \<Rightarrow> rat \<Rightarrow> dict \<Rightarrow> dict res" where
  "attach tm now result =
     rbind (vget (py_or (dget result ''response'') (JObj [])) ''upstream'') (\<lambda>metadata.
     rbind (spread_dict (dget result ''diagnostics'')) (\<lambda>nested. rbind (spread_dict metadata) (\<lambda>up.
       Inr (dset ''diagnostics'' (JObj (bounded_diagnostics (JObj
         (dset ''elapsed_ms'' (timing_elapsed tm now) (dupd (dupd (timing_data tm) nested) up))))) result))))"

section \<open>What leaves is bounded\<close>

definition bounded_entry :: "string \<times> jval \<Rightarrow> bool" where
  "bounded_entry kv = (case kv of (k, v) \<Rightarrow>
     k \<in> set TEXT_FIELDS \<and> is_str v \<and> py_len (str_of v) \<le> 160
     \<or> k \<in> set NUMBER_FIELDS \<and> is_num v \<and> num_between 0 v (10 ^ 15)
     \<or> k = ''requested_reasoning_enabled'' \<and> (\<exists>b. v = JBool b))"

lemma diagnostics_bounded: "list_all bounded_entry (bounded_diagnostics v)"
  by (cases v) (auto simp: bounded_diagnostics_def diagnostic_text_def diagnostic_number_def bounded_entry_def list_all_iff py_len_take
      split: jval.splits if_splits)

end
