(* ===== verification/OpenAIRequest.thy ===== *)
theory OpenAIRequest
  imports PeerGates Diagnostics
begin

text \<open>
  \<open>provider_adapters/openai_compatible.py\<close>, the request: credentials, prompt-cache marks, the endpoint and the
  headers. A record holds what the adapter is given besides the request: the wire, the OAuth getters (a getter
  returns a token or nothing), the environment of the process and the error maps of the providers.
\<close>

record openai_host =
  host_wire :: wire
  oauth_getter :: "string \<Rightarrow> string option option"
  process_env :: "string \<Rightarrow> string option"
  error_map_of :: "string \<Rightarrow> dict"

section \<open>Credentials\<close>

text \<open>\<open>env_get(name) if name else None\<close>.\<close>

definition env_named :: "(string \<Rightarrow> string option) \<Rightarrow> jval \<Rightarrow> string option res" where
  "env_named env name = (if \<not> truthy name then Inr None
     else case name of JStr s \<Rightarrow> Inr (env s) | _ \<Rightarrow> Inl (TypeError (''str expected, not '' @ type_name name)))"

definition bearer :: "string \<Rightarrow> dict" where
  "bearer token = [(''Authorization'', JStr (''Bearer '' @ token))]"

definition auth_err :: "string \<Rightarrow> dict" where
  "auth_err message = err ''auth_error'' 0 0 message"

definition present :: "string option \<Rightarrow> string option" where
  "present token = (case token of None \<Rightarrow> None | Some s \<Rightarrow> nonempty s)"

definition auth_kind :: "dict \<Rightarrow> jval \<times> dict" where
  "auth_kind request =
     (let auth = obj_of (dget request ''auth''); kind = dget auth ''kind''; env = dget request ''auth_env'' in
      if kind = JNull \<and> truthy env then (JStr ''bearer'', [(''kind'', JStr ''bearer''), (''env'', env)]) else (kind, auth))"

definition oauth_headers :: "(string \<Rightarrow> string option option) \<Rightarrow> jval \<Rightarrow> (dict + dict) res" where
  "oauth_headers getters provider =
     (if unhashable provider then Inl (unhashable_err provider)
      else case (case provider of JStr p \<Rightarrow> getters p | _ \<Rightarrow> None) of
        None \<Rightarrow> Inr (Inl (auth_err (''no oauth token provider for '' @ py_repr provider)))
      | Some token \<Rightarrow> (case present token of
          None \<Rightarrow> Inr (Inl (auth_err (''oauth token provider '' @ py_repr provider @ '' returned nothing'')))
        | Some t \<Rightarrow> Inr (Inr (bearer t))))"

definition resolve_auth_headers ::
  "dict \<Rightarrow> (string \<Rightarrow> string option) \<Rightarrow> (string \<Rightarrow> string option option) \<Rightarrow> (dict + dict) res" where
  "resolve_auth_headers request env getters = (case auth_kind request of (kind, auth) \<Rightarrow>
     if kind \<in> {JNull, JStr ''none''} then Inr (Inr [])
     else if kind = JStr ''bearer'' then
       (let name = py_or (dget auth ''env'') (dget request ''auth_env'') in
        rbind (env_named env name) (\<lambda>token. case present token of
            None \<Rightarrow> Inr (Inl (auth_err (''env var '' @ py_repr name @ '' unset'')))
          | Some t \<Rightarrow> Inr (Inr (bearer t))))
     else if kind = JStr ''oauth'' then oauth_headers getters (dget auth ''provider'')
     else Inr (Inl (auth_err (''unknown auth kind '' @ py_repr kind))))"

definition resolve_ollama_cloud_auth :: "(string \<Rightarrow> string option) \<Rightarrow> dict option" where
  "resolve_ollama_cloud_auth env = map_option bearer (present (env ''OLLAMA_API_KEY''))"

section \<open>Prompt-cache marks\<close>

text \<open>
  \<open>dict(p)\<close> of a content part: a copy of a dict, an error for text and numbers. (Python also reads a list of
  pairs as a dict; a part that is a list is an error here.)
\<close>

definition part_copy :: "jval \<Rightarrow> dict res" where
  "part_copy p = (case p of
     JObj d \<Rightarrow> Inr d
   | JStr s \<Rightarrow> if s = [] then Inr [] else Inl (ValueError ''dictionary update sequence element #0 has length 1; 2 is required'')
   | JList xs \<Rightarrow> if xs = [] then Inr [] else Inl (TypeError ''cannot convert dictionary update sequence element #0 to a sequence'')
   | _ \<Rightarrow> Inl (TypeError (CHR 0x27 # type_name p @ CHR 0x27 # '' object is not iterable'')))"

definition mark :: "dict \<Rightarrow> dict" where
  "mark part = dset ''cache_control'' CACHE_CONTROL part"

definition mark_last :: "dict list \<Rightarrow> jval" where
  "mark_last parts = JList (map JObj (butlast parts @ [mark (last parts)]))"

definition tag_message :: "dict \<Rightarrow> dict res" where
  "tag_message msg = (case dget msg ''content'' of
     JStr s \<Rightarrow> Inr (dset ''content'' (JList [JObj [(''type'', JStr ''text''), (''text'', JStr s), (''cache_control'', CACHE_CONTROL)]]) msg)
   | JList ps \<Rightarrow>
       if ps = [] \<or> \<not> is_obj (last ps) then Inr msg
       else rbind (rmap part_copy ps) (\<lambda>parts. Inr (dset ''content'' (mark_last parts) msg))
   | _ \<Rightarrow> Inr msg)"

fun tag_first_system :: "jval list \<Rightarrow> jval list res" where
  "tag_first_system [] = Inr []"
| "tag_first_system (m # ms) =
     (if is_obj m \<and> dget (obj_of m) ''role'' = JStr ''system'' then rbind (tag_message (obj_of m)) (\<lambda>t. Inr (JObj t # ms))
      else rbind (tag_first_system ms) (\<lambda>ts. Inr (m # ts)))"

definition tag_last :: "jval list \<Rightarrow> jval list res" where
  "tag_last ms = (if ms = [] \<or> \<not> is_obj (last ms) then Inr ms
     else rbind (tag_message (obj_of (last ms))) (\<lambda>t. Inr (butlast ms @ [JObj t])))"

definition with_cache_breakpoints :: "jval \<Rightarrow> jval list res" where
  "with_cache_breakpoints messages = rbind (items_of messages) (\<lambda>ms. rbind (tag_first_system ms) tag_last)"

section \<open>The call\<close>

record openai_call =
  call_url :: string
  call_body :: dict
  call_headers :: dict
  call_timeout :: jval

definition BODY_FIELDS :: "string list" where
  "BODY_FIELDS = [''tools'', ''response_format'', ''temperature'', ''seed'', ''max_tokens'', ''reasoning'', ''reasoning_effort'']"

definition openai_body :: "dict \<Rightarrow> dict res" where
  "openai_body request =
     rbind (wire_model request) (\<lambda>model.
     let messages = py_or (dget request ''messages'') (JList []);
         body = fold (\<lambda>k b. if dget request k = JNull then b else dset k (dget request k) b) BODY_FIELDS
                  [(''model'', model), (''messages'', messages)] in
     if anthropic_cache_family request \<and> dget request ''provider_id'' \<in> {JStr ''openrouter'', JStr ''openrouter_market''}
     then rbind (with_cache_breakpoints messages) (\<lambda>ms. Inr (dset ''messages'' (JList ms) body))
     else Inr body)"

text \<open>A string method on a value, and \<open>needle in v\<close>.\<close>

definition as_text :: "string \<Rightarrow> jval \<Rightarrow> string res" where
  "as_text meth v = (case v of JStr s \<Rightarrow> Inr s | _ \<Rightarrow> Inl (attr_err v meth))"

definition py_in :: "string \<Rightarrow> jval \<Rightarrow> bool res" where
  "py_in s v = (case v of
     JStr t \<Rightarrow> Inr (contains s t) | JList xs \<Rightarrow> Inr (JStr s \<in> set xs) | JObj d \<Rightarrow> Inr (has_key d s)
   | _ \<Rightarrow> Inl (TypeError (''argument of type '' @ CHR 0x27 # type_name v @ CHR 0x27 # '' is not iterable'')))"

definition is_ollama :: "jval \<Rightarrow> string \<Rightarrow> jval \<Rightarrow> bool res" where
  "is_ollama provider_id base_url seller =
     (if provider_id = JStr ''ollama'' \<or> contains ''ollama.com'' base_url then Inr True
      else rbind (py_in ''ollama.com'' seller) (\<lambda>b.
        Inr (b \<or> contains ''localhost:11434'' base_url \<or> contains ''127.0.0.1:11434'' base_url
          \<or> prefix_of (rev '':11434/v1'') (rev (rstrip_slash base_url)))))"

definition ollama_headers :: "(string \<Rightarrow> string option) \<Rightarrow> string \<Rightarrow> jval \<Rightarrow> dict \<Rightarrow> jval \<Rightarrow> (dict + dict) res" where
  "ollama_headers env base_url seller auth provider_id =
     rbind (is_ollama provider_id base_url seller) (\<lambda>b.
     if \<not> b then Inr (Inr auth)
     else rbind (as_text ''startswith'' (py_or seller (JStr base_url))) (\<lambda>endpoint.
       if prefix_of ''https://ollama.com'' endpoint then
         (case resolve_ollama_cloud_auth env of
            None \<Rightarrow> Inr (Inl (auth_err ''Ollama Cloud requires OLLAMA_API_KEY''))
          | Some hs \<Rightarrow> Inr (Inr hs))
       else Inr (Inr [])))"

definition proxy_headers :: "(string \<Rightarrow> string option) \<Rightarrow> string \<Rightarrow> dict \<Rightarrow> dict" where
  "proxy_headers penv provider_id headers =
     (case present (penv ''ANTSEED_PROXY_TOKEN'') of
        Some token \<Rightarrow> if prefix_of ''antseed'' provider_id then dset ''Authorization'' (JStr (''Bearer '' @ token)) headers else headers
      | None \<Rightarrow> headers)"

text \<open>The url and the headers of a tenant's own buyer: \<open>is_byo_buyer\<close> has seen that the token is set.\<close>

definition byo_target :: "(string \<Rightarrow> string option) \<Rightarrow> dict \<Rightarrow> string \<times> dict \<Rightarrow> (string \<times> dict) res" where
  "byo_target env request target =
     (if \<not> is_byo_buyer request env then Inr target
      else case (env ''ANTSEED_BYO_URL'', env ''ANTSEED_BYO_TOKEN'') of
        (Some u, Some t) \<Rightarrow> Inr (rstrip_slash u @ ''/v1/chat/completions'', dset ''Authorization'' (JStr (''Bearer '' @ t)) (snd target))
      | _ \<Rightarrow> Inl (attr_err JNull ''rstrip''))"

text \<open>A step that may end the call with an error result.\<close>

definition or_return :: "(dict + 'a) res \<Rightarrow> ('a \<Rightarrow> (dict + 'b) res) \<Rightarrow> (dict + 'b) res" where
  "or_return m k = rbind m (\<lambda>r. case r of Inl e \<Rightarrow> Inr (Inl e) | Inr x \<Rightarrow> k x)"

definition pin_peer :: "dict \<Rightarrow> dict \<Rightarrow> dict" where
  "pin_peer offer headers = (let peer_id = dget offer ''peer_id'' in
     if truthy peer_id then dset ''x-antseed-pin-peer'' peer_id headers else headers)"

definition prepare_openai_call :: "openai_host \<Rightarrow> dict \<Rightarrow> (dict + openai_call) res" where
  "prepare_openai_call host request =
     (let env = env_get (host_wire host); offer = py_or (dget request ''offer'') (JObj []) in
      or_return (resolve_auth_headers request env (oauth_getter host)) (\<lambda>auth.
      rbind (openai_body request) (\<lambda>body.
      rbind (as_text ''rstrip'' (py_or (dget request ''base_url'') (JStr []))) (\<lambda>base_url.
      rbind (vget offer ''seller_endpoint'') (\<lambda>seller.
      let provider_id = py_or (dget request ''provider_id'') (JStr []) in
      or_return (ollama_headers env base_url (py_or seller (JStr [])) auth provider_id) (\<lambda>auth.
      rbind (as_text ''startswith'' provider_id) (\<lambda>pid.
      rbind (byo_target env request (rstrip_slash base_url @ ''/chat/completions'',
          proxy_headers (process_env host) pid (dupd (dupd [(''Content-Type'', JStr ''application/json'')] auth) (extra_headers (host_wire host))))) (\<lambda>target.
      rbind (request_timeout (host_wire host) request) (\<lambda>timeout.
        Inr (Inr \<lparr> call_url = fst target, call_body = body, call_headers = pin_peer (obj_of offer) (snd target), call_timeout = timeout \<rparr>))))))))))"

section \<open>Where credentials go\<close>

lemma or_return_done: "or_return m k = Inr (Inr y) \<longleftrightarrow> (\<exists>x. m = Inr (Inr x) \<and> k x = Inr (Inr y))"
  by (cases m; simp add: or_return_def split: sum.split)

lemma pin_peer_auth [simp]: "dget (pin_peer offer hs) ''Authorization'' = dget hs ''Authorization''"
  by (simp add: pin_peer_def Let_def dget_dset)

lemma proxy_headers_overridden: "dset ''Authorization'' v (proxy_headers penv pid hs) = dset ''Authorization'' v hs"
  by (simp add: proxy_headers_def split: option.splits)

lemma byo_target_tenant: "is_byo_buyer request env \<Longrightarrow> byo_target env request (u, proxy_headers penv pid hs) = byo_target env request (u', hs)"
  by (simp add: byo_target_def proxy_headers_overridden split: option.splits)

lemma byo_target_sends:
  "is_byo_buyer request env \<Longrightarrow> byo_target env request target = Inr r \<Longrightarrow>
   \<exists>u t. env ''ANTSEED_BYO_URL'' = Some u \<and> env ''ANTSEED_BYO_TOKEN'' = Some t \<and> fst r = rstrip_slash u @ ''/v1/chat/completions''
     \<and> dget (snd r) ''Authorization'' = JStr (''Bearer '' @ t)"
  by (auto simp: byo_target_def dget_dset split: option.splits)

text \<open>
  C22. A tenant's call is the tenant's alone: the url and the bearer token of a call of a tenant's own buyer are
  the tenant's, whatever the request and the offer say, and nothing of the call depends on the environment of
  the process, which holds the token of the operator's funded proxy.
\<close>

theorem byo_call_isolated:
  assumes "is_byo_buyer request (env_get (host_wire host))" and "prepare_openai_call host request = Inr (Inr c)"
  shows "(\<exists>u t. env_get (host_wire host) ''ANTSEED_BYO_URL'' = Some u \<and> env_get (host_wire host) ''ANTSEED_BYO_TOKEN'' = Some t
      \<and> call_url c = rstrip_slash u @ ''/v1/chat/completions'' \<and> dget (call_headers c) ''Authorization'' = JStr (''Bearer '' @ t))
    \<and> prepare_openai_call (host\<lparr> process_env := penv \<rparr>) request = Inr (Inr c)"
proof
  show "\<exists>u t. env_get (host_wire host) ''ANTSEED_BYO_URL'' = Some u \<and> env_get (host_wire host) ''ANTSEED_BYO_TOKEN'' = Some t
      \<and> call_url c = rstrip_slash u @ ''/v1/chat/completions'' \<and> dget (call_headers c) ''Authorization'' = JStr (''Bearer '' @ t)"
    using assms(2) unfolding prepare_openai_call_def Let_def or_return_done rbind_eq_Inr
    by (auto dest!: byo_target_sends [OF assms(1)])
  have "prepare_openai_call (host\<lparr> process_env := penv \<rparr>) request = prepare_openai_call host request"
    by (simp add: prepare_openai_call_def byo_target_tenant [OF assms(1), where u' = "[]"] Let_def)
  then show "prepare_openai_call (host\<lparr> process_env := penv \<rparr>) request = Inr (Inr c)" using assms(2) by simp
qed

text \<open>The credential a request names.\<close>

definition credential_name :: "dict \<Rightarrow> jval" where
  "credential_name request = py_or (dget (snd (auth_kind request)) ''env'') (dget request ''auth_env'')"

text \<open>
  A tenant's secret leaves in the tenant's calls only: a call that is not the tenant's own buyer and does not
  name the variables of the tenant's gateway as its credential is the same whatever these variables hold.
\<close>

lemma byo_secret_unused:
  assumes "\<not> is_byo_buyer request (env_get (host_wire host))" and "\<not> is_byo_buyer request env"
    and "\<And>k. k \<notin> {''ANTSEED_BYO_URL'', ''ANTSEED_BYO_TOKEN''} \<Longrightarrow> env k = env_get (host_wire host) k"
    and "credential_name request \<notin> {JStr ''ANTSEED_BYO_URL'', JStr ''ANTSEED_BYO_TOKEN''}"
  shows "prepare_openai_call (host\<lparr> host_wire := (host_wire host)\<lparr> env_get := env \<rparr> \<rparr>) request = prepare_openai_call host request"
proof -
  have name: "env_named env (credential_name request) = env_named (env_get (host_wire host)) (credential_name request)"
  proof (cases "credential_name request")
    case (JStr s)
    with assms(4) have "s \<notin> {''ANTSEED_BYO_URL'', ''ANTSEED_BYO_TOKEN''}" by blast
    from assms(3) [OF this] JStr show ?thesis by (simp only: env_named_def jval.case)
  qed (simp_all add: env_named_def)
  have auth: "resolve_auth_headers request env g = resolve_auth_headers request (env_get (host_wire host)) g" for g
    using name by (cases "auth_kind request") (simp add: resolve_auth_headers_def credential_name_def Let_def)
  have "resolve_ollama_cloud_auth env = resolve_ollama_cloud_auth (env_get (host_wire host))"
    using assms(3) by (simp add: resolve_ollama_cloud_auth_def)
  then have ollama: "ollama_headers env b sl a pid = ollama_headers (env_get (host_wire host)) b sl a pid" for b sl a pid
    unfolding ollama_headers_def by (simp only:)
  have target: "byo_target env request t = byo_target (env_get (host_wire host)) request t" for t
    using assms(1,2) by (simp add: byo_target_def)
  have timeout: "request_timeout ((host_wire host)\<lparr> env_get := env \<rparr>) request = request_timeout (host_wire host) request"
    by (simp add: request_timeout_def)
  have sel: "host_wire (host\<lparr> host_wire := w \<rparr>) = w" "oauth_getter (host\<lparr> host_wire := w \<rparr>) = oauth_getter host"
      "process_env (host\<lparr> host_wire := w \<rparr>) = process_env host" "env_get (v\<lparr> env_get := env \<rparr>) = env"
      "extra_headers (v\<lparr> env_get := env \<rparr>) = extra_headers v" for w v
    by simp_all
  show ?thesis unfolding prepare_openai_call_def Let_def sel auth ollama target timeout ..
qed

section \<open>Marks change no text\<close>

definition same_text :: "jval \<Rightarrow> jval \<Rightarrow> bool" where
  "same_text m m' \<longleftrightarrow> is_obj m = is_obj m' \<and> (\<forall>k. k \<noteq> ''content'' \<longrightarrow> dget (obj_of m') k = dget (obj_of m) k)
     \<and> text_from_content (dget (obj_of m') ''content'') = text_from_content (dget (obj_of m) ''content'')"

lemma same_text_refl [simp]: "same_text m m"
  by (simp add: same_text_def)

lemma same_text_trans: "same_text a b \<Longrightarrow> same_text b c \<Longrightarrow> same_text a c"
  by (simp add: same_text_def)

definition text_of_part :: "jval \<Rightarrow> string list res" where
  "text_of_part p = (if text_part p then rbind (str_item (dget_or (obj_of p) ''text'' (JStr []))) (\<lambda>s. Inr [s]) else Inr [])"

lemma text_from_parts: "text_from_content (JList ps) = rbind (rmap text_of_part ps) (\<lambda>ts. Inr (concat (concat ts)))"
proof -
  have "rmap (\<lambda>p. str_item (dget_or (obj_of p) ''text'' (JStr []))) (filter text_part ps) = rbind (rmap text_of_part ps) (\<lambda>ts. Inr (concat ts))"
    by (induction ps) (auto simp: text_of_part_def rbind_assoc intro!: rbind_cong)
  then show ?thesis by (simp add: text_from_content_def rbind_assoc)
qed

lemma text_of_part_copy: "part_copy p = Inr d \<Longrightarrow> text_of_part (JObj d) = text_of_part p \<or> (text_of_part p = Inr [] \<and> text_of_part (JObj d) = Inr [[]])"
proof (cases p)
  case (JStr s)
  then show "part_copy p = Inr d \<Longrightarrow> ?thesis" by (cases s) (simp_all add: part_copy_def text_of_part_def text_part_def dget_or_def str_item_def)
next
  case (JList xs)
  then show "part_copy p = Inr d \<Longrightarrow> ?thesis" by (cases xs) (simp_all add: part_copy_def text_of_part_def text_part_def dget_or_def str_item_def)
qed (simp_all add: part_copy_def)

lemma text_of_part_mark: "text_of_part (JObj (mark d)) = text_of_part (JObj d)"
  by (simp add: text_of_part_def mark_def text_part_def dget_dset dget_or_def map_of_dset)

lemma text_copies: "rmap part_copy ps = Inr ds \<Longrightarrow> text_from_content (JList (map JObj ds)) = text_from_content (JList ps)"
proof (induction ps arbitrary: ds)
  case (Cons p ps)
  then obtain d ds' where d: "part_copy p = Inr d" "rmap part_copy ps = Inr ds'" "ds = d # ds'" by (auto simp: rbind_eq_Inr)
  from Cons.IH [OF d(2)] have ih: "rbind (rmap text_of_part (map JObj ds')) (\<lambda>ts. Inr (concat (concat ts))) = rbind (rmap text_of_part ps) (\<lambda>ts. Inr (concat (concat ts)))"
    by (simp only: text_from_parts)
  have step: "rbind (rmap text_of_part (q # qs)) (\<lambda>ts. Inr (concat (concat ts)))
      = rbind (text_of_part q) (\<lambda>t. rbind (rbind (rmap text_of_part qs) (\<lambda>ts. Inr (concat (concat ts)))) (\<lambda>u. Inr (concat t @ u)))" for q qs
    by (cases "text_of_part q"; cases "rmap text_of_part qs") simp_all
  show ?case unfolding text_from_parts d(3) list.map step ih using text_of_part_copy [OF d(1)] by auto
qed simp

lemma text_marked: "ds \<noteq> [] \<Longrightarrow> text_from_content (mark_last ds) = text_from_content (JList (map JObj ds))"
proof -
  assume "ds \<noteq> []"
  then have "map JObj ds = map JObj (butlast ds) @ [JObj (last ds)]" by (metis append_butlast_last_id list.simps(8,9) map_append)
  moreover have "rmap text_of_part (xs @ [JObj (mark d)]) = rmap text_of_part (xs @ [JObj d])" for xs d
    by (induction xs) (simp_all add: text_of_part_mark)
  ultimately show ?thesis by (simp add: mark_last_def text_from_parts)
qed

lemma tag_same_text: "tag_message m = Inr t \<Longrightarrow> same_text (JObj m) (JObj t)"
proof -
  assume t: "tag_message m = Inr t"
  have marked: "text_from_content (JList [JObj [(''type'', JStr ''text''), (''text'', JStr s), (''cache_control'', CACHE_CONTROL)]]) = Inr s" for s
    by (simp add: text_from_content_def text_part_def dget_or_def str_item_def)
  show "same_text (JObj m) (JObj t)"
  proof (cases "dget m ''content''")
    case (JStr s)
    with t have "t = dset ''content'' (JList [JObj [(''type'', JStr ''text''), (''text'', JStr s), (''cache_control'', CACHE_CONTROL)]]) m"
      by (simp add: tag_message_def)
    then show ?thesis using JStr marked by (simp add: same_text_def dget_dset text_from_content_def)
  next
    case (JList ps)
    show ?thesis
    proof (cases "ps = [] \<or> \<not> is_obj (last ps)")
      case False
      with t JList obtain ds where ds: "rmap part_copy ps = Inr ds" "t = dset ''content'' (mark_last ds) m"
        by (auto simp: tag_message_def rbind_eq_Inr)
      then have "ds \<noteq> []" using False by (cases ps) (auto simp: rbind_eq_Inr)
      then show ?thesis using JList ds(2) text_copies [OF ds(1)] text_marked by (simp add: same_text_def dget_dset)
    qed (use t JList in \<open>auto simp: tag_message_def\<close>)
  qed (use t in \<open>simp_all add: tag_message_def\<close>)
qed

text \<open>How many messages of a list differ from those of another.\<close>

definition changes :: "jval list \<Rightarrow> jval list \<Rightarrow> nat" where
  "changes ms ms' = length (filter (\<lambda>p. fst p \<noteq> snd p) (zip ms ms'))"

lemma changes_simps [simp]: "changes [] ms = 0" "changes (m # ms) (m' # ms') = (if m = m' then 0 else 1) + changes ms ms'"
  by (simp_all add: changes_def)

lemma changes_self [simp]: "changes ms ms = 0"
  by (induction ms) simp_all

lemma changes_append: "length ms = length ms' \<Longrightarrow> changes (ms @ [m]) (ms' @ [m']) = changes ms ms' + (if m = m' then 0 else 1)"
  by (simp add: changes_def)

lemma changes_triangle: "length a = length b \<Longrightarrow> length b = length c \<Longrightarrow> changes a c \<le> changes a b + changes b c"
  by (induction a b c rule: list_induct3) auto

lemma tag_first_same: "tag_first_system ms = Inr ms' \<Longrightarrow> list_all2 same_text ms ms' \<and> changes ms ms' \<le> 1"
proof (induction ms arbitrary: ms')
  case (Cons m ms)
  show ?case
  proof (cases "is_obj m \<and> dget (obj_of m) ''role'' = JStr ''system''")
    case True
    then obtain d where d: "m = JObj d" by (cases m) auto
    with True Cons.prems obtain t where "tag_message d = Inr t" "ms' = JObj t # ms" by (auto simp: rbind_eq_Inr)
    then show ?thesis using d tag_same_text by (simp add: list.rel_refl)
  next
    case False
    with Cons.prems obtain ts where "tag_first_system ms = Inr ts" "ms' = m # ts" by (auto simp: rbind_eq_Inr simp del: is_obj.simps)
    with Cons.IH show ?thesis by simp
  qed
qed simp

lemma tag_last_same: "tag_last ms = Inr ms' \<Longrightarrow> list_all2 same_text ms ms' \<and> changes ms ms' \<le> 1"
proof (cases "ms = [] \<or> \<not> is_obj (last ms)")
  case False
  assume "tag_last ms = Inr ms'"
  with False obtain t where t: "tag_message (obj_of (last ms)) = Inr t" "ms' = butlast ms @ [JObj t]"
    by (auto simp: tag_last_def rbind_eq_Inr)
  from False obtain d where d: "last ms = JObj d" by (cases "last ms") auto
  have ms: "ms = butlast ms @ [JObj d]" using False d by (metis append_butlast_last_id)
  have same: "same_text (JObj d) (JObj t)" using t(1) d tag_same_text by simp
  show ?thesis
  proof
    show "list_all2 same_text ms ms'" by (subst ms) (use same t(2) in \<open>auto intro!: list_all2_appendI list.rel_refl\<close>)
    show "changes ms ms' \<le> 1" by (subst ms) (simp add: t(2) changes_append)
  qed
qed (simp add: tag_last_def list.rel_refl)

text \<open>
  Prompt-cache marks change nothing a model reads: the messages sent with marks are as many as the caller's, in
  their order, each with the same fields beside its content and the same text in it, and at most two differ.
\<close>

lemma cache_marks_keep_text:
  assumes "items_of messages = Inr ms" and "with_cache_breakpoints messages = Inr out"
  shows "list_all2 same_text ms out \<and> changes ms out \<le> 2"
proof -
  obtain mid where m: "tag_first_system ms = Inr mid" "tag_last mid = Inr out"
    using assms by (auto simp: with_cache_breakpoints_def rbind_eq_Inr)
  note f = tag_first_same [OF m(1)] and l = tag_last_same [OF m(2)]
  have "list_all2 same_text ms out" using f l list_all2_trans [of same_text same_text same_text] same_text_trans by blast
  moreover have "changes ms out \<le> changes ms mid + changes mid out"
    using f l by (intro changes_triangle) (auto dest: list_all2_lengthD)
  ultimately show ?thesis using f l by linarith
qed

section \<open>Examples\<close>

definition example_host :: "(string \<Rightarrow> string option) \<Rightarrow> openai_host" where
  "example_host env = \<lparr> host_wire = \<lparr> env_get = env, extra_headers = [], default_timeout_ms = 30000,
       post = (\<lambda>_ _ _ _. PostTimeout), open_stream = (\<lambda>_ _ _ _. ((0, OpenTimeout, 0), [])), started_at = 0, ended_at = 0 \<rparr>,
     oauth_getter = (\<lambda>_. None), process_env = Map.empty, error_map_of = (\<lambda>_. []) \<rparr>"

definition tenant_env :: "string \<Rightarrow> string option" where
  "tenant_env = Map.empty(''SAAS_TENANT_SCOPE'' \<mapsto> ''7'', ''ANTSEED_BYO_TOKEN'' \<mapsto> ''secret'', ''ANTSEED_BYO_URL'' \<mapsto> ''https://t/'')"

definition tenant_request :: dict where
  "tenant_request = [(''provider_id'', JStr ''antseed''), (''base_url'', JStr ''http://proxy''), (''served_model_id'', JStr ''m''),
     (''timeout_ms'', JFloat (Fin 2000)), (''offer'', JObj [(''peer_id'', JStr ''p''), (''seller_endpoint'', JStr ''http://elsewhere'')])]"

lemma tenant_call:
  "prepare_openai_call (example_host tenant_env) tenant_request = Inr (Inr \<lparr> call_url = ''https://t/v1/chat/completions'',
     call_body = [(''model'', JStr ''m''), (''messages'', JList [])],
     call_headers = [(''Content-Type'', JStr ''application/json''), (''Authorization'', JStr ''Bearer secret''), (''x-antseed-pin-peer'', JStr ''p'')],
     call_timeout = JFloat (Fin 2) \<rparr>)"
  by code_simp

theorem byo_call_isolated_witness:
  "\<exists>c. prepare_openai_call (example_host tenant_env) tenant_request = Inr (Inr c) \<and> dget (call_headers c) ''Authorization'' = JStr ''Bearer secret''"
proof -
  have "is_byo_buyer tenant_request (env_get (host_wire (example_host tenant_env)))"
    by (simp add: is_byo_buyer_def example_host_def tenant_env_def tenant_request_def)
  from byo_call_isolated [OF this tenant_call] show ?thesis using tenant_call by (auto simp: example_host_def tenant_env_def)
qed

definition key_env :: "string \<Rightarrow> string option" where
  "key_env = Map.empty(''OPENAI_API_KEY'' \<mapsto> ''k'')"

definition plain_request :: dict where
  "plain_request = [(''provider_id'', JStr ''openai''), (''base_url'', JStr ''https://api''), (''served_model_id'', JStr ''m''),
     (''auth_env'', JStr ''OPENAI_API_KEY'')]"

text \<open>
  The key of Ollama Cloud follows the text \<open>https://ollama.com\<close> at the front of the endpoint: a host whose name
  merely begins so gets it, and so does the base url of an offer that names the real one as its seller.
\<close>

lemma ollama_key_leaves:
  "map_option (\<lambda>c. (call_url c, dget (call_headers c) ''Authorization''))
     (case prepare_openai_call (example_host (Map.empty(''OLLAMA_API_KEY'' \<mapsto> ''key'')))
        [(''provider_id'', JStr ''ollama''), (''base_url'', JStr ''https://ollama.com.evil/v1''), (''served_model_id'', JStr ''m''),
         (''timeout_ms'', JFloat (Fin 2000))] of Inr (Inr c) \<Rightarrow> Some c | _ \<Rightarrow> None)
   = Some (''https://ollama.com.evil/v1/chat/completions'', JStr ''Bearer key'')"
  "map_option (\<lambda>c. (call_url c, dget (call_headers c) ''Authorization''))
     (case prepare_openai_call (example_host (Map.empty(''OLLAMA_API_KEY'' \<mapsto> ''key'')))
        [(''provider_id'', JStr ''x''), (''base_url'', JStr ''https://elsewhere/v1''), (''served_model_id'', JStr ''m''),
         (''timeout_ms'', JFloat (Fin 2000)), (''offer'', JObj [(''seller_endpoint'', JStr ''https://ollama.com/v1'')])] of Inr (Inr c) \<Rightarrow> Some c | _ \<Rightarrow> None)
   = Some (''https://elsewhere/v1/chat/completions'', JStr ''Bearer key'')"
  by code_simp+

end
