(* ===== verification/OpenAIAdapter.thy ===== *)
theory OpenAIAdapter
  imports OpenAIRequest
begin

text \<open>
  \<open>provider_adapters/openai_compatible.py\<close>, the reply: the complete response, the stream and the calls. The
  client gives no trace events (as any transport but HTTPX); while one chunk is handled the clock stands. The
  slot of the seller is an argument: \<open>None\<close> when the call has one or needs none, otherwise why it got none.
\<close>

section \<open>Output\<close>

definition nonblank :: "jval \<Rightarrow> bool" where
  "nonblank v = (case v of JStr s \<Rightarrow> py_strip s \<noteq> [] | _ \<Rightarrow> False)"

definition detail_content :: "jval \<Rightarrow> bool" where
  "detail_content part = (is_obj part \<and> list_ex (\<lambda>k. nonblank (dget (obj_of part) k)) [''text'', ''summary'', ''data'', ''encrypted_content''])"

definition has_reasoning_content :: "dict \<Rightarrow> bool" where
  "has_reasoning_content message =
     (nonblank (dget message ''reasoning'') \<or> nonblank (dget message ''reasoning_content'')
      \<or> list_ex detail_content (list_of (dget message ''reasoning_details'')))"

text \<open>A provider may declare which texts in its error bodies mean what.\<close>

definition classify_from_map :: "string \<Rightarrow> dict \<Rightarrow> string option" where
  "classify_from_map err_msg error_map =
     map_option (\<lambda>p. py_str (snd p)) (find (\<lambda>p. contains (ascii_lower (fst p)) (ascii_lower err_msg)) error_map)"

definition classify :: "dict \<Rightarrow> int \<Rightarrow> string \<Rightarrow> string" where
  "classify error_map code msg = (case present (classify_from_map msg error_map) of Some kind \<Rightarrow> kind | None \<Rightarrow> classify_status code msg)"

section \<open>The complete response\<close>

text \<open>\<open>choices[0]\<close> of a value that is not empty.\<close>

definition first_item :: "jval \<Rightarrow> jval res" where
  "first_item v = (case v of
     JList xs \<Rightarrow> Inr (hd xs) | JStr s \<Rightarrow> Inr (JStr (hd (utf8_chars s))) | JObj d \<Rightarrow> Inl (KeyError ''0'')
   | _ \<Rightarrow> Inl (TypeError (CHR 0x27 # type_name v @ CHR 0x27 # '' object is not subscriptable'')))"

definition response_fields :: "jval \<Rightarrow> jval \<Rightarrow> jval \<Rightarrow> jval \<Rightarrow> jval \<Rightarrow> jval \<Rightarrow> dict \<Rightarrow> jval \<Rightarrow> dict res" where
  "response_fields text calls finish used model message up reasoning =
     rbind (vget used ''prompt_tokens'') (\<lambda>p.
       Inr [(''text'', text), (''tool_calls'', calls), (''finish_reason'', finish), (''tokens_in'', p),
         (''tokens_out'', dget (obj_of used) ''completion_tokens''), (''tokens_total'', dget (obj_of used) ''total_tokens''),
         (''tokens_cached'', cached_tokens used), (''cost_reported'', dget (obj_of used) ''cost''), (''raw_model'', model),
         (''provider_message'', message), (''provider_usage'', used), (''upstream'', JObj up), (''tokens_reasoning'', reasoning)])"

definition parse_choice :: "int \<Rightarrow> int \<Rightarrow> jval \<Rightarrow> jval \<Rightarrow> dict res" where
  "parse_choice code latency data choice =
     rbind (vget choice ''finish_reason'') (\<lambda>finish.
     if finish = JStr ''content_filter'' then Inr (err ''content_filter'' code latency ''blocked by provider filter'')
     else let msg = py_or (dget (obj_of choice) ''message'') (JObj []); used = py_or (dget (obj_of data) ''usage'') (JObj []) in
       rbind (vget msg ''content'') (\<lambda>content.
       let text = py_or content (JStr []); calls = dget (obj_of msg) ''tool_calls'' in
       if py_strip (py_str text) = [] \<and> \<not> truthy calls \<and> \<not> has_reasoning_content (obj_of msg) then Inr (empty_content code latency)
       else rbind (upstream_metadata data) (\<lambda>up.
         rbind (response_fields text calls finish used (dget (obj_of data) ''model'') msg up (dget up ''tokens_reasoning''))
           (\<lambda>response. Inr (ok_result latency response)))))"

definition parse_data :: "int \<Rightarrow> int \<Rightarrow> jval \<Rightarrow> dict res" where
  "parse_data code latency data =
     rbind (vget data ''choices'') (\<lambda>choices.
     if \<not> truthy choices then Inr (err ''bad_response'' code latency ''no choices in response'')
     else rbind (first_item choices) (parse_choice code latency data))"

definition parse_openai_response :: "dict \<Rightarrow> int \<Rightarrow> string \<Rightarrow> int \<Rightarrow> dict res" where
  "parse_openai_response error_map code body latency =
     (if 200 \<le> code \<and> code < 300 then
        (case json_loads default_hook body of
           Inl e \<Rightarrow> Inr (err ''bad_response'' code latency (''json parse: '' @ exn_str e))
         | Inr data \<Rightarrow> parse_data code latency data)
      else let msg = (case json_loads default_hook body of Inr b \<Rightarrow> provider_error_message b | Inl _ \<Rightarrow> py_take 500 body) in
        Inr (err (classify error_map code msg) code latency (py_take 500 msg)))"

section \<open>The stream\<close>

record oai_acc =
  oa_emitted :: bool
  oa_text :: "jval list"
  oa_reasoning :: "(string \<times> string) list"
  oa_details :: "jval list"
  oa_calls :: "partial_call list"
  oa_finish :: jval
  oa_usage :: jval
  oa_model :: jval
  oa_saw :: bool
  oa_timing :: timing

definition new_oai :: "timing \<Rightarrow> oai_acc" where
  "new_oai tm = \<lparr> oa_emitted = False, oa_text = [], oa_reasoning = [], oa_details = [], oa_calls = [], oa_finish = JNull,
     oa_usage = JObj [], oa_model = JNull, oa_saw = False, oa_timing = tm \<rparr>"

definition on_timing :: "timing eff \<Rightarrow> oai_acc eff" where
  "on_timing m acc = (case m (oa_timing acc) of (r, tm) \<Rightarrow> (r, acc\<lparr> oa_timing := tm \<rparr>))"

definition saw :: "oai_acc \<Rightarrow> oai_acc" where
  "saw acc = acc\<lparr> oa_saw := True \<rparr>"

definition add_reasoning :: "dict \<Rightarrow> string \<Rightarrow> oai_acc \<Rightarrow> oai_acc" where
  "add_reasoning delta k acc = (case dget delta k of
     JStr s \<Rightarrow> acc\<lparr> oa_reasoning := dset k (dget_or (oa_reasoning acc) k [] @ s) (oa_reasoning acc) \<rparr> | _ \<Rightarrow> acc)"

definition take_reasoning :: "dict \<Rightarrow> oai_acc \<Rightarrow> oai_acc" where
  "take_reasoning delta acc =
     (let acc = add_reasoning delta ''reasoning_content'' (add_reasoning delta ''reasoning'' acc);
          acc = acc\<lparr> oa_details := oa_details acc @ list_of (dget delta ''reasoning_details'') \<rparr> in
      if has_reasoning_content delta then saw acc else acc)"

text \<open>\<open>sent n\<close>: how the emission of the n-th piece of text ends.\<close>

definition take_content :: "(nat \<Rightarrow> exn option) \<Rightarrow> jval \<Rightarrow> oai_acc eff" where
  "take_content sent content =
     (if \<not> truthy content then e_skip
      else e_then (e_do (\<lambda>acc. (saw acc)\<lparr> oa_text := oa_text acc @ [content] \<rparr>))
        (e_get (\<lambda>acc. case sent (length (oa_text acc)) of
            None \<Rightarrow> e_do (\<lambda>acc. acc\<lparr> oa_emitted := True \<rparr>)
          | Some e \<Rightarrow> e_raise e)))"

definition call_entry :: "jval \<Rightarrow> oai_acc \<Rightarrow> jval \<times> jval \<times> string" where
  "call_entry idx acc = (case find_call idx (oa_calls acc) of None \<Rightarrow> (JNull, JStr [], []) | Some c \<Rightarrow> c)"

definition put_entry :: "jval \<Rightarrow> (jval \<times> jval \<times> string \<Rightarrow> jval \<times> jval \<times> string) \<Rightarrow> oai_acc \<Rightarrow> oai_acc" where
  "put_entry idx f acc = acc\<lparr> oa_calls := put_call idx (f (call_entry idx acc)) (oa_calls acc) \<rparr>"

definition added_text :: "string \<Rightarrow> jval \<Rightarrow> string res" where
  "added_text s v = (case v of JStr t \<Rightarrow> Inr (s @ t)
     | _ \<Rightarrow> Inl (TypeError (''can only concatenate str (not '' @ CHR 0x22 # type_name v @ CHR 0x22 # '') to str'')))"

definition call_index :: "jval \<Rightarrow> jval res" where
  "call_index tc = (case tc of JObj d \<Rightarrow> (let i = dget_or d ''index'' (JInt 0) in if unhashable i then Inl (unhashable_err i) else Inr i)
     | _ \<Rightarrow> Inl (attr_err tc ''get''))"

definition take_call :: "jval \<Rightarrow> oai_acc eff" where
  "take_call tc =
     e_then (e_do saw) (e_read (call_index tc) (\<lambda>idx.
     let d = obj_of tc; i = dget d ''id'' in
     e_then (e_do (put_entry idx (\<lambda>(j, name, args). (if truthy i then i else j, name, args))))
     (e_read (vget (py_or (dget d ''function'') (JObj [])) ''name'') (\<lambda>n.
     e_then (e_do (put_entry idx (\<lambda>(j, name, args). (j, if truthy n then n else name, args))))
     (let a = dget (obj_of (dget d ''function'')) ''arguments'' in
      if \<not> truthy a then e_skip
      else e_get (\<lambda>acc. e_read (added_text (snd (snd (call_entry idx acc))) a) (\<lambda>args.
             e_do (put_entry idx (\<lambda>(j, name, old). (j, name, args))))))))))"

definition take_choice :: "(nat \<Rightarrow> exn option) \<Rightarrow> jval \<Rightarrow> oai_acc eff" where
  "take_choice sent choice =
     e_read (sub_obj choice ''delta'') (\<lambda>delta.
     let d = obj_of delta; finish = dget (obj_of choice) ''finish_reason'' in
     e_then (e_do (\<lambda>acc. if truthy finish then acc\<lparr> oa_finish := finish \<rparr> else acc))
     (e_read (vget delta ''reasoning'') (\<lambda>r.
     e_then (e_do (take_reasoning d))
     (e_then (take_content sent (dget d ''content''))
     (e_read (items_of (dget d ''tool_calls'')) (e_each take_call))))))"

definition take_chunk :: "(nat \<Rightarrow> exn option) \<Rightarrow> rat \<Rightarrow> jval \<Rightarrow> oai_acc eff" where
  "take_chunk sent now chunk =
     e_then (on_timing (observe_chunk now chunk))
     (e_then (e_do (\<lambda>acc. if oa_model acc = JNull then acc\<lparr> oa_model := dget (obj_of chunk) ''model'' \<rparr> else acc))
     (e_then (e_do (\<lambda>acc. if truthy (dget (obj_of chunk) ''usage'') then acc\<lparr> oa_usage := dget (obj_of chunk) ''usage'' \<rparr> else acc))
     (e_read (items_of (dget (obj_of chunk) ''choices'')) (e_each (take_choice sent)))))"

text \<open>How a stream ends: the result that ends it early, or the accumulator at its end.\<close>

definition joined :: "oai_acc \<Rightarrow> string res" where
  "joined acc = join_values (oa_text acc)"

definition broken :: "rat \<Rightarrow> oai_acc \<Rightarrow> exn \<Rightarrow> rat \<Rightarrow> dict res" where
  "broken start acc e now =
     (let latency = elapsed_ms start now in
      if exn_type e = ''ResponseTooLarge'' then
        Inr (err (if oa_emitted acc then ''stream_interrupted'' else ''bad_response'') 200 latency (exn_str e))
      else rbind (joined acc) (\<lambda>partial.
        Inr (if oa_emitted acc then err ''stream_interrupted'' 0 latency
               (exn_type e @ '': '' @ exn_str e @ '' (partial: '' @ str_repr (py_take 200 partial) @ '')'')
             else err ''network_error'' 0 latency (exn_type e @ '': '' @ exn_str e))))"

text \<open>The deadline of the first output has passed.\<close>

definition late_output :: "pyfloat option \<Rightarrow> rat \<Rightarrow> oai_acc \<Rightarrow> rat \<Rightarrow> dict res \<times> oai_acc" where
  "late_output limit start acc now =
     (let acc = acc\<lparr> oa_timing := set_timing ''timeout_source'' (JStr ''first_output_deadline'') (oa_timing acc) \<rparr> in
      (case (case limit of None \<Rightarrow> Inl (TypeError ''unsupported operand type(s)'')
             | Some t \<Rightarrow> first_token_timeout_err t (elapsed_ms start now)) of
         Inr d \<Rightarrow> (Inr d, acc) | Inl e \<Rightarrow> (broken start acc e now, acc)))"

fun openai_lines :: "(nat \<Rightarrow> exn option) \<Rightarrow> pyfloat option \<Rightarrow> rat \<Rightarrow> oai_acc \<Rightarrow> event list \<Rightarrow> dict res option \<times> oai_acc" where
  "openai_lines sent limit start acc [] = (None, acc)"
| "openai_lines sent limit start acc ((now, l, later) # es) =
     (if before_first_output limit (oa_saw acc) start now = Some (Inl ()) then map_prod Some id (late_output limit start acc now)
      else case l of
        Eof \<Rightarrow> (None, acc)
      | TimedOut \<Rightarrow>
          if \<not> oa_saw acc then map_prod Some id (late_output limit start acc later)
          else (Some (broken start acc (TimeoutError []) later), acc)
      | Broken e \<Rightarrow> (Some (broken start acc e later), acc)
      | Line s \<Rightarrow>
          (case sse_data s of
             None \<Rightarrow> openai_lines sent limit start acc es
           | Some None \<Rightarrow> (None, acc)
           | Some (Some chunk) \<Rightarrow>
               (case take_chunk sent later chunk acc of
                  (Some e, acc') \<Rightarrow> (Some (broken start acc' e later), acc')
                | (None, acc') \<Rightarrow> openai_lines sent limit start acc' es)))"

definition streamed_message :: "oai_acc \<Rightarrow> dict" where
  "streamed_message acc = map (\<lambda>(k, s). (k, JStr s)) (oa_reasoning acc)
     @ (if oa_details acc = [] then [] else [(''reasoning_details'', JList (oa_details acc))])"

definition kept_upstream :: "dict \<Rightarrow> dict" where
  "kept_upstream d = map (\<lambda>k. (k, dget d k)) (filter (has_key d) [''upstream_id'', ''upstream_provider'', ''tokens_reasoning''])"

definition finish_openai :: "rat \<Rightarrow> rat \<Rightarrow> oai_acc \<Rightarrow> dict res" where
  "finish_openai start now acc =
     rbind (sort_keyed (oa_calls acc)) (\<lambda>calls. rbind (joined acc) (\<lambda>text.
     let latency = elapsed_ms start now; message = streamed_message acc; data = timing_data (oa_timing acc) in
     if py_strip text = [] \<and> calls = [] \<and> \<not> has_reasoning_content message then Inr (empty_content 200 latency)
     else rbind (response_fields (JStr text) (none_if_empty (map (\<lambda>c. call_value (snd c)) calls)) (oa_finish acc) (oa_usage acc)
            (oa_model acc) (JObj message) (kept_upstream data) (dget data ''tokens_reasoning''))
          (\<lambda>response. Inr (ok_result latency response))))"

definition peer_of :: "dict \<Rightarrow> string" where
  "peer_of request = py_str (py_or (dget (obj_of (dget request ''offer'')) ''peer_id'') (JStr []))"

definition cap_of :: "dict \<Rightarrow> int" where
  "cap_of request = (case dget (obj_of (dget request ''offer'')) ''max_concurrency'' of JInt n \<Rightarrow> n | _ \<Rightarrow> 0)"

definition rules_for :: "openai_host \<Rightarrow> dict \<Rightarrow> dict res" where
  "rules_for host request = (let pid = dget request ''provider_id'' in
     if unhashable pid then Inl (unhashable_err pid) else Inr (case pid of JStr p \<Rightarrow> error_map_of host p | _ \<Rightarrow> []))"

text \<open>What reading an opened stream gives, with the accumulator it leaves.\<close>

definition read_stream ::
  "dict \<Rightarrow> (nat \<Rightarrow> exn option) \<Rightarrow> pyfloat option \<Rightarrow> rat \<Rightarrow> rat \<times> opened \<times> rat \<Rightarrow> event list \<Rightarrow> oai_acc \<Rightarrow> dict res option \<times> oai_acc" where
  "read_stream error_map sent limit start opening es acc = (case opening of (now, o1, later) \<Rightarrow>
     if before_first_output limit False start now = Some (Inl ()) then map_prod Some id (late_output limit start acc now)
     else case o1 of
         OpenTimeout \<Rightarrow> map_prod Some id (late_output limit start acc later)
       | OpenFailed e \<Rightarrow> (Some (broken start acc e later), acc)
       | Opened code body \<Rightarrow>
           if \<not> (200 \<le> code \<and> code < 300) then
             (let raw = py_take 500 body in (Some (Inr (err (classify error_map code raw) code (elapsed_ms start later) raw)), acc))
           else openai_lines sent limit start acc es)"

definition stream_openai_impl ::
  "openai_host \<Rightarrow> dict \<Rightarrow> (nat \<Rightarrow> exn option) \<Rightarrow> string option \<Rightarrow> timing \<Rightarrow> (dict \<times> timing) res" where
  "stream_openai_impl host request sent gate_error tm =
     (let n = host_wire host; start = started_at n in
      rbind (prepare_openai_call host request) (\<lambda>prep. case prep of Inl e \<Rightarrow> Inr (e, tm) | Inr c \<Rightarrow>
      rbind (rules_for host request) (\<lambda>error_map.
      case gate_error of Some reason \<Rightarrow> Inr (peer_capacity_error (peer_of request) (cap_of request) reason (elapsed_ms start (ended_at n)), tm)
      | None \<Rightarrow>
      rbind (first_token_timeout_s request) (\<lambda>limit.
      case open_stream n (call_url c) (dset ''stream'' (JBool True) (call_body c)) (call_headers c) (call_timeout c) of (opening, es) \<Rightarrow>
      case read_stream error_map sent limit start opening es (new_oai (set_timing ''phase'' (JStr ''connection_pool'') tm)) of
        (Some r, acc) \<Rightarrow> rbind r (\<lambda>d. Inr (d, oa_timing acc))
      | (None, acc) \<Rightarrow> rbind (finish_openai start (ended_at n) acc) (\<lambda>d. Inr (d, oa_timing acc))))))"

definition attempt_timeout :: "openai_host \<Rightarrow> dict \<Rightarrow> jval res" where
  "attempt_timeout host request = py_div (py_or (dget request ''timeout_ms'') (JInt (default_timeout_ms (host_wire host)))) (JInt 1000)"

definition stream_openai_compatible :: "openai_host \<Rightarrow> dict \<Rightarrow> (nat \<Rightarrow> exn option) \<Rightarrow> string option \<Rightarrow> timing option \<Rightarrow> dict res" where
  "stream_openai_compatible host request sent gate_error given =
     (let n = host_wire host in
      rbind (case given of Some tm \<Rightarrow> Inr tm
             | None \<Rightarrow> rbind (attempt_timeout host request) (\<lambda>t. new_timing request t ''streaming'' (started_at n))) (\<lambda>tm.
      rbind (stream_openai_impl host request sent gate_error tm) (\<lambda>(d, tm). attach tm (ended_at n) d)))"

section \<open>Calls\<close>

definition other_api_kind :: "dict \<Rightarrow> dict option" where
  "other_api_kind request = (let kind = dget_or request ''api_kind'' (JStr ''openai_compatible'') in
     if kind = JStr ''openai_compatible'' then None
     else Some (err ''unsupported_api_kind'' 0 0 (''api_kind='' @ py_repr kind @ '' not supported by HTTP backend'')))"

definition call_sync :: "openai_host \<Rightarrow> dict \<Rightarrow> dict res" where
  "call_sync host request =
     (if dget request ''protocol'' = JStr ''decisions''
      then Inr (err ''unsupported_api_kind'' 0 0 ''Decision requests require the async decision transport'')
      else case other_api_kind request of Some e \<Rightarrow> Inr e | None \<Rightarrow>
      rbind (prepare_openai_call host request) (\<lambda>prep. case prep of Inl e \<Rightarrow> Inr e | Inr c \<Rightarrow>
        let n = host_wire host; latency = elapsed_ms (started_at n) (ended_at n) in
        case post n (call_url c) (call_body c) (call_headers c) (call_timeout c) of
          PostTimeout \<Rightarrow> Inr (err ''timeout'' 0 latency (''POST '' @ call_url c @ '' timed out''))
        | PostFailed e \<Rightarrow> Inr (err ''network_error'' 0 latency (exn_str e))
        | Replied code body \<Rightarrow> rbind (rules_for host request) (\<lambda>m. parse_openai_response m code body latency)))"

text \<open>
  The asynchronous call. \<open>decide\<close> is the transport of decision requests; \<open>expired\<close> says that the deadline of the
  whole attempt passed, with the diagnostics so far; \<open>why\<close> names the exception of a timeout of the client.
\<close>

definition buffered_reply :: "openai_host \<Rightarrow> dict \<Rightarrow> openai_call \<Rightarrow> string \<Rightarrow> timing \<Rightarrow> (dict \<times> timing) res" where
  "buffered_reply host request c why tm =
     (let n = host_wire host; latency = elapsed_ms (started_at n) (ended_at n) in
      case post n (call_url c) (call_body c) (call_headers c) (call_timeout c) of
        PostTimeout \<Rightarrow> Inr (err ''timeout'' 0 latency (''POST '' @ call_url c @ '' timed out''), set_timing ''timeout_source'' (JStr why) tm)
      | PostFailed e \<Rightarrow> Inr (if exn_type e = ''ResponseTooLarge'' then err ''bad_response'' 200 latency (exn_str e)
                            else err ''network_error'' 0 latency (exn_str e), tm)
      | Replied code body \<Rightarrow> rbind (rules_for host request) (\<lambda>m. rbind (parse_openai_response m code body latency) (\<lambda>d. Inr (d, tm))))"

definition call_openai ::
  "(dict \<Rightarrow> dict res) \<Rightarrow> openai_host \<Rightarrow> dict \<Rightarrow> string option \<Rightarrow> timing option \<Rightarrow> string \<Rightarrow> dict res" where
  "call_openai decide host request gate_error expired why =
     (if dget request ''protocol'' = JStr ''decisions'' then decide request
      else case other_api_kind request of Some e \<Rightarrow> Inr e | None \<Rightarrow>
      rbind (prepare_openai_call host request) (\<lambda>prep. case prep of Inl e \<Rightarrow> Inr e | Inr c \<Rightarrow>
      let n = host_wire host; latency = elapsed_ms (started_at n) (ended_at n); streaming = dget request ''first_token_timeout_ms'' \<noteq> JNull in
      rbind (new_timing request (call_timeout c) (if streaming then ''buffered_sse'' else ''buffered'') (started_at n)) (\<lambda>tm.
      case (streaming, gate_error, expired) of
        (False, Some reason, _) \<Rightarrow> attach tm (ended_at n) (peer_capacity_error (peer_of request) (cap_of request) reason latency)
      | (_, _, Some tm') \<Rightarrow> attach (set_timing ''timeout_source'' (JStr ''attempt_deadline'') tm') (ended_at n)
          (err ''timeout'' 0 latency (''POST '' @ call_url c @ '' timed out''))
      | (True, _, None) \<Rightarrow> rbind (stream_openai_impl host request (\<lambda>_. None) gate_error tm) (\<lambda>(d, tm).
          rbind (attach tm (ended_at n) d) (attach tm (ended_at n)))
      | (False, None, None) \<Rightarrow> rbind (buffered_reply host request c why (set_timing ''phase'' (JStr ''connection_pool'') tm)) (\<lambda>(d, tm).
          attach tm (ended_at n) d))))"

section \<open>Streams and complete responses\<close>

text \<open>
  What a provider may stream, one piece per chunk and in any order: a piece of the text, the head of a call with
  its id and name, a piece of the arguments of a call. Calls are told apart by their index.
\<close>

datatype piece = Say string | Open nat string string | Args nat string

fun delta_of_piece :: "piece \<Rightarrow> dict" where
  "delta_of_piece (Say s) = [(''content'', JStr s)]"
| "delta_of_piece (Open i n f) = [(''tool_calls'', JList [JObj [(''index'', JInt (int i)), (''id'', JStr n), (''function'', JObj [(''name'', JStr f), (''arguments'', JStr [])])]])]"
| "delta_of_piece (Args i a) = [(''tool_calls'', JList [JObj [(''index'', JInt (int i)), (''function'', JObj [(''arguments'', JStr a)])]])]"

fun good_piece :: "piece \<Rightarrow> bool" where
  "good_piece (Say s) = (s \<noteq> [])" | "good_piece (Open i n f) = (n \<noteq> [] \<and> f \<noteq> [])" | "good_piece (Args i a) = (a \<noteq> [])"

definition chunk_value :: "string \<Rightarrow> string \<Rightarrow> dict \<Rightarrow> jval" where
  "chunk_value i model choice = JObj [(''id'', JStr i), (''model'', JStr model), (''choices'', JList [JObj choice])]"

definition openai_chunks :: "string \<Rightarrow> string \<Rightarrow> piece list \<Rightarrow> string \<Rightarrow> dict \<Rightarrow> jval list" where
  "openai_chunks i model ps stop u =
     map (\<lambda>p. chunk_value i model [(''delta'', JObj (delta_of_piece p))]) ps
     @ [chunk_value i model [(''delta'', JObj []), (''finish_reason'', JStr stop)],
        JObj [(''id'', JStr i), (''model'', JStr model), (''choices'', JList []), (''usage'', JObj u)]]"

text \<open>What the pieces amount to.\<close>

fun said :: "piece \<Rightarrow> string list" where
  "said (Say s) = [s]" | "said _ = []"

fun grow_call :: "nat \<Rightarrow> piece \<Rightarrow> jval \<times> jval \<times> string \<Rightarrow> jval \<times> jval \<times> string" where
  "grow_call i (Say s) c = c"
| "grow_call i (Open j n f) (m, g, a) = (if i = j then (JStr n, JStr f, a) else (m, g, a))"
| "grow_call i (Args j b) (m, g, a) = (if i = j then (m, g, a @ b) else (m, g, a))"

fun index_of :: "piece \<Rightarrow> nat set" where
  "index_of (Say s) = {}" | "index_of (Open i n f) = {i}" | "index_of (Args i a) = {i}"

definition gathered_call :: "piece list \<Rightarrow> nat \<Rightarrow> jval \<times> jval \<times> string" where
  "gathered_call ps i = fold (grow_call i) ps (JNull, JStr [], [])"

definition called :: "piece list \<Rightarrow> nat list" where
  "called ps = sorted_list_of_set (\<Union> (index_of ` set ps))"

definition calls_value :: "piece list \<Rightarrow> jval" where
  "calls_value ps = none_if_empty (map (\<lambda>i. call_value (gathered_call ps i)) (called ps))"

definition complete_response :: "string \<Rightarrow> string \<Rightarrow> piece list \<Rightarrow> string \<Rightarrow> dict \<Rightarrow> jval" where
  "complete_response i model ps stop u = JObj [(''id'', JStr i), (''model'', JStr model),
     (''choices'', JList [JObj [(''message'', JObj [(''content'', JStr (concat (concat (map said ps)))), (''tool_calls'', calls_value ps)]),
        (''finish_reason'', JStr stop)]]), (''usage'', JObj u)]"

text \<open>The result without the copy of the provider's message, which a stream does not carry.\<close>

definition without_message :: "dict \<Rightarrow> dict" where
  "without_message result = (case dget result ''response'' of
     JObj r \<Rightarrow> dset ''response'' (JObj (dset ''provider_message'' (JObj []) r)) result | _ \<Rightarrow> result)"

text \<open>What the accumulator holds after the pieces \<open>ps\<close>.\<close>

definition holding :: "piece list \<Rightarrow> oai_acc \<Rightarrow> bool" where
  "holding ps acc \<longleftrightarrow> (\<exists>is. distinct is \<and> set is = \<Union> (index_of ` set ps)
      \<and> oa_calls acc = map (\<lambda>n. (JInt (int n), gathered_call ps n)) is)
    \<and> oa_text acc = map JStr (concat (map said ps)) \<and> oa_reasoning acc = [] \<and> oa_details acc = []
    \<and> oa_usage acc = JObj []"

lemma gathered_call_snoc [simp]: "gathered_call (ps @ [p]) n = grow_call n p (gathered_call ps n)"
  by (simp add: gathered_call_def)

lemma grow_other: "n \<notin> index_of p \<Longrightarrow> grow_call n p c = c"
  by (cases p; cases c) simp_all

lemma find_indexed: "find_call (JInt (int n)) (map (\<lambda>n. (JInt (int n), f n)) is) = (if n \<in> set is then Some (f n) else None)"
  by (induction "is") auto

lemma put_indexed: "distinct is \<Longrightarrow> put_call (JInt (int n)) c (map (\<lambda>n. (JInt (int n), f n)) is)
    = map (\<lambda>m. (JInt (int m), (f(n := c)) m)) (if n \<in> set is then is else is @ [n])"
  by (induction "is") auto

lemma gathered_call_fresh: "n \<notin> \<Union> (index_of ` set ps) \<Longrightarrow> gathered_call ps n = (JNull, JStr [], [])"
  by (induction ps rule: rev_induct) (simp_all add: gathered_call_def grow_other)

text \<open>What observing a chunk leaves of the upstream's fields.\<close>

definition upstream_keys :: "string set" where
  "upstream_keys = {''upstream_id'', ''upstream_provider'', ''tokens_reasoning''}"

definition upstream_only :: "dict \<Rightarrow> timing \<Rightarrow> bool" where
  "upstream_only m tm \<longleftrightarrow> (\<forall>k\<in>upstream_keys. map_of (timing_data tm) k = map_of m k)"

lemma default_timing_other: "k \<in> upstream_keys \<Longrightarrow> j \<in> {''first_output_ms'', ''first_reasoning_ms''} \<Longrightarrow>
    map_of (timing_data (default_timing j v tm)) k = map_of (timing_data tm) k"
  by (auto simp: default_timing_def set_timing_def map_of_dset upstream_keys_def)

lemma observe_choice_ok:
  assumes "py_or (dget c ''delta'') (JObj []) = JObj d"
  shows "\<exists>tm'. observe_choice now (JObj c) tm = (None, tm') \<and> (\<forall>k\<in>upstream_keys. map_of (timing_data tm') k = map_of (timing_data tm) k)"
  using assms by (auto simp: observe_choice_def sub_obj_def vget_def Let_def default_timing_other)

lemma observe_choices_ok:
  assumes "\<forall>c\<in>set cs. \<exists>d. py_or (dget c ''delta'') (JObj []) = JObj d"
  shows "\<exists>tm'. e_each (observe_choice now) (map JObj cs) tm = (None, tm') \<and> (\<forall>k\<in>upstream_keys. map_of (timing_data tm') k = map_of (timing_data tm) k)"
  using assms
proof (induction cs arbitrary: tm)
  case (Cons c cs)
  then obtain d where "py_or (dget c ''delta'') (JObj []) = JObj d" by auto
  from observe_choice_ok [OF this, of now tm] obtain t1 where t1: "observe_choice now (JObj c) tm = (None, t1)"
    "\<forall>k\<in>upstream_keys. map_of (timing_data t1) k = map_of (timing_data tm) k" by blast
  from Cons obtain t2 where "e_each (observe_choice now) (map JObj cs) t1 = (None, t2)"
    "\<forall>k\<in>upstream_keys. map_of (timing_data t2) k = map_of (timing_data t1) k" by (metis list.set_intros(2))
  with t1 show ?case by simp
qed simp

lemma observe_chunk_ok:
  assumes "upstream_metadata (JObj ch) = Inr m" and "wf_dict m" and "dget ch ''choices'' = JList (map JObj cs)"
    and "\<forall>c\<in>set cs. \<exists>d. py_or (dget c ''delta'') (JObj []) = JObj d"
    and "\<And>k. k \<in> upstream_keys \<Longrightarrow> map_of m k = None \<Longrightarrow> map_of (timing_data tm) k = None"
  shows "\<exists>tm'. observe_chunk now (JObj ch) tm = (None, tm') \<and> upstream_only m tm'"
proof -
  obtain tm' where "e_each (observe_choice now) (map JObj cs) (tm\<lparr> timing_data := dupd (timing_data tm) m \<rparr>) = (None, tm')"
    "\<forall>k\<in>upstream_keys. map_of (timing_data tm') k = map_of (dupd (timing_data tm) m) k"
    using observe_choices_ok [OF assms(4), of now "tm\<lparr> timing_data := dupd (timing_data tm) m \<rparr>"] by auto
  then show ?thesis using assms(1-3,5)
    by (auto simp: observe_chunk_def upstream_only_def map_of_dupd_wf map_add_def split: option.splits)
qed

lemma metadata_plain:
  "dget ch ''id'' = JStr i \<Longrightarrow> dget ch ''provider'' = JNull \<Longrightarrow> dget ch ''usage'' = JNull \<Longrightarrow>
   upstream_metadata (JObj ch) = Inr [(''upstream_id'', JStr (py_take 160 i))]"
  by (simp add: upstream_metadata_def vget_def dict_or_empty_def py_or_def bounded_diagnostics_def diagnostic_text_def diagnostic_number_def
      TEXT_FIELDS_def NUMBER_FIELDS_def)

definition reasoning_tokens :: "dict \<Rightarrow> dict" where
  "reasoning_tokens u = diagnostic_number [(''tokens_reasoning'', dget (dict_or_empty (dget u ''completion_tokens_details'')) ''reasoning_tokens'')] ''tokens_reasoning''"

lemma bounded_upstream:
  "bounded_diagnostics (JObj [(''upstream_id'', JStr i), (''upstream_provider'', JNull), (''tokens_reasoning'', v)])
   = (''upstream_id'', JStr (py_take 160 i)) # diagnostic_number [(''tokens_reasoning'', v)] ''tokens_reasoning''"
  by (simp add: bounded_diagnostics_def diagnostic_text_def diagnostic_number_def TEXT_FIELDS_def NUMBER_FIELDS_def)

lemma metadata_usage:
  "dget ch ''id'' = JStr i \<Longrightarrow> dget ch ''provider'' = JNull \<Longrightarrow> dget ch ''usage'' = JObj u \<Longrightarrow>
   upstream_metadata (JObj ch) = Inr ((''upstream_id'', JStr (py_take 160 i)) # reasoning_tokens u)"
proof -
  have u: "dict_or_empty (JObj u) = u" by (cases u) (simp_all add: dict_or_empty_def py_or_def)
  show "dget ch ''id'' = JStr i \<Longrightarrow> dget ch ''provider'' = JNull \<Longrightarrow> dget ch ''usage'' = JObj u \<Longrightarrow> ?thesis"
    unfolding upstream_metadata_def vget_def Let_def by (simp only: jval.case rbind_Inr obj_of.simps u bounded_upstream reasoning_tokens_def)
qed

text \<open>One piece.\<close>

abbreviation all_sent :: "nat \<Rightarrow> exn option" where
  "all_sent \<equiv> \<lambda>_. None"

lemma on_timing_ok: "m (oa_timing acc) = (None, tm) \<Longrightarrow> on_timing m acc = (None, acc\<lparr> oa_timing := tm \<rparr>)"
  by (simp add: on_timing_def)

lemma put_call_twice: "py_eq i i \<Longrightarrow> put_call i c (put_call i d cs) = put_call i c cs"
  by (induction cs) auto

lemma call_entry_put: "py_eq i i \<Longrightarrow> call_entry i (put_entry i f acc) = f (call_entry i acc)"
  by (simp add: call_entry_def put_entry_def find_put_same)

lemma put_put: "py_eq i i \<Longrightarrow> put_entry i f (put_entry i g acc) = put_entry i (\<lambda>c. f (g c)) acc"
  using call_entry_put [of i g acc] by (simp add: put_entry_def put_call_twice call_entry_def find_put_same)

lemma put_entry_cong: "f (call_entry i acc) = g (call_entry i acc) \<Longrightarrow> put_entry i f acc = put_entry i g acc"
  by (simp add: put_entry_def)

lemma take_piece_call:
  "good_piece p \<Longrightarrow> index_of p = {n} \<Longrightarrow>
   e_read (items_of (dget (delta_of_piece p) ''tool_calls'')) (e_each take_call) acc = (None, put_entry (JInt (int n)) (grow_call n p) (saw acc))"
  by (cases p; cases "call_entry (JInt (int n)) (saw acc)")
    (auto simp: take_call_def call_index_def Let_def dget_or_def unhashable_def vget_def py_or_def put_put call_entry_put added_text_def intro!: put_entry_cong)

fun take_piece :: "piece \<Rightarrow> oai_acc \<Rightarrow> oai_acc" where
  "take_piece (Say s) acc = (saw acc)\<lparr> oa_text := oa_text acc @ [JStr s], oa_emitted := True \<rparr>"
| "take_piece (Open n j f) acc = put_entry (JInt (int n)) (grow_call n (Open n j f)) (saw acc)"
| "take_piece (Args n a) acc = put_entry (JInt (int n)) (grow_call n (Args n a)) (saw acc)"

lemma take_reasoning_piece [simp]: "take_reasoning (delta_of_piece p) acc = acc"
  by (cases p) (simp_all add: take_reasoning_def add_reasoning_def has_reasoning_content_def nonblank_def)

lemma take_choice_piece:
  assumes "good_piece p"
  shows "take_choice all_sent (JObj [(''delta'', JObj (delta_of_piece p))]) acc = (None, take_piece p acc)"
proof -
  have d: "sub_obj (JObj [(''delta'', JObj (delta_of_piece p))]) ''delta'' = Inr (JObj (delta_of_piece p))"
    by (cases p) (simp_all add: sub_obj_def vget_def py_or_def)
  have c: "take_content all_sent (dget (delta_of_piece p) ''content'') acc
      = (None, case p of Say s \<Rightarrow> take_piece p acc | _ \<Rightarrow> acc)"
    using assms by (cases p) (simp_all add: take_content_def saw_def)
  have t: "e_read (items_of (dget (delta_of_piece p) ''tool_calls'')) (e_each take_call) a
      = (None, case p of Say s \<Rightarrow> a | _ \<Rightarrow> take_piece p a)" for a
    using assms by (cases p) (simp_all add: take_piece_call [where p = "Open _ _ _", simplified] take_piece_call [where p = "Args _ _", simplified])
  show ?thesis by (simp add: take_choice_def d c t vget_def Let_def split: piece.split)
qed

lemma put_entry_sel [simp]:
  "oa_text (put_entry i f acc) = oa_text acc" "oa_reasoning (put_entry i f acc) = oa_reasoning acc" "oa_details (put_entry i f acc) = oa_details acc"
  "oa_usage (put_entry i f acc) = oa_usage acc" "oa_model (put_entry i f acc) = oa_model acc" "oa_timing (put_entry i f acc) = oa_timing acc"
  "oa_finish (put_entry i f acc) = oa_finish acc"
  by (simp_all add: put_entry_def)

lemma saw_sel [simp]:
  "oa_text (saw acc) = oa_text acc" "oa_reasoning (saw acc) = oa_reasoning acc" "oa_details (saw acc) = oa_details acc" "oa_calls (saw acc) = oa_calls acc"
  "oa_usage (saw acc) = oa_usage acc" "oa_model (saw acc) = oa_model acc" "oa_timing (saw acc) = oa_timing acc" "oa_finish (saw acc) = oa_finish acc"
  by (simp_all add: saw_def)

lemma take_piece_other [simp]: "oa_usage (take_piece p acc) = oa_usage acc" "oa_model (take_piece p acc) = oa_model acc"
  "oa_timing (take_piece p acc) = oa_timing acc"
  by (cases p; simp)+

lemma holding_call:
  assumes "holding ps acc" and "index_of p = {n}"
  shows "holding (ps @ [p]) (put_entry (JInt (int n)) (grow_call n p) (saw acc))"
proof -
  obtain "is" where is1: "distinct is" "set is = \<Union> (index_of ` set ps)" "oa_calls acc = map (\<lambda>n. (JInt (int n), gathered_call ps n)) is"
    using assms(1) by (auto simp: holding_def)
  define js where "js = (if n \<in> set is then is else is @ [n])"
  have sel: "oa_calls (a\<lparr> oa_calls := c \<rparr>) = c" for a :: oai_acc and c by simp
  have entry: "call_entry (JInt (int n)) (saw acc) = gathered_call ps n"
    using is1(2) by (simp add: call_entry_def is1(3) find_indexed gathered_call_fresh)
  have grown: "((gathered_call ps)(n := grow_call n p (gathered_call ps n))) m = gathered_call (ps @ [p]) m" for m
    using assms(2) by (simp add: grow_other)
  have c: "oa_calls (put_entry (JInt (int n)) (grow_call n p) (saw acc)) = map (\<lambda>m. (JInt (int m), gathered_call (ps @ [p]) m)) js"
    by (simp only: put_entry_def entry sel saw_sel is1(3) put_indexed [OF is1(1)] grown js_def)
  have js: "distinct js" "set js = \<Union> (index_of ` set (ps @ [p]))" using is1 assms(2) by (auto simp: js_def)
  have "said p = []" using assms(2) by (cases p) simp_all
  with assms(1) have "oa_text acc = map JStr (concat (map said (ps @ [p])))" by (simp add: holding_def)
  with c js assms(1) show ?thesis unfolding holding_def by (intro conjI exI [of _ js]) (simp_all only: put_entry_sel saw_sel)
qed

lemma holding_take:
  assumes "holding ps acc"
  shows "holding (ps @ [p]) (take_piece p acc)"
proof (cases p)
  case (Say s)
  have "gathered_call (ps @ [p]) n = gathered_call ps n" for n using Say by simp
  then show ?thesis using assms Say by (auto simp: holding_def saw_def)
qed (simp_all add: holding_call [OF assms])

lemma take_piece_chunk:
  assumes "holding ps acc" and "good_piece p" and "\<And>k. k \<in> upstream_keys - {''upstream_id''} \<Longrightarrow> map_of (timing_data (oa_timing acc)) k = None"
    and "oa_model acc \<in> {JNull, JStr model}"
  shows "\<exists>acc'. take_chunk all_sent t (chunk_value i model [(''delta'', JObj (delta_of_piece p))]) acc = (None, acc')
    \<and> holding (ps @ [p]) acc' \<and> upstream_only [(''upstream_id'', JStr (py_take 160 i))] (oa_timing acc') \<and> oa_model acc' = JStr model"
proof -
  let ?ch = "[(''id'', JStr i), (''model'', JStr model), (''choices'', JList [JObj [(''delta'', JObj (delta_of_piece p))]])]"
  have "\<exists>tm'. observe_chunk t (JObj ?ch) (oa_timing acc) = (None, tm') \<and> upstream_only [(''upstream_id'', JStr (py_take 160 i))] tm'"
  proof (rule observe_chunk_ok)
    show "upstream_metadata (JObj ?ch) = Inr [(''upstream_id'', JStr (py_take 160 i))]" by (rule metadata_plain) simp_all
    show "dget ?ch ''choices'' = JList (map JObj [[(''delta'', JObj (delta_of_piece p))]])" by simp
    show "\<forall>c\<in>set [[(''delta'', JObj (delta_of_piece p))]]. \<exists>d. py_or (dget c ''delta'') (JObj []) = JObj d" by (simp add: py_or_def)
  qed (use assms(3) in \<open>auto split: if_splits\<close>)
  then obtain tm where tm: "observe_chunk t (JObj ?ch) (oa_timing acc) = (None, tm)" "upstream_only [(''upstream_id'', JStr (py_take 160 i))] tm" by blast
  let ?b = "acc\<lparr> oa_timing := tm, oa_model := JStr model \<rparr>"
  have same: "oa_model acc = JStr model \<Longrightarrow> acc\<lparr> oa_timing := tm \<rparr> = ?b" by (cases acc) simp
  have "take_chunk all_sent t (JObj ?ch) acc = (None, take_piece p ?b)"
    using assms(4) on_timing_ok [where m = "observe_chunk t (JObj ?ch)", OF tm(1)]
    by (auto simp: take_chunk_def take_choice_piece [OF assms(2)] same [symmetric])
  moreover have "holding ps ?b" using assms(1) by (simp add: holding_def)
  ultimately show ?thesis using holding_take tm(2) by (simp add: chunk_value_def)
qed

definition carries :: "event list \<Rightarrow> jval list \<Rightarrow> bool" where
  "carries es chs \<longleftrightarrow> list_all2 (\<lambda>e ch. \<exists>a s b. e = (a, Line s, b) \<and> sse_data s = Some (Some ch)) es chs"

lemma openai_line: "sse_data s = Some (Some ch) \<Longrightarrow> take_chunk sent b ch acc = (None, acc') \<Longrightarrow>
    openai_lines sent None start acc ((a, Line s, b) # es) = openai_lines sent None start acc' es"
  by (simp add: before_first_output_def)

lemma run_pieces:
  assumes "carries es (map (\<lambda>p. chunk_value i model [(''delta'', JObj (delta_of_piece p))]) ps)" and "\<forall>p\<in>set ps. good_piece p"
    and "holding qs acc" and "\<And>k. k \<in> upstream_keys - {''upstream_id''} \<Longrightarrow> map_of (timing_data (oa_timing acc)) k = None"
    and "oa_model acc \<in> {JNull, JStr model}"
  shows "\<exists>acc'. (\<forall>rest. openai_lines all_sent None start acc (es @ rest) = openai_lines all_sent None start acc' rest) \<and> holding (qs @ ps) acc'
    \<and> (\<forall>k\<in>upstream_keys - {''upstream_id''}. map_of (timing_data (oa_timing acc')) k = None) \<and> oa_model acc' \<in> {JNull, JStr model}"
  using assms
proof (induction ps arbitrary: es qs acc)
  case Nil
  then show ?case by (auto simp: carries_def)
next
  case (Cons p ps)
  then obtain a s b es' where e: "es = (a, Line s, b) # es'" "sse_data s = Some (Some (chunk_value i model [(''delta'', JObj (delta_of_piece p))]))"
    "carries es' (map (\<lambda>p. chunk_value i model [(''delta'', JObj (delta_of_piece p))]) ps)"
    by (auto simp: carries_def list_all2_Cons2)
  from Cons.prems(2) have good: "good_piece p" by simp
  obtain acc1 where acc1: "take_chunk all_sent b (chunk_value i model [(''delta'', JObj (delta_of_piece p))]) acc = (None, acc1)"
    "holding (qs @ [p]) acc1" "upstream_only [(''upstream_id'', JStr (py_take 160 i))] (oa_timing acc1)" "oa_model acc1 = JStr model"
    using take_piece_chunk [OF Cons.prems(3) good Cons.prems(4,5)] by blast
  have clear: "map_of (timing_data (oa_timing acc1)) k = None" if "k \<in> upstream_keys - {''upstream_id''}" for k
    using acc1(3) that by (auto simp: upstream_only_def)
  obtain acc2 where acc2: "\<And>rest. openai_lines all_sent None start acc1 (es' @ rest) = openai_lines all_sent None start acc2 rest"
    "holding ((qs @ [p]) @ ps) acc2" "\<forall>k\<in>upstream_keys - {''upstream_id''}. map_of (timing_data (oa_timing acc2)) k = None" "oa_model acc2 \<in> {JNull, JStr model}"
    using Cons.IH [OF e(3) _ acc1(2) clear] Cons.prems(2) acc1(4) by auto
  have "openai_lines all_sent None start acc (es @ rest) = openai_lines all_sent None start acc2 rest" for rest
    using openai_line [OF e(2) acc1(1)] acc2(1) by (simp add: e(1))
  then show ?case using acc2(2-4) by auto
qed

lemma insert_key_indexed:
  "insert_key (JInt (int n), f n) (map (\<lambda>n. (JInt (int n), f n)) is) = Inr (map (\<lambda>n. (JInt (int n), f n)) (insort n is))" if "n \<notin> set is"
  using that by (induction "is") (auto simp: py_lt_def)

lemma sort_indexed: "distinct is \<Longrightarrow> sort_keyed (map (\<lambda>n. (JInt (int n), f n)) is) = Inr (map (\<lambda>n. (JInt (int n), f n)) (sorted_list_of_set (set is)))"
proof -
  have run: "distinct (is @ done) \<Longrightarrow> rfold insert_key (map (\<lambda>n. (JInt (int n), f n)) is) (map (\<lambda>n. (JInt (int n), f n)) done)
      = Inr (map (\<lambda>n. (JInt (int n), f n)) (fold insort is done))" for "done"
  proof (induction "is" arbitrary: "done")
    case (Cons n "is")
    then have "distinct (is @ insort n done)" by (auto simp: distinct_insort set_insort_key)
    with Cons show ?case by (simp add: insert_key_indexed)
  qed simp
  assume d: "distinct is"
  have "fold insort is [] = sorted_list_of_set (set is)"
    using d by (simp add: sorted_list_of_set_sort_remdups distinct_remdups_id sort_conv_fold)
  then show ?thesis using run [of "[]"] d by (simp add: sort_keyed_def)
qed

text \<open>The last two chunks.\<close>

lemma take_finish:
  assumes "stop \<noteq> []" and "\<And>k. k \<in> upstream_keys - {''upstream_id''} \<Longrightarrow> map_of (timing_data (oa_timing acc)) k = None"
    and "oa_model acc \<in> {JNull, JStr model}"
  shows "\<exists>tm. take_chunk all_sent t (chunk_value i model [(''delta'', JObj []), (''finish_reason'', JStr stop)]) acc
      = (None, acc\<lparr> oa_timing := tm, oa_model := JStr model, oa_finish := JStr stop \<rparr>) \<and> upstream_only [(''upstream_id'', JStr (py_take 160 i))] tm"
proof -
  let ?c = "[(''delta'', JObj []), (''finish_reason'', JStr stop)]"
  let ?ch = "[(''id'', JStr i), (''model'', JStr model), (''choices'', JList [JObj ?c])]"
  have "\<exists>tm'. observe_chunk t (JObj ?ch) (oa_timing acc) = (None, tm') \<and> upstream_only [(''upstream_id'', JStr (py_take 160 i))] tm'"
  proof (rule observe_chunk_ok)
    show "upstream_metadata (JObj ?ch) = Inr [(''upstream_id'', JStr (py_take 160 i))]" by (rule metadata_plain) simp_all
    show "dget ?ch ''choices'' = JList (map JObj [?c])" by simp
    show "\<forall>c\<in>set [?c]. \<exists>d. py_or (dget c ''delta'') (JObj []) = JObj d" by (simp add: py_or_def)
  qed (use assms(2) in \<open>auto split: if_splits\<close>)
  then obtain tm where tm: "observe_chunk t (JObj ?ch) (oa_timing acc) = (None, tm)" "upstream_only [(''upstream_id'', JStr (py_take 160 i))] tm" by blast
  have same: "oa_model acc = JStr model \<Longrightarrow> acc\<lparr> oa_timing := tm \<rparr> = acc\<lparr> oa_timing := tm, oa_model := JStr model \<rparr>" by (cases acc) simp
  have r: "take_reasoning [] a = a" for a
    by (simp add: take_reasoning_def add_reasoning_def has_reasoning_content_def nonblank_def)
  have "take_chunk all_sent t (JObj ?ch) acc = (None, acc\<lparr> oa_timing := tm, oa_model := JStr model, oa_finish := JStr stop \<rparr>)"
    using assms(1,3) on_timing_ok [where m = "observe_chunk t (JObj ?ch)", OF tm(1)]
    by (auto simp: take_chunk_def take_choice_def sub_obj_def vget_def py_or_def take_content_def r same [symmetric])
  with tm(2) show ?thesis by (auto simp: chunk_value_def)
qed

lemma take_usage:
  assumes "\<And>k. k \<in> upstream_keys - {''upstream_id''} \<Longrightarrow> map_of (timing_data (oa_timing acc)) k = None"
    and "oa_model acc = JStr model" and "oa_usage acc = JObj []"
  shows "\<exists>tm. take_chunk all_sent t (JObj [(''id'', JStr i), (''model'', JStr model), (''choices'', JList []), (''usage'', JObj u)]) acc
      = (None, acc\<lparr> oa_timing := tm, oa_usage := JObj u \<rparr>) \<and> upstream_only ((''upstream_id'', JStr (py_take 160 i)) # reasoning_tokens u) tm"
proof -
  let ?ch = "[(''id'', JStr i), (''model'', JStr model), (''choices'', JList []), (''usage'', JObj u)]"
  have "\<exists>tm'. observe_chunk t (JObj ?ch) (oa_timing acc) = (None, tm') \<and> upstream_only ((''upstream_id'', JStr (py_take 160 i)) # reasoning_tokens u) tm'"
  proof (rule observe_chunk_ok)
    show "upstream_metadata (JObj ?ch) = Inr ((''upstream_id'', JStr (py_take 160 i)) # reasoning_tokens u)" by (rule metadata_usage) simp_all
    show "dget ?ch ''choices'' = JList (map JObj [])" by simp
    show "wf_dict ((''upstream_id'', JStr (py_take 160 i)) # reasoning_tokens u)" by (auto simp: reasoning_tokens_def diagnostic_number_def)
  qed (use assms(1) in \<open>auto split: if_splits\<close>)
  then obtain tm where tm: "observe_chunk t (JObj ?ch) (oa_timing acc) = (None, tm)" "upstream_only ((''upstream_id'', JStr (py_take 160 i)) # reasoning_tokens u) tm" by blast
  have same: "acc\<lparr> oa_timing := tm \<rparr> = acc\<lparr> oa_timing := tm, oa_usage := JObj [] \<rparr>" using assms(3) by (cases acc) simp
  have "take_chunk all_sent t (JObj ?ch) acc = (None, acc\<lparr> oa_timing := tm, oa_usage := JObj u \<rparr>)"
    using assms(2) on_timing_ok [where m = "observe_chunk t (JObj ?ch)", OF tm(1)]
    by (auto simp: take_chunk_def same [symmetric])
  with tm(2) show ?thesis by blast
qed

lemma run_stream:
  assumes "carries es (openai_chunks i model ps stop u)" and "\<forall>p\<in>set ps. good_piece p" and "stop \<noteq> []"
    and "\<And>k. k \<in> upstream_keys \<Longrightarrow> map_of (timing_data tm) k = None"
  shows "\<exists>acc. openai_lines all_sent None start (new_oai tm) es = (None, acc) \<and> oa_finish acc = JStr stop \<and> oa_model acc = JStr model
    \<and> oa_usage acc = JObj u \<and> upstream_only ((''upstream_id'', JStr (py_take 160 i)) # reasoning_tokens u) (oa_timing acc)
    \<and> oa_text acc = map JStr (concat (map said ps)) \<and> oa_reasoning acc = [] \<and> oa_details acc = []
    \<and> sort_keyed (oa_calls acc) = Inr (map (\<lambda>n. (JInt (int n), gathered_call ps n)) (called ps))"
proof -
  let ?pieces = "map (\<lambda>p. chunk_value i model [(''delta'', JObj (delta_of_piece p))]) ps"
  let ?stop = "chunk_value i model [(''delta'', JObj []), (''finish_reason'', JStr stop)]"
  let ?last = "JObj [(''id'', JStr i), (''model'', JStr model), (''choices'', JList []), (''usage'', JObj u)]"
  from assms(1) obtain es1 es2 where e: "es = es1 @ es2" "carries es1 ?pieces" "carries es2 [?stop, ?last]"
    unfolding carries_def openai_chunks_def list_all2_append2 by blast
  then obtain a s b a' s' b' where e2: "es2 = [(a, Line s, b), (a', Line s', b')]" "sse_data s = Some (Some ?stop)" "sse_data s' = Some (Some ?last)"
    by (auto simp: carries_def list_all2_Cons2)
  have "holding [] (new_oai tm)" by (simp add: holding_def new_oai_def)
  from run_pieces [OF e(2) assms(2) this, of start] assms(4) obtain acc1 where
    acc1: "\<And>rest. openai_lines all_sent None start (new_oai tm) (es1 @ rest) = openai_lines all_sent None start acc1 rest"
      "holding ps acc1" "\<And>k. k \<in> upstream_keys - {''upstream_id''} \<Longrightarrow> map_of (timing_data (oa_timing acc1)) k = None" "oa_model acc1 \<in> {JNull, JStr model}"
    by (auto simp: new_oai_def)
  obtain tm2 where tm2: "take_chunk all_sent b ?stop acc1 = (None, acc1\<lparr> oa_timing := tm2, oa_model := JStr model, oa_finish := JStr stop \<rparr>)"
      "upstream_only [(''upstream_id'', JStr (py_take 160 i))] tm2"
    using take_finish [OF assms(3) acc1(3,4)] by blast
  let ?acc2 = "acc1\<lparr> oa_timing := tm2, oa_model := JStr model, oa_finish := JStr stop \<rparr>"
  have clear: "map_of (timing_data (oa_timing ?acc2)) k = None" if "k \<in> upstream_keys - {''upstream_id''}" for k
    using tm2(2) that by (auto simp: upstream_only_def)
  have m2: "oa_model ?acc2 = JStr model" and u2: "oa_usage ?acc2 = JObj []" using acc1(2) by (simp_all add: holding_def)
  obtain tm3 where tm3: "take_chunk all_sent b' ?last ?acc2 = (None, ?acc2\<lparr> oa_timing := tm3, oa_usage := JObj u \<rparr>)"
      "upstream_only ((''upstream_id'', JStr (py_take 160 i)) # reasoning_tokens u) tm3"
    using take_usage [OF clear m2 u2] by blast
  have run: "openai_lines all_sent None start (new_oai tm) es = (None, ?acc2\<lparr> oa_timing := tm3, oa_usage := JObj u \<rparr>)"
    unfolding e(1) acc1(1) e2(1) using openai_line [OF e2(2) tm2(1)] openai_line [OF e2(3) tm3(1)] by simp
  obtain "is" where "distinct is" "set is = \<Union> (index_of ` set ps)" "oa_calls acc1 = map (\<lambda>n. (JInt (int n), gathered_call ps n)) is"
    using acc1(2) by (auto simp: holding_def)
  then have "sort_keyed (oa_calls acc1) = Inr (map (\<lambda>n. (JInt (int n), gathered_call ps n)) (called ps))"
    by (simp add: sort_indexed called_def)
  then show ?thesis using run tm3(2) acc1(2) by (auto simp: holding_def)
qed

text \<open>What finishing the stream and parsing the complete response both give.\<close>

lemma join_text: "join_values (map JStr ss) = Inr (concat ss)"
proof -
  have "rmap str_item (map JStr ss) = Inr ss" by (induction ss) (simp_all add: str_item_def)
  then show ?thesis by (simp add: join_values_def)
qed

lemma called_none: "called ps = [] \<Longrightarrow> calls_value ps = JNull"
  by (simp add: calls_value_def none_if_empty_def)

lemma called_truthy: "truthy (calls_value ps) \<longleftrightarrow> called ps \<noteq> []"
  by (simp add: calls_value_def none_if_empty_def)

lemma kept_upstream_only:
  assumes "upstream_only ((''upstream_id'', JStr i) # reasoning_tokens u) tm"
  shows "kept_upstream (timing_data tm) = (''upstream_id'', JStr i) # reasoning_tokens u"
    and "dget (timing_data tm) ''tokens_reasoning'' = dget ((''upstream_id'', JStr i) # reasoning_tokens u) ''tokens_reasoning''"
proof -
  have m: "map_of (timing_data tm) k = map_of ((''upstream_id'', JStr i) # reasoning_tokens u) k" if "k \<in> upstream_keys" for k
    using assms that by (simp add: upstream_only_def)
  have k: "map_of (timing_data tm) ''upstream_id'' = Some (JStr i)" "map_of (timing_data tm) ''upstream_provider'' = None"
    "map_of (timing_data tm) ''tokens_reasoning'' = map_of (reasoning_tokens u) ''tokens_reasoning''"
    using m by (auto simp: upstream_keys_def reasoning_tokens_def diagnostic_number_def)
  show "kept_upstream (timing_data tm) = (''upstream_id'', JStr i) # reasoning_tokens u"
    using k by (auto simp: kept_upstream_def has_key_iff reasoning_tokens_def diagnostic_number_def)
  show "dget (timing_data tm) ''tokens_reasoning'' = dget ((''upstream_id'', JStr i) # reasoning_tokens u) ''tokens_reasoning''"
    using k by (simp add: dget_def dget_or_def)
qed

lemma parse_complete:
  assumes "stop \<noteq> ''content_filter''"
  shows "parse_data 200 l (complete_response i model ps stop u) =
     (if py_strip (concat (concat (map said ps))) = [] \<and> called ps = [] then Inr (empty_content 200 l)
      else rbind (response_fields (JStr (concat (concat (map said ps)))) (calls_value ps) (JStr stop) (JObj u) (JStr model)
            (JObj [(''content'', JStr (concat (concat (map said ps)))), (''tool_calls'', calls_value ps)])
            ((''upstream_id'', JStr (py_take 160 i)) # reasoning_tokens u)
            (dget ((''upstream_id'', JStr (py_take 160 i)) # reasoning_tokens u) ''tokens_reasoning''))
          (\<lambda>r. Inr (ok_result l r)))"
proof -
  define text1 where "text1 = concat (concat (map said ps))"
  define msg where "msg = [(''content'', JStr text1), (''tool_calls'', calls_value ps)]"
  define choice where "choice = [(''message'', JObj msg), (''finish_reason'', JStr stop)]"
  define data where "data = [(''id'', JStr i), (''model'', JStr model), (''choices'', JList [JObj choice]), (''usage'', JObj u)]"
  have c: "complete_response i model ps stop u = JObj data"
    by (simp only: complete_response_def text1_def msg_def choice_def data_def)
  have up: "upstream_metadata (JObj data) = Inr ((''upstream_id'', JStr (py_take 160 i)) # reasoning_tokens u)"
    by (rule metadata_usage) (simp_all add: data_def)
  have sel: "dget data ''choices'' = JList [JObj choice]" "dget data ''usage'' = JObj u" "dget data ''model'' = JStr model"
    "dget choice ''message'' = JObj msg" "dget choice ''finish_reason'' = JStr stop" "dget msg ''content'' = JStr text1" "dget msg ''tool_calls'' = calls_value ps"
    "has_reasoning_content msg = False"
    by (simp_all add: data_def choice_def msg_def has_reasoning_content_def nonblank_def)
  have or: "py_or (JObj d) (JObj []) = JObj d" "py_or (JStr s) (JStr []) = JStr s" for d s by (simp_all add: py_or_def)
  have "parse_choice 200 l (JObj data) (JObj choice) =
     (if py_strip text1 = [] \<and> called ps = [] then Inr (empty_content 200 l)
      else rbind (response_fields (JStr text1) (calls_value ps) (JStr stop) (JObj u) (JStr model) (JObj msg)
            ((''upstream_id'', JStr (py_take 160 i)) # reasoning_tokens u)
            (dget ((''upstream_id'', JStr (py_take 160 i)) # reasoning_tokens u) ''tokens_reasoning''))
          (\<lambda>r. Inr (ok_result l r)))"
    using assms by (simp add: parse_choice_def vget_def sel or up called_truthy py_str_def Let_def)
  moreover have "parse_data 200 l (JObj data) = parse_choice 200 l (JObj data) (JObj choice)"
    by (simp add: parse_data_def vget_def sel first_item_def)
  ultimately show ?thesis by (simp add: c text1_def msg_def)
qed

lemma finish_equals_parse:
  assumes "oa_finish acc = JStr stop" "oa_model acc = JStr model" "oa_usage acc = JObj u" "stop \<noteq> ''content_filter''"
    and "upstream_only ((''upstream_id'', JStr (py_take 160 i)) # reasoning_tokens u) (oa_timing acc)"
    and "oa_text acc = map JStr (concat (map said ps))" "oa_reasoning acc = []" "oa_details acc = []"
    and "sort_keyed (oa_calls acc) = Inr (map (\<lambda>n. (JInt (int n), gathered_call ps n)) (called ps))"
  shows "finish_openai start now acc = rbind (parse_data 200 (elapsed_ms start now) (complete_response i model ps stop u)) (\<lambda>r. Inr (without_message r))"
proof -
  let ?text = "concat (concat (map said ps))"
  let ?up = "(''upstream_id'', JStr (py_take 160 i)) # reasoning_tokens u"
  let ?blank = "py_strip ?text = [] \<and> called ps = []"
  let ?fields = "\<lambda>msg. response_fields (JStr ?text) (calls_value ps) (JStr stop) (JObj u) (JStr model) msg ?up (dget ?up ''tokens_reasoning'')"
  note kept = kept_upstream_only [OF assms(5)]
  have "finish_openai start now acc = (if ?blank then Inr (empty_content 200 (elapsed_ms start now))
      else rbind (?fields (JObj [])) (\<lambda>r. Inr (ok_result (elapsed_ms start now) r)))"
    by (simp add: finish_openai_def assms(1-3,7-9) joined_def assms(6) join_text streamed_message_def has_reasoning_content_def nonblank_def
        kept Let_def o_def calls_value_def split_def del: concat_eq_Nil_conv)
  moreover have "parse_data 200 (elapsed_ms start now) (complete_response i model ps stop u) = (if ?blank then Inr (empty_content 200 (elapsed_ms start now))
      else rbind (?fields (JObj [(''content'', JStr ?text), (''tool_calls'', calls_value ps)])) (\<lambda>r. Inr (ok_result (elapsed_ms start now) r)))"
    using assms(4) by (rule parse_complete)
  moreover have "without_message (empty_content 200 l) = empty_content 200 l" for l
    by (simp add: without_message_def empty_content_def err_def)
  moreover have "rbind (?fields (JObj [])) (\<lambda>r. Inr (ok_result l r)) = rbind (rbind (?fields m) (\<lambda>r. Inr (ok_result l r))) (\<lambda>r. Inr (without_message r))" for m l
    by (simp add: response_fields_def vget_def without_message_def ok_result_def)
  ultimately show ?thesis by simp
qed


definition example_pieces :: "piece list" where
  "example_pieces = [Say ''h'', Open 0 ''c'' ''f'', Say ''i'', Args 0 ''1'']"

definition example_lines :: "event list" where
  "example_lines = map (\<lambda>c. (0, Line (''data: '' @ json_dumps c), 0)) (openai_chunks ''r'' ''m'' example_pieces ''stop'' [])"


text \<open>
  Where stream and complete response differ: a message the provider's filter stopped is an error when it comes
  complete and a success when it is streamed.
\<close>

lemma filtered_stream_succeeds:
  "parse_data 200 l (complete_response i model ps ''content_filter'' u) = Inr (err ''content_filter'' 200 l ''blocked by provider filter'')"
  "\<exists>acc. openai_lines all_sent None 0 (new_oai \<lparr> timing_start = 0, timing_starts = [], timing_data = [] \<rparr>)
      (map (\<lambda>c. (0, Line (''data: '' @ json_dumps c), 0)) (openai_chunks ''r'' ''m'' [Say ''h''] ''content_filter'' [])) = (None, acc)
    \<and> (\<exists>r. finish_openai 0 0 acc = Inr (ok_result 0 r))"
proof -
  show "parse_data 200 l (complete_response i model ps ''content_filter'' u) = Inr (err ''content_filter'' 200 l ''blocked by provider filter'')"
    by (simp add: parse_data_def parse_choice_def complete_response_def vget_def first_item_def)
  let ?chs = "openai_chunks ''r'' ''m'' [Say ''h''] ''content_filter'' []"
  let ?tm = "\<lparr> timing_start = 0, timing_starts = [], timing_data = [] \<rparr>"
  have "\<forall>c\<in>set ?chs. sse_data (''data: '' @ json_dumps c) = Some (Some c)"
    by code_simp
  then have c: "carries (map (\<lambda>c. (0, Line (''data: '' @ json_dumps c), 0)) ?chs) ?chs"
    unfolding carries_def list_all2_map1 by (intro list.rel_refl_strong) auto
  from run_stream [OF c, of ?tm 0] obtain acc where
    run: "openai_lines all_sent None 0 (new_oai ?tm) (map (\<lambda>c. (0, Line (''data: '' @ json_dumps c), 0)) ?chs) = (None, acc)"
    and acc: "oa_usage acc = JObj []" "oa_text acc = [JStr ''h'']" "sort_keyed (oa_calls acc) = Inr []"
    by (auto simp: called_def)
  have "py_strip ''h'' \<noteq> []" by code_simp
  then have "\<exists>r. finish_openai 0 0 acc = Inr (ok_result 0 r)"
    by (auto simp: finish_openai_def joined_def join_values_def str_item_def acc response_fields_def vget_def Let_def elapsed_ms_def trunc_def)
  with run show "\<exists>acc. openai_lines all_sent None 0 (new_oai ?tm)
      (map (\<lambda>c. (0, Line (''data: '' @ json_dumps c), 0)) ?chs) = (None, acc) \<and> (\<exists>r. finish_openai 0 0 acc = Inr (ok_result 0 r))" by blast
qed

text \<open>
  A complete response whose choices have the wrong shape raises out of the call: the retry loop, which only
  reads results, does not go on to the next candidate.
\<close>

lemma malformed_choices_raise:
  "parse_openai_response m 200 ''{\"choices\":[1]}'' l = Inl (attr_err (JInt 1) ''get'')"
proof -
  have "json_loads default_hook ''{\"choices\":[1]}'' = Inr (JObj [(''choices'', JList [JInt 1])])" by code_simp
  then show ?thesis by (simp add: parse_openai_response_def parse_data_def parse_choice_def vget_def first_item_def)
qed

end
