(* ===== verification/PyUrl.thy ===== *)
theory PyUrl
  imports Prelude
begin

text \<open>
  \<open>urllib.parse.urlsplit\<close> and the parts of a URL the code reads. The check of a host in brackets is an argument, and
  a host is ASCII (a host with other characters also passes a normalisation test).
\<close>

definition lstrip_control :: "string \<Rightarrow> string" where
  "lstrip_control s = dropWhile (\<lambda>c. (of_char c :: nat) \<le> 32) s"

definition drop_unsafe :: "string \<Rightarrow> string" where
  "drop_unsafe s = filter (\<lambda>c. (of_char c :: nat) \<noteq> 9 \<and> (of_char c :: nat) \<noteq> 10 \<and> (of_char c :: nat) \<noteq> 13) s"

definition ascii_alpha :: "char \<Rightarrow> bool" where
  "ascii_alpha c = (let n = (of_char c :: nat) in 65 \<le> n \<and> n \<le> 90 \<or> 97 \<le> n \<and> n \<le> 122)"

definition scheme_char :: "char \<Rightarrow> bool" where
  "scheme_char c = (ascii_alpha c \<or> is_digit c \<or> c \<in> {CHR ''+'', CHR ''-'', CHR ''.''})"

text \<open>\<open>s.partition(c)\<close>: what is before the first \<open>c\<close>, whether there is one, what is after it; \<open>s.rpartition(c)\<close> for the last.\<close>

definition partition_at :: "char \<Rightarrow> string \<Rightarrow> string \<times> bool \<times> string" where
  "partition_at c s = (let a = takeWhile (\<lambda>x. x \<noteq> c) s in (a, c \<in> set s, drop (length a + 1) s))"

definition rpartition_at :: "char \<Rightarrow> string \<Rightarrow> string \<times> bool \<times> string" where
  "rpartition_at c s = (case partition_at c (rev s) of (a, found, b) \<Rightarrow> (rev b, found, rev a))"

record split_url =
  u_scheme :: string
  u_netloc :: string
  u_path :: string
  u_query :: string
  u_fragment :: string

definition split_scheme :: "string \<Rightarrow> string \<times> string" where
  "split_scheme url = (case partition_at (CHR '':'') url of (a, found, b) \<Rightarrow>
     if found \<and> a \<noteq> [] \<and> ascii_alpha (hd a) \<and> list_all scheme_char a then (ascii_lower a, b) else ([], url))"

definition split_netloc :: "string \<Rightarrow> string \<times> string" where
  "split_netloc url = (if prefix_of ''//'' url
     then (let n = takeWhile (\<lambda>c. c \<notin> {CHR ''/'', CHR ''?'', CHR ''#''}) (drop 2 url) in (n, drop (length n + 2) url))
     else ([], url))"

definition urlsplit :: "(string \<Rightarrow> bool) \<Rightarrow> string \<Rightarrow> split_url res" where
  "urlsplit bracket_ok url0 =
     (case split_scheme (drop_unsafe (lstrip_control url0)) of (scheme, url) \<Rightarrow>
      case split_netloc url of (netloc, url) \<Rightarrow>
        if (CHR ''['' \<in> set netloc) \<noteq> (CHR '']'' \<in> set netloc) then Inl (ValueError ''Invalid IPv6 URL'')
        else if CHR ''['' \<in> set netloc \<and> \<not> bracket_ok netloc then Inl (ValueError ''Invalid IPv6 URL'')
        else (case partition_at (CHR ''#'') url of (url, _, fragment) \<Rightarrow>
              case partition_at (CHR ''?'') url of (url, _, query) \<Rightarrow>
                Inr \<lparr>u_scheme = scheme, u_netloc = netloc, u_path = url, u_query = query, u_fragment = fragment\<rparr>))"

text \<open>\<open>parsed.username\<close>, \<open>parsed.password\<close> and \<open>parsed.hostname\<close>; the zone of an address keeps its case.\<close>

definition u_username :: "split_url \<Rightarrow> string option" where
  "u_username u = (case rpartition_at (CHR ''@'') (u_netloc u) of (info, found, _) \<Rightarrow>
     if found then Some (fst (partition_at (CHR '':'') info)) else None)"

definition u_password :: "split_url \<Rightarrow> string option" where
  "u_password u = (case rpartition_at (CHR ''@'') (u_netloc u) of (info, found, _) \<Rightarrow>
     case partition_at (CHR '':'') info of (_, colon, secret) \<Rightarrow> if found \<and> colon then Some secret else None)"

definition u_hostname :: "split_url \<Rightarrow> string option" where
  "u_hostname u = (let info = snd (snd (rpartition_at (CHR ''@'') (u_netloc u))) in
     case partition_at (CHR ''['') info of (_, bracket, inner) \<Rightarrow>
     let host = (if bracket then fst (partition_at (CHR '']'') inner) else fst (partition_at (CHR '':'') info)) in
     if host = [] then None
     else (case partition_at (CHR ''%'') host of (name, percent, zone) \<Rightarrow>
       Some (ascii_lower name @ (if percent then CHR ''%'' # zone else []))))"

text \<open>\<open>urlunsplit\<close> of a URL with a network location, which every URL here has.\<close>

definition urlunsplit :: "split_url \<Rightarrow> string" where
  "urlunsplit u =
     (let path = (if u_netloc u \<noteq> [] \<or> prefix_of ''//'' (u_path u)
                  then ''//'' @ u_netloc u @ (if u_path u \<noteq> [] \<and> hd (u_path u) \<noteq> CHR ''/'' then CHR ''/'' # u_path u else u_path u)
                  else u_path u)
      in (if u_scheme u \<noteq> [] then u_scheme u @ CHR '':'' # path else path)
         @ (if u_query u \<noteq> [] then CHR ''?'' # u_query u else [])
         @ (if u_fragment u \<noteq> [] then CHR ''#'' # u_fragment u else []))"

section \<open>Facts\<close>

lemma partition_at_absent: "c \<notin> set s \<Longrightarrow> partition_at c s = (s, False, [])"
proof -
  assume *: "c \<notin> set s"
  then have tw: "takeWhile (\<lambda>x. x \<noteq> c) s = s" by (auto simp: takeWhile_eq_all_conv)
  from * show ?thesis by (simp add: partition_at_def Let_def tw)
qed

lemma partition_at_found: "c \<notin> set a \<Longrightarrow> partition_at c (a @ c # b) = (a, True, b)"
proof -
  assume *: "c \<notin> set a"
  then have "takeWhile (\<lambda>x. x \<noteq> c) (a @ c # b) = a" by (subst takeWhile_append2) auto
  then show ?thesis by (simp add: partition_at_def Let_def)
qed

lemma rpartition_at_absent: "c \<notin> set s \<Longrightarrow> rpartition_at c s = ([], False, s)"
  by (simp add: rpartition_at_def partition_at_absent)

lemma rpartition_at_found: "c \<notin> set b \<Longrightarrow> rpartition_at c (a @ c # b) = (a, True, b)"
  by (simp add: rpartition_at_def partition_at_found)

lemma scheme_char_no_sep: "list_all scheme_char a \<Longrightarrow> CHR '':'' \<notin> set a"
  by (auto simp: list_all_iff scheme_char_def ascii_alpha_def is_digit_def Let_def)

text \<open>The netloc ends at the first of the three delimiters, so it holds none of them.\<close>

lemma split_netloc_clean:
  assumes "split_netloc url = (n, r)"
  shows "CHR ''/'' \<notin> set n \<and> CHR ''?'' \<notin> set n \<and> CHR ''#'' \<notin> set n"
  using assms by (auto simp: split_netloc_def Let_def split: if_splits dest: set_takeWhileD)

lemma split_netloc_back: "split_netloc url = (n, r) \<Longrightarrow> url = (if prefix_of ''//'' url then ''//'' @ n @ r else r)"
proof -
  assume *: "split_netloc url = (n, r)"
  show ?thesis
  proof (cases "prefix_of ''//'' url")
    case True
    then obtain t where url: "url = ''//'' @ t" by (auto simp: prefix_of_iff)
    from * True url have "n = takeWhile (\<lambda>c. c \<notin> {CHR ''/'', CHR ''?'', CHR ''#''}) t" and "r = drop (length n) t"
      by (auto simp: split_netloc_def Let_def)
    then have "t = n @ r" by (metis takeWhile_dropWhile_id dropWhile_eq_drop)
    with True url show ?thesis by simp
  next
    case False
    with * show ?thesis by (simp add: split_netloc_def)
  qed
qed

end
