(* ===== verification/KeyResolver.thy ===== *)
theory KeyResolver
  imports PyUrl ProviderWire
begin

text \<open>
  \<open>control_plane_client.py\<close>, first part: the configuration, the transport, and \<open>resolve_key\<close>. The tasks of the event
  loop interleave at the one \<open>await\<close> of a call: \<open>resolve_begin\<close> is a call up to it, \<open>resolve_end\<close> what the task that fetched
  does afterwards, whose result its waiters share. Every reading of the clock is an argument.
\<close>

section \<open>Configuration and transport\<close>

record cp =
  cp_url :: string
  cp_secret :: string
  insecure_http :: bool
  resolve_ttl :: pyfloat
  negative_ttl :: pyfloat
  resolve_grace :: pyfloat
  tenant_ttl :: pyfloat
  tenant_grace :: pyfloat
  env_allowlist :: "string list"

definition getenv_or :: "(string \<Rightarrow> string option) \<Rightarrow> string \<Rightarrow> string \<Rightarrow> string" where
  "getenv_or env name dflt = (case env name of None \<Rightarrow> dflt | Some s \<Rightarrow> s)"

definition default_allowlist :: string where
  "default_allowlist = ''OPENAI_API_KEY,OPENROUTER_API_KEY,ANTHROPIC_API_KEY,GEMINI_API_KEY''"

definition load_cp :: "(string \<Rightarrow> string option) \<Rightarrow> cp res" where
  "load_cp env =
     rbind (float_of_text (getenv_or env ''CP_RESOLVE_TTL_S'' ''60'')) (\<lambda>rt.
     rbind (float_of_text (getenv_or env ''CP_NEGATIVE_TTL_S'' ''15'')) (\<lambda>nt.
     rbind (float_of_text (getenv_or env ''CP_RESOLVE_STALE_GRACE_S'' ''300'')) (\<lambda>rg.
     rbind (float_of_text (getenv_or env ''CP_TENANT_ENV_TTL_S'' ''120'')) (\<lambda>tt.
     rbind (float_of_text (getenv_or env ''CP_TENANT_ENV_STALE_GRACE_S'' ''600'')) (\<lambda>tg.
     Inr \<lparr>cp_url = rstrip_slash (getenv_or env ''CONTROL_PLANE_URL'' []),
          cp_secret = getenv_or env ''CONTROL_PLANE_INTERNAL_SECRET'' [],
          insecure_http = (ascii_lower (getenv_or env ''CP_ALLOW_INSECURE_HTTP'' ''0'') \<in> {''1'', ''true'', ''yes''}),
          resolve_ttl = rt, negative_ttl = nt, resolve_grace = rg, tenant_ttl = tt, tenant_grace = tg,
          env_allowlist = filter (\<lambda>n. n \<noteq> []) (map py_strip (split_on (CHR '','')
            (getenv_or env ''CP_ENV_ALLOWLIST'' default_allowlist)))\<rparr>)))))"

definition cp_enabled :: "cp \<Rightarrow> bool" where
  "cp_enabled c = (cp_url c \<noteq> [] \<and> cp_secret c \<noteq> [])"

text \<open>\<open>hmac.compare_digest\<close> over the UTF-8 bytes.\<close>

definition secret_equal :: "string \<Rightarrow> string \<Rightarrow> bool" where
  "secret_equal presented expected = (presented = expected)"

definition internal_secret_ok :: "cp \<Rightarrow> (string \<Rightarrow> string option) \<Rightarrow> bool" where
  "internal_secret_ok c headers =
     (if cp_secret c = [] then False
      else secret_equal (case headers ''x-internal-secret'' of None \<Rightarrow> [] | Some s \<Rightarrow> s) (cp_secret c))"

definition falsy :: "string option \<Rightarrow> bool" where
  "falsy s = (s = None \<or> s = Some [])"

definition trusted_transport_ok :: "(string \<Rightarrow> bool) \<Rightarrow> cp \<Rightarrow> string \<Rightarrow> bool" where
  "trusted_transport_ok bracket_ok c url = (case urlsplit bracket_ok url of
     Inl _ \<Rightarrow> False
   | Inr u \<Rightarrow> u_hostname u \<noteq> None \<and> falsy (u_username u) \<and> falsy (u_password u) \<and> u_query u = [] \<and> u_fragment u = []
       \<and> (u_scheme u = ''https'' \<or> u_scheme u = ''http'' \<and> insecure_http c))"

text \<open>
  What a call of the client brings back: nothing (an \<open>httpx.HTTPError\<close>), or a status with the body as \<open>json()\<close> reads
  it. The control plane is a function of the URL, the query and the headers.
\<close>

datatype got = NoReply | Got int "jval res"

type_synonym headers = "(string \<times> string) list"
type_synonym control_plane = "string \<Rightarrow> headers \<Rightarrow> headers \<Rightarrow> got"

definition cp_get :: "(string \<Rightarrow> bool) \<Rightarrow> cp \<Rightarrow> control_plane \<Rightarrow> string \<Rightarrow> headers \<Rightarrow> got" where
  "cp_get bracket_ok c plane path params =
     (if trusted_transport_ok bracket_ok c (cp_url c)
      then plane (cp_url c @ path) params [(''x-internal-secret'', cp_secret c)] else NoReply)"

section \<open>The answer\<close>

record resolved_key =
  rk_active :: bool
  rk_consumer :: "string option"
  rk_tenant :: "int option"
  rk_rate :: "int option"
  rk_burst :: "int option"
  rk_fetched :: pyfloat
  rk_version :: int
  rk_project :: "int option"
  rk_environment :: "int option"

definition opt_int :: "jval \<Rightarrow> int option res" where
  "opt_int v = (case int_of v of
     Inl (TypeError _) \<Rightarrow> Inr None | Inl (ValueError _) \<Rightarrow> Inr None | Inl e \<Rightarrow> Inl e
   | Inr i \<Rightarrow> Inr (if 0 < i then Some i else None))"

text \<open>\<open>type(v) is int and v > 0\<close>, so neither a bool nor a float.\<close>

definition strict_pos :: "jval \<Rightarrow> bool" where
  "strict_pos v = (case v of JInt i \<Rightarrow> 0 < i | _ \<Rightarrow> False)"

definition int_value :: "jval \<Rightarrow> int option" where
  "int_value v = (case v of JInt i \<Rightarrow> Some i | _ \<Rightarrow> None)"

definition consumer_of :: "dict \<Rightarrow> string option" where
  "consumer_of data = nonempty (py_strip (py_str (py_or (dget data ''consumer'') (JStr []))))"

text \<open>The scope of the key: absent in version 1, whole in version 2, anything else is refused.\<close>

definition scope_ok :: "jval \<Rightarrow> jval \<Rightarrow> jval \<Rightarrow> bool" where
  "scope_ok version project_id environment_id =
     (if version \<noteq> JInt 1 \<and> version \<noteq> JInt 2 then False
      else if version = JInt 2 then strict_pos project_id \<and> strict_pos environment_id
      else project_id = JNull \<and> environment_id = JNull)"

definition inactive_key :: "pyfloat \<Rightarrow> resolved_key" where
  "inactive_key now = \<lparr>rk_active = False, rk_consumer = None, rk_tenant = None, rk_rate = None, rk_burst = None,
     rk_fetched = now, rk_version = 1, rk_project = None, rk_environment = None\<rparr>"

definition parse_resolved :: "pyfloat \<Rightarrow> jval \<Rightarrow> resolved_key res" where
  "parse_resolved now v =
     (let data = (case v of JObj d \<Rightarrow> d | _ \<Rightarrow> []); consumer = consumer_of data;
          version = dget_or data ''scope_version'' (JInt 1);
          project_id = dget data ''project_id''; environment_id = dget data ''environment_id''
      in rbind (if truthy (dget data ''active'') \<and> consumer \<noteq> None
                then rbind (opt_int (dget data ''tenant_id'')) (\<lambda>t. Inr (t \<noteq> None)) else Inr False) (\<lambda>active.
         if \<not> (active \<and> scope_ok version project_id environment_id) then Inr (inactive_key now)
         else rbind (opt_int (dget data ''tenant_id'')) (\<lambda>tenant.
              rbind (opt_int (dget data ''rate_per_min'')) (\<lambda>rate.
              rbind (opt_int (dget data ''burst'')) (\<lambda>burst.
              Inr \<lparr>rk_active = True, rk_consumer = consumer, rk_tenant = tenant, rk_rate = rate, rk_burst = burst,
                   rk_fetched = now, rk_version = (if version = JInt 2 then 2 else 1),
                   rk_project = (if version = JInt 2 then int_value project_id else None),
                   rk_environment = (if version = JInt 2 then int_value environment_id else None)\<rparr>)))))"

text \<open>\<open>None\<close> is a transport error or a 5xx: no answer. Everything else is an answer, a refusal included.\<close>

definition fetch_resolve :: "(string \<Rightarrow> bool) \<Rightarrow> cp \<Rightarrow> control_plane \<Rightarrow> pyfloat \<Rightarrow> string \<Rightarrow> resolved_key option res" where
  "fetch_resolve bracket_ok c plane now digest =
     (case cp_get bracket_ok c plane ''/internal/keys/resolve''
             [(''sha256'', digest), (''scope_version'', ''2''), (''automatic_version'', ''1'')] of
        NoReply \<Rightarrow> Inr None
      | Got code body \<Rightarrow>
          if 500 \<le> code then Inr None
          else if code \<noteq> 200 then rbind (parse_resolved now (JObj [])) (\<lambda>k. Inr (Some k))
          else (case body of
              Inl e \<Rightarrow> if is_value_error e then rbind (parse_resolved now (JObj [])) (\<lambda>k. Inr (Some k)) else Inl e
            | Inr v \<Rightarrow> (case parse_resolved now v of
                Inl e \<Rightarrow> if is_value_error e then rbind (parse_resolved now (JObj [])) (\<lambda>k. Inr (Some k)) else Inl e
              | Inr k \<Rightarrow> Inr (Some k))))"

section \<open>The cache\<close>

definition resolve_cache_max :: nat where
  "resolve_cache_max = 4096"

text \<open>An entry of \<open>inflight\<close> holds what the fetching task remembers of its start: the clock and the entry it found.\<close>

record resolver =
  key_cache :: "(string \<times> resolved_key) list"
  inflight :: "(string \<times> pyfloat \<times> resolved_key option) list"

definition empty_resolver :: resolver where
  "empty_resolver = \<lparr>key_cache = [], inflight = []\<rparr>"

definition entry_ttl :: "cp \<Rightarrow> resolved_key \<Rightarrow> pyfloat" where
  "entry_ttl c e = (if rk_active e then resolve_ttl c else negative_ttl c)"

definition still_fresh :: "cp \<Rightarrow> pyfloat \<Rightarrow> resolved_key \<Rightarrow> bool" where
  "still_fresh c now e = f_le (f_sub now (rk_fetched e)) (entry_ttl c e)"

definition evict_if_full :: "cp \<Rightarrow> pyfloat \<Rightarrow> (string \<times> resolved_key) list \<Rightarrow> (string \<times> resolved_key) list" where
  "evict_if_full c now cache =
     (if length cache < resolve_cache_max then cache
      else let kept = filter (\<lambda>p. \<not> f_lt (entry_ttl c (snd p)) (f_sub now (rk_fetched (snd p)))) cache
           in if resolve_cache_max \<le> length kept then [] else kept)"

datatype begun = Answered "resolved_key option" | Joins | Fetches

definition resolve_begin :: "cp \<Rightarrow> pyfloat \<Rightarrow> string \<Rightarrow> resolver \<Rightarrow> begun \<times> resolver" where
  "resolve_begin c now digest r =
     (if \<not> cp_enabled c then (Answered None, r)
      else let cached = map_of (key_cache r) digest in
        case cached of
          Some e \<Rightarrow> if still_fresh c now e then (Answered cached, r)
                    else if has_key (inflight r) digest then (Joins, r)
                    else (Fetches, r\<lparr>inflight := dset digest (now, cached) (inflight r)\<rparr>)
        | None \<Rightarrow> if has_key (inflight r) digest then (Joins, r)
                  else (Fetches, r\<lparr>inflight := dset digest (now, cached) (inflight r)\<rparr>))"

definition stale_ok :: "cp \<Rightarrow> pyfloat \<Rightarrow> resolved_key \<Rightarrow> bool" where
  "stale_ok c now e = (rk_active e \<and> f_le (f_sub now (rk_fetched e)) (f_add (resolve_ttl c) (resolve_grace c)))"

text \<open>An error of the fetch, or a cancellation, reaches the task and its waiters, and leaves the cache alone.\<close>

definition resolve_end ::
  "cp \<Rightarrow> pyfloat \<Rightarrow> resolved_key option res \<Rightarrow> string \<Rightarrow> resolver \<Rightarrow> resolved_key option res \<times> resolver" where
  "resolve_end c later fetched digest r =
     (let idle = r\<lparr>inflight := dpop digest (inflight r)\<rparr>;
          (now, cached) = (case map_of (inflight r) digest of Some p \<Rightarrow> p | None \<Rightarrow> (later, None)) in
      case fetched of
        Inl e \<Rightarrow> (Inl e, idle)
      | Inr (Some fresh) \<Rightarrow> (Inr (Some fresh), idle\<lparr>key_cache := dset digest fresh (evict_if_full c later (key_cache r))\<rparr>)
      | Inr None \<Rightarrow> (case cached of
            Some e \<Rightarrow> if stale_ok c now e then (Inr (Some e), idle)
                      else (Inr None, idle\<lparr>key_cache := dpop digest (key_cache r)\<rparr>)
          | None \<Rightarrow> (Inr None, idle\<lparr>key_cache := dpop digest (key_cache r)\<rparr>)))"

section \<open>Runs of the event loop\<close>

text \<open>
  What the calls and the replies of any tasks, in any order, make of the cache; \<open>latest\<close> records the last answer
  of the control plane about each key, which the program does not keep.
\<close>

inductive resolver_run :: "cp \<Rightarrow> resolver \<Rightarrow> (string \<Rightarrow> resolved_key option) \<Rightarrow> bool" for c where
  start: "resolver_run c empty_resolver (\<lambda>_. None)"
| call: "resolver_run c r latest \<Longrightarrow> resolver_run c (snd (resolve_begin c now digest r)) latest"
| reply: "resolver_run c r latest \<Longrightarrow> has_key (inflight r) digest \<Longrightarrow>
    resolver_run c (snd (resolve_end c later fetched digest r))
      (case fetched of Inr (Some fresh) \<Rightarrow> latest(digest := Some fresh) | _ \<Rightarrow> latest)"

inductive_cases resolver_run_cases: "resolver_run c r latest"

definition remembers :: "(string \<Rightarrow> resolved_key option) \<Rightarrow> resolver \<Rightarrow> bool" where
  "remembers latest r \<longleftrightarrow>
     (\<forall>d e. map_of (key_cache r) d = Some e \<longrightarrow> latest d = Some e)
     \<and> (\<forall>d now e. map_of (inflight r) d = Some (now, Some e) \<longrightarrow> latest d = Some e)"

definition resolver_wf :: "resolver \<Rightarrow> bool" where
  "resolver_wf r \<longleftrightarrow> wf_dict (key_cache r) \<and> length (key_cache r) \<le> resolve_cache_max"

lemma evict_map_of: "wf_dict cache \<Longrightarrow> map_of (evict_if_full c now cache) d = Some e \<Longrightarrow> map_of cache d = Some e"
  by (auto simp: evict_if_full_def Let_def distinct_map split: if_splits dest!: map_of_SomeD intro!: map_of_is_SomeI)

lemma evict_wf: "wf_dict cache \<Longrightarrow> wf_dict (evict_if_full c now cache)"
  by (auto simp: evict_if_full_def Let_def distinct_map_filter)

lemma evict_room: "length (evict_if_full c now cache) < resolve_cache_max"
  by (auto simp: evict_if_full_def Let_def resolve_cache_max_def)

lemma length_dset_le: "length (dset k v d) \<le> Suc (length d)"
  by (induction d) auto

lemma length_dpop_le: "length (dpop k d) \<le> length d"
  by (simp add: AList.delete_eq)

lemma begin_keeps_cache [simp]: "key_cache (snd (resolve_begin c now d r)) = key_cache r"
  by (simp add: resolve_begin_def Let_def split: option.splits)

lemma begin_remembers: "remembers latest r \<Longrightarrow> remembers latest (snd (resolve_begin c now d r))"
  by (auto simp: remembers_def resolve_begin_def Let_def map_of_dset split: option.splits if_splits)

lemma end_remembers:
  assumes "remembers latest r" and "resolver_wf r"
  shows "remembers (case fetched of Inr (Some fresh) \<Rightarrow> latest(d := Some fresh) | _ \<Rightarrow> latest)
           (snd (resolve_end c later fetched d r))"
proof -
  have kept: "latest k = Some e" if "map_of (evict_if_full c later (key_cache r)) k = Some e" for k e
    using assms evict_map_of that unfolding remembers_def resolver_wf_def by blast
  from assms(1) show ?thesis
    by (auto simp: remembers_def resolve_end_def Let_def map_of_dset map_of_dpop kept
        split: sum.splits option.splits if_splits prod.splits)
qed

lemma end_wf:
  assumes "resolver_wf r"
  shows "resolver_wf (snd (resolve_end c later fetched d r))"
proof -
  have "length (dset d x (evict_if_full c later (key_cache r))) \<le> resolve_cache_max" for x
    using evict_room [of c later "key_cache r"] length_dset_le [of d x "evict_if_full c later (key_cache r)"] by linarith
  moreover have "length (dpop d (key_cache r)) \<le> resolve_cache_max"
    using assms length_dpop_le [of d "key_cache r"] by (simp add: resolver_wf_def)
  ultimately show ?thesis using assms
    by (auto simp: resolver_wf_def resolve_end_def Let_def evict_wf distinct_update distinct_delete
        split: sum.splits option.splits prod.splits)
qed

lemma resolver_run_keeps: "resolver_run c r latest \<Longrightarrow> remembers latest r \<and> resolver_wf r"
proof (induction rule: resolver_run.induct)
  case start
  show ?case by (simp add: remembers_def resolver_wf_def empty_resolver_def)
next
  case (call r latest now digest)
  then show ?case by (simp add: begin_remembers) (simp add: resolver_wf_def)
next
  case (reply r latest digest later fetched)
  then show ?case using end_remembers end_wf by blast
qed

section \<open>What an answer is worth\<close>

definition opt_positive :: "int option \<Rightarrow> bool" where
  "opt_positive x = (case x of None \<Rightarrow> True | Some i \<Rightarrow> 0 < i)"

lemma opt_int_positive: "opt_int v = Inr x \<Longrightarrow> opt_positive x"
  by (auto simp: opt_int_def opt_positive_def split: sum.splits exn.splits if_splits)

lemma consumer_of_nonempty: "consumer_of data = Some s \<Longrightarrow> s \<noteq> []"
  by (auto simp: consumer_of_def nonempty_def split: if_splits)

lemma strict_pos_value: "strict_pos v \<Longrightarrow> \<exists>i. v = JInt i \<and> int_value v = Some i \<and> 0 < i"
  by (cases v) (auto simp: strict_pos_def int_value_def)

text \<open>An identity is whole or it is none: every field that is there is positive and the scope has both parts or neither.\<close>

definition whole_identity :: "resolved_key \<Rightarrow> bool" where
  "whole_identity k \<longleftrightarrow>
     (if rk_active k
      then (\<exists>s. rk_consumer k = Some s \<and> s \<noteq> []) \<and> (\<exists>t. rk_tenant k = Some t \<and> 0 < t)
        \<and> opt_positive (rk_rate k) \<and> opt_positive (rk_burst k)
        \<and> (rk_version k = 1 \<and> rk_project k = None \<and> rk_environment k = None
           \<or> rk_version k = 2 \<and> (\<exists>p e. rk_project k = Some p \<and> rk_environment k = Some e \<and> 0 < p \<and> 0 < e))
      else k = inactive_key (rk_fetched k))"

lemma scope_ok_cases:
  assumes "scope_ok v p e"
  obtains (tenant) "v = JInt 1" "p = JNull" "e = JNull"
  | (environment) i j where "v = JInt 2" "p = JInt i" "e = JInt j" "0 < i" "0 < j"
  using assms by (cases p; cases e) (auto simp: scope_ok_def strict_pos_def split: if_splits)

lemma active_test:
  assumes "(if a \<and> b \<noteq> None then rbind (opt_int v) (\<lambda>t. Inr (t \<noteq> None)) else Inr False) = Inr True"
  shows "a \<and> b \<noteq> None \<and> (\<exists>t. opt_int v = Inr (Some t) \<and> 0 < t)"
  using assms opt_int_positive [of v] by (auto simp: res_simps opt_positive_def split: if_splits)

lemma parse_resolved_whole:
  assumes "parse_resolved now v = Inr k"
  shows "whole_identity k \<and> rk_fetched k = now"
proof -
  define d where "d = (case v of JObj d \<Rightarrow> d | _ \<Rightarrow> [])"
  let ?scope = "scope_ok (dget_or d ''scope_version'' (JInt 1)) (dget d ''project_id'') (dget d ''environment_id'')"
  obtain b where test: "(if truthy (dget d ''active'') \<and> consumer_of d \<noteq> None
      then rbind (opt_int (dget d ''tenant_id'')) (\<lambda>t. Inr (t \<noteq> None)) else Inr False) = Inr b"
    using assms by (simp only: parse_resolved_def Let_def d_def [symmetric] rbind_eq_Inr) blast
  show ?thesis
  proof (cases "b \<and> ?scope")
    case False
    with assms test have "k = inactive_key now" by (simp only: parse_resolved_def Let_def d_def [symmetric] rbind_Inr) simp
    then show ?thesis by (simp add: whole_identity_def inactive_key_def)
  next
    case True
    then have b by simp
    with test have "truthy (dget d ''active'') \<and> consumer_of d \<noteq> None \<and> (\<exists>t. opt_int (dget d ''tenant_id'') = Inr (Some t) \<and> 0 < t)"
      by (intro active_test) simp
    then obtain s t where s: "consumer_of d = Some s" and t: "opt_int (dget d ''tenant_id'') = Inr (Some t)" "0 < t"
      by auto
    from assms test True t obtain rate burst where
      r: "opt_int (dget d ''rate_per_min'') = Inr rate" and b: "opt_int (dget d ''burst'') = Inr burst"
      and k: "k = \<lparr>rk_active = True, rk_consumer = consumer_of d, rk_tenant = Some t, rk_rate = rate, rk_burst = burst,
           rk_fetched = now, rk_version = (if dget_or d ''scope_version'' (JInt 1) = JInt 2 then 2 else 1),
           rk_project = (if dget_or d ''scope_version'' (JInt 1) = JInt 2 then int_value (dget d ''project_id'') else None),
           rk_environment = (if dget_or d ''scope_version'' (JInt 1) = JInt 2 then int_value (dget d ''environment_id'') else None)\<rparr>"
      by (simp only: parse_resolved_def Let_def d_def [symmetric] rbind_Inr) (auto simp: res_simps)
    from True have ?scope by simp
    then show ?thesis
      by (cases rule: scope_ok_cases)
        (simp_all add: k s t whole_identity_def int_value_def consumer_of_nonempty [OF s] opt_int_positive [OF r] opt_int_positive [OF b])
  qed
qed

text \<open>
  C7. Key resolution returns what the control plane last said. Whatever calls and replies came before, in any order:
  a call that is answered from the cache gets the last answer of the control plane about its key, within the
  time that answer may be used; a call that fetched, and every call waiting for it, gets the fresh answer, or, only when
  the control plane did not answer, the last one, if it was positive and is within the grace.
\<close>

theorem resolution_is_latest_answer:
  assumes "resolver_run c r latest"
  shows "(fst (resolve_begin c now digest r) = Answered (Some e) \<longrightarrow> latest digest = Some e \<and> still_fresh c now e)
    \<and> (fst (resolve_end c later fetched digest r) = Inr (Some e) \<longrightarrow>
        fetched = Inr (Some e)
        \<or> fetched = Inr None \<and> latest digest = Some e \<and> rk_active e
          \<and> (\<exists>began. map_of (inflight r) digest = Some (began, Some e) \<and> stale_ok c began e))"
proof -
  from assms have "remembers latest r" by (simp add: resolver_run_keeps)
  then have cache: "map_of (key_cache r) d = Some x \<Longrightarrow> latest d = Some x"
    and started: "map_of (inflight r) d = Some (t, Some x) \<Longrightarrow> latest d = Some x" for d x t
    by (auto simp: remembers_def)
  show ?thesis
  proof (intro conjI impI)
    assume "fst (resolve_begin c now digest r) = Answered (Some e)"
    then have "map_of (key_cache r) digest = Some e \<and> still_fresh c now e"
      by (auto simp: resolve_begin_def Let_def split: option.splits if_splits)
    then show "latest digest = Some e" and "still_fresh c now e" by (auto intro: cache)
  next
    assume "fst (resolve_end c later fetched digest r) = Inr (Some e)"
    then show "fetched = Inr (Some e) \<or> fetched = Inr None \<and> latest digest = Some e \<and> rk_active e
          \<and> (\<exists>began. map_of (inflight r) digest = Some (began, Some e) \<and> stale_ok c began e)"
      by (auto simp: resolve_end_def stale_ok_def Let_def intro: started
          split: option.splits sum.splits if_splits prod.splits)
  qed
qed

definition demo_cp :: cp where
  "demo_cp = \<lparr>cp_url = ''https://cp'', cp_secret = ''s'', insecure_http = False, resolve_ttl = Fin 60, negative_ttl = Fin 15,
     resolve_grace = Fin 300, tenant_ttl = Fin 120, tenant_grace = Fin 600, env_allowlist = [''OPENAI_API_KEY'']\<rparr>"

definition demo_identity :: resolved_key where
  "demo_identity = \<lparr>rk_active = True, rk_consumer = Some ''acme'', rk_tenant = Some 7, rk_rate = None, rk_burst = None,
     rk_fetched = Fin 10, rk_version = 1, rk_project = None, rk_environment = None\<rparr>"

definition demo_resolver :: resolver where
  "demo_resolver = snd (resolve_end demo_cp (Fin 10) (Inr (Some demo_identity)) ''d''
     (snd (resolve_begin demo_cp (Fin 9) ''d'' empty_resolver)))"

lemma demo_resolver_run: "resolver_run demo_cp demo_resolver [''d'' \<mapsto> demo_identity]"
proof -
  have "has_key (inflight (snd (resolve_begin demo_cp (Fin 9) ''d'' empty_resolver))) ''d''"
    by (simp add: resolve_begin_def cp_enabled_def demo_cp_def empty_resolver_def has_key_def)
  from reply [OF call [OF start] this, of "Fin 10" "Inr (Some demo_identity)"]
  show ?thesis by (simp add: demo_resolver_def)
qed

theorem resolution_is_latest_answer_witness:
  "fst (resolve_begin demo_cp (Fin 20) ''d'' demo_resolver) = Answered (Some demo_identity)
   \<and> still_fresh demo_cp (Fin 20) demo_identity"
proof -
  have "fst (resolve_begin demo_cp (Fin 20) ''d'' demo_resolver) = Answered (Some demo_identity)"
    by code_simp
  with resolution_is_latest_answer [OF demo_resolver_run, of "Fin 20" "''d''" demo_identity]
  show ?thesis by blast
qed

text \<open>The cache of resolved keys never holds more than 4096 entries, however many keys are tried.\<close>

lemma resolve_cache_bounded: "resolver_run c r latest \<Longrightarrow> length (key_cache r) \<le> 4096 \<and> wf_dict (key_cache r)"
  using resolver_run_keeps by (simp add: resolver_wf_def resolve_cache_max_def)

text \<open>The secret of the bridge leaves over TLS only, unless the operator asked for plain HTTP.\<close>

lemma secret_needs_tls:
  assumes "cp_get bracket_ok c plane path params \<noteq> NoReply"
  shows "\<exists>u. urlsplit bracket_ok (cp_url c) = Inr u \<and> u_query u = [] \<and> u_fragment u = []
    \<and> (u_scheme u = ''https'' \<or> u_scheme u = ''http'' \<and> insecure_http c)"
  using assms by (auto simp: cp_get_def trusted_transport_ok_def split: if_splits sum.splits)

end
