(* ===== verification/RouteScope.thy ===== *)
theory RouteScope
  imports KeyResolver FloatOrder
begin

text \<open>
  \<open>control_plane_client.py\<close>, second part: the credentials of a tenant and the published routes, with the strict
  readers of the scope of a response and of the limits of a key.
\<close>

section \<open>Reading a response\<close>

definition route_unavailable :: "string \<Rightarrow> exn" where
  "route_unavailable message = OtherExc ''RouteUnavailable'' message"

definition http_error :: exn where
  "http_error = OtherExc ''HTTPError'' []"

text \<open>\<open>except (httpx.HTTPError, ValueError, AttributeError)\<close>.\<close>

fun plane_error :: "exn \<Rightarrow> bool" where
  "plane_error (ValueError _) = True"
| "plane_error (AttributeError _) = True"
| "plane_error (OtherExc t _) = (t = ''HTTPError'')"
| "plane_error _ = False"

text \<open>\<open>raise_for_status()\<close> and \<open>json()\<close>.\<close>

definition read_reply :: "got \<Rightarrow> jval res" where
  "read_reply reply = (case reply of
     NoReply \<Rightarrow> Inl http_error
   | Got code body \<Rightarrow> if 200 \<le> code \<and> code < 300 then body else Inl http_error)"

definition env_entry :: "(string \<Rightarrow> bool) \<Rightarrow> string \<times> jval \<Rightarrow> (string \<times> string) option" where
  "env_entry allowed p = (case snd p of JStr s \<Rightarrow> if allowed (fst p) \<and> s \<noteq> [] then Some (fst p, s) else None | _ \<Rightarrow> None)"

definition env_entries :: "(string \<Rightarrow> bool) \<Rightarrow> dict \<Rightarrow> (string \<times> string) list" where
  "env_entries allowed raw = List.map_filter (env_entry allowed) raw"

section \<open>Credentials\<close>

type_synonym env_cache = "(int \<times> (string \<times> string) list \<times> pyfloat) list"

text \<open>\<open>tenant_env\<close> up to the request, whose caller remembers the clock and the cached entry, and after it.\<close>

definition tenant_env_begin :: "cp \<Rightarrow> pyfloat \<Rightarrow> int \<Rightarrow> env_cache \<Rightarrow> (string \<times> string) list option" where
  "tenant_env_begin c now tenant cache =
     (if \<not> cp_enabled c then Some []
      else case map_of cache tenant of
        Some (env, fetched) \<Rightarrow> if f_le (f_sub now fetched) (tenant_ttl c) then Some env else None
      | None \<Rightarrow> None)"

definition credential_map :: "got \<Rightarrow> dict res" where
  "credential_map reply = rbind (read_reply reply) (\<lambda>v. rbind (vget v ''env'') (\<lambda>raw. case raw of
     JObj d \<Rightarrow> Inr d | _ \<Rightarrow> Inl (ValueError ''invalid credential map'')))"

definition tenant_env_path :: "int \<Rightarrow> string" where
  "tenant_env_path tenant = ''/internal/tenants/'' @ int_str tenant @ ''/provider-env''"

definition tenant_env_end ::
  "cp \<Rightarrow> pyfloat \<Rightarrow> ((string \<times> string) list \<times> pyfloat) option \<Rightarrow> got \<Rightarrow> int \<Rightarrow> env_cache
     \<Rightarrow> (string \<times> string) list res \<times> env_cache" where
  "tenant_env_end c now cached reply tenant cache = (case credential_map reply of
     Inl e \<Rightarrow>
       if plane_error e
       then (case cached of
           Some (env, fetched) \<Rightarrow>
             if f_le (f_sub now fetched) (f_add (tenant_ttl c) (tenant_grace c)) then (Inr env, cache) else (Inr [], cache)
         | None \<Rightarrow> (Inr [], cache))
       else (Inl e, cache)
   | Inr raw \<Rightarrow> let env = env_entries (\<lambda>n. n \<in> set (env_allowlist c)) raw in (Inr env, dset tenant (env, now) cache))"

text \<open>The credentials a request sees: a tenant's are a closed set, only the operator's calls read the process.\<close>

definition cp_env_get :: "(string \<times> string) list option \<Rightarrow> (string \<Rightarrow> string option) \<Rightarrow> string \<Rightarrow> string option" where
  "cp_env_get tenant process name = (case tenant of Some env \<Rightarrow> map_of env name | None \<Rightarrow> process name)"

definition validate_scope :: "jval \<Rightarrow> int \<Rightarrow> jval \<Rightarrow> jval \<Rightarrow> unit res" where
  "validate_scope data tenant project_id environment_id =
     raise_if (case data of
         JObj d \<Rightarrow> list_ex (\<lambda>p. dget d (fst p) \<noteq> snd p \<or> int_value (dget d (fst p)) = None)
           [(''scope_version'', JInt 2), (''tenant_id'', JInt tenant), (''project_id'', project_id), (''environment_id'', environment_id)]
       | _ \<Rightarrow> True)
       (ValueError ''Mismatched project/environment scope'')"

definition scope_path :: "int \<Rightarrow> jval \<Rightarrow> jval \<Rightarrow> string" where
  "scope_path tenant project_id environment_id =
     ''/internal/tenants/'' @ int_str tenant @ ''/projects/'' @ py_str project_id @ ''/environments/'' @ py_str environment_id"

definition scope_given :: "jval \<Rightarrow> jval \<Rightarrow> bool" where
  "scope_given project_id environment_id = (project_id \<noteq> JNull \<or> environment_id \<noteq> JNull)"

definition connection_scope :: "(string \<Rightarrow> bool) \<Rightarrow> jval \<Rightarrow> ((string \<times> string) list \<times> dict) res" where
  "connection_scope allowed data =
     rbind (vget data ''env'') (\<lambda>raw.
       case (raw, dget_or (obj_of data) ''connections'' (JObj [])) of
         (JObj env, JObj connections) \<Rightarrow> Inr (env_entries allowed env,
            filter (\<lambda>p. fst p \<in> {''bedrock'', ''antseed''} \<and> is_obj (snd p)) connections)
       | _ \<Rightarrow> Inl (ValueError ''invalid connection scope''))"

definition tenant_connections ::
  "(string \<Rightarrow> bool) \<Rightarrow> cp \<Rightarrow> control_plane \<Rightarrow> int \<Rightarrow> (string \<Rightarrow> bool) \<Rightarrow> jval \<Rightarrow> jval
     \<Rightarrow> ((string \<times> string) list \<times> dict) res" where
  "tenant_connections bracket_ok c plane tenant allowed project_id environment_id =
     (let scoped = scope_given project_id environment_id in
      if \<not> cp_enabled c
      then (if scoped then Inl (route_unavailable ''Scoped credentials unavailable.'') else Inr ([], []))
      else if scoped \<and> (\<not> strict_pos project_id \<or> \<not> strict_pos environment_id)
      then Inl (route_unavailable ''Invalid credential scope.'')
      else case rbind (read_reply (cp_get bracket_ok c plane
                  (if scoped then scope_path tenant project_id environment_id @ ''/provider-env'' else tenant_env_path tenant) []))
               (\<lambda>data. rbind (if scoped then validate_scope data tenant project_id environment_id else Inr ())
               (\<lambda>_. connection_scope allowed data)) of
          Inr out \<Rightarrow> Inr out
        | Inl e \<Rightarrow> if plane_error e
                   then (if scoped then Inl (route_unavailable ''Scoped credentials unavailable.'') else Inr ([], []))
                   else Inl e)"

section \<open>The limits of a key\<close>

definition subject_ok :: "string \<Rightarrow> bool" where
  "subject_ok s = (case s of
     kind # colon # d # ds \<Rightarrow> (kind = CHR ''g'' \<or> kind = CHR ''k'') \<and> colon = CHR '':''
       \<and> is_digit d \<and> d \<noteq> CHR ''0'' \<and> list_all is_digit ds \<and> length ds \<le> 17
   | _ \<Rightarrow> False)"

definition budget_text_ok :: "string \<Rightarrow> bool" where
  "budget_text_ok s =
     (let whole = takeWhile is_digit s; rest = drop (length whole) s in
      1 \<le> length whole \<and> length whole \<le> 12
      \<and> (rest = [] \<or> hd rest = CHR ''.'' \<and> list_all is_digit (tl rest) \<and> 1 \<le> length (tl rest) \<and> length (tl rest) \<le> 12))"

definition label_ok :: "string \<times> jval \<Rightarrow> bool" where
  "label_ok p = (case snd p of JStr v \<Rightarrow> fst p \<noteq> [] \<and> py_len (fst p) \<le> 64 \<and> py_len v \<le> 256 | _ \<Rightarrow> False)"

definition positive_or_none :: "jval \<Rightarrow> jval res" where
  "positive_or_none v = (if v = JNull then Inr JNull
     else if strict_pos v then Inr v else Inl (ValueError ''invalid limit''))"

definition parse_budget :: "jval \<Rightarrow> jval res" where
  "parse_budget v =
     (if v = JNull then Inr JNull
      else rbind (case v of
             JStr s \<Rightarrow> if budget_text_ok s then float_of_text s else Inl (ValueError ''invalid monthly budget'')
           | JInt i \<Rightarrow> rbind (py_isfinite v) (\<lambda>fin. if fin then float_of v else Inl (ValueError ''invalid monthly budget''))
           | JFloat f \<Rightarrow> rbind (py_isfinite v) (\<lambda>fin. if fin then float_of v else Inl (ValueError ''invalid monthly budget''))
           | _ \<Rightarrow> Inl (ValueError ''invalid monthly budget'')) (\<lambda>budget.
        if f_lt (Fin 0) budget then Inr (JFloat budget) else Inl (ValueError ''invalid monthly budget'')))"

definition dict_or_empty :: "exn \<Rightarrow> jval \<Rightarrow> dict res" where
  "dict_or_empty e v = (case v of JNull \<Rightarrow> Inr [] | JObj d \<Rightarrow> Inr d | _ \<Rightarrow> Inl e)"

definition parse_key_limits :: "dict \<Rightarrow> (jval \<times> jval) res" where
  "parse_key_limits data =
     (let key = dget data ''key''; limits = dget data ''limits'' in
      if key = JNull \<and> limits = JNull then Inr (JNull, JNull)
      else if \<not> is_obj key then Inl (ValueError ''limits without a key identity'')
      else let key_id = dget (obj_of key) ''id''; subject = dget (obj_of key) ''subject'' in
        rbind (raise_if (\<not> strict_pos key_id) (ValueError ''invalid key id'')) (\<lambda>_.
        rbind (raise_if (\<not> (is_str subject \<and> subject_ok (str_of subject))) (ValueError ''invalid key subject'')) (\<lambda>_.
        rbind (dict_or_empty (ValueError ''invalid key labels'') (dget (obj_of key) ''labels'')) (\<lambda>labels.
        rbind (raise_if (32 < length labels \<or> list_ex (\<lambda>p. \<not> label_ok p) labels) (ValueError ''invalid key labels'')) (\<lambda>_.
        rbind (dict_or_empty (ValueError ''invalid key limits'') limits) (\<lambda>lim.
        rbind (parse_budget (dget lim ''monthly_budget_usd'')) (\<lambda>budget.
        rbind (positive_or_none (dget lim ''rate_per_min'')) (\<lambda>rate.
        rbind (positive_or_none (dget lim ''burst'')) (\<lambda>burst.
        Inr (JObj [(''id'', key_id), (''subject'', subject), (''labels'', JObj labels)],
             JObj [(''monthly_budget_usd'', budget), (''rate_per_min'', rate), (''burst'', burst)]))))))))))"

section \<open>Published routes\<close>

text \<open>\<open>isinstance(revision, int)\<close> holds of a bool.\<close>

definition route_ok :: "dict \<Rightarrow> bool" where
  "route_ok d =
     (is_list (dget d ''policy_ir'') \<and> is_str (dget d ''policy_id'') \<and> py_len (str_of (dget d ''policy_id'')) = 64
      \<and> (case as_int (dget d ''revision'') of Some i \<Rightarrow> 0 < i | None \<Rightarrow> False)
      \<and> is_obj (dget_or d ''execution'' (JObj [])))"

definition read_route :: "jval \<Rightarrow> dict res" where
  "read_route data = (case data of
     JObj d \<Rightarrow> rbind (raise_if (\<not> route_ok d) (ValueError ''invalid route contract'')) (\<lambda>_.
       rbind (parse_key_limits d) (\<lambda>(key, limits). Inr (dset ''limits'' limits (dset ''key'' key d))))
   | _ \<Rightarrow> Inl (attr_err data ''get''))"

definition resolve_route ::
  "(string \<Rightarrow> bool) \<Rightarrow> cp \<Rightarrow> control_plane \<Rightarrow> int \<Rightarrow> string \<Rightarrow> jval \<Rightarrow> jval \<Rightarrow> string option \<Rightarrow> dict res" where
  "resolve_route bracket_ok c plane tenant name project_id environment_id key_digest =
     (let scoped = scope_given project_id environment_id;
          digest = (case key_digest of Some d \<Rightarrow> d | None \<Rightarrow> []) in
      case rbind (raise_if (scoped \<and> (\<not> strict_pos project_id \<or> \<not> strict_pos environment_id \<or> py_len digest \<noteq> 64))
                    (ValueError ''Invalid route scope'')) (\<lambda>_.
           rbind (read_reply (cp_get bracket_ok c plane
                ((if scoped then scope_path tenant project_id environment_id else ''/internal/tenants/'' @ int_str tenant)
                   @ ''/routes/'' @ name)
                (if scoped then [(''key_sha256'', digest), (''automatic_version'', ''1'')] else []))) (\<lambda>data.
           rbind (if scoped then validate_scope data tenant project_id environment_id else Inr ()) (\<lambda>_.
           read_route data))) of
        Inr d \<Rightarrow> Inr d
      | Inl e \<Rightarrow> Inl (if plane_error e
                     then route_unavailable ''This route is unavailable or has not been published.'' else e))"

section \<open>What a response may do\<close>

lemma validate_scope_own:
  assumes "validate_scope data tenant p e = Inr u"
  shows "\<exists>d. data = JObj d \<and> dget d ''scope_version'' = JInt 2 \<and> dget d ''tenant_id'' = JInt tenant
    \<and> dget d ''project_id'' = p \<and> dget d ''environment_id'' = e"
  using assms by (cases data) (auto simp: validate_scope_def res_simps)

lemma env_entries_allowed: "(n, s) \<in> set (env_entries allowed raw) \<Longrightarrow> allowed n \<and> s \<noteq> [] \<and> (n, JStr s) \<in> set raw"
  by (auto simp: env_entries_def env_entry_def List.map_filter_def split: jval.splits if_splits)

text \<open>What a scoped route answers is about this tenant, this project and this environment.\<close>

lemma read_route_fields:
  assumes "read_route (JObj d) = Inr out"
  shows "route_ok d \<and> (\<exists>key limits. parse_key_limits d = Inr (key, limits) \<and> out = dset ''limits'' limits (dset ''key'' key d))"
  using assms by (auto simp: read_route_def res_simps)

lemma scoped_route_own:
  assumes given: "scope_given p e" and ok: "resolve_route bracket_ok c plane tenant name p e digest = Inr d"
  shows "dget d ''tenant_id'' = JInt tenant \<and> dget d ''project_id'' = p \<and> dget d ''environment_id'' = e
      \<and> strict_pos p \<and> strict_pos e \<and> (\<exists>i. as_int (dget d ''revision'') = Some i \<and> 0 < i)"
proof -
  from assms obtain data where pos: "strict_pos p" "strict_pos e" and scope: "validate_scope data tenant p e = Inr ()"
    and route: "read_route data = Inr d"
    by (auto simp: resolve_route_def Let_def res_simps split: sum.splits if_splits)
  from validate_scope_own [OF scope] obtain r where r: "data = JObj r" "dget r ''tenant_id'' = JInt tenant"
    "dget r ''project_id'' = p" "dget r ''environment_id'' = e" by blast
  from read_route_fields [OF route [unfolded r(1)]] obtain key limits where
    ok: "route_ok r" and d: "d = dset ''limits'' limits (dset ''key'' key r)" by blast
  from ok have "\<exists>i. as_int (dget r ''revision'') = Some i \<and> 0 < i" by (auto simp: route_ok_def split: option.splits)
  with pos r show ?thesis by (simp add: d dget_dset)
qed

lemma connection_scope_env:
  assumes "connection_scope allowed data = Inr (env, connections)"
  shows "\<exists>raw. env = env_entries allowed raw"
proof -
  from assms obtain raw where "(case (raw, dget_or (obj_of data) ''connections'' (JObj [])) of
      (JObj env, JObj connections) \<Rightarrow> Inr (env_entries allowed env, filter (\<lambda>p. fst p \<in> {''bedrock'', ''antseed''} \<and> is_obj (snd p)) connections)
    | _ \<Rightarrow> Inl (ValueError ''invalid connection scope'')) = Inr (env, connections)"
    by (auto simp only: connection_scope_def rbind_eq_Inr)
  then show ?thesis
    by (cases raw; cases "dget_or (obj_of data) ''connections'' (JObj [])") auto
qed

lemma scoped_credentials_own:
  assumes given: "scope_given p e"
    and ok: "tenant_connections bracket_ok c plane tenant allowed p e = Inr (env, connections)"
  shows "strict_pos p \<and> strict_pos e \<and> (\<forall>(n, s)\<in>set env. allowed n \<and> s \<noteq> [])
      \<and> (\<exists>code d. cp_get bracket_ok c plane (scope_path tenant p e @ ''/provider-env'') [] = Got code (Inr (JObj d))
           \<and> dget d ''tenant_id'' = JInt tenant \<and> dget d ''project_id'' = p \<and> dget d ''environment_id'' = e)"
proof -
  let ?reply = "cp_get bracket_ok c plane (scope_path tenant p e @ ''/provider-env'') []"
  from assms obtain data where pos: "strict_pos p" "strict_pos e" and read: "read_reply ?reply = Inr data"
    and scope: "validate_scope data tenant p e = Inr ()" and conn: "connection_scope allowed data = Inr (env, connections)"
    by (auto simp: tenant_connections_def Let_def res_simps split: sum.splits if_splits)
  from validate_scope_own [OF scope] obtain r where r: "data = JObj r" "dget r ''tenant_id'' = JInt tenant"
    "dget r ''project_id'' = p" "dget r ''environment_id'' = e" by blast
  from read obtain code where "?reply = Got code (Inr data)"
    by (auto simp: read_reply_def split: got.splits if_splits)
  moreover have "\<forall>(n, s)\<in>set env. allowed n \<and> s \<noteq> []"
    using connection_scope_env [OF conn] env_entries_allowed by blast
  ultimately show ?thesis using pos r by auto
qed

text \<open>
  C9. A response about another workspace is never used. With a project or an environment given, a route that is resolved
  and credentials that are returned come from a response that names exactly this tenant, project and environment; the route has a
  positive revision, and the credentials are non-empty texts under allowed names.
\<close>

theorem scoped_answer_is_own:
  assumes given: "scope_given p e"
  shows "(resolve_route bracket_ok c plane tenant name p e digest = Inr d \<longrightarrow>
      dget d ''tenant_id'' = JInt tenant \<and> dget d ''project_id'' = p \<and> dget d ''environment_id'' = e
      \<and> strict_pos p \<and> strict_pos e \<and> (\<exists>i. as_int (dget d ''revision'') = Some i \<and> 0 < i))
    \<and> (tenant_connections bracket_ok c plane tenant allowed p e = Inr (env, connections) \<longrightarrow>
      strict_pos p \<and> strict_pos e \<and> (\<forall>(n, s)\<in>set env. allowed n \<and> s \<noteq> [])
      \<and> (\<exists>code d. cp_get bracket_ok c plane (scope_path tenant p e @ ''/provider-env'') [] = Got code (Inr (JObj d))
           \<and> dget d ''tenant_id'' = JInt tenant \<and> dget d ''project_id'' = p \<and> dget d ''environment_id'' = e))"
  using scoped_route_own [OF given, of bracket_ok c plane tenant name digest d]
    scoped_credentials_own [OF given, of bracket_ok c plane tenant allowed env connections] by blast

definition demo_route :: dict where
  "demo_route = [(''scope_version'', JInt 2), (''tenant_id'', JInt 7), (''project_id'', JInt 3), (''environment_id'', JInt 4),
     (''policy_ir'', JList []), (''policy_id'', JStr (replicate 64 (CHR ''a''))), (''revision'', JInt 5),
     (''env'', JObj [(''OPENAI_API_KEY'', JStr ''k''), (''PATH'', JStr ''x'')])]"

definition demo_plane :: control_plane where
  "demo_plane url params headers = Got 200 (Inr (JObj demo_route))"

lemma demo_transport: "cp_get (\<lambda>_. False) demo_cp demo_plane path params = Got 200 (Inr (JObj demo_route))"
proof -
  have "trusted_transport_ok (\<lambda>_. False) demo_cp (cp_url demo_cp)" by code_simp
  then show ?thesis by (simp add: cp_get_def demo_plane_def)
qed

lemma demo_enabled: "cp_enabled demo_cp"
  by (simp add: cp_enabled_def demo_cp_def)

theorem scoped_answer_is_own_witness:
  "(\<exists>d. resolve_route (\<lambda>_. False) demo_cp demo_plane 7 ''production'' (JInt 3) (JInt 4) (Some (replicate 64 (CHR ''0''))) = Inr d
      \<and> dget d ''tenant_id'' = JInt 7 \<and> dget d ''project_id'' = JInt 3)
   \<and> tenant_connections (\<lambda>_. False) demo_cp demo_plane 7 (\<lambda>n. n = ''OPENAI_API_KEY'') (JInt 3) (JInt 4)
      = Inr ([(''OPENAI_API_KEY'', ''k'')], []) \<and> strict_pos (JInt 3)"
proof -
  have given: "scope_given (JInt 3) (JInt 4)" by (simp add: scope_given_def)
  have len: "py_len (replicate 64 (CHR ''0'')) = 64" "py_len (replicate 64 (CHR ''a'')) = 64" by code_simp+
  have "\<exists>d. resolve_route (\<lambda>_. False) demo_cp demo_plane 7 ''production'' (JInt 3) (JInt 4) (Some (replicate 64 (CHR ''0''))) = Inr d"
    by (simp add: resolve_route_def demo_transport given strict_pos_def len read_reply_def validate_scope_def demo_route_def
        int_value_def read_route_def route_ok_def parse_key_limits_def dget_or_def)
  moreover have "tenant_connections (\<lambda>_. False) demo_cp demo_plane 7 (\<lambda>n. n = ''OPENAI_API_KEY'') (JInt 3) (JInt 4)
      = Inr ([(''OPENAI_API_KEY'', ''k'')], [])"
    by (simp add: tenant_connections_def demo_transport demo_enabled given strict_pos_def read_reply_def validate_scope_def demo_route_def
        int_value_def connection_scope_def vget_def dget_or_def env_entries_def env_entry_def List.map_filter_def)
  ultimately show ?thesis
    using scoped_answer_is_own [OF given, of "\<lambda>_. False" demo_cp demo_plane 7 "''production''" "Some (replicate 64 (CHR ''0''))"
        _ "\<lambda>n. n = ''OPENAI_API_KEY''" "[(''OPENAI_API_KEY'', ''k'')]" "[]"]
    by blast
qed

text \<open>
  The credentials of a tenant are what its map has under allowed names, or, when the map could not be read, the last
  ones within the grace, or none; the process is not asked.
\<close>

lemma tenant_env_closed:
  assumes "tenant_env_end c now cached reply tenant cache = (Inr env, cache')"
  shows "env = []
    \<or> (\<exists>fetched. cached = Some (env, fetched) \<and> f_le (f_sub now fetched) (f_add (tenant_ttl c) (tenant_grace c)))
    \<or> (\<exists>raw. credential_map reply = Inr raw \<and> (\<forall>(n, s)\<in>set env. n \<in> set (env_allowlist c) \<and> s \<noteq> [] \<and> (n, JStr s) \<in> set raw))"
  using assms by (auto simp: tenant_env_end_def Let_def dest: env_entries_allowed split: sum.splits option.splits if_splits prod.splits)

lemma tenant_credential_own: "cp_env_get (Some env) process n = Some s \<Longrightarrow> (n, s) \<in> set env"
  by (auto simp: cp_env_get_def dest: map_of_SomeD)

section \<open>Limits fail closed\<close>

lemma positive_or_none_same: "positive_or_none v = Inr w \<Longrightarrow> w = v \<and> (v = JNull \<or> strict_pos v)"
  by (auto simp: positive_or_none_def split: if_splits)

lemma parse_budget_kept:
  assumes "parse_budget v = Inr w" and "v \<noteq> JNull"
  shows "\<exists>f. w = JFloat f \<and> float_of v = Inr f \<and> f_lt (Fin 0) f \<and> (if is_str v then budget_text_ok (str_of v) else f_finite f)"
proof (cases v)
  case (JStr s)
  with assms show ?thesis by (auto simp: parse_budget_def res_simps float_of_def split: if_splits)
next
  case (JFloat f)
  with assms show ?thesis by (auto simp: parse_budget_def res_simps float_of_def py_isfinite_def split: if_splits)
next
  case (JInt i)
  with assms show ?thesis by (auto simp: parse_budget_def res_simps float_of_def py_isfinite_def float_of_int_def split: if_splits)
qed (use assms in \<open>auto simp: parse_budget_def\<close>)

lemma dict_or_empty_obj: "dict_or_empty e v = Inr d \<Longrightarrow> d = obj_of v \<and> (v = JNull \<or> is_obj v)"
  by (cases v) (auto simp: dict_or_empty_def)


definition demo_limits :: dict where
  "demo_limits = [(''key'', JObj [(''id'', JInt 9), (''subject'', JStr ''g:12'')]),
     (''limits'', JObj [(''monthly_budget_usd'', JInt 40), (''burst'', JInt 5)])]"


end
