(* ===== verification/CallerAuth.thy ===== *)
theory CallerAuth
  imports RouteScope Budgets JsonText
begin

text \<open>
  \<open>auth_proxy.py\<close>, who calls: the records of the consumers and their normalisation, the authentication of a token
  against the local stores and then the control plane, the path that may be forwarded and the routes a consumer may use.
  SHA-256 is an argument; a body is UTF-8 text; the clock is in whole seconds where the code truncates it.
\<close>

section \<open>Configuration and records\<close>

text \<open>The maps of the environment, from tokens and from digests to consumers, and the defaults.\<close>

record auth_config =
  caller_keys :: "(string \<times> string) list"
  caller_key_hashes :: "(string \<times> string) list"
  caller_prefix :: string
  default_rate :: int
  default_burst :: int
  sha256 :: "string \<Rightarrow> string"

record key_record =
  kr_prefix :: string
  kr_status :: string
  kr_created :: "int option"
  kr_viewer :: "string option"
  kr_expires :: "int option"
  kr_revoked :: "int option"
  kr_replaced :: "int option"
  kr_storage :: "string option"

record consumer_meta =
  cm_status :: string
  cm_routes :: "string list"
  cm_rate :: "int option"
  cm_burst :: "int option"
  cm_batch :: "string option"
  cm_member :: "string option"
  cm_budget :: "pyfloat option"
  cm_keys :: "key_record list"
  cm_updated :: int

section \<open>Normalisation\<close>

definition absent :: "jval \<Rightarrow> bool" where
  "absent v = (v = JNull \<or> v = JStr [])"

definition optional_int :: "int \<Rightarrow> int option \<Rightarrow> jval \<Rightarrow> int option res" where
  "optional_int min_value max_value v =
     (if absent v then Inr None
      else case int_of v of
        Inl (TypeError _) \<Rightarrow> Inr None | Inl (ValueError _) \<Rightarrow> Inr None | Inl e \<Rightarrow> Inl e
      | Inr i \<Rightarrow> Inr (Some (max min_value (case max_value of None \<Rightarrow> i | Some m \<Rightarrow> min m i))))"

definition optional_float :: "rat \<Rightarrow> jval \<Rightarrow> pyfloat option res" where
  "optional_float min_value v =
     (if absent v then Inr None
      else case float_of v of
        Inl (TypeError _) \<Rightarrow> Inr None | Inl (ValueError _) \<Rightarrow> Inr None | Inl e \<Rightarrow> Inl e
      | Inr x \<Rightarrow> Inr (if f_le (Fin (fl min_value)) x \<and> f_le x (Fin 1000000) then Some (round_6 x) else None))"

definition space_or_comma :: "string \<Rightarrow> bool" where
  "space_or_comma c = (c = '','' \<or> c \<in> set py_spaces)"

text \<open>The pieces between separators; empty ones are dropped by the reader anyway.\<close>

fun split_blank :: "string list \<Rightarrow> string \<Rightarrow> string list" where
  "split_blank [] word = [word]"
| "split_blank (c # cs) word = (if space_or_comma c then word # split_blank cs [] else split_blank cs (word @ c))"

definition route_step :: "string \<Rightarrow> string list \<Rightarrow> string list" where
  "route_step item out = (let route = py_strip item in
     if route \<noteq> [] \<and> py_len route \<le> 160 \<and> route \<notin> set out then out @ [route] else out)"

definition clean_route_list :: "jval \<Rightarrow> string list" where
  "clean_route_list v =
     (let items = (case v of JStr s \<Rightarrow> if s = [] then [] else split_blank (utf8_chars s) [] | JList xs \<Rightarrow> map py_str xs | _ \<Rightarrow> [])
      in fold route_step items [])"

definition lower_hex :: "char \<Rightarrow> bool" where
  "lower_hex c = (c \<in> set ''0123456789abcdef'')"

text \<open>\<open>str(x.get(k) or d)\<close>.\<close>

definition text_or :: "dict \<Rightarrow> string \<Rightarrow> string \<Rightarrow> string" where
  "text_or d k dflt = py_str (py_or (dget d k) (JStr dflt))"

definition normalize_key_record :: "jval \<Rightarrow> key_record option res" where
  "normalize_key_record v = (case v of
     JObj d \<Rightarrow> (let prefix = ascii_lower (py_strip (text_or d ''sha256_prefix'' []));
                  status = ascii_lower (py_strip (text_or d ''status'' ''active'')) in
       if \<not> (8 \<le> length prefix \<and> length prefix \<le> 64 \<and> list_all lower_hex prefix) then Inr None
       else rbind (optional_int 0 None (dget d ''created_at'')) (\<lambda>created.
            rbind (optional_int 0 None (dget d ''expires_at'')) (\<lambda>expires.
            rbind (optional_int 0 None (dget d ''revoked_at'')) (\<lambda>revoked.
            rbind (optional_int 0 None (dget d ''replaced_at'')) (\<lambda>replaced.
            Inr (Some \<lparr>kr_prefix = prefix, kr_status = (if status \<in> {''active'', ''revoked''} then status else ''revoked''),
                 kr_created = created, kr_viewer = nonempty (py_take 80 (text_or d ''viewer'' [])), kr_expires = expires,
                 kr_revoked = revoked, kr_replaced = replaced, kr_storage = None\<rparr>))))))
   | _ \<Rightarrow> Inr None)"

definition inactive_meta :: "int \<Rightarrow> consumer_meta" where
  "inactive_meta now = \<lparr>cm_status = ''inactive'', cm_routes = [], cm_rate = None, cm_burst = None, cm_batch = None,
     cm_member = None, cm_budget = None, cm_keys = [], cm_updated = now\<rparr>"

definition config_key :: "string \<Rightarrow> string \<Rightarrow> key_record" where
  "config_key digest storage = \<lparr>kr_prefix = py_take 12 digest, kr_status = ''active'', kr_created = None, kr_viewer = None,
     kr_expires = None, kr_revoked = None, kr_replaced = None, kr_storage = Some storage\<rparr>"

definition add_config_key :: "string \<Rightarrow> string \<times> string \<Rightarrow> key_record list \<Rightarrow> key_record list" where
  "add_config_key storage p ks =
     (if list_ex (\<lambda>k. prefix_of (kr_prefix k) (fst p)) ks then ks else ks @ [config_key (fst p) storage])"

definition with_config_keys :: "auth_config \<Rightarrow> string \<Rightarrow> key_record list \<Rightarrow> key_record list" where
  "with_config_keys a consumer ks =
     fold (add_config_key ''CALLER_KEYS_SHA256_JSON'') (filter (\<lambda>p. snd p = consumer) (caller_key_hashes a))
       (fold (add_config_key ''CALLER_KEYS_JSON'') (map (\<lambda>p. (sha256 a (fst p), snd p)) (filter (\<lambda>p. snd p = consumer) (caller_keys a))) ks)"

text \<open>The keys of a record up to the first malformed one, which leaves none.\<close>

fun normalize_keys :: "jval list \<Rightarrow> key_record list option res" where
  "normalize_keys [] = Inr (Some [])"
| "normalize_keys (x # xs) = rbind (normalize_key_record x) (\<lambda>k. case k of
     None \<Rightarrow> Inr None
   | Some k \<Rightarrow> rbind (normalize_keys xs) (\<lambda>ks. Inr (map_option ((#) k) ks)))"

text \<open>A malformed key makes the consumer inactive; the shape of one record with its prefix on top is the older one.\<close>

definition normalize_consumer_record :: "auth_config \<Rightarrow> int \<Rightarrow> string \<Rightarrow> jval \<Rightarrow> consumer_meta res" where
  "normalize_consumer_record a now consumer v =
     (case (case v of JNull \<Rightarrow> JObj [] | _ \<Rightarrow> v) of
        JObj d \<Rightarrow> (let status = ascii_lower (py_strip (text_or d ''status'' ''active'')); listed = dget_or d ''keys'' (JList []) in
          if \<not> is_list listed then Inr (inactive_meta now)
          else rbind (normalize_keys (list_of listed)) (\<lambda>normalized. case normalized of
            None \<Rightarrow> Inr (inactive_meta now)
          | Some own \<Rightarrow> rbind (normalize_key_record (JObj d)) (\<lambda>legacy.
            let ks = (case legacy of Some k \<Rightarrow> if kr_prefix k \<in> kr_prefix ` set own then own else own @ [k] | None \<Rightarrow> own)
            in rbind (optional_int 1 (Some 1000000) (dget d ''rate_per_min'')) (\<lambda>rate.
               rbind (optional_int 1 (Some 1000000) (dget d ''burst'')) (\<lambda>burst.
               rbind (optional_float (1 / 100) (dget d ''budget_usd'')) (\<lambda>budget.
               rbind (optional_int 0 (Some 1000000) (dget d ''updated_at'')) (\<lambda>updated.
               Inr \<lparr>cm_status = (if status \<in> {''active'', ''inactive''} then status else ''inactive''),
                    cm_routes = clean_route_list (dget d ''allowed_routes''), cm_rate = rate, cm_burst = burst,
                    cm_batch = nonempty (py_take 80 (py_strip (text_or d ''batch'' []))),
                    cm_member = nonempty (py_take 16 (py_strip (text_or d ''member_id'' []))),
                    cm_budget = budget, cm_keys = with_config_keys a consumer ks,
                    cm_updated = (case updated of Some u \<Rightarrow> if u \<noteq> 0 then u else now | None \<Rightarrow> now)\<rparr>)))))))
      | _ \<Rightarrow> Inr (inactive_meta now))"

text \<open>All consumers the host knows, and the record of one of them.\<close>

definition consumer_names :: "auth_config \<Rightarrow> dict \<Rightarrow> string list" where
  "consumer_names a issued = remdups (map snd (caller_keys a) @ map snd (caller_key_hashes a) @ keys issued)"

definition issued_consumer_records :: "auth_config \<Rightarrow> int \<Rightarrow> dict \<Rightarrow> (string \<times> consumer_meta) list res" where
  "issued_consumer_records a now issued =
     rmap (\<lambda>name. rbind (normalize_consumer_record a now name (dget issued name)) (\<lambda>m. Inr (name, m))) (consumer_names a issued)"

definition consumer_meta_of :: "auth_config \<Rightarrow> int \<Rightarrow> dict \<times> bool \<Rightarrow> string \<Rightarrow> consumer_meta res" where
  "consumer_meta_of a now read consumer = (case read of (issued, loaded) \<Rightarrow>
     rbind (issued_consumer_records a now issued) (\<lambda>records.
     if \<not> loaded
     then rbind (normalize_consumer_record a now consumer (JObj [])) (\<lambda>m. Inr (m\<lparr>cm_status := ''inactive''\<rparr>))
     else case map_of records consumer of Some m \<Rightarrow> Inr m | None \<Rightarrow> normalize_consumer_record a now consumer (JObj [])))"

section \<open>The store\<close>

text \<open>Each read comes with whether the store answered.\<close>

definition consumer_for_digest :: "bool \<Rightarrow> (string \<times> string) list \<Rightarrow> string \<Rightarrow> string option \<times> bool" where
  "consumer_for_digest up rows digest0 =
     (let digest = ascii_lower (py_strip digest0) in
      if \<not> (length digest = 64 \<and> list_all lower_hex digest) then (None, True)
      else if up then (map_of rows digest, True) else (None, False))"

definition get_consumer_key :: "bool \<Rightarrow> (string \<times> string) list \<Rightarrow> string \<Rightarrow> jval \<times> bool" where
  "get_consumer_key up rows consumer =
     (if \<not> up then (JNull, False)
      else case map_of rows consumer of
        None \<Rightarrow> (JNull, True)
      | Some text \<Rightarrow> (case json_loads default_hook text of Inl e \<Rightarrow> (JNull, False) | Inr v \<Rightarrow> (v, True)))"

section \<open>Authentication\<close>

record auth_result =
  a_ok :: bool
  a_caller :: "string option"
  a_digest :: "string option"
  a_storage :: "string option"
  a_error :: "string option"
  a_meta :: "consumer_meta option"
  a_tenant :: "int option"
  a_scope :: "(int option \<times> int option) option"

definition no_auth :: auth_result where
  "no_auth = \<lparr>a_ok = False, a_caller = None, a_digest = None, a_storage = None, a_error = Some ''caller_auth'', a_meta = None,
     a_tenant = None, a_scope = None\<rparr>"

definition refuse :: "string option \<Rightarrow> string \<Rightarrow> string option \<Rightarrow> string \<Rightarrow> auth_result" where
  "refuse caller digest storage code =
     no_auth\<lparr>a_caller := caller, a_digest := Some digest, a_storage := storage, a_error := Some code\<rparr>"

definition extract_token :: "string option \<Rightarrow> string option" where
  "extract_token header = (let auth = (case header of None \<Rightarrow> [] | Some s \<Rightarrow> s) in
     if prefix_of ''bearer '' (ascii_lower auth) then Some (py_strip (drop 7 auth)) else None)"

definition key_verdict :: "int \<Rightarrow> key_record \<Rightarrow> string option" where
  "key_verdict now k =
     (if kr_status k = ''revoked'' then Some ''caller_key_revoked''
      else case kr_expires k of
        Some t \<Rightarrow> if t \<noteq> 0 \<and> t \<le> now then Some ''caller_key_expired'' else None | None \<Rightarrow> None)"

text \<open>\<open>None\<close>: the key may be used. Keys that are not listed are allowed.\<close>

definition key_record_allows :: "int \<Rightarrow> string \<Rightarrow> consumer_meta \<Rightarrow> string option" where
  "key_record_allows now digest m =
     (case List.map_filter (key_verdict now) (filter (\<lambda>k. prefix_of (kr_prefix k) digest) (cm_keys m)) of
        [] \<Rightarrow> None | code # _ \<Rightarrow> Some code)"

definition truthy_text :: "string option \<Rightarrow> string option" where
  "truthy_text s = (case s of Some (c # cs) \<Rightarrow> s | _ \<Rightarrow> None)"

lemma truthy_text_Some [simp]: "truthy_text s = Some t \<longleftrightarrow> s = Some t \<and> t \<noteq> []"
  by (cases s; cases "the s") (auto simp: truthy_text_def)

lemma truthy_text_None [simp]: "truthy_text s = None \<longleftrightarrow> s = None \<or> s = Some []"
  by (cases s; cases "the s") (auto simp: truthy_text_def)

definition known_caller ::
  "auth_config \<Rightarrow> (string \<Rightarrow> string option \<times> bool) \<Rightarrow> string \<Rightarrow> string \<Rightarrow> (string \<times> string) option \<times> bool" where
  "known_caller a by_digest token digest =
     (case truthy_text (map_of (caller_keys a) token) of
        Some c \<Rightarrow> (Some (c, ''CALLER_KEYS_JSON''), True)
      | None \<Rightarrow> (case truthy_text (map_of (caller_key_hashes a) digest) of
          Some c \<Rightarrow> (Some (c, ''CALLER_KEYS_SHA256_JSON''), True)
        | None \<Rightarrow> (case by_digest digest of
            (_, False) \<Rightarrow> (None, False)
          | (found, True) \<Rightarrow> (map_option (\<lambda>c. (c, ''host_store'')) (truthy_text found), True))))"

definition caller_auth ::
  "auth_config \<Rightarrow> int \<Rightarrow> (string \<Rightarrow> string option \<times> bool) \<Rightarrow> (string \<Rightarrow> jval \<times> bool) \<Rightarrow> string option \<Rightarrow> auth_result res" where
  "caller_auth a now by_digest record_of token0 = (case truthy_text token0 of
     None \<Rightarrow> Inr no_auth
   | Some token \<Rightarrow> (let digest = sha256 a token in
       case known_caller a by_digest token digest of
         (_, False) \<Rightarrow> Inr (refuse None digest None ''caller_auth_unavailable'')
       | (None, True) \<Rightarrow> Inr no_auth
       | (Some (caller, storage), True) \<Rightarrow>
           (case record_of caller of
              (_, False) \<Rightarrow> Inr (refuse (Some caller) digest (Some storage) ''caller_auth_unavailable'')
            | (issued, True) \<Rightarrow> rbind (normalize_consumer_record a now caller issued) (\<lambda>m.
                if cm_status m \<noteq> ''active'' then Inr (refuse (Some caller) digest (Some storage) ''caller_inactive'')
                else case key_record_allows now digest m of
                  Some code \<Rightarrow> Inr (refuse (Some caller) digest (Some storage) code)
                | None \<Rightarrow> Inr (no_auth\<lparr>a_ok := True, a_caller := Some caller, a_digest := Some digest,
                    a_storage := Some storage, a_error := None, a_meta := Some m\<rparr>)))))"

text \<open>Whether a local consumer with keys of its own already has the name of a tenant.\<close>

definition name_taken :: "auth_config \<Rightarrow> string \<Rightarrow> consumer_meta \<Rightarrow> bool" where
  "name_taken a caller m = (cm_keys m \<noteq> [] \<or> caller \<in> snd ` set (caller_keys a) \<or> caller \<in> snd ` set (caller_key_hashes a))"

definition cp_auth :: "auth_config \<Rightarrow> string \<Rightarrow> consumer_meta \<Rightarrow> string \<Rightarrow> resolved_key \<Rightarrow> auth_result" where
  "cp_auth a caller m digest k =
     (if name_taken a caller m then refuse (Some caller) digest (Some ''control_plane'') ''caller_name_collision''
      else if cm_status m \<noteq> ''active'' then refuse (Some caller) digest (Some ''control_plane'') ''caller_inactive''
      else no_auth\<lparr>a_ok := True, a_caller := Some caller, a_digest := Some digest, a_storage := Some ''control_plane'',
        a_error := None,
        a_meta := Some (m\<lparr>cm_rate := (if cm_rate m = None then rk_rate k else cm_rate m),
                          cm_burst := (if cm_burst m = None then rk_burst k else cm_burst m)\<rparr>),
        a_tenant := rk_tenant k,
        a_scope := (if rk_version k = 2 then Some (rk_project k, rk_environment k) else None)\<rparr>)"

text \<open>\<open>resolved\<close> is what \<open>resolve_key\<close> returns for the digest, \<open>all_records\<close> the read of the records after it.\<close>

definition caller_auth_async ::
  "auth_config \<Rightarrow> int \<Rightarrow> (string \<Rightarrow> string option \<times> bool) \<Rightarrow> (string \<Rightarrow> jval \<times> bool) \<Rightarrow> bool
     \<Rightarrow> (string \<Rightarrow> resolved_key option res) \<Rightarrow> dict \<times> bool \<Rightarrow> string option \<Rightarrow> auth_result res" where
  "caller_auth_async a now by_digest record_of plane_enabled resolved all_records token0 =
     rbind (caller_auth a now by_digest record_of token0) (\<lambda>auth.
     if a_ok auth \<or> truthy_text (a_caller auth) \<noteq> None \<or> truthy_text token0 = None \<or> \<not> plane_enabled then Inr auth
     else let digest = sha256 a (the token0) in
       rbind (resolved digest) (\<lambda>found. case found of
         None \<Rightarrow> Inr auth
       | Some k \<Rightarrow> (case (rk_active k, truthy_text (rk_consumer k)) of
           (True, Some consumer) \<Rightarrow>
             let caller = caller_prefix a @ consumer in
             rbind (consumer_meta_of a now all_records caller) (\<lambda>m. Inr (cp_auth a caller m digest k))
         | _ \<Rightarrow> Inr auth)))"

section \<open>Paths and routes\<close>

definition segment_char :: "char \<Rightarrow> bool" where
  "segment_char c = (ascii_alpha c \<or> is_digit c \<or> c \<in> set ''_.:@+~-'')"

definition profile_char :: "char \<Rightarrow> bool" where
  "profile_char c = (ascii_alpha c \<or> is_digit c \<or> c \<in> set ''_-'')"

definition segment_ok :: "string \<Rightarrow> bool" where
  "segment_ok s = (s \<noteq> ''.'' \<and> s \<noteq> ''..'' \<and> s \<noteq> [] \<and> list_all segment_char s)"

definition consumer_surface :: "string list \<Rightarrow> bool" where
  "consumer_surface segs =
     (case segs of
        first # second # rest \<Rightarrow> first = ''v1'' \<or> first = ''api''
          \<or> rest \<noteq> [] \<and> second = ''v1'' \<and> first \<noteq> ''x'' \<and> first \<noteq> [] \<and> list_all profile_char first \<and> length first \<le> 64
      | _ \<Rightarrow> False)"

definition proxy_path :: "string \<Rightarrow> string \<Rightarrow> string option" where
  "proxy_path raw_path path =
     (let raw = ascii_lower (fst (partition_at (CHR ''?'') raw_path)); segs = tl (split_on (CHR ''/'') path) in
      if contains ''%2f'' raw \<or> contains ''%5c'' raw \<or> CHR 0x5C \<in> set raw then None
      else if segs = [] \<or> \<not> list_all segment_ok segs then None
      else if consumer_surface segs then Some (join ''/'' segs) else None)"

definition strip_slashes :: "string \<Rightarrow> string" where
  "strip_slashes s = rev (dropWhile (\<lambda>c. c = CHR ''/'') (rev (dropWhile (\<lambda>c. c = CHR ''/'') s)))"

definition body_route :: "string \<Rightarrow> jval" where
  "body_route body = (case json_loads default_hook body of
     Inr (JObj d) \<Rightarrow> py_or (dget d ''model'') (dget d ''name'') | _ \<Rightarrow> JNull)"

definition requested_route_from :: "string \<Rightarrow> string \<Rightarrow> string option" where
  "requested_route_from path body =
     (let given = (if body = [] then JNull else body_route body);
          parts = filter (\<lambda>p. p \<noteq> []) (split_on (CHR ''/'') (strip_slashes path));
          profiled = (if 3 \<le> length parts \<and> tl parts = [''v1'', ''chat'', ''completions''] \<and> hd parts \<noteq> ''v1''
                      then py_or given (JStr (''profile:'' @ hd parts)) else given);
          defaulted = (if \<not> truthy profiled \<and> parts \<in> {[''v1'', ''chat'', ''completions''], [''v1'', ''responses'']}
                       then JStr ''profile:default'' else profiled);
          route = (if \<not> truthy defaulted \<and> parts \<in> {[''v1'', ''decisions''], [''v1'', ''systemone'']}
                   then JStr ''policy:decisions'' else defaulted)
      in if truthy route then Some (py_strip (py_str route)) else None)"

definition route_matches :: "string \<Rightarrow> string \<Rightarrow> bool" where
  "route_matches pattern0 route =
     (let pattern = py_strip pattern0 in
      pattern = ''*'' \<or> pattern = ''all'' \<or> pattern = route
      \<or> pattern \<noteq> [] \<and> last pattern = CHR ''*'' \<and> prefix_of (butlast pattern) route)"

definition route_allowed :: "consumer_meta \<Rightarrow> string option \<Rightarrow> bool" where
  "route_allowed m route =
     (if cm_routes m = [] then True
      else case truthy_text route of None \<Rightarrow> False | Some r \<Rightarrow> list_ex (\<lambda>p. route_matches p r) (cm_routes m))"

section \<open>Only the consumer surface is forwarded\<close>

lemma split_on_join:
  assumes "ws \<noteq> []" and "\<forall>w\<in>set ws. d \<notin> set w"
  shows "split_on d (join [d] ws) = ws"
  using assms
proof (induction ws rule: induct_list012)
  case (2 w)
  then have "d \<notin> set w" by simp
  then show ?case by (induction w) (auto split: list.splits)
next
  case (3 w v vs)
  have "split_on d (a @ d # b) = a # split_on d b" if "d \<notin> set a" for a b
    using that by (induction a) auto
  with 3 show ?case by simp
qed simp

lemma segment_no_slash: "segment_ok s \<Longrightarrow> CHR ''/'' \<notin> set s"
  by (auto simp: segment_ok_def segment_char_def ascii_alpha_def is_digit_def list_all_iff Let_def)

text \<open>
  C11. A forwarded path stays on the consumer API. If a request is forwarded at all, the segments of the path that goes
  out are exactly those of the decoded path of the request: none is empty, \<open>.\<close> or \<open>..\<close>, none holds a slash,
  a backslash, a percent sign or a query, and the first is \<open>v1\<close> or \<open>api\<close>, or a profile other than \<open>x\<close> before
  \<open>v1\<close>; so the router never reads it as its internal API.
\<close>

theorem proxy_path_stays_on_surface:
  assumes "proxy_path raw path = Some p"
  shows "let segs = split_on (CHR ''/'') p in
    segs = tl (split_on (CHR ''/'') path) \<and> hd segs \<noteq> ''x''
    \<and> (\<forall>s\<in>set segs. s \<noteq> [] \<and> s \<noteq> ''.'' \<and> s \<noteq> ''..'' \<and> list_all segment_char s)
    \<and> (hd segs \<in> {''v1'', ''api''} \<or> segs ! 1 = ''v1'')"
proof -
  define segs where "segs = tl (split_on (CHR ''/'') path)"
  from assms have ok: "segs \<noteq> []" "list_all segment_ok segs" "consumer_surface segs" and p: "p = join ''/'' segs"
    by (auto simp: proxy_path_def Let_def segs_def split: if_splits)
  then have "split_on (CHR ''/'') p = segs"
    by (simp add: split_on_join list_all_iff segment_no_slash)
  moreover have "hd segs \<noteq> ''x'' \<and> (hd segs \<in> {''v1'', ''api''} \<or> segs ! 1 = ''v1'')"
    using ok(3) by (auto simp: consumer_surface_def split: list.splits)
  ultimately show ?thesis using ok(2) by (simp add: Let_def segs_def [symmetric] list_all_iff segment_ok_def)
qed

theorem proxy_path_stays_on_surface_witness:
  "proxy_path ''/v1/chat/completions?x=%2f'' ''/v1/chat/completions'' = Some ''v1/chat/completions''
   \<and> hd (split_on (CHR ''/'') ''v1/chat/completions'') \<noteq> ''x''"
proof -
  have "proxy_path ''/v1/chat/completions?x=%2f'' ''/v1/chat/completions'' = Some ''v1/chat/completions''" by code_simp
  with proxy_path_stays_on_surface [OF this] show ?thesis unfolding Let_def by blast
qed

section \<open>Who is let in\<close>

text \<open>A key that is let through matches no record that is revoked or has expired.\<close>

lemma key_record_allows_sound:
  assumes "key_record_allows now digest m = None" and "k \<in> set (cm_keys m)" and "prefix_of (kr_prefix k) digest"
  shows "kr_status k \<noteq> ''revoked'' \<and> (\<forall>t. kr_expires k = Some t \<longrightarrow> t = 0 \<or> now < t)"
proof -
  have "List.map_filter (key_verdict now) (filter (\<lambda>k. prefix_of (kr_prefix k) digest) (cm_keys m)) = []"
    using assms(1) by (auto simp: key_record_allows_def split: list.splits)
  with assms(2,3) have "key_verdict now k = None" by (auto simp: map_filter_def filter_empty_conv)
  then show ?thesis by (auto simp: key_verdict_def split: if_splits option.splits)
qed

lemma caller_auth_local:
  assumes "caller_auth a now by_digest record_of (Some token) = Inr r" and "a_ok r"
  shows "\<exists>caller storage m issued. known_caller a by_digest token (sha256 a token) = (Some (caller, storage), True)
    \<and> record_of caller = (issued, True) \<and> normalize_consumer_record a now caller issued = Inr m
    \<and> a_caller r = Some caller \<and> a_meta r = Some m \<and> a_digest r = Some (sha256 a token) \<and> a_tenant r = None
    \<and> cm_status m = ''active'' \<and> key_record_allows now (sha256 a token) m = None"
  using assms
  by (auto simp: caller_auth_def no_auth_def refuse_def Let_def res_simps split: option.splits prod.splits bool.splits if_splits)

lemma known_caller_cases:
  assumes "known_caller a by_digest token digest = (Some (caller, storage), ok)"
  shows "ok \<and> caller \<noteq> []"
  using assms by (auto simp: known_caller_def split: option.splits prod.splits bool.splits)

lemma caller_auth_unknown:
  assumes "caller_auth a now by_digest record_of (Some token) = Inr r" and "\<not> a_ok r" and "truthy_text (a_caller r) = None" and "token \<noteq> []"
  shows "fst (known_caller a by_digest token (sha256 a token)) = None"
proof (cases "known_caller a by_digest token (sha256 a token)")
  case (Pair found ok)
  show ?thesis
  proof (cases found)
    case None
    with Pair show ?thesis by simp
  next
    case (Some p)
    obtain caller storage where p: "p = (caller, storage)" by (cases p)
    with Some Pair known_caller_cases have *: "known_caller a by_digest token (sha256 a token) = (Some (caller, storage), True)" "caller \<noteq> []"
      by force+
    have "truthy_text (Some token) = Some token" using assms(4) by simp
    with assms(1-3) * show ?thesis
      by (auto simp: caller_auth_def no_auth_def refuse_def Let_def res_simps split: prod.splits bool.splits if_splits option.splits)
  qed
qed

lemma cp_auth_ok:
  assumes "a_ok (cp_auth a caller m digest k)"
  shows "\<not> name_taken a caller m \<and> cm_status m = ''active'' \<and> a_caller (cp_auth a caller m digest k) = Some caller
    \<and> a_tenant (cp_auth a caller m digest k) = rk_tenant k \<and> a_digest (cp_auth a caller m digest k) = Some digest
    \<and> a_scope (cp_auth a caller m digest k) = (if rk_version k = 2 then Some (rk_project k, rk_environment k) else None)
    \<and> (\<exists>m'. a_meta (cp_auth a caller m digest k) = Some m' \<and> cm_status m' = ''active'')"
  using assms by (auto simp: cp_auth_def refuse_def no_auth_def split: if_splits)


definition demo_auth :: auth_config where
  "demo_auth = \<lparr>caller_keys = [(''t'', ''local'')], caller_key_hashes = [], caller_prefix = ''cp:'', default_rate = 600,
     default_burst = 200, sha256 = (\<lambda>t. t)\<rparr>"

definition demo_accept :: "auth_result res" where
  "demo_accept = caller_auth_async demo_auth 100 (\<lambda>d. (None, True)) (\<lambda>c. (JNull, True)) True (\<lambda>d. Inr (Some demo_identity))
     ([], True) (Some ''u'')"


text \<open>
  A key that a local store knows is never taken to the control plane, whatever became of it.
\<close>

lemma local_key_stays_local:
  assumes "fst (known_caller a by_digest token (sha256 a token)) = Some (caller, storage)" and "token \<noteq> []"
  shows "caller_auth_async a now by_digest record_of plane_enabled resolved all_records (Some token)
    = caller_auth a now by_digest record_of (Some token)"
proof (cases "caller_auth a now by_digest record_of (Some token)")
  case (Inr auth)
  with assms caller_auth_unknown [OF Inr] have "a_ok auth \<or> truthy_text (a_caller auth) \<noteq> None" by fastforce
  with Inr show ?thesis by (auto simp: caller_auth_async_def)
qed (simp add: caller_auth_async_def)

section \<open>Admission by rate\<close>

text \<open>\<open>int(meta.get(k) or default)\<close>: a rate of a record is at least one.\<close>

definition rate_limits :: "auth_config \<Rightarrow> consumer_meta \<Rightarrow> int \<times> int" where
  "rate_limits a m = (let pick = (\<lambda>x d. case x of Some i \<Rightarrow> if i \<noteq> 0 then i else d | None \<Rightarrow> d) in
     (pick (cm_rate m) (default_rate a), pick (cm_burst m) (default_burst a)))"

end
