(* ===== verification/IngressStream.thy ===== *)
theory IngressStream
  imports CallerAuth PyEffect
begin

text \<open>
  \<open>auth_proxy.py\<close>, what is metered of a response: the tail of a stream that the pump keeps, its reader, and the fields
  of the ledger taken from a JSON response or from that tail. The bytes of a stream are UTF-8 text.
\<close>

section \<open>The tail of a stream\<close>

abbreviation boundary :: string where
  "boundary \<equiv> nl @ nl"

text \<open>\<open>tail.rfind(b"\<newline>\<newline>", 0, n)\<close>: the last pair that ends at \<open>n\<close> or before.\<close>

fun rfind_boundary :: "string \<Rightarrow> nat \<Rightarrow> nat option" where
  "rfind_boundary s (Suc (Suc n)) = (if take 2 (drop n s) = boundary then Some n else rfind_boundary s (Suc n))"
| "rfind_boundary s _ = None"

definition sse_tail_cap :: nat where
  "sse_tail_cap = 4 * 1024 * 1024"

definition third_boundary :: "string \<Rightarrow> nat option" where
  "third_boundary s = (case rfind_boundary s (length s) of None \<Rightarrow> None
     | Some i \<Rightarrow> (case rfind_boundary s i of None \<Rightarrow> None | Some j \<Rightarrow> rfind_boundary s j))"

definition trim_sse_tail :: "string \<Rightarrow> string" where
  "trim_sse_tail tail =
     (let kept = (case third_boundary tail of Some k \<Rightarrow> drop (k + 2) tail | None \<Rightarrow> tail)
      in if sse_tail_cap < length kept then drop (length kept - sse_tail_cap) kept else kept)"

text \<open>\<open>str.splitlines()\<close>.\<close>

definition line_breaks :: "string list" where
  "line_breaks = map (\<lambda>n. [char_of (n :: nat)]) [10, 11, 12, 13, 28, 29, 30]
     @ map (map (char_of :: nat \<Rightarrow> char)) [[194, 133], [226, 128, 168], [226, 128, 169]]"

definition carriage_return :: string where
  "carriage_return = [char_of (13 :: nat)]"

fun lines_from :: "string list \<Rightarrow> string \<Rightarrow> string list" where
  "lines_from [] word = (if word = [] then [] else [word])"
| "lines_from [c] word = (if c \<in> set line_breaks then [word] else [word @ c])"
| "lines_from (c # d # cs) word =
     (if c = carriage_return \<and> d = nl then word # lines_from cs []
      else if c \<in> set line_breaks then word # lines_from (d # cs) [] else lines_from (d # cs) (word @ c))"

definition py_splitlines :: "string \<Rightarrow> string list" where
  "py_splitlines s = lines_from (utf8_chars s) []"

definition take_first :: "string \<Rightarrow> dict \<Rightarrow> dict \<Rightarrow> dict" where
  "take_first k payload out = (if \<not> has_key out k \<and> is_obj (dget payload k) then dset k (dget payload k) out else out)"

definition data_of_line :: "string \<Rightarrow> dict option" where
  "data_of_line line0 = (let line = py_strip line0; data = py_strip (drop 5 line) in
     if \<not> prefix_of ''data:'' line \<or> data = [] \<or> data = ''[DONE]'' then None
     else case json_loads default_hook data of Inr (JObj d) \<Rightarrow> Some d | _ \<Rightarrow> None)"

text \<open>Newest line first.\<close>

fun scan_lines :: "string list \<Rightarrow> dict \<Rightarrow> dict" where
  "scan_lines [] out = out"
| "scan_lines (l # ls) out = (case data_of_line l of
     None \<Rightarrow> scan_lines ls out
   | Some payload \<Rightarrow>
       let out = take_first ''error'' payload (take_first ''x_router'' payload (take_first ''usage'' payload out)) in
       if has_key out ''usage'' \<and> has_key out ''x_router'' then out else scan_lines ls out)"

definition parse_stream_tail :: "string \<Rightarrow> dict" where
  "parse_stream_tail tail = scan_lines (rev (py_splitlines tail)) []"

section \<open>The meter\<close>

record meter =
  mt_provider :: jval
  mt_family :: jval
  mt_served_model :: jval
  mt_served_by :: jval
  mt_trace :: jval
  mt_tokens_in :: int
  mt_tokens_out :: int
  mt_tokens_total :: int
  mt_cached :: jval
  mt_cost :: "pyfloat option"
  mt_basis :: jval
  mt_error_type :: jval
  mt_error_code :: jval
  mt_error_message :: jval

definition new_meter :: meter where
  "new_meter = \<lparr>mt_provider = JNull, mt_family = JNull, mt_served_model = JNull, mt_served_by = JNull, mt_trace = JNull,
     mt_tokens_in = 0, mt_tokens_out = 0, mt_tokens_total = 0, mt_cached = JNull, mt_cost = None, mt_basis = JNull,
     mt_error_type = JNull, mt_error_code = JNull, mt_error_message = JNull\<rparr>"

definition int_like :: "jval \<Rightarrow> bool" where
  "int_like v = (as_int v \<noteq> None)"

definition number_like :: "jval \<Rightarrow> bool" where
  "number_like v = (num_of v \<noteq> None)"

definition meter_router :: "dict \<Rightarrow> meter eff" where
  "meter_router xr =
     e_then (e_do (\<lambda>m. m\<lparr>mt_provider := dget xr ''provider'', mt_family := dget xr ''model_family'',
        mt_served_model := dget xr ''served_model_id'', mt_served_by := dget xr ''served_by'',
        mt_trace := (if is_obj (dget xr ''decision_trace'') then dget xr ''decision_trace'' else JNull)\<rparr>))
     (e_then (if number_like (dget xr ''cost_usd'')
              then e_read (to_float (dget xr ''cost_usd'')) (\<lambda>c. e_do (\<lambda>m. m\<lparr>mt_cost := Some c\<rparr>)) else e_skip)
     (e_do (\<lambda>m. m\<lparr>mt_basis := dget xr ''cost_basis'',
        mt_cached := (if int_like (dget xr ''tokens_cached'') then dget xr ''tokens_cached'' else mt_cached m)\<rparr>)))"

text \<open>\<open>int(v or 0)\<close>.\<close>

definition count_of :: "jval \<Rightarrow> int res" where
  "count_of v = int_of (py_or v (JInt 0))"

definition meter_usage :: "(string \<Rightarrow> jval) \<Rightarrow> string \<Rightarrow> string \<Rightarrow> meter eff" where
  "meter_usage field prompt completion =
     e_read (count_of (field prompt)) (\<lambda>i. e_then (e_do (\<lambda>m. m\<lparr>mt_tokens_in := i\<rparr>))
     (e_read (count_of (field completion)) (\<lambda>j. e_then (e_do (\<lambda>m. m\<lparr>mt_tokens_out := j\<rparr>))
     (e_read (int_of (py_or (field ''total_tokens'') (JInt (i + j)))) (\<lambda>t. e_do (\<lambda>m. m\<lparr>mt_tokens_total := t\<rparr>))))))"

definition meter_error :: "jval \<Rightarrow> meter eff" where
  "meter_error v = (case v of
     JObj e \<Rightarrow> e_do (\<lambda>m. m\<lparr>mt_error_type := dget e ''type'', mt_error_code := dget e ''code'', mt_error_message := dget e ''message''\<rparr>)
   | _ \<Rightarrow> e_skip)"

text \<open>\<open>_account\<close> up to the rule about a client that left: what was assigned before an exception stays.\<close>

definition account_tail :: "string \<Rightarrow> meter \<Rightarrow> meter" where
  "account_tail tail m =
     (let meta = parse_stream_tail tail; xr = obj_of (dget meta ''x_router'') in
      snd (e_then (if xr = [] then e_skip else meter_router xr)
          (e_then (case dget meta ''usage'' of JObj u \<Rightarrow> meter_usage (dget u) ''prompt_tokens'' ''completion_tokens'' | _ \<Rightarrow> e_skip)
                  (meter_error (dget meta ''error''))) m))"

text \<open>\<open>usage.get("prompt_tokens", usage.get("input_tokens"))\<close>, and the same for the output.\<close>

definition usage_field :: "dict \<Rightarrow> string \<Rightarrow> jval" where
  "usage_field u k =
     (if k = ''prompt_tokens'' then dget_or u k (dget u ''input_tokens'')
      else if k = ''completion_tokens'' then dget_or u k (dget u ''output_tokens'') else dget u k)"

definition account_json :: "string \<Rightarrow> meter \<Rightarrow> meter" where
  "account_json content m = (case json_loads default_hook content of
     Inr (JObj d) \<Rightarrow>
       snd (e_then (case dget d ''x_router'' of JObj xr \<Rightarrow> meter_router xr | _ \<Rightarrow> e_skip)
           (e_then (meter_error (dget d ''error''))
                   (case dget d ''usage'' of JObj u \<Rightarrow> meter_usage (usage_field u) ''prompt_tokens'' ''completion_tokens'' | _ \<Rightarrow> e_skip)) m)
   | _ \<Rightarrow> m)"

section \<open>The pump\<close>

text \<open>
  What happens to the task that reads the stream: a chunk that its reader takes or that it does not take in time, a client that
  leaves, the end, a failure, or the cancellation when the draining takes too long.
\<close>

datatype pump_event = Chunk string | Stalled string | Leaves | Ends | Breaks | Cancelled

record pump =
  pp_tail :: string
  pp_drained :: nat
  pp_gone :: bool
  pp_sent :: string
  pp_complete :: bool
  pp_stopped :: bool

definition pump_start :: pump where
  "pump_start = \<lparr>pp_tail = [], pp_drained = 0, pp_gone = False, pp_sent = [], pp_complete = False, pp_stopped = False\<rparr>"

definition drain :: "nat \<Rightarrow> string \<Rightarrow> pump \<Rightarrow> pump" where
  "drain max_bytes c p = (let n = pp_drained p + length c in p\<lparr>pp_gone := True, pp_drained := n, pp_stopped := max_bytes < n\<rparr>)"

definition pump_step :: "nat \<Rightarrow> pump_event \<Rightarrow> pump \<Rightarrow> pump" where
  "pump_step max_bytes ev p =
     (if pp_stopped p then p
      else case ev of
        Chunk c \<Rightarrow> let q = p\<lparr>pp_tail := trim_sse_tail (pp_tail p @ c)\<rparr> in
          if \<not> pp_gone q then q\<lparr>pp_sent := pp_sent q @ c\<rparr> else drain max_bytes c q
      | Stalled c \<Rightarrow> drain max_bytes c (p\<lparr>pp_tail := trim_sse_tail (pp_tail p @ c)\<rparr>)
      | Leaves \<Rightarrow> p\<lparr>pp_gone := True\<rparr>
      | Ends \<Rightarrow> p\<lparr>pp_complete := True, pp_stopped := True\<rparr>
      | Breaks \<Rightarrow> p\<lparr>pp_stopped := True\<rparr>
      | Cancelled \<Rightarrow> p\<lparr>pp_stopped := True\<rparr>)"

definition run_pump :: "nat \<Rightarrow> pump_event list \<Rightarrow> pump" where
  "run_pump max_bytes evs = fold (pump_step max_bytes) evs pump_start"

text \<open>A served call that was cut off before its cost was known is not booked as free.\<close>

definition estimate_cut :: "pyfloat \<Rightarrow> int \<Rightarrow> pump \<Rightarrow> meter \<Rightarrow> meter" where
  "estimate_cut reservation_usd code p m =
     (if pp_gone p \<and> \<not> pp_complete p \<and> mt_cost m = None \<and> code < 400
      then m\<lparr>mt_cost := Some reservation_usd, mt_basis := JStr ''estimated_disconnect''\<rparr> else m)"

definition meter_stream :: "pyfloat \<Rightarrow> nat \<Rightarrow> int \<Rightarrow> pump_event list \<Rightarrow> meter" where
  "meter_stream reservation_usd max_bytes code evs =
     (let p = run_pump max_bytes evs in estimate_cut reservation_usd code p (account_tail (pp_tail p) new_meter))"

section \<open>What the tail keeps\<close>

lemma rfind_boundary_found:
  "rfind_boundary s n = Some k \<Longrightarrow> k + 2 \<le> n \<and> take 2 (drop k s) = boundary"
  by (induction s n rule: rfind_boundary.induct) (auto split: if_splits)

lemma at_boundary: "take 2 (drop k s) = boundary \<Longrightarrow> \<exists>z. drop k s = boundary @ z"
  by (metis append_take_drop_id)

text \<open>The kept part is the end of the text, and if anything was cut, the cut is right after a boundary and two are left.\<close>

definition clean_cut :: "string \<Rightarrow> string \<Rightarrow> bool" where
  "clean_cut whole tail \<longleftrightarrow> tail = whole
     \<or> (\<exists>p. whole = p @ boundary @ tail \<and> (\<exists>x y z. tail = x @ boundary @ y @ boundary @ z))"

lemma third_boundary_cut:
  assumes "third_boundary s = Some k"
  shows "s = take k s @ boundary @ drop (k + 2) s \<and> (\<exists>x y z. drop (k + 2) s = x @ boundary @ y @ boundary @ z)"
proof -
  from assms obtain i j where i: "rfind_boundary s (length s) = Some i" and j: "rfind_boundary s i = Some j"
    and k: "rfind_boundary s j = Some k" by (auto simp: third_boundary_def split: option.splits)
  from rfind_boundary_found [OF i] rfind_boundary_found [OF j] rfind_boundary_found [OF k]
  have le: "k + 2 \<le> j" "j + 2 \<le> i" and b: "take 2 (drop k s) = boundary" "take 2 (drop j s) = boundary" "take 2 (drop i s) = boundary"
    by auto
  have split: "drop a s = boundary @ drop (a + 2) s" if "take 2 (drop a s) = boundary" for a
    by (metis that append_take_drop_id drop_drop add.commute)
  have part: "drop a s = take (c - a) (drop a s) @ drop c s" if "a \<le> c" for a c
    by (metis that append_take_drop_id drop_drop le_add_diff_inverse2)
  have "s = take k s @ drop k s" by simp
  moreover have "drop (k + 2) s = take (j - (k + 2)) (drop (k + 2) s) @ boundary @ take (i - (j + 2)) (drop (j + 2) s) @ boundary @ drop (i + 2) s"
    using part [OF le(1)] split [OF b(2)] part [OF le(2)] split [OF b(3)] by simp
  ultimately show ?thesis using split [OF b(1)] by (metis append_assoc)
qed

lemma clean_cut_trim:
  assumes "clean_cut whole tail" and "length (tail @ c) \<le> sse_tail_cap"
  shows "clean_cut (whole @ c) (trim_sse_tail (tail @ c)) \<and> length (trim_sse_tail (tail @ c)) \<le> length (tail @ c)"
proof (cases "third_boundary (tail @ c)")
  case None
  with assms(2) have "trim_sse_tail (tail @ c) = tail @ c" by (simp add: trim_sse_tail_def)
  with assms(1) show ?thesis unfolding clean_cut_def by (metis append_assoc order_refl)
next
  case (Some k)
  with assms(2) have t: "trim_sse_tail (tail @ c) = drop (k + 2) (tail @ c)" by (simp add: trim_sse_tail_def Let_def)
  from third_boundary_cut [OF Some] obtain x y z where
    cut: "tail @ c = take k (tail @ c) @ boundary @ drop (k + 2) (tail @ c)" and two: "drop (k + 2) (tail @ c) = x @ boundary @ y @ boundary @ z"
    by blast
  from assms(1) obtain q where "whole = q @ tail" unfolding clean_cut_def by (metis append_assoc append_Nil)
  then have "whole @ c = (q @ take k (tail @ c)) @ boundary @ drop (k + 2) (tail @ c)" using cut by (metis append_assoc)
  then show ?thesis using t two unfolding clean_cut_def by (metis length_drop diff_le_self)
qed

definition feed_tail :: "string list \<Rightarrow> string" where
  "feed_tail chunks = fold (\<lambda>c t. trim_sse_tail (t @ c)) chunks []"

lemma feed_tail_snoc: "feed_tail (chunks @ [c]) = trim_sse_tail (feed_tail chunks @ c)"
  by (simp add: feed_tail_def)

lemma feed_tail_clean:
  "length (concat chunks) \<le> sse_tail_cap \<Longrightarrow>
     clean_cut (concat chunks) (feed_tail chunks) \<and> length (feed_tail chunks) \<le> length (concat chunks)"
proof (induction chunks rule: rev_induct)
  case Nil
  show ?case by (simp add: feed_tail_def clean_cut_def)
next
  case (snoc c chunks)
  then have *: "clean_cut (concat chunks) (feed_tail chunks)" "length (feed_tail chunks) \<le> length (concat chunks)" by auto
  with snoc.prems have "length (feed_tail chunks @ c) \<le> sse_tail_cap" by simp
  with clean_cut_trim [OF *(1) this] * show ?case by (auto simp: feed_tail_snoc)
qed

text \<open>The last two events of a stream are whole in its tail, and begin a line there.\<close>

lemma count_newlines: "CHR 0x0A \<notin> set s \<Longrightarrow> count_list s (CHR 0x0A) = 0"
  by (simp add: count_list_0_iff)

lemma last_events_kept:
  assumes cut: "clean_cut (pre @ u @ boundary @ w @ boundary) tail"
    and u: "CHR 0x0A \<notin> set u" and w: "CHR 0x0A \<notin> set w" and pre: "pre = [] \<or> last pre = CHR 0x0A"
  shows "\<exists>q. tail = q @ u @ boundary @ w @ boundary \<and> (q = [] \<or> last q = CHR 0x0A)"
proof (cases "tail = pre @ u @ boundary @ w @ boundary")
  case True
  with pre show ?thesis by blast
next
  case False
  let ?E = "u @ boundary @ w @ boundary"
  from cut False obtain p x y z where p: "pre @ ?E = p @ boundary @ tail" and two: "tail = x @ boundary @ y @ boundary @ z"
    unfolding clean_cut_def by blast
  from two have four: "4 \<le> count_list tail (CHR 0x0A)" by simp
  from p have "pre @ ?E = (p @ boundary) @ tail" by simp
  then obtain r where "pre = (p @ boundary) @ r \<and> r @ ?E = tail \<or> pre @ r = p @ boundary \<and> ?E = r @ tail"
    by (rule append_eq_append_conv2 [THEN iffD1, THEN exE])
  then show ?thesis
  proof
    assume inside: "pre = (p @ boundary) @ r \<and> r @ ?E = tail"
    then have "r = [] \<or> last r = CHR 0x0A" using pre by (cases "r = []") auto
    with inside show ?thesis by blast
  next
    assume beyond: "pre @ r = p @ boundary \<and> ?E = r @ tail"
    show ?thesis
    proof (cases "r = []")
      case True
      with beyond show ?thesis by auto
    next
      case False
      have total: "count_list ?E (CHR 0x0A) = 4" using u w by (simp add: count_newlines)
      from beyond False have "last r = last (p @ boundary)" by (metis last_appendR)
      then have "CHR 0x0A \<in> set r" using False last_in_set [of r] by simp
      then have "count_list r (CHR 0x0A) \<noteq> 0" by (simp add: count_list_0_iff)
      moreover have "count_list r (CHR 0x0A) + count_list tail (CHR 0x0A) = 4" using total beyond by (metis count_list_append)
      ultimately show ?thesis using four by linarith
    qed
  qed
qed

section \<open>What the reader finds\<close>

lemma nl_breaks: "nl \<in> set line_breaks" "nl \<noteq> carriage_return"
  by code_simp+

lemma lines_split: "lines_from (cs @ nl # ds) word = lines_from (cs @ [nl]) word @ lines_from ds []"
proof (induction cs word rule: lines_from.induct)
  case (1 word)
  show ?case using nl_breaks by (cases ds) auto
next
  case (2 c word)
  show ?case using nl_breaks by (cases ds) auto
qed (auto simp: nl_breaks)

lemma lines_plain: "\<forall>c\<in>set cs. c \<notin> set line_breaks \<Longrightarrow> lines_from (cs @ [nl]) word = [word @ concat cs]"
proof (induction cs arbitrary: word)
  case Nil
  show ?case by (simp add: nl_breaks)
next
  case (Cons c cs)
  moreover have "carriage_return \<in> set line_breaks" by code_simp
  ultimately show ?case by (cases cs) (auto simp: nl_breaks)
qed

definition printable :: "char \<Rightarrow> bool" where
  "printable c = (32 \<le> (of_char c :: nat) \<and> (of_char c :: nat) < 127)"

definition ascii :: "string \<Rightarrow> bool" where
  "ascii s = list_all (\<lambda>c. (of_char c :: nat) < 128) s"

lemma ascii_chars: "ascii s \<Longrightarrow> utf8_chars s = map (\<lambda>c. [c]) s"
  by (rule utf8_chars_ascii) (auto simp: ascii_def list_all_iff is_cont_def)

lemma printable_ascii: "list_all printable s \<Longrightarrow> ascii s"
  by (auto simp: ascii_def printable_def list_all_iff)

lemma printable_no_break: "printable c \<Longrightarrow> [c] \<notin> set line_breaks"
  by (auto simp: line_breaks_def printable_def)

lemma printable_no_newline: "list_all printable s \<Longrightarrow> CHR 0x0A \<notin> set s"
  by (auto simp: printable_def list_all_iff)

lemma splitlines_last:
  assumes "ascii q" and "q = [] \<or> last q = CHR 0x0A" and "list_all printable u" and "list_all printable w"
  shows "\<exists>ls. py_splitlines (q @ u @ boundary @ w @ boundary) = ls @ [u, [], w, []]"
proof -
  let ?m = "map (\<lambda>c. [c])"
  have plain: "lines_from (?m v @ nl # ds) [] = v # lines_from ds []" if "list_all printable v" for v ds
  proof -
    have "\<forall>c\<in>set (?m v). c \<notin> set line_breaks" using that printable_no_break by (auto simp: list_all_iff)
    from lines_plain [OF this, of "[]"] lines_split [of "?m v" ds "[]"] show ?thesis by (simp add: concat_map_singleton)
  qed
  have empty: "lines_from (nl # ds) [] = [] # lines_from ds []" for ds using plain [of "[]" ds] by simp
  have tail: "lines_from (?m (u @ boundary @ w @ boundary)) [] = [u, [], w, []]"
    using plain [OF assms(3)] plain [OF assms(4)] empty by (simp add: nl_breaks)
  have "ascii (q @ u @ boundary @ w @ boundary)"
    using assms(1) printable_ascii [OF assms(3)] printable_ascii [OF assms(4)] by (simp add: ascii_def)
  then have chars: "py_splitlines (q @ u @ boundary @ w @ boundary) = lines_from (?m q @ ?m (u @ boundary @ w @ boundary)) []"
    by (simp add: py_splitlines_def ascii_chars)
  show ?thesis
  proof (cases "q = []")
    case True
    with chars tail show ?thesis by simp
  next
    case False
    with assms(2) obtain r where "q = r @ [CHR 0x0A]" by (metis append_butlast_last_id)
    then have "lines_from (?m q @ ?m (u @ boundary @ w @ boundary)) [] = lines_from (?m r @ [nl]) [] @ [u, [], w, []]"
      using lines_split [of "?m r" "?m (u @ boundary @ w @ boundary)" "[]"] tail by simp
    with chars show ?thesis by auto
  qed
qed

text \<open>Text that begins and ends with a character that is no space is its own \<open>strip()\<close>.\<close>

lemma strip_solid:
  assumes "ascii s" and "s \<noteq> []" and "[hd s] \<notin> set py_spaces" and "[last s] \<notin> set py_spaces"
  shows "py_strip s = s" and "py_strip (CHR '' '' # s) = s"
proof -
  let ?m = "map (\<lambda>c. [c])" and ?sp = "\<lambda>c. c \<in> set py_spaces"
  have left: "dropWhile ?sp (?m s) = ?m s" using assms(2,3) by (cases s) auto
  obtain t z where "s = t @ [z]" using assms(2) by (cases s rule: rev_cases) auto
  with assms(4) have right: "dropWhile ?sp (rev (?m s)) = rev (?m s)" by simp
  have space: "ascii (CHR '' '' # s)" "'' '' \<in> set py_spaces"
    using assms(1) by (simp add: ascii_def) code_simp
  show "py_strip s = s" using left right by (simp add: py_strip_def Let_def ascii_chars [OF assms(1)] concat_map_singleton)
  show "py_strip (CHR '' '' # s) = s"
    using left right space(2) by (simp add: py_strip_def Let_def ascii_chars [OF space(1)] concat_map_singleton del: utf8_chars.simps)
qed

definition json_line :: "string \<Rightarrow> bool" where
  "json_line text \<longleftrightarrow> list_all printable text \<and> text \<noteq> [] \<and> hd text = CHR ''{'' \<and> last text = CHR ''}''"

lemma data_of_json_line:
  assumes "json_line text" and "json_loads default_hook text = Inr (JObj d)"
  shows "data_of_line (''data: '' @ text) = Some d"
proof -
  have sp: "[CHR ''{''] \<notin> set py_spaces" "[CHR ''}''] \<notin> set py_spaces" "[CHR ''d''] \<notin> set py_spaces" by code_simp+
  have a: "ascii text" "ascii (''data: '' @ text)" using assms(1) printable_ascii by (auto simp: json_line_def ascii_def)
  have "py_strip (''data: '' @ text) = ''data: '' @ text"
    using assms(1) sp by (intro strip_solid(1) [OF a(2)]) (auto simp: json_line_def)
  moreover have "py_strip (CHR '' '' # text) = text" using assms(1) sp by (intro strip_solid(2) [OF a(1)]) (auto simp: json_line_def)
  moreover have "text \<noteq> ''[DONE]''" using assms(1) by (auto simp: json_line_def)
  ultimately show ?thesis using assms by (simp add: data_of_line_def json_line_def)
qed

lemma done_line: "data_of_line ''data: [DONE]'' = None" "data_of_line [] = None"
  by code_simp+

definition final_events :: "string \<Rightarrow> string" where
  "final_events text = ''data: '' @ text @ boundary @ ''data: [DONE]'' @ boundary"

text \<open>What the reader finds in any text that ends with the two last events of the shim.\<close>

lemma parse_final_events:
  assumes "ascii q" and "q = [] \<or> last q = CHR 0x0A" and line: "json_line text" and read: "json_loads default_hook text = Inr (JObj d)"
    and both: "is_obj (dget d ''usage'')" "is_obj (dget d ''x_router'')"
  shows "dget (parse_stream_tail (q @ final_events text)) ''usage'' = dget d ''usage''
    \<and> dget (parse_stream_tail (q @ final_events text)) ''x_router'' = dget d ''x_router''"
proof -
  have "list_all printable (''data: '' @ text)" "list_all printable ''data: [DONE]''"
    using line by (auto simp: json_line_def printable_def)
  from splitlines_last [OF assms(1,2) this] obtain ls where
    "py_splitlines (q @ final_events text) = ls @ [''data: '' @ text, [], ''data: [DONE]'', []]"
    by (auto simp: final_events_def)
  then show ?thesis
    using both by (simp add: parse_stream_tail_def done_line data_of_json_line [OF line read, simplified] Let_def take_first_def dget_dset has_key_def)
qed

section \<open>The pump reads every chunk\<close>

fun chunk_of :: "pump_event \<Rightarrow> string list" where
  "chunk_of (Chunk c) = [c]"
| "chunk_of (Stalled c) = [c]"
| "chunk_of _ = []"

definition reads :: "pump_event \<Rightarrow> bool" where
  "reads ev = (case ev of Chunk _ \<Rightarrow> True | Stalled _ \<Rightarrow> True | Leaves \<Rightarrow> True | _ \<Rightarrow> False)"

lemma run_pump_reads:
  assumes "list_all reads evs" and "length (concat (concat (map chunk_of evs))) \<le> max_bytes"
  shows "pp_tail (run_pump max_bytes evs) = feed_tail (concat (map chunk_of evs)) \<and> \<not> pp_stopped (run_pump max_bytes evs)
    \<and> \<not> pp_complete (run_pump max_bytes evs) \<and> pp_drained (run_pump max_bytes evs) \<le> length (concat (concat (map chunk_of evs)))"
  using assms
proof (induction evs rule: rev_induct)
  case Nil
  show ?case by (simp add: run_pump_def pump_start_def feed_tail_def)
next
  case (snoc ev evs)
  then have ih: "pp_tail (run_pump max_bytes evs) = feed_tail (concat (map chunk_of evs))" "\<not> pp_stopped (run_pump max_bytes evs)"
    "\<not> pp_complete (run_pump max_bytes evs)" "pp_drained (run_pump max_bytes evs) \<le> length (concat (concat (map chunk_of evs)))" by auto
  have step: "run_pump max_bytes (evs @ [ev]) = pump_step max_bytes ev (run_pump max_bytes evs)" for ev by (simp add: run_pump_def)
  from snoc.prems ih show ?case
    by (cases ev) (auto simp: step pump_step_def drain_def Let_def feed_tail_snoc reads_def)
qed


definition demo_text :: string where
  "demo_text = ''{'' @ json_str True ''usage'' @ '':{},'' @ json_str True ''x_router'' @ '':{'' @ json_str True ''cost_usd'' @ '':2}}''"

definition demo_events :: "pump_event list" where
  "demo_events = [Chunk (take 30 (final_events demo_text)), Leaves, Chunk (drop 30 (final_events demo_text))]"


end
