(* ===== verification/Ingress.thy ===== *)
theory Ingress
  imports IngressStream RouteContract RateBucket
begin

text \<open>
  \<open>auth_proxy.py\<close>, the handler \<open>proxy\<close>: from a request to its reply and the effects on the way, in their order. What the rest
  of the world answers (the stores, the control plane, the queue for a permit, the router behind) is a record of functions;
  other requests may do anything between two effects. The wall clock of the ledger and the metrics are left out.
\<close>

section \<open>Requests, replies, effects\<close>

record ingress_request =
  rq_method :: string
  rq_raw_path :: string
  rq_path :: string
  rq_query :: string
  rq_headers :: headers
  rq_body :: string

record ingress_config =
  ig_auth :: auth_config
  ig_cp :: cp
  ig_bracket_ok :: "string \<Rightarrow> bool"
  ig_upstream :: string
  ig_reservation_usd :: pyfloat
  ig_drain_max :: nat
  ig_queue_timeout :: pyfloat
  ig_context_length :: int

datatype reply = Reply int headers jval | Passed int string string | Streaming int string string

record ledger_row =
  lr_status :: int
  lr_meter :: meter
  lr_model :: jval
  lr_session :: "string option"
  lr_trace :: jval

datatype effect =
    Rejected string int
  | TokenTaken string int int
  | Reserved string budget_key pyfloat pyfloat "bool \<times> bool"
  | PermitTaken
  | Forwarded string string headers string
  | Recorded ledger_row
  | Settled string "pyfloat option"
  | PermitFreed

text \<open>
  What the router behind makes of the request: an error before its status, a cancellation (with the status known by then, 502
  before there is one), a whole response, a stream.
\<close>

datatype upstream = NotAnswered exn | Aborted int exn | Whole int string "string res" | Stream int string "pump_event list"

record answers =
  an_auth :: "string option \<Rightarrow> auth_result res"
  an_route :: "int \<Rightarrow> string \<Rightarrow> jval \<Rightarrow> jval \<Rightarrow> string option \<Rightarrow> dict res"
  an_rate :: "string \<Rightarrow> int \<Rightarrow> int \<Rightarrow> bool \<times> bool \<times> pyfloat"
  an_spend :: "string \<Rightarrow> pyfloat \<times> bool"
  an_reserve :: "budget_key \<Rightarrow> pyfloat \<Rightarrow> pyfloat \<Rightarrow> string \<Rightarrow> bool \<times> bool \<times> pyfloat \<times> pyfloat"
  an_period :: string
  an_token_hex :: string
  an_permit :: "bool res"
  an_upstream :: "string \<Rightarrow> string \<Rightarrow> headers \<Rightarrow> string \<Rightarrow> upstream"

text \<open>A stage has effects and then raises, replies or goes on; \<open>andthen\<close> runs the next one.\<close>

datatype 'a progress = Raised exn | Done reply | Go 'a

type_synonym 'a stage = "effect list \<times> 'a progress"

definition andthen :: "'a stage \<Rightarrow> ('a \<Rightarrow> 'b stage) \<Rightarrow> 'b stage" where
  "andthen m k = (case m of
     (es, Raised e) \<Rightarrow> (es, Raised e) | (es, Done r) \<Rightarrow> (es, Done r)
   | (es, Go x) \<Rightarrow> (case k x of (es', p) \<Rightarrow> (es @ es', p)))"

definition go :: "'a \<Rightarrow> 'a stage" where
  "go x = ([], Go x)"

definition reading :: "'a res \<Rightarrow> 'a stage" where
  "reading r = (case r of Inl e \<Rightarrow> ([], Raised e) | Inr x \<Rightarrow> ([], Go x))"

definition error_content :: "string \<Rightarrow> string \<Rightarrow> jval \<Rightarrow> dict \<Rightarrow> jval" where
  "error_content message kind code extra =
     JObj [(''error'', JObj ([(''message'', JStr message), (''type'', JStr kind), (''code'', code)] @ extra))]"

definition stop :: "int \<Rightarrow> string \<Rightarrow> string \<Rightarrow> string \<Rightarrow> 'a stage" where
  "stop code message kind error_code = ([], Done (Reply code [] (error_content message kind (JStr error_code) [])))"

definition reject :: "string \<Rightarrow> int \<Rightarrow> headers \<Rightarrow> jval \<Rightarrow> 'a stage" where
  "reject reason code hs content = ([Rejected reason code], Done (Reply code hs content))"

text \<open>\<open>str(max(1, math.ceil(x)))\<close>.\<close>

definition retry_header :: "pyfloat \<Rightarrow> headers res" where
  "retry_header x = (case x of
     Fin r \<Rightarrow> Inr [(''Retry-After'', int_str (max 1 \<lceil>r\<rceil>))]
   | NaN \<Rightarrow> Inl (ValueError ''cannot convert float NaN to integer'')
   | _ \<Rightarrow> Inl (OverflowError ''cannot convert float infinity to integer''))"

section \<open>Who calls\<close>

definition auth_messages :: "(string \<times> string) list" where
  "auth_messages = [(''caller_auth'', ''unauthorized caller''), (''caller_inactive'', ''caller is inactive''),
     (''caller_key_revoked'', ''caller key is revoked''), (''caller_key_expired'', ''caller key is expired''),
     (''caller_auth_unavailable'', ''caller authentication is temporarily unavailable'')]"

definition auth_status :: "string \<Rightarrow> int" where
  "auth_status code = (if code = ''caller_auth_unavailable'' then 503
     else if code \<in> {''caller_inactive'', ''caller_key_revoked'', ''caller_key_expired''} then 403 else 401)"

definition stage_auth :: "answers \<Rightarrow> ingress_request \<Rightarrow> auth_result stage" where
  "stage_auth an rq =
     andthen (reading (an_auth an (extract_token (map_of (rq_headers rq) ''authorization'')))) (\<lambda>r.
       if a_ok r then go r
       else let code = (case truthy_text (a_error r) of Some c \<Rightarrow> c | None \<Rightarrow> ''caller_auth''); n = auth_status code in
         reject code n [] (error_content (dget_or auth_messages code ''caller not authorized'')
           (if n = 503 then ''server_error'' else ''auth_error'') (JStr code) []))"

section \<open>The published route of a tenant\<close>

definition slug_ok :: "string \<Rightarrow> bool" where
  "slug_ok s = (s \<noteq> [] \<and> length s \<le> 80 \<and> hd s \<noteq> CHR ''-'' \<and> list_all (\<lambda>c. c \<in> set ''abcdefghijklmnopqrstuvwxyz0123456789-'') s)"

definition route_name_ok :: "string \<Rightarrow> bool" where
  "route_name_ok s = (prefix_of ''route:'' s \<and> slug_ok (drop 6 s))"

definition int_or_null :: "int option \<Rightarrow> jval" where
  "int_or_null x = (case x of Some i \<Rightarrow> JInt i | None \<Rightarrow> JNull)"

text \<open>What the rest of the handler needs of the routing: the body to send, the route, the published contract.\<close>

record routed =
  ro_body :: string
  ro_route :: "string option"
  ro_published :: "dict option"

definition publish ::
  "answers \<Rightarrow> auth_result \<Rightarrow> int \<Rightarrow> bool \<Rightarrow> string option \<Rightarrow> dict \<Rightarrow> routed res" where
  "publish an r tenant use_key_default requested payload =
     (let (project, environment, digest) = (case a_scope r of
            Some (p, e) \<Rightarrow> (int_or_null p, int_or_null e, a_digest r) | None \<Rightarrow> (JNull, JNull, None));
          given = (case requested of Some s \<Rightarrow> s | None \<Rightarrow> []);
          unavailable = route_unavailable ''The default route is unavailable.'' in
      rbind (an_route an tenant (if use_key_default then ''__key_default__'' else drop 6 given) project environment digest) (\<lambda>published.
      rbind (if \<not> use_key_default then Inr (given, payload)
             else case dget published ''route'' of
               JStr s \<Rightarrow> if route_name_ok s then Inr (s, dset ''model'' (JStr s) payload) else Inl unavailable
             | _ \<Rightarrow> Inl unavailable) (\<lambda>(name, payload).
      rbind (apply_contract payload published) (\<lambda>(payload, selected).
      Inr \<lparr>ro_body = dumps True '','' '':'' (JObj payload), ro_route = Some name, ro_published = Some selected\<rparr>))))"

definition invalid_request :: "string \<Rightarrow> dict \<Rightarrow> 'a stage" where
  "invalid_request message extra =
     ([], Done (Reply 400 [] (JObj [(''error'', JObj ([(''message'', JStr message), (''type'', JStr ''invalid_request_error'')] @ extra))])))"

definition routing_error :: "exn \<Rightarrow> 'a stage" where
  "routing_error e =
     (if is_value_error e \<or> exn_type e = ''PreferenceNotAllowed''
      then invalid_request (exn_str e) [(''code'', JStr ''preference_not_allowed'')]
      else if exn_type e = ''RouteUnavailable'' then stop 503 (exn_str e) ''server_error'' ''route_unavailable''
      else ([], Raised e))"

definition route_required :: string where
  "route_required = ''Use a published route, for example model='' @ CHR 0x27 # ''route:production'' @ CHR 0x27 # ''.''"

definition stage_tenant :: "answers \<Rightarrow> ingress_request \<Rightarrow> string \<Rightarrow> auth_result \<Rightarrow> int \<Rightarrow> string option \<Rightarrow> routed stage" where
  "stage_tenant an rq path r tenant requested = (case json_loads default_hook (rq_body rq) of
     Inr (JObj payload) \<Rightarrow>
       (let raw_model = py_or (dget payload ''model'') (dget payload ''name'');
            use_key_default = (raw_model = JNull \<or> raw_model = JStr [] \<or> raw_model = JStr ''auto'') in
        if rq_method rq \<noteq> ''POST'' \<or> path \<notin> {''v1/chat/completions'', ''v1/responses''}
           \<or> \<not> (use_key_default \<or> route_name_ok (case requested of Some s \<Rightarrow> s | None \<Rightarrow> []))
        then invalid_request route_required [(''code'', JStr ''route_required'')]
        else case publish an r tenant use_key_default requested payload of
          Inr ro \<Rightarrow> go ro | Inl e \<Rightarrow> routing_error e)
   | Inl e \<Rightarrow> if is_value_error e then invalid_request ''Provide a JSON request object.'' [] else ([], Raised e)
   | _ \<Rightarrow> invalid_request ''Provide a JSON request object.'' [])"

section \<open>Admission\<close>

definition stage_route :: "ingress_request \<Rightarrow> string \<Rightarrow> auth_result \<Rightarrow> answers \<Rightarrow> routed stage" where
  "stage_route rq path r an =
     (let requested = requested_route_from path (rq_body rq) in
      case a_tenant r of
        None \<Rightarrow> go \<lparr>ro_body = rq_body rq, ro_route = requested, ro_published = None\<rparr>
      | Some tenant \<Rightarrow> stage_tenant an rq path r tenant requested)"

definition stage_allowed :: "consumer_meta \<Rightarrow> routed \<Rightarrow> unit stage" where
  "stage_allowed m ro =
     (if route_allowed m (ro_route ro) then go ()
      else reject ''route_not_allowed'' 403 [] (error_content ''caller is not allowed to use this route'' ''auth_error''
             (JStr ''caller_route_not_allowed'') []))"

text \<open>One token of a bucket, of the caller or of the subject of its key.\<close>

definition stage_bucket :: "answers \<Rightarrow> string \<Rightarrow> string \<Rightarrow> string \<Rightarrow> string \<Rightarrow> int \<Rightarrow> int \<Rightarrow> unit stage" where
  "stage_bucket an who reason error_code name rate burst =
     (case an_rate an name rate burst of (allowed, store_ok, retry_after) \<Rightarrow>
      andthen ([TokenTaken name rate burst], Go ()) (\<lambda>_.
      if \<not> store_ok then reject (reason @ ''_unavailable'') 503 [] (error_content (who @ '' rate-limit state is temporarily unavailable'')
           ''server_error'' (JStr (error_code @ ''_unavailable'')) [])
      else if \<not> allowed then andthen ([Rejected reason 429], Go ()) (\<lambda>_. andthen (reading (retry_header retry_after)) (\<lambda>hs.
           ([], Done (Reply 429 hs (error_content (who @ '' rate limit exceeded'') ''rate_limit_error'' (JStr error_code) [])))))
      else go ()))"

definition stage_rate :: "ingress_config \<Rightarrow> answers \<Rightarrow> string \<Rightarrow> consumer_meta \<Rightarrow> unit stage" where
  "stage_rate ig an caller m = (case rate_limits (ig_auth ig) m of (rate, burst) \<Rightarrow>
     stage_bucket an ''caller'' ''rate_limit'' ''caller_rate_limit'' caller rate burst)"

definition key_identity :: "routed \<Rightarrow> jval" where
  "key_identity ro = (case ro_published ro of Some p \<Rightarrow> dget p ''key'' | None \<Rightarrow> JNull)"

definition key_limits :: "routed \<Rightarrow> dict" where
  "key_limits ro = (if truthy (key_identity ro)
     then (case ro_published ro of Some p \<Rightarrow> obj_of (dget p ''limits'') | None \<Rightarrow> []) else [])"

definition key_subject :: "routed \<Rightarrow> string" where
  "key_subject ro = py_str (dget (obj_of (key_identity ro)) ''subject'')"

definition stage_key_rate :: "answers \<Rightarrow> string \<Rightarrow> routed \<Rightarrow> unit stage" where
  "stage_key_rate an caller ro =
     (let limits = key_limits ro; given = dget limits ''rate_per_min'' in
      if \<not> truthy given then go ()
      else andthen (reading (int_of given)) (\<lambda>rate. andthen (reading (int_of (py_or (dget limits ''burst'') (JInt rate)))) (\<lambda>burst.
        stage_bucket an ''key'' ''key_rate_limit'' ''key_rate_limit'' (caller @ ''|'' @ key_subject ro) rate burst)))"

definition ollama_show_response :: "int \<Rightarrow> jval \<Rightarrow> jval" where
  "ollama_show_response context_length model =
     (let stripped = py_strip (py_str (py_or model (JStr ''profile:default'')));
          name = (if stripped = [] then ''profile:default'' else stripped); n = int_str context_length in
      JObj [(''license'', JStr ''router compatibility metadata''),
        (''modelfile'', JStr (''FROM '' @ name @ nl @ ''PARAMETER num_ctx '' @ n @ nl)),
        (''parameters'', JStr (''num_ctx '' @ n)), (''template'', JStr []),
        (''details'', JObj [(''family'', JStr ''llm-router''), (''families'', JList [JStr ''llm-router'']),
           (''parameter_size'', JStr ''router''), (''quantization_level'', JStr ''router'')]),
        (''model_info'', JObj [(''router.context_length'', JInt context_length), (''llm-router.context_length'', JInt context_length),
           (''general.architecture'', JStr ''llm-router'')])])"

definition stage_show :: "ingress_config \<Rightarrow> ingress_request \<Rightarrow> string \<Rightarrow> routed \<Rightarrow> unit stage" where
  "stage_show ig rq path ro =
     (if path = ''api/show'' \<and> ascii_lower (rq_method rq) = ''post''
      then let model = (if ro_body ro = [] then JNull else case json_loads default_hook (ro_body ro) of
             Inr (JObj d) \<Rightarrow> py_or (dget d ''name'') (dget d ''model'') | _ \<Rightarrow> JNull)
        in ([], Done (Reply 200 [] (ollama_show_response (ig_context_length ig) model)))
      else go ())"

definition stage_budget :: "answers \<Rightarrow> string \<Rightarrow> consumer_meta \<Rightarrow> unit stage" where
  "stage_budget an caller m =
     andthen (reading (optional_float (1 / 100) (case cm_budget m of Some b \<Rightarrow> JFloat b | None \<Rightarrow> JNull))) (\<lambda>budget. case budget of
       None \<Rightarrow> go ()
     | Some b \<Rightarrow> (case an_spend an caller of (spent, spend_ok) \<Rightarrow>
         if \<not> spend_ok then stop 503 ''consumer budget state is temporarily unavailable'' ''server_error'' ''consumer_budget_unavailable''
         else if f_le b spent then reject ''budget_exhausted'' 402 []
           (error_content ''consumer budget exhausted'' ''budget_error'' (JStr ''consumer_budget_exhausted'')
              [(''budget_usd'', JFloat b), (''spent_usd'', JFloat spent)])
         else go ()))"

definition stage_transport :: "ingress_config \<Rightarrow> auth_result \<Rightarrow> unit stage" where
  "stage_transport ig r =
     (if a_tenant r \<noteq> None \<and> \<not> trusted_transport_ok (ig_bracket_ok ig) (ig_cp ig) (ig_upstream ig)
      then stop 503 ''Trusted router bridge requires HTTPS'' ''server_error'' ''bridge_transport_unavailable'' else go ())"

text \<open>A reservation: its id and its amount. \<open>min(a, b)\<close> keeps the first of two equal values.\<close>

definition stage_reserve :: "ingress_config \<Rightarrow> answers \<Rightarrow> auth_result \<Rightarrow> routed \<Rightarrow> (string \<times> pyfloat) option stage" where
  "stage_reserve ig an r ro =
     (let given = dget (key_limits ro) ''monthly_budget_usd'' in
      if given = JNull then go None
      else andthen (reading (float_of given)) (\<lambda>limit.
        let amount = (if f_lt limit (ig_reservation_usd ig) then limit else ig_reservation_usd ig);
            key = BudgetKey (the (a_tenant r)) (key_subject ro) (an_period an); i = an_token_hex an in
        case an_reserve an key limit amount i of (allowed, store_ok, spent, held) \<Rightarrow>
        andthen ([Reserved i key limit amount (allowed, store_ok)], Go ()) (\<lambda>_.
        if \<not> store_ok then reject ''key_budget_unavailable'' 503 []
          (error_content ''key budget state is temporarily unavailable'' ''server_error'' (JStr ''key_budget_unavailable'') [])
        else if \<not> allowed then reject ''key_budget_exhausted'' 402 []
          (error_content ''key budget exhausted'' ''budget_error'' (JStr ''key_budget_exhausted'')
             [(''budget_usd'', JFloat limit), (''spent_usd'', JFloat (round_6 spent))])
        else go (Some (i, amount)))))"

definition settle :: "(string \<times> pyfloat) option \<Rightarrow> pyfloat option \<Rightarrow> effect list" where
  "settle held cost = (case held of Some (i, amount) \<Rightarrow> [Settled i cost] | None \<Rightarrow> [])"

definition stage_permit :: "ingress_config \<Rightarrow> answers \<Rightarrow> (string \<times> pyfloat) option \<Rightarrow> unit stage" where
  "stage_permit ig an held = (case an_permit an of
     Inl e \<Rightarrow> (settle held None, Raised e)
   | Inr True \<Rightarrow> ([PermitTaken], Go ())
   | Inr False \<Rightarrow> andthen (settle held None, Go ()) (\<lambda>_. andthen ([Rejected ''router_overloaded'' 503], Go ()) (\<lambda>_.
       andthen (reading (retry_header (ig_queue_timeout ig))) (\<lambda>hs. ([], Done (Reply 503 hs
         (error_content ''router capacity is temporarily exhausted; retry shortly'' ''server_error'' (JStr ''router_overloaded'') [])))))))"

section \<open>Forwarding\<close>

definition stripped_headers :: "string list" where
  "stripped_headers = [''authorization'', ''host'', ''connection'', ''content-length'', ''x-llm-router-tenant'', ''x-internal-secret'',
     ''x-unhardcoded-scope-version'', ''x-unhardcoded-project'', ''x-unhardcoded-environment'',
     ''x-unhardcoded-route'', ''x-unhardcoded-revision'', ''x-unhardcoded-policy-id'', ''x-unhardcoded-preference'']"

definition client_headers :: "headers \<Rightarrow> headers" where
  "client_headers hs = dupd [] (filter (\<lambda>p. ascii_lower (fst p) \<notin> set stripped_headers) hs)"

definition scope_headers :: "auth_result \<Rightarrow> headers" where
  "scope_headers r = (case a_scope r of
     Some (p, e) \<Rightarrow> [(''x-unhardcoded-scope-version'', ''2''), (''x-unhardcoded-project'', py_str (int_or_null p)),
       (''x-unhardcoded-environment'', py_str (int_or_null e))]
   | None \<Rightarrow> [])"

definition tenant_headers :: "ingress_config \<Rightarrow> auth_result \<Rightarrow> routed \<Rightarrow> headers" where
  "tenant_headers ig r ro = (case a_tenant r of
     None \<Rightarrow> []
   | Some t \<Rightarrow> (let p = (case ro_published ro of Some p \<Rightarrow> p | None \<Rightarrow> []) in
       [(''x-llm-router-tenant'', int_str t), (''x-internal-secret'', cp_secret (ig_cp ig))] @ scope_headers r
       @ [(''x-unhardcoded-route'', case ro_route ro of Some s \<Rightarrow> s | None \<Rightarrow> []), (''x-unhardcoded-revision'', py_str (dget p ''revision'')),
          (''x-unhardcoded-policy-id'', py_str (dget p ''policy_id'')),
          (''x-unhardcoded-preference'', py_str (dget_or p ''routing_preference'' (JStr ''default'')))]))"

definition forward_headers :: "ingress_config \<Rightarrow> ingress_request \<Rightarrow> string \<Rightarrow> auth_result \<Rightarrow> routed \<Rightarrow> headers" where
  "forward_headers ig rq caller r ro =
     dupd (dset ''x-llm-router-caller'' caller (client_headers (rq_headers rq))) (tenant_headers ig r ro)"

text \<open>The decision trace of a published route names the route, its revision and the identity it ran for.\<close>

definition published_trace :: "auth_result \<Rightarrow> routed \<Rightarrow> jval \<Rightarrow> jval" where
  "published_trace r ro trace = (case ro_published ro of
     None \<Rightarrow> trace
   | Some p \<Rightarrow> if p = [] then trace else
       (let own = obj_of trace;
            d = dupd own [(''route'', case ro_route ro of Some s \<Rightarrow> JStr s | None \<Rightarrow> JNull), (''route_revision'', dget p ''revision''),
              (''policy_id'', py_or (dget own ''policy_id'') (dget p ''policy_id'')),
              (''routing_preference'', dget_or p ''routing_preference'' (JStr ''default''))];
            d = (case a_scope r of Some (pr, en) \<Rightarrow> dupd d [(''project_id'', int_or_null pr), (''environment_id'', int_or_null en)] | None \<Rightarrow> d);
            key = key_identity ro
        in JObj (if truthy key then dupd d [(''key_id'', dget (obj_of key) ''id''), (''subject'', dget (obj_of key) ''subject'')] else d)))"

text \<open>\<open>_finish\<close>: a served call whose cost is not known books what was reserved.\<close>

definition final_cost :: "(string \<times> pyfloat) option \<Rightarrow> int \<Rightarrow> meter \<Rightarrow> pyfloat option" where
  "final_cost held code m =
     (if mt_cost m \<noteq> None \<or> 400 \<le> code then mt_cost m else case held of Some (i, amount) \<Rightarrow> Some amount | None \<Rightarrow> None)"

definition finish ::
  "auth_result \<Rightarrow> routed \<Rightarrow> (string \<times> pyfloat) option \<Rightarrow> jval \<Rightarrow> string option \<Rightarrow> int \<Rightarrow> meter \<Rightarrow> effect list" where
  "finish r ro held model session code m =
     [Recorded \<lparr>lr_status = code, lr_meter = m, lr_model = model, lr_session = session, lr_trace = published_trace r ro (mt_trace m)\<rparr>]
     @ settle held (final_cost held code m) @ [PermitFreed]"

definition proxy_error :: "exn \<Rightarrow> meter \<Rightarrow> meter" where
  "proxy_error e m = m\<lparr>mt_error_type := JStr ''proxy_error'', mt_error_code := JStr ''upstream'', mt_error_message := JStr (exn_str e)\<rparr>"

definition proxy_error_reply :: "exn \<Rightarrow> reply" where
  "proxy_error_reply e = Reply 502 [] (error_content (''upstream proxy error: '' @ exn_str e) ''proxy_error'' (JStr ''upstream'') [])"

definition body_fields :: "string \<Rightarrow> jval \<times> jval" where
  "body_fields body = (if body = [] then (JNull, JNull) else case json_loads default_hook body of
     Inr (JObj d) \<Rightarrow> (dget d ''model'', dget d ''session'') | _ \<Rightarrow> (JNull, JNull))"

definition stage_forward ::
  "ingress_config \<Rightarrow> answers \<Rightarrow> ingress_request \<Rightarrow> string \<Rightarrow> string \<Rightarrow> auth_result \<Rightarrow> routed \<Rightarrow> (string \<times> pyfloat) option \<Rightarrow> unit stage" where
  "stage_forward ig an rq path caller r ro held =
     (let url = ig_upstream ig @ ''/'' @ path @ (if rq_query rq \<noteq> [] then ''?'' @ rq_query rq else []);
          hs = forward_headers ig rq caller r ro; body = ro_body ro;
          (model, in_body) = body_fields body;
          session = (if truthy in_body then Some (py_str in_body) else map_of (rq_headers rq) ''x-unhardcoded-session'');
          done = finish r ro held model session; sent = Forwarded (rq_method rq) url hs body in
      case an_upstream an (rq_method rq) url hs body of
        NotAnswered e \<Rightarrow> (sent # done 502 (proxy_error e new_meter), Done (proxy_error_reply e))
      | Aborted code e \<Rightarrow> (sent # done code new_meter, Raised e)
      | Whole code kind (Inl e) \<Rightarrow> (sent # done code (proxy_error e new_meter), Done (proxy_error_reply e))
      | Whole code kind (Inr content) \<Rightarrow>
          (sent # done code (if prefix_of ''application/json'' kind then account_json content new_meter else new_meter),
           Done (Passed code kind content))
      | Stream code kind evs \<Rightarrow>
          (sent # done code (meter_stream (ig_reservation_usd ig) (ig_drain_max ig) code evs),
           Done (Streaming code kind (pp_sent (run_pump (ig_drain_max ig) evs)))))"

section \<open>The handler\<close>

definition not_found :: reply where
  "not_found = Reply 404 [] (error_content ''not found'' ''invalid_request_error'' JNull [])"

text \<open>The part of the handler for a caller that is known; an accepted result has a caller and a record.\<close>

definition admitted ::
  "ingress_config \<Rightarrow> answers \<Rightarrow> ingress_request \<Rightarrow> string \<Rightarrow> auth_result \<Rightarrow> string \<Rightarrow> consumer_meta \<Rightarrow> unit stage" where
  "admitted ig an rq path r caller m =
     andthen (stage_route rq path r an) (\<lambda>ro.
     andthen (stage_allowed m ro) (\<lambda>_.
     andthen (stage_rate ig an caller m) (\<lambda>_.
     andthen (stage_key_rate an caller ro) (\<lambda>_.
     andthen (stage_show ig rq path ro) (\<lambda>_.
     andthen (stage_budget an caller m) (\<lambda>_.
     andthen (stage_transport ig r) (\<lambda>_.
     andthen (stage_reserve ig an r ro) (\<lambda>held.
     andthen (stage_permit ig an held) (\<lambda>_.
     stage_forward ig an rq path caller r ro held)))))))))"

definition proxy :: "ingress_config \<Rightarrow> answers \<Rightarrow> ingress_request \<Rightarrow> unit stage" where
  "proxy ig an rq = (case proxy_path (rq_raw_path rq) (rq_path rq) of
     None \<Rightarrow> ([], Done not_found)
   | Some path \<Rightarrow> andthen (stage_auth an rq) (\<lambda>r. case (a_caller r, a_meta r) of
       (Some caller, Some m) \<Rightarrow> admitted ig an rq path r caller m
     | _ \<Rightarrow> ([], Raised (TypeError ''no caller''))))"

section \<open>Effects of the stages\<close>

lemma andthen_mem:
  "x \<in> set (fst (andthen m k)) \<longleftrightarrow> x \<in> set (fst m) \<or> (\<exists>es y. m = (es, Go y) \<and> x \<in> set (fst (k y)))"
  by (cases m; cases "snd m") (auto simp: andthen_def split: prod.splits)

lemma andthen_fst: "fst (andthen m k) = fst m @ (case snd m of Go y \<Rightarrow> fst (k y) | _ \<Rightarrow> [])"
  by (cases m; cases "snd m") (auto simp: andthen_def split: prod.splits)

lemma andthen_filter:
  "filter P (fst (andthen m k)) = filter P (fst m) @ (case snd m of Go y \<Rightarrow> filter P (fst (k y)) | _ \<Rightarrow> [])"
  by (simp add: andthen_fst split: progress.splits)

lemma fst_go [simp]: "fst (go x) = []" "snd (go x) = Go x"
  by (simp_all add: go_def)

lemma fst_reading [simp]: "fst (reading r) = []" "snd (reading r) = Go x \<longleftrightarrow> r = Inr x"
  by (auto simp: reading_def split: sum.splits)

lemma fst_stop [simp]: "fst (stop a b c d) = []" "snd (stop a b c d) \<noteq> Go x"
  by (simp_all add: stop_def)

lemma fst_reject [simp]: "fst (reject a b c d) = [Rejected a b]" "snd (reject a b c d) \<noteq> Go x"
  by (simp_all add: reject_def)

text \<open>What only notes refusals and takes tokens: every stage before the reservation.\<close>

fun light :: "effect \<Rightarrow> bool" where
  "light (Rejected _ _) = True"
| "light (TokenTaken _ _ _) = True"
| "light _ = False"

definition light_stage :: "'a stage \<Rightarrow> bool" where
  "light_stage m \<longleftrightarrow> list_all light (fst m)"

lemma light_andthen: "light_stage m \<Longrightarrow> (\<And>y. light_stage (k y)) \<Longrightarrow> light_stage (andthen m k)"
  by (auto simp: light_stage_def andthen_fst split: progress.splits)

lemma light_basic [simp]: "light_stage (go x)" "light_stage (reading r)" "light_stage (stop a b c d)" "light_stage (reject p q hs v)"
  "light_stage ([], p')" "light_stage (invalid_request msg extra)" "light_stage (routing_error e)"
  by (simp_all add: light_stage_def invalid_request_def routing_error_def)

lemma light_bucket: "light_stage (stage_bucket an who reason code name rate burst)"
  by (auto simp: stage_bucket_def light_stage_def andthen_def reading_def go_def reject_def split: prod.splits sum.splits)

lemma light_stages:
  "light_stage (stage_auth an rq)" "light_stage (stage_route rq path r an)" "light_stage (stage_allowed m ro)"
  "light_stage (stage_rate ig an caller m)" "light_stage (stage_key_rate an caller ro)" "light_stage (stage_show ig rq path ro)"
  "light_stage (stage_budget an caller m)" "light_stage (stage_transport ig r)"
proof -
  show "light_stage (stage_auth an rq)" unfolding stage_auth_def Let_def by (intro light_andthen) simp_all
  show "light_stage (stage_route rq path r an)"
    by (auto simp: stage_route_def stage_tenant_def Let_def split: option.splits sum.splits jval.splits)
  show "light_stage (stage_allowed m ro)" by (simp add: stage_allowed_def)
  show "light_stage (stage_rate ig an caller m)" by (simp add: stage_rate_def light_bucket split: prod.splits)
  show "light_stage (stage_key_rate an caller ro)"
    unfolding stage_key_rate_def Let_def by (simp add: light_andthen light_bucket)
  show "light_stage (stage_show ig rq path ro)" by (simp add: stage_show_def Let_def)
  show "light_stage (stage_budget an caller m)"
    unfolding stage_budget_def by (intro light_andthen) (simp_all split: option.splits prod.splits)
  show "light_stage (stage_transport ig r)" by (simp add: stage_transport_def)
qed

lemma light_none: "light_stage m \<Longrightarrow> (\<And>e. light e \<Longrightarrow> \<not> P e) \<Longrightarrow> filter P (fst m) = []"
  by (auto simp: light_stage_def list_all_iff filter_empty_conv)

text \<open>The stages from the reservation on.\<close>

definition committed ::
  "ingress_config \<Rightarrow> answers \<Rightarrow> ingress_request \<Rightarrow> string \<Rightarrow> auth_result \<Rightarrow> string \<Rightarrow> routed \<Rightarrow> unit stage" where
  "committed ig an rq path r caller ro =
     andthen (stage_reserve ig an r ro) (\<lambda>held. andthen (stage_permit ig an held) (\<lambda>_.
     stage_forward ig an rq path caller r ro held))"

lemma andthen_Go: "snd (andthen m k) = Go y \<longleftrightarrow> (\<exists>x. snd m = Go x \<and> snd (k x) = Go y)"
  by (cases m; cases "snd m") (auto simp: andthen_def split: prod.splits)

text \<open>
  A heavy effect comes from the committed part, and then every stage before let the request through.
\<close>

lemma heavy_effects:
  assumes "\<And>e. light e \<Longrightarrow> \<not> P e" and "filter P (fst (proxy ig an rq)) \<noteq> []"
  obtains path r caller m ro where
    "proxy_path (rq_raw_path rq) (rq_path rq) = Some path"
    "an_auth an (extract_token (map_of (rq_headers rq) ''authorization'')) = Inr r" "a_ok r" "a_caller r = Some caller" "a_meta r = Some m"
    "snd (stage_route rq path r an) = Go ro" "snd (stage_allowed m ro) = Go ()" "snd (stage_rate ig an caller m) = Go ()"
    "snd (stage_key_rate an caller ro) = Go ()" "snd (stage_budget an caller m) = Go ()" "snd (stage_transport ig r) = Go ()"
    "filter P (fst (proxy ig an rq)) = filter P (fst (committed ig an rq path r caller ro))"
proof -
  note none = light_stages [THEN light_none, OF assms(1)]
  from assms(2) obtain path where path: "proxy_path (rq_raw_path rq) (rq_path rq) = Some path"
    by (auto simp: proxy_def split: option.splits)
  with assms(2) none obtain r where r: "snd (stage_auth an rq) = Go r"
    by (auto simp: proxy_def andthen_filter split: progress.splits)
  with path assms(2) none obtain caller m where who: "a_caller r = Some caller" "a_meta r = Some m"
    and rest: "filter P (fst (proxy ig an rq)) = filter P (fst (admitted ig an rq path r caller m))"
    by (auto simp: proxy_def andthen_filter split: option.splits)
  from r have ok: "an_auth an (extract_token (map_of (rq_headers rq) ''authorization'')) = Inr r \<and> a_ok r"
    by (auto simp: stage_auth_def andthen_Go Let_def split: if_splits)
  show ?thesis
    using assms(2) none that [OF path _ _ who] ok
    unfolding rest admitted_def committed_def by (auto simp: andthen_filter split: progress.splits)
qed

section \<open>Nothing leaks\<close>

definition is_reserved :: "effect \<Rightarrow> bool" where
  "is_reserved e = (case e of Reserved i key limit amount (True, True) \<Rightarrow> True | _ \<Rightarrow> False)"

definition is_settled :: "effect \<Rightarrow> bool" where
  "is_settled e = (case e of Settled i c \<Rightarrow> True | _ \<Rightarrow> False)"

definition is_forwarded :: "effect \<Rightarrow> bool" where
  "is_forwarded e = (case e of Forwarded _ _ _ _ \<Rightarrow> True | _ \<Rightarrow> False)"

lemma light_not [simp]:
  "light e \<Longrightarrow> \<not> is_reserved e" "light e \<Longrightarrow> \<not> is_settled e" "light e \<Longrightarrow> \<not> is_forwarded e"
  "light e \<Longrightarrow> e \<noteq> PermitTaken" "light e \<Longrightarrow> e \<noteq> PermitFreed"
  by (cases e; simp add: is_reserved_def is_settled_def is_forwarded_def)+

text \<open>The effects of a forwarded request end with the ledger row, the settlement and the permit.\<close>

lemma forward_effects:
  "\<exists>sent model session code m. is_forwarded sent
     \<and> fst (stage_forward ig an rq path caller r ro held) = sent # finish r ro held model session code m"
proof -
  have fwd: "is_forwarded (Forwarded a b c d)" for a b c d by (simp add: is_forwarded_def)
  show ?thesis
    unfolding stage_forward_def Let_def
    by (auto split: prod.splits upstream.splits sum.splits intro!: exI fwd)
qed

text \<open>The cost of a call that has a ledger row is the row's, or the amount held when it was served at an unknown cost; without a row there was no call.\<close>

definition right_cost :: "effect list \<Rightarrow> pyfloat \<Rightarrow> pyfloat option \<Rightarrow> bool" where
  "right_cost es amount c \<longleftrightarrow>
     (\<forall>row. Recorded row \<in> set es \<longrightarrow> c = (if mt_cost (lr_meter row) \<noteq> None \<or> 400 \<le> lr_status row then mt_cost (lr_meter row) else Some amount))
     \<and> ((\<forall>row. Recorded row \<notin> set es) \<longrightarrow> c = None)"

definition well_settled :: "string \<Rightarrow> effect list \<Rightarrow> bool" where
  "well_settled i es \<longleftrightarrow>
     length (filter is_settled es) = length (filter is_reserved es) \<and> length (filter is_reserved es) \<le> 1
     \<and> length (filter (\<lambda>e. e = PermitFreed) es) = length (filter (\<lambda>e. e = PermitTaken) es)
     \<and> (\<forall>j c. Settled j c \<in> set es \<longrightarrow> j = i \<and> (\<exists>key limit amount. Reserved i key limit amount (True, True) \<in> set es \<and> right_cost es amount c))"

lemma filter_finish:
  "filter is_settled (finish r ro held model session code m) = settle held (final_cost held code m)"
  "filter is_reserved (finish r ro held model session code m) = []"
  "filter (\<lambda>e. e = PermitFreed) (finish r ro held model session code m) = [PermitFreed]"
  "filter (\<lambda>e. e = PermitTaken) (finish r ro held model session code m) = []"
  by (auto simp: finish_def settle_def is_settled_def is_reserved_def split: option.splits)

lemma forwarded_not [simp]: "is_forwarded e \<Longrightarrow> \<not> is_settled e \<and> \<not> is_reserved e \<and> e \<noteq> PermitTaken \<and> e \<noteq> PermitFreed \<and> e \<noteq> Settled i c \<and> e \<noteq> Recorded row"
  by (cases e) (auto simp: is_forwarded_def is_settled_def is_reserved_def)

text \<open>The three ways the committed part can go.\<close>

lemma stage_reserve_cases:
  obtains (none) "stage_reserve ig an r ro = go None"
  | (bad) e where "stage_reserve ig an r ro = ([], Raised e)"
  | (refused) key limit amount a b x p where "fst (stage_reserve ig an r ro) = [Reserved (an_token_hex an) key limit amount (a, b), x]"
      "\<not> (a \<and> b)" "light x" "snd (stage_reserve ig an r ro) = Done p"
  | (held) key limit amount where "stage_reserve ig an r ro = ([Reserved (an_token_hex an) key limit amount (True, True)], Go (Some (an_token_hex an, amount)))"
proof -
  let ?given = "dget (key_limits ro) ''monthly_budget_usd''"
  show ?thesis
  proof (cases "?given = JNull")
    case True
    then show ?thesis using none by (simp add: stage_reserve_def)
  next
    case False
    show ?thesis
    proof (cases "float_of ?given")
      case (Inl e)
      with False bad show ?thesis by (simp add: stage_reserve_def Let_def andthen_def reading_def)
    next
      case (Inr limit)
      define amount where "amount = (if f_lt limit (ig_reservation_usd ig) then limit else ig_reservation_usd ig)"
      define key where "key = BudgetKey (the (a_tenant r)) (key_subject ro) (an_period an)"
      obtain a b spent held where ans: "an_reserve an key limit amount (an_token_hex an) = (a, b, spent, held)"
        by (cases "an_reserve an key limit amount (an_token_hex an)") auto
      note stage = stage_reserve_def [of ig an r ro] andthen_def reading_def reject_def go_def
      from False Inr ans show ?thesis
        using held [of key limit amount] refused [of key limit amount a b]
        by (cases a; cases b) (auto simp: stage Let_def amount_def [symmetric] key_def [symmetric])
    qed
  qed
qed

lemma permit_cases:
  obtains (taken) "stage_permit ig an held = ([PermitTaken], Go ())"
  | (refused) xs where "fst (stage_permit ig an held) = settle held None @ xs" "list_all light xs" "\<And>u. snd (stage_permit ig an held) \<noteq> Go u"
proof (cases "an_permit an")
  case (Inl e)
  then show ?thesis using refused [of "[]"] by (simp add: stage_permit_def)
next
  case (Inr b)
  show ?thesis
  proof (cases b)
    case True
    with Inr show ?thesis using taken by (simp add: stage_permit_def)
  next
    case False
    with Inr show ?thesis using refused [of "[Rejected ''router_overloaded'' 503]"]
      by (cases "retry_header (ig_queue_timeout ig)") (simp_all add: stage_permit_def andthen_def reading_def)
  qed
qed

lemma list_all_light_filters [simp]:
  assumes "list_all light xs"
  shows "filter is_settled xs = []" "filter is_reserved xs = []" "filter (\<lambda>e. e = PermitFreed) xs = []" "filter (\<lambda>e. e = PermitTaken) xs = []"
    "Settled i c \<notin> set xs" "Recorded row \<notin> set xs" "Reserved j key limit amount ok \<notin> set xs"
  using assms by (induction xs) auto

lemma settle_filters [simp]:
  "filter is_reserved (settle held c) = []" "filter (\<lambda>e. e = PermitFreed) (settle held c) = []" "filter (\<lambda>e. e = PermitTaken) (settle held c) = []"
  "filter is_settled (settle held c) = settle held c" "Recorded row \<notin> set (settle held c)" "Reserved j key limit amount ok \<notin> set (settle held c)"
  "Settled i c' \<in> set (settle held c) \<longleftrightarrow> c' = c \<and> (\<exists>a. held = Some (i, a))" "length (settle held c) = (if held = None then 0 else 1)"
  by (auto simp: settle_def is_reserved_def is_settled_def split: option.splits)

lemma finish_mem [simp]:
  "Settled i c \<in> set (finish r ro held model session code m) \<longleftrightarrow> c = final_cost held code m \<and> (\<exists>a. held = Some (i, a))"
  "Recorded row \<in> set (finish r ro held model session code m) \<longleftrightarrow>
     row = \<lparr>lr_status = code, lr_meter = m, lr_model = model, lr_session = session, lr_trace = published_trace r ro (mt_trace m)\<rparr>"
  "Reserved j key limit amount ok \<notin> set (finish r ro held model session code m)"
  by (auto simp: finish_def)

text \<open>After a reservation, or without one, the rest settles it once and frees the permit it took.\<close>

definition settles :: "(string \<times> pyfloat) option \<Rightarrow> effect list \<Rightarrow> bool" where
  "settles held es \<longleftrightarrow>
     length (filter is_settled es) = (if held = None then 0 else 1) \<and> filter is_reserved es = []
     \<and> length (filter (\<lambda>e. e = PermitFreed) es) = length (filter (\<lambda>e. e = PermitTaken) es)
     \<and> (\<forall>j c. Settled j c \<in> set es \<longrightarrow> (\<exists>amount. held = Some (j, amount) \<and> right_cost es amount c))"

lemma permit_forward_settles:
  "settles held (fst (andthen (stage_permit ig an held) (\<lambda>_. stage_forward ig an rq path caller r ro held)))"
proof (cases rule: permit_cases [of ig an held])
  case taken
  obtain sent model session code m where sent: "is_forwarded sent"
    and fin: "fst (stage_forward ig an rq path caller r ro held) = sent # finish r ro held model session code m"
    using forward_effects by blast
  have es: "fst (andthen (stage_permit ig an held) (\<lambda>_. stage_forward ig an rq path caller r ro held))
      = PermitTaken # sent # finish r ro held model session code m"
    by (simp add: andthen_fst taken fin)
  have no: "\<not> is_settled PermitTaken" "\<not> is_reserved PermitTaken" by (simp_all add: is_settled_def is_reserved_def)
  show ?thesis
    unfolding settles_def es
  proof (intro conjI allI impI)
    fix j c assume "Settled j c \<in> set (PermitTaken # sent # finish r ro held model session code m)"
    then have "c = final_cost held code m" "\<exists>a. held = Some (j, a)" using sent by (auto simp: is_forwarded_def)
    then have "\<exists>a. held = Some (j, a)" "c = final_cost held code m" by blast+
    then show "\<exists>amount. held = Some (j, amount) \<and> right_cost (PermitTaken # sent # finish r ro held model session code m) amount c"
    proof -
      have rows: "Recorded row \<in> set (PermitTaken # sent # finish r ro held model session code m)
          \<longleftrightarrow> row = \<lparr>lr_status = code, lr_meter = m, lr_model = model, lr_session = session, lr_trace = published_trace r ro (mt_trace m)\<rparr>" for row
        using sent by (auto simp: is_forwarded_def)
      from \<open>\<exists>a. held = Some (j, a)\<close> obtain a where "held = Some (j, a)" by blast
      with \<open>c = final_cost held code m\<close> show ?thesis unfolding right_cost_def rows by (auto simp: final_cost_def)
    qed
  qed (use sent no in \<open>simp_all add: filter_finish\<close>)
next
  case (refused xs)
  then have "fst (andthen (stage_permit ig an held) (\<lambda>_. stage_forward ig an rq path caller r ro held)) = settle held None @ xs"
    by (auto simp: andthen_fst split: progress.splits)
  with refused(2) show ?thesis by (auto simp: settles_def right_cost_def)
qed

lemma settles_reserved:
  assumes "settles (Some (i, amount)) es"
  shows "well_settled i (Reserved i key limit amount (True, True) # es)"
proof -
  let ?r = "Reserved i key limit amount (True, True)"
  have r: "is_reserved ?r" "\<not> is_settled ?r" by (simp_all add: is_reserved_def is_settled_def)
  show ?thesis
    unfolding well_settled_def
  proof (intro conjI allI impI)
    fix j c assume "Settled j c \<in> set (?r # es)"
    then have j: "j = i" and c: "right_cost es amount c"
      using assms unfolding settles_def by fastforce+
    show "j = i" by (fact j)
    show "\<exists>key' limit' amount'. Reserved i key' limit' amount' (True, True) \<in> set (?r # es)
        \<and> right_cost (?r # es) amount' c"
      using c by (intro exI [of _ key] exI [of _ limit] exI [of _ amount]) (simp add: right_cost_def)
  qed (use assms r in \<open>simp_all add: settles_def\<close>)
qed

lemma committed_settles: "well_settled (an_token_hex an) (fst (committed ig an rq path r caller ro))"
proof (cases rule: stage_reserve_cases [of ig an r ro])
  case none
  then have "fst (committed ig an rq path r caller ro)
      = fst (andthen (stage_permit ig an None) (\<lambda>_. stage_forward ig an rq path caller r ro None))"
    by (simp add: committed_def andthen_fst)
  with permit_forward_settles [of None ig an rq path caller r ro] show ?thesis by (auto simp: settles_def well_settled_def)
next
  case (bad e)
  then show ?thesis by (simp add: committed_def andthen_fst well_settled_def)
next
  case (refused key limit amount a b x p)
  then have es: "fst (committed ig an rq path r caller ro) = [Reserved (an_token_hex an) key limit amount (a, b), x]"
    by (simp add: committed_def andthen_fst)
  from refused(2) have "\<not> is_reserved (Reserved (an_token_hex an) key limit amount (a, b))"
    by (auto simp: is_reserved_def split: bool.splits)
  with refused(3) show ?thesis
    by (cases x) (auto simp: es well_settled_def is_settled_def is_reserved_def)
next
  case (held key limit amount)
  let ?rest = "fst (andthen (stage_permit ig an (Some (an_token_hex an, amount)))
      (\<lambda>_. stage_forward ig an rq path caller r ro (Some (an_token_hex an, amount))))"
  have es: "fst (committed ig an rq path r caller ro) = Reserved (an_token_hex an) key limit amount (True, True) # ?rest"
    by (simp add: committed_def andthen_fst held)
  show ?thesis unfolding es by (intro settles_reserved permit_forward_settles)
qed

text \<open>Only the effects that are not light count.\<close>

definition heavy :: "effect list \<Rightarrow> effect list" where
  "heavy es = filter (\<lambda>e. \<not> light e) es"

lemma heavy_filter: "(\<And>e. light e \<Longrightarrow> \<not> P e) \<Longrightarrow> filter P (heavy es) = filter P es"
  by (induction es) (auto simp: heavy_def)

lemma well_settled_heavy: "well_settled i (heavy es) \<longleftrightarrow> well_settled i es"
proof -
  have m: "e \<in> set (heavy es) \<longleftrightarrow> e \<in> set es" if "\<not> light e" for e using that by (simp add: heavy_def)
  have "filter is_settled (heavy es) = filter is_settled es" "filter is_reserved (heavy es) = filter is_reserved es"
    "filter (\<lambda>e. e = PermitFreed) (heavy es) = filter (\<lambda>e. e = PermitFreed) es"
    "filter (\<lambda>e. e = PermitTaken) (heavy es) = filter (\<lambda>e. e = PermitTaken) es"
    by (intro heavy_filter; auto)+
  then show ?thesis by (simp add: well_settled_def right_cost_def m)
qed


section \<open>What is forwarded was admitted\<close>

lemma forward_sent:
  assumes "Forwarded me url hs body \<in> set (fst (stage_forward ig an rq path caller r ro held))"
  shows "me = rq_method rq \<and> hs = forward_headers ig rq caller r ro \<and> body = ro_body ro
    \<and> url = ig_upstream ig @ ''/'' @ path @ (if rq_query rq \<noteq> [] then ''?'' @ rq_query rq else [])"
proof -
  have "Forwarded me url hs body \<notin> set (finish r ro held model session code m)" for model session code m
    by (auto simp: finish_def settle_def split: option.splits)
  with assms show ?thesis
    by (auto simp: stage_forward_def Let_def split: prod.splits upstream.splits sum.splits)
qed

lemma bucket_Go: "snd (stage_bucket an who reason code name rate burst) = Go () \<Longrightarrow> \<exists>retry. an_rate an name rate burst = (True, True, retry)"
  by (auto simp: stage_bucket_def andthen_Go split: prod.splits if_splits)

lemma key_rate_Go:
  assumes "snd (stage_key_rate an caller ro) = Go ()" and "truthy (dget (key_limits ro) ''rate_per_min'')"
  shows "\<exists>rate burst retry. int_of (dget (key_limits ro) ''rate_per_min'') = Inr rate
    \<and> int_of (py_or (dget (key_limits ro) ''burst'') (JInt rate)) = Inr burst
    \<and> an_rate an (caller @ ''|'' @ key_subject ro) rate burst = (True, True, retry)"
  using assms by (auto simp: stage_key_rate_def andthen_Go Let_def dest: bucket_Go)

lemma budget_Go:
  assumes "snd (stage_budget an caller m) = Go ()" and "cm_budget m = Some b" and "optional_float (1 / 100) (JFloat b) = Inr (Some limit)"
  shows "\<exists>spent. an_spend an caller = (spent, True) \<and> \<not> f_le limit spent"
  using assms by (auto simp: stage_budget_def andthen_Go split: prod.splits if_splits)

lemma reserve_Go:
  assumes "snd (stage_reserve ig an r ro) = Go held" and "dget (key_limits ro) ''monthly_budget_usd'' \<noteq> JNull"
  shows "\<exists>limit amount spent kept. float_of (dget (key_limits ro) ''monthly_budget_usd'') = Inr limit \<and> held = Some (an_token_hex an, amount)
    \<and> an_reserve an (BudgetKey (the (a_tenant r)) (key_subject ro) (an_period an)) limit amount (an_token_hex an) = (True, True, spent, kept)"
proof -
  let ?amount = "\<lambda>limit. if f_lt limit (ig_reservation_usd ig) then limit else ig_reservation_usd ig"
  let ?key = "BudgetKey (the (a_tenant r)) (key_subject ro) (an_period an)"
  from assms obtain limit where limit: "float_of (dget (key_limits ro) ''monthly_budget_usd'') = Inr limit"
    by (auto simp: stage_reserve_def andthen_Go Let_def)
  obtain a b spent kept where ans: "an_reserve an ?key limit (?amount limit) (an_token_hex an) = (a, b, spent, kept)"
    by (cases "an_reserve an ?key limit (?amount limit) (an_token_hex an)") auto
  from assms limit ans have "a \<and> b \<and> held = Some (an_token_hex an, ?amount limit)"
    by (cases a; cases b) (auto simp: stage_reserve_def andthen_Go Let_def)
  with limit ans show ?thesis by auto
qed

lemma committed_sent:
  assumes "Forwarded me url hs body \<in> set (fst (committed ig an rq path r caller ro))"
  shows "\<exists>held. snd (stage_reserve ig an r ro) = Go held \<and> an_permit an = Inr True
    \<and> Forwarded me url hs body \<in> set (fst (stage_forward ig an rq path caller r ro held))"
proof -
  have "Forwarded me url hs body \<notin> set (fst (stage_reserve ig an r ro))"
    by (cases rule: stage_reserve_cases [of ig an r ro]) auto
  moreover have "Forwarded me url hs body \<notin> set (fst (stage_permit ig an held))" for held
    by (auto simp: stage_permit_def andthen_fst settle_def split: sum.splits bool.splits option.splits progress.splits)
  moreover have "an_permit an = Inr True" if "snd (stage_permit ig an held) = Go ()" for held
    using that by (auto simp: stage_permit_def andthen_Go split: sum.splits bool.splits)
  ultimately show ?thesis
    using assms by (auto simp: committed_def andthen_fst split: progress.splits) metis
qed

lemma route_tenant_Go:
  assumes "snd (stage_route rq path r an) = Go ro" and "a_tenant r = Some t"
  shows "\<exists>name p e digest published payload out selected. an_route an t name p e digest = Inr published
    \<and> apply_contract payload published = Inr (out, selected) \<and> ro_body ro = dumps True '','' '':'' (JObj out) \<and> ro_published ro = Some selected"
proof -
  from assms obtain d k q where "publish an r t k q d = Inr ro"
    by (auto simp: stage_route_def stage_tenant_def Let_def invalid_request_def routing_error_def split: sum.splits jval.splits if_splits)
  then show ?thesis
    by (auto simp: publish_def Let_def res_simps split: prod.splits) blast
qed

lemma forwarded_gates:
  assumes "Forwarded me url hs body \<in> set (fst (proxy ig an rq))"
  obtains path r caller m ro held where
    "proxy_path (rq_raw_path rq) (rq_path rq) = Some path"
    "an_auth an (extract_token (map_of (rq_headers rq) ''authorization'')) = Inr r" "a_ok r" "a_caller r = Some caller" "a_meta r = Some m"
    "snd (stage_route rq path r an) = Go ro" "snd (stage_allowed m ro) = Go ()" "snd (stage_rate ig an caller m) = Go ()"
    "snd (stage_key_rate an caller ro) = Go ()" "snd (stage_budget an caller m) = Go ()" "snd (stage_transport ig r) = Go ()"
    "snd (stage_reserve ig an r ro) = Go held" "an_permit an = Inr True" "hs = forward_headers ig rq caller r ro" "body = ro_body ro"
proof -
  have kept: "Forwarded me url hs body \<in> set (filter is_forwarded (fst (proxy ig an rq)))" using assms by (simp add: is_forwarded_def)
  then have ne: "filter is_forwarded (fst (proxy ig an rq)) \<noteq> []" by (metis empty_iff empty_set)
  obtain path r caller m ro where gates:
    "proxy_path (rq_raw_path rq) (rq_path rq) = Some path"
    "an_auth an (extract_token (map_of (rq_headers rq) ''authorization'')) = Inr r" "a_ok r" "a_caller r = Some caller" "a_meta r = Some m"
    "snd (stage_route rq path r an) = Go ro" "snd (stage_allowed m ro) = Go ()" "snd (stage_rate ig an caller m) = Go ()"
    "snd (stage_key_rate an caller ro) = Go ()" "snd (stage_budget an caller m) = Go ()" "snd (stage_transport ig r) = Go ()"
    "filter is_forwarded (fst (proxy ig an rq)) = filter is_forwarded (fst (committed ig an rq path r caller ro))"
    using heavy_effects [of is_forwarded ig an rq] ne by (metis light_not(3))
  from kept gates(12) have "Forwarded me url hs body \<in> set (fst (committed ig an rq path r caller ro))" by auto
  from committed_sent [OF this] forward_sent gates that show ?thesis by metis
qed


section \<open>Identity is the router's own\<close>

lemma client_headers_clean: "k \<in> set stripped_headers \<Longrightarrow> map_of (client_headers hs) k = None"
proof -
  have "list_all (\<lambda>k. ascii_lower k = k) stripped_headers" by code_simp
  moreover assume "k \<in> set stripped_headers"
  ultimately have "k \<notin> fst ` set (filter (\<lambda>p. ascii_lower (fst p) \<notin> set stripped_headers) hs)" by (auto simp: list_all_iff)
  then have "map_of (rev (filter (\<lambda>p. ascii_lower (fst p) \<notin> set stripped_headers) hs)) k = None"
    by (simp add: map_of_eq_None_iff rev_map [symmetric])
  then show ?thesis by (simp add: client_headers_def map_of_dupd)
qed

lemma tenant_headers_wf: "wf_dict (tenant_headers ig r ro)"
  by (cases "a_tenant r"; cases "a_scope r") (auto simp: tenant_headers_def scope_headers_def Let_def)

lemma tenant_header:
  "map_of (tenant_headers ig r ro) ''authorization'' = None"
  "map_of (tenant_headers ig r ro) ''x-llm-router-tenant'' = map_option int_str (a_tenant r)"
  "map_of (tenant_headers ig r ro) ''x-internal-secret'' = (if a_tenant r = None then None else Some (cp_secret (ig_cp ig)))"
  "map_of (tenant_headers ig r ro) ''x-unhardcoded-project'' = (case (a_tenant r, a_scope r) of
     (Some t, Some (p, e)) \<Rightarrow> Some (py_str (int_or_null p)) | _ \<Rightarrow> None)"
  "map_of (tenant_headers ig r ro) ''x-unhardcoded-environment'' = (case (a_tenant r, a_scope r) of
     (Some t, Some (p, e)) \<Rightarrow> Some (py_str (int_or_null e)) | _ \<Rightarrow> None)"
  by (cases "a_tenant r"; cases "a_scope r"; simp add: tenant_headers_def scope_headers_def Let_def split: prod.splits)+

lemma forward_header:
  assumes "k \<in> set stripped_headers"
  shows "map_of (forward_headers ig rq caller r ro) k = map_of (tenant_headers ig r ro) k"
proof -
  have "''x-llm-router-caller'' \<notin> set stripped_headers" by (simp add: stripped_headers_def)
  with assms have "k \<noteq> ''x-llm-router-caller''" by blast
  then show ?thesis
    using client_headers_clean [OF assms, of "rq_headers rq"]
    by (simp add: forward_headers_def map_of_dupd_wf [OF tenant_headers_wf] map_of_dset map_add_def split: option.splits)
qed

lemma forward_caller: "map_of (forward_headers ig rq caller r ro) ''x-llm-router-caller'' = Some caller"
proof -
  have "map_of (tenant_headers ig r ro) ''x-llm-router-caller'' = None"
    by (simp add: tenant_headers_def scope_headers_def Let_def split: option.splits prod.splits)
  then show ?thesis by (simp add: forward_headers_def map_of_dupd_wf [OF tenant_headers_wf] map_of_dset map_add_def)
qed

text \<open>
  C4. Nobody can pass for a tenant. Of the headers that reach the router, the caller, the tenant, the scope and the secret of the bridge
  come from the authenticated result alone, whatever the client sent under these names: without a tenant they are absent, and
  the client's own credential never goes on.
\<close>

theorem forwarded_identity_authentic:
  assumes "Forwarded me url hs body \<in> set (fst (proxy ig an rq))"
  shows "\<exists>r caller. an_auth an (extract_token (map_of (rq_headers rq) ''authorization'')) = Inr r \<and> a_ok r \<and> a_caller r = Some caller
    \<and> map_of hs ''x-llm-router-caller'' = Some caller \<and> map_of hs ''authorization'' = None
    \<and> map_of hs ''x-llm-router-tenant'' = map_option int_str (a_tenant r)
    \<and> map_of hs ''x-internal-secret'' = (if a_tenant r = None then None else Some (cp_secret (ig_cp ig)))
    \<and> map_of hs ''x-unhardcoded-project'' = (case (a_tenant r, a_scope r) of
         (Some t, Some (p, e)) \<Rightarrow> Some (py_str (int_or_null p)) | _ \<Rightarrow> None)
    \<and> map_of hs ''x-unhardcoded-environment'' = (case (a_tenant r, a_scope r) of
         (Some t, Some (p, e)) \<Rightarrow> Some (py_str (int_or_null e)) | _ \<Rightarrow> None)"
proof -
  obtain path r caller m ro held where gates:
    "an_auth an (extract_token (map_of (rq_headers rq) ''authorization'')) = Inr r" "a_ok r" "a_caller r = Some caller"
    and hs: "hs = forward_headers ig rq caller r ro"
    using forwarded_gates [OF assms] by metis
  have h: "map_of hs k = map_of (tenant_headers ig r ro) k" if "k \<in> set stripped_headers" for k
    using forward_header [OF that] hs by simp
  have "map_of hs ''x-llm-router-caller'' = Some caller" using forward_caller hs by simp
  with gates show ?thesis
    by (intro exI [of _ r] exI [of _ caller] conjI) (simp_all add: h stripped_headers_def tenant_header del: map_of.simps)
qed

section \<open>A request of a local caller\<close>

definition demo_ingress :: ingress_config where
  "demo_ingress = \<lparr>ig_auth = demo_auth, ig_cp = demo_cp, ig_bracket_ok = (\<lambda>_. False), ig_upstream = ''http://r'',
     ig_reservation_usd = Fin 1, ig_drain_max = 100, ig_queue_timeout = Fin 2, ig_context_length = 1000\<rparr>"

definition demo_caller :: auth_result where
  "demo_caller = no_auth\<lparr>a_ok := True, a_caller := Some ''c'', a_meta := Some (inactive_meta 0\<lparr>cm_status := ''active''\<rparr>)\<rparr>"

definition demo_answers :: answers where
  "demo_answers = \<lparr>an_auth = (\<lambda>t. Inr demo_caller), an_route = (\<lambda>_ _ _ _ _. Inl http_error), an_rate = (\<lambda>_ _ _. (True, True, Fin 0)),
     an_spend = (\<lambda>_. (Fin 0, True)), an_reserve = (\<lambda>_ _ _ _. (True, True, Fin 0, Fin 0)), an_period = ''2026-11'',
     an_token_hex = ''i'', an_permit = Inr True, an_upstream = (\<lambda>_ _ _ _. NotAnswered http_error)\<rparr>"

definition demo_request :: ingress_request where
  "demo_request = \<lparr>rq_method = ''GET'', rq_raw_path = ''/v1/models'', rq_path = ''/v1/models'', rq_query = [],
     rq_headers = [(''authorization'', ''Bearer t''), (''x-llm-router-tenant'', ''9''), (''accept'', ''a'')], rq_body = []\<rparr>"

lemma demo_forwarded: "\<exists>me url hs body. Forwarded me url hs body \<in> set (fst (proxy demo_ingress demo_answers demo_request))"
proof -
  have path: "proxy_path (rq_raw_path demo_request) (rq_path demo_request) = Some ''v1/models''"
    and route: "requested_route_from ''v1/models'' [] = None" by code_simp+
  have gates: "snd (stage_auth demo_answers demo_request) = Go demo_caller"
    "snd (stage_route demo_request ''v1/models'' demo_caller demo_answers) = Go \<lparr>ro_body = [], ro_route = None, ro_published = None\<rparr>"
    by (simp_all add: stage_auth_def andthen_Go stage_route_def demo_answers_def demo_caller_def no_auth_def route demo_request_def)
  have caller: "a_caller demo_caller = Some ''c''" "a_meta demo_caller = Some (inactive_meta 0\<lparr>cm_status := ''active''\<rparr>)" "a_tenant demo_caller = None"
    by (simp_all add: demo_caller_def no_auth_def)
  have stages: "snd (stage_allowed (inactive_meta 0\<lparr>cm_status := ''active''\<rparr>) \<lparr>ro_body = [], ro_route = None, ro_published = None\<rparr>) = Go ()"
    "snd (stage_rate demo_ingress demo_answers ''c'' (inactive_meta 0\<lparr>cm_status := ''active''\<rparr>)) = Go ()"
    "snd (stage_key_rate demo_answers ''c'' \<lparr>ro_body = [], ro_route = None, ro_published = None\<rparr>) = Go ()"
    "snd (stage_show demo_ingress demo_request ''v1/models'' \<lparr>ro_body = [], ro_route = None, ro_published = None\<rparr>) = Go ()"
    "snd (stage_budget demo_answers ''c'' (inactive_meta 0\<lparr>cm_status := ''active''\<rparr>)) = Go ()"
    "snd (stage_transport demo_ingress demo_caller) = Go ()"
    "snd (stage_reserve demo_ingress demo_answers demo_caller \<lparr>ro_body = [], ro_route = None, ro_published = None\<rparr>) = Go None"
    "snd (stage_permit demo_ingress demo_answers None) = Go ()"
    by (simp_all add: stage_allowed_def route_allowed_def inactive_meta_def stage_rate_def rate_limits_def stage_bucket_def andthen_Go
        demo_answers_def stage_key_rate_def key_limits_def key_identity_def stage_show_def stage_budget_def optional_float_def absent_def
        stage_transport_def caller stage_reserve_def stage_permit_def split: prod.splits)
  obtain sent fin where fwd: "is_forwarded sent"
    "fst (stage_forward demo_ingress demo_answers demo_request ''v1/models'' ''c'' demo_caller \<lparr>ro_body = [], ro_route = None, ro_published = None\<rparr> None) = sent # fin"
    using forward_effects by metis
  then have "sent \<in> set (fst (proxy demo_ingress demo_answers demo_request))"
    by (simp add: proxy_def path andthen_fst gates caller admitted_def stages)
  with fwd(1) show ?thesis by (cases sent) (auto simp: is_forwarded_def)
qed


theorem forwarded_identity_authentic_witness:
  "\<exists>me url hs body. Forwarded me url hs body \<in> set (fst (proxy demo_ingress demo_answers demo_request))
     \<and> map_of hs ''x-llm-router-tenant'' = None \<and> map_of hs ''x-llm-router-caller'' = Some ''c''"
proof -
  from demo_forwarded obtain me url hs body where sent: "Forwarded me url hs body \<in> set (fst (proxy demo_ingress demo_answers demo_request))"
    by blast
  from forwarded_identity_authentic [OF sent] have "map_of hs ''x-llm-router-tenant'' = None \<and> map_of hs ''x-llm-router-caller'' = Some ''c''"
    by (auto simp: demo_answers_def demo_caller_def no_auth_def)
  with sent show ?thesis by blast
qed

end
