(* ===== verification/Capacity.thy ===== *)
theory Capacity
  imports Prelude
begin

text \<open>
  \<open>auth_proxy.py\<close>, the permits of a replica: \<open>_capacity_acquire\<close> and \<open>_capacity_release\<close> over the semaphore of \<open>asyncio\<close>. The event loop
  runs one coroutine at a time, so what happens between two awaits is one step; a request in the queue is signalled (its
  timeout fires, or it is cancelled) and resumed in steps of their own, in any order.
\<close>

section \<open>The semaphore and the counters\<close>

text \<open>
  A waiter's future: pending; set by a release; cancelled; set, with a cancellation that reaches its task when it resumes.
\<close>

datatype waiter = Waiting | Woken | Gone | Doomed

text \<open>\<open>sem_value\<close> is \<open>None\<close> where there is no semaphore: the number of calls is not bounded.\<close>

record capacity =
  sem_value :: "nat option"
  sem_waiters :: "(nat \<times> waiter) list"
  pending_requests :: nat
  active_requests :: nat

definition new_capacity :: "nat \<Rightarrow> capacity" where
  "new_capacity max_inflight = \<lparr>sem_value = (if max_inflight = 0 then None else Some max_inflight), sem_waiters = [],
     pending_requests = 0, active_requests = 0\<rparr>"

definition sem_locked :: "nat \<Rightarrow> (nat \<times> waiter) list \<Rightarrow> bool" where
  "sem_locked v ws = (v = 0 \<or> list_ex (\<lambda>w. snd w \<noteq> Gone) ws)"

fun wake_first :: "(nat \<times> waiter) list \<Rightarrow> (nat \<times> waiter) list option" where
  "wake_first [] = None"
| "wake_first ((t, s) # ws) = (if s = Waiting then Some ((t, Woken) # ws) else map_option (\<lambda>ws'. (t, s) # ws') (wake_first ws))"

definition wake_up_next :: "nat \<Rightarrow> (nat \<times> waiter) list \<Rightarrow> capacity \<Rightarrow> capacity" where
  "wake_up_next v ws g = (case wake_first ws of
     None \<Rightarrow> g\<lparr>sem_value := Some v, sem_waiters := ws\<rparr>
   | Some ws' \<Rightarrow> g\<lparr>sem_value := Some (v - 1), sem_waiters := ws'\<rparr>)"

section \<open>Entering and leaving\<close>

datatype entered = Admitted | Refused | Queued

definition capacity_arrive :: "nat \<Rightarrow> nat \<Rightarrow> capacity \<Rightarrow> entered \<times> capacity" where
  "capacity_arrive max_pending t g = (case sem_value g of
     None \<Rightarrow> (Admitted, g\<lparr>active_requests := Suc (active_requests g)\<rparr>)
   | Some v \<Rightarrow>
       if \<not> sem_locked v (sem_waiters g)
       then (Admitted, g\<lparr>sem_value := Some (v - 1), active_requests := Suc (active_requests g)\<rparr>)
       else if max_pending \<le> pending_requests g then (Refused, g)
       else (Queued, g\<lparr>sem_waiters := sem_waiters g @ [(t, Waiting)], pending_requests := Suc (pending_requests g)\<rparr>))"

text \<open>The timeout of the queue fires, or the request is cancelled.\<close>

definition signalled :: "waiter \<Rightarrow> waiter" where
  "signalled s = (case s of Waiting \<Rightarrow> Gone | Woken \<Rightarrow> Doomed | _ \<Rightarrow> s)"

definition capacity_signal :: "nat \<Rightarrow> capacity \<Rightarrow> capacity" where
  "capacity_signal t g = g\<lparr>sem_waiters := map (\<lambda>(u, s). (u, if u = t then signalled s else s)) (sem_waiters g)\<rparr>"

text \<open>
  A queued request runs on, and whether it was admitted. \<open>max(0, n - 1)\<close> is subtraction of natural numbers.
\<close>

definition capacity_resume :: "nat \<Rightarrow> waiter \<Rightarrow> capacity \<Rightarrow> bool \<times> capacity" where
  "capacity_resume t s g0 =
     (let g = g0\<lparr>sem_waiters := remove1 (t, s) (sem_waiters g0), pending_requests := pending_requests g0 - 1\<rparr>;
          v = the (sem_value g); ws = sem_waiters g in
      case s of
        Woken \<Rightarrow> (let g = (if 0 < v then wake_up_next v ws g else g) in (True, g\<lparr>active_requests := Suc (active_requests g)\<rparr>))
      | Doomed \<Rightarrow> (False, wake_up_next (Suc v) ws g)
      | _ \<Rightarrow> (False, g))"

definition capacity_release :: "capacity \<Rightarrow> capacity" where
  "capacity_release g0 =
     (let g = g0\<lparr>active_requests := active_requests g0 - 1\<rparr> in
      case sem_value g of None \<Rightarrow> g | Some v \<Rightarrow> wake_up_next (Suc v) (sem_waiters g) g)"

section \<open>Runs\<close>

text \<open>What requests do to the permits; \<open>holding\<close> are those that were admitted and have not released.\<close>

inductive capacity_run :: "nat \<Rightarrow> nat \<Rightarrow> capacity \<Rightarrow> nat list \<Rightarrow> bool" for max_inflight max_pending where
  starts: "capacity_run max_inflight max_pending (new_capacity max_inflight) []"
| arrives: "capacity_run max_inflight max_pending g holding \<Longrightarrow> t \<notin> fst ` set (sem_waiters g) \<Longrightarrow>
    capacity_arrive max_pending t g = (e, g') \<Longrightarrow>
    capacity_run max_inflight max_pending g' (if e = Admitted then t # holding else holding)"
| signals: "capacity_run max_inflight max_pending g holding \<Longrightarrow> capacity_run max_inflight max_pending (capacity_signal t g) holding"
| resumes: "capacity_run max_inflight max_pending g holding \<Longrightarrow> (t, s) \<in> set (sem_waiters g) \<Longrightarrow> s \<noteq> Waiting \<Longrightarrow>
    capacity_resume t s g = (admitted, g') \<Longrightarrow>
    capacity_run max_inflight max_pending g' (if admitted then t # holding else holding)"
| releases: "capacity_run max_inflight max_pending g holding \<Longrightarrow> t \<in> set holding \<Longrightarrow>
    capacity_run max_inflight max_pending (capacity_release g) (remove1 t holding)"

text \<open>Waiters that a permit was given to and that have not run on.\<close>

definition claimed :: "(nat \<times> waiter) list \<Rightarrow> nat" where
  "claimed ws = length (filter (\<lambda>w. snd w \<in> {Woken, Doomed}) ws)"

definition someone_waits :: "(nat \<times> waiter) list \<Rightarrow> bool" where
  "someone_waits ws = list_ex (\<lambda>w. snd w = Waiting) ws"

text \<open>Every permit is free, claimed or held; while one is free, whoever waits is about to be woken by a waiter that has a permit.\<close>

definition sem_ok :: "nat \<Rightarrow> nat option \<Rightarrow> (nat \<times> waiter) list \<Rightarrow> nat \<Rightarrow> bool" where
  "sem_ok max_inflight value ws held = (case value of
     None \<Rightarrow> max_inflight = 0 \<and> ws = []
   | Some v \<Rightarrow> v + claimed ws + held = max_inflight \<and> (0 < v \<longrightarrow> someone_waits ws \<longrightarrow> 0 < claimed ws))"

definition capacity_ok :: "nat \<Rightarrow> nat \<Rightarrow> capacity \<Rightarrow> nat list \<Rightarrow> bool" where
  "capacity_ok max_inflight max_pending g holding \<longleftrightarrow> active_requests g = length holding
     \<and> pending_requests g = length (sem_waiters g) \<and> pending_requests g \<le> max_pending
     \<and> sem_ok max_inflight (sem_value g) (sem_waiters g) (length holding)"

lemma claimed_simps [simp]:
  "claimed [] = 0" "claimed ((t, s) # ws) = (if s \<in> {Woken, Doomed} then Suc (claimed ws) else claimed ws)"
  "claimed (ws @ vs) = claimed ws + claimed vs"
  by (auto simp: claimed_def)

lemma waits_simps [simp]:
  "\<not> someone_waits []" "someone_waits ((t, s) # ws) \<longleftrightarrow> s = Waiting \<or> someone_waits ws"
  "someone_waits (ws @ vs) \<longleftrightarrow> someone_waits ws \<or> someone_waits vs"
  by (auto simp: someone_waits_def)

lemma claimed_remove1: "(t, s) \<in> set ws \<Longrightarrow> claimed ws = claimed (remove1 (t, s) ws) + claimed [(t, s)]"
  by (induction ws) (auto split: if_splits)

lemma length_removed: "x \<in> set xs \<Longrightarrow> length xs = Suc (length (remove1 x xs))"
  by (induction xs) auto

lemma waits_remove1: "someone_waits (remove1 w ws) \<Longrightarrow> someone_waits ws"
  using set_remove1_subset [of w ws] by (fastforce simp: someone_waits_def list_ex_iff)

lemma claimed_pos: "0 < claimed ws \<longleftrightarrow> list_ex (\<lambda>w. snd w \<in> {Woken, Doomed}) ws"
  by (auto simp: claimed_def list_ex_iff filter_empty_conv)

lemma wake_first_None: "wake_first ws = None \<longleftrightarrow> \<not> someone_waits ws"
  by (induction ws rule: wake_first.induct) auto

lemma wake_first_Some: "wake_first ws = Some ws' \<Longrightarrow> claimed ws' = Suc (claimed ws) \<and> length ws' = length ws"
  by (induction ws arbitrary: ws' rule: wake_first.induct) (auto split: if_splits)

text \<open>A permit that comes free goes to the first waiter or stays free.\<close>

lemma wake_ok:
  assumes "v + claimed ws + held = max_inflight" and "0 < v"
  shows "sem_ok max_inflight (sem_value (wake_up_next v ws g)) (sem_waiters (wake_up_next v ws g)) held
    \<and> length (sem_waiters (wake_up_next v ws g)) = length ws"
proof (cases "wake_first ws")
  case None
  then have "\<not> someone_waits ws" using wake_first_None by blast
  with None assms show ?thesis by (simp add: wake_up_next_def sem_ok_def)
next
  case (Some ws')
  with assms wake_first_Some [OF Some] show ?thesis by (simp add: wake_up_next_def sem_ok_def)
qed

lemma wake_sel [simp]:
  "pending_requests (wake_up_next v ws g) = pending_requests g" "active_requests (wake_up_next v ws g) = active_requests g"
  by (auto simp: wake_up_next_def split: option.splits)

lemma signal_waiters:
  "claimed (map (\<lambda>(u, s). (u, if u = t then signalled s else s)) ws) = claimed ws"
  "someone_waits (map (\<lambda>(u, s). (u, if u = t then signalled s else s)) ws) \<Longrightarrow> someone_waits ws"
  by (induction ws) (auto simp: signalled_def split: waiter.splits if_splits)

lemma arrive_ok:
  assumes "capacity_ok max_inflight max_pending g holding" and "capacity_arrive max_pending t g = (e, g')"
  shows "capacity_ok max_inflight max_pending g' (if e = Admitted then t # holding else holding)"
proof (cases "sem_value g")
  case None
  with assms show ?thesis by (auto simp: capacity_ok_def capacity_arrive_def sem_ok_def)
next
  case (Some v)
  have busy: "0 < claimed (sem_waiters g)" if "0 < v" "sem_locked v (sem_waiters g)"
  proof -
    from that obtain w where "w \<in> set (sem_waiters g)" "snd w \<noteq> Gone" by (auto simp: sem_locked_def list_ex_iff)
    then have "someone_waits (sem_waiters g) \<or> 0 < claimed (sem_waiters g)"
      unfolding claimed_pos someone_waits_def list_ex_iff by (cases "snd w") auto
    with assms(1) Some \<open>0 < v\<close> show ?thesis by (auto simp: capacity_ok_def sem_ok_def)
  qed
  have free: "claimed (sem_waiters g) = 0 \<and> \<not> someone_waits (sem_waiters g) \<and> 0 < v" if "\<not> sem_locked v (sem_waiters g)"
  proof -
    from that have "\<forall>w\<in>set (sem_waiters g). snd w = Gone" "0 < v" by (auto simp: sem_locked_def list_ex_iff)
    then show ?thesis by (auto simp: claimed_def someone_waits_def list_ex_iff)
  qed
  show ?thesis
    using assms Some free busy by (auto simp: capacity_ok_def capacity_arrive_def sem_ok_def split: if_splits)
qed

lemma resume_ok:
  assumes ok: "capacity_ok max_inflight max_pending g holding" and t: "(t, s) \<in> set (sem_waiters g)"
    and run: "capacity_resume t s g = (admitted, g')"
  shows "capacity_ok max_inflight max_pending g' (if admitted then t # holding else holding)"
proof -
  let ?ws = "remove1 (t, s) (sem_waiters g)"
  from ok t obtain v where v: "sem_value g = Some v" by (cases "sem_value g") (auto simp: capacity_ok_def sem_ok_def)
  have n: "length (sem_waiters g) = Suc (length ?ws)" by (rule length_removed [OF t])
  from ok v have all: "v + claimed ?ws + claimed [(t, s)] + length holding = max_inflight"
    and basic: "active_requests g = length holding" "pending_requests g = Suc (length ?ws)" "Suc (length ?ws) \<le> max_pending"
    and wake: "0 < v \<longrightarrow> someone_waits (sem_waiters g) \<longrightarrow> 0 < claimed ?ws + claimed [(t, s)]"
    using claimed_remove1 [OF t] n by (auto simp: capacity_ok_def sem_ok_def)
  show ?thesis
  proof (cases s)
    case Waiting
    with run all basic wake v waits_remove1 show ?thesis
      by (auto simp: capacity_resume_def capacity_ok_def sem_ok_def Let_def)
  next
    case Gone
    with run all basic wake v waits_remove1 show ?thesis
      by (auto simp: capacity_resume_def capacity_ok_def sem_ok_def Let_def)
  next
    case Woken
    then have sum: "v + claimed ?ws + length (t # holding) = max_inflight" using all by simp
    show ?thesis
    proof (cases "0 < v")
      case True
      from wake_ok [OF sum True] run Woken True basic v show ?thesis
        by (auto simp: capacity_resume_def capacity_ok_def Let_def)
    next
      case False
      with run Woken sum basic v show ?thesis by (auto simp: capacity_resume_def capacity_ok_def sem_ok_def Let_def)
    qed
  next
    case Doomed
    then have sum: "Suc v + claimed ?ws + length holding = max_inflight" using all by simp
    from wake_ok [OF sum] run Doomed basic v show ?thesis
      by (auto simp: capacity_resume_def capacity_ok_def Let_def)
  qed
qed

lemma release_ok:
  assumes "capacity_ok max_inflight max_pending g holding" and "t \<in> set holding"
  shows "capacity_ok max_inflight max_pending (capacity_release g) (remove1 t holding)"
proof -
  from assms(2) have n: "length holding = Suc (length (remove1 t holding))" by (rule length_removed)
  show ?thesis
  proof (cases "sem_value g")
    case None
    with assms(1) n show ?thesis by (auto simp: capacity_release_def capacity_ok_def sem_ok_def)
  next
    case (Some v)
    with assms(1) n have "Suc v + claimed (sem_waiters g) + length (remove1 t holding) = max_inflight"
      by (auto simp: capacity_ok_def sem_ok_def)
    from wake_ok [OF this, of "g\<lparr>active_requests := active_requests g - 1\<rparr>"] assms(1) n Some show ?thesis
      by (auto simp: capacity_release_def capacity_ok_def)
  qed
qed

lemma capacity_run_ok: "capacity_run max_inflight max_pending g holding \<Longrightarrow> capacity_ok max_inflight max_pending g holding"
proof (induction rule: capacity_run.induct)
  case starts
  then show ?case by (simp add: new_capacity_def capacity_ok_def sem_ok_def)
next
  case (arrives g holding t e g')
  then show ?case by (auto dest: arrive_ok)
next
  case (signals g holding t)
  then show ?case
    by (auto simp: capacity_ok_def capacity_signal_def sem_ok_def signal_waiters dest: signal_waiters(2) split: option.splits)
next
  case (resumes g holding t s admitted g')
  then show ?case using resume_ok by blast
next
  case (releases g holding t)
  then show ?case by (blast intro: release_ok)
qed

text \<open>
  C6. The permits of a replica are neither exceeded nor lost. However requests arrive, time out, are cancelled, run on and
  finish: with a bound, no more than \<open>MAX_INFLIGHT_REQUESTS\<close> hold a permit, and every permit is free, held, or on its way to a woken
  waiter; the gauges equal the requests that hold and that wait, and no more than \<open>MAX_PENDING_REQUESTS\<close> wait; and nobody waits beside a
  free permit unless a woken waiter is still to run on, which wakes the next one.
\<close>

theorem capacity_respected:
  assumes "capacity_run max_inflight max_pending g holding"
  shows "active_requests g = length holding \<and> pending_requests g = length (sem_waiters g) \<and> pending_requests g \<le> max_pending
    \<and> (0 < max_inflight \<longrightarrow> length holding \<le> max_inflight
        \<and> (\<exists>v. sem_value g = Some v \<and> v + claimed (sem_waiters g) + length holding = max_inflight
            \<and> (0 < v \<longrightarrow> someone_waits (sem_waiters g) \<longrightarrow> 0 < claimed (sem_waiters g))))"
  using capacity_run_ok [OF assms] by (auto simp: capacity_ok_def sem_ok_def split: option.splits)

definition demo_capacity :: capacity where
  "demo_capacity = capacity_release (snd (capacity_arrive 1 2 (snd (capacity_arrive 1 1 (new_capacity 1)))))"

theorem capacity_respected_witness:
  "capacity_run 1 1 demo_capacity [] \<and> sem_waiters demo_capacity = [(2, Woken)] \<and> sem_value demo_capacity = Some 0
   \<and> active_requests demo_capacity = 0 \<and> pending_requests demo_capacity = 1"
proof -
  let ?g1 = "snd (capacity_arrive 1 1 (new_capacity 1))" and ?g2 = "snd (capacity_arrive 1 2 (snd (capacity_arrive 1 1 (new_capacity 1))))"
  have one: "capacity_arrive 1 1 (new_capacity 1) = (Admitted, ?g1)" and two: "capacity_arrive 1 2 ?g1 = (Queued, ?g2)"
    and free: "1 \<notin> fst ` set (sem_waiters (new_capacity 1))" "2 \<notin> fst ` set (sem_waiters ?g1)"
    by (simp_all add: capacity_arrive_def new_capacity_def sem_locked_def)
  from releases [OF arrives [OF arrives [OF starts free(1) one] free(2) two], of 1]
  have run: "capacity_run 1 1 demo_capacity []" by (simp add: demo_capacity_def)
  have end_state: "sem_waiters demo_capacity = [(2, Woken)]" "sem_value demo_capacity = Some 0"
    by (simp_all add: demo_capacity_def capacity_release_def capacity_arrive_def new_capacity_def sem_locked_def wake_up_next_def Let_def)
  with capacity_respected [OF run] run show ?thesis by simp
qed

end
