(* ===== verification/Spec2Isabelle.thy ===== *)
theory Spec2Isabelle
  imports FlowRun JevProvider FlowRouting PolicySelection PolicyTemplates CodexInvites
    AnthropicAdapter GoogleAdapter BedrockAdapter CodexBackend WalletGuarantees WalletDeposits KnobSchema RouteContract
    Budgets RateBucket PeerGates LedgerQueue OpenAIAdapter Ingress Capacity
begin

text \<open>
  Verification library of \<open>unhardcoded\<close>, a router that places a chat request on one of many model providers.

  THE PROGRAM. A Python host wraps a Lua core. The core ranks the providers that may serve a request and
  retries down the list; the host does everything around it. A request comes in through the ingress
  (\<open>auth_proxy.py\<close>), which knows the caller or asks a control plane (\<open>control_plane_client.py\<close>), goes on to the HTTP
  facade (\<open>shim.py\<close>, \<open>responses_api.py\<close>), is bound to the contract of the route it names (\<open>route_contract.py\<close>,
  \<open>policy_selection.py\<close>), is admitted against the rate bucket and the monthly budget of its consumer
  (\<open>host_store.py\<close>), may run as a flow of several nodes (\<open>flow_runner.py\<close>, \<open>flow_routing.py\<close>, \<open>flow_data.py\<close>), and
  each call the core decides on goes through a provider adapter (\<open>provider_adapters/\<close>, \<open>codex_backend.py\<close>). In the
  background a keeper moves money between a hot wallet and the escrow of the AntSeed marketplace
  (\<open>wallet_keeper.py\<close>), and a writer thread fills the call ledger. This library models these parts one by one;
  the components share the store, the environment, the clock and the values of the wire.

  VALUES (\<open>Prelude\<close>, \<open>PyFloat\<close>, \<open>PyValue\<close>, \<open>PyNum\<close>, \<open>PyText\<close>, \<open>JsonText\<close>, \<open>FloatOrder\<close>). Every operation that may raise
  returns \<open>'a res\<close>, the sum of an exception and a value, so a raise, an early return and a caught error are
  branches of a definition. A string is the list of its UTF-8 bytes; \<open>len\<close> and slices count the characters. A dict
  is an association list in insertion order (\<open>dset\<close>, \<open>dget\<close>, \<open>dpop\<close>, \<open>dupd\<close>), a value of the wire is a \<open>jval\<close>. A float is
  the rational it denotes or an infinity or NaN, and every arithmetic step rounds once with \<open>fl\<close>, to nearest even;
  \<open>FloatOrder\<close> proves that rounding is monotone and bounds its error. \<open>json_dumps\<close> and \<open>json_loads\<close> are the writer and
  a recursive-descent reader of JSON text; their round trip is proved in \<open>JsonText\<close>. Integers are unbounded, as in
  Python. The reader of JSON text is a total function because it consumes its text. The one fuel of the library is
  in \<open>shortest_from\<close>, which looks for the shortest decimal of a float: 17 digits, which always identify a double.

  FLOWS (\<open>FlowData\<close>, \<open>FlowRunner\<close>, \<open>FlowSchedule\<close>, \<open>FlowRun\<close>, \<open>FlowRouting\<close>). \<open>FlowData\<close> is \<open>flow_data.py\<close>: the data
  operations and their bounds. \<open>FlowRunner\<close> is \<open>flow_runner.py\<close>: \<open>topo_order\<close> by Kahn's algorithm, prompt assembly, the
  loop over the nodes. \<open>kahn\<close> is total, by the waiting in-degrees and the queue; \<open>FlowSchedule\<close> shows that
  the loop as the code writes it ends from every state, and that the schedule is sound and, for acyclic
  graphs, complete. \<open>FlowRun\<close> shows what a run guarantees: deadlines, traces, inputs before use. \<open>FlowRouting\<close> is the
  choice of a policy for a node by a decision model: only declared policies run.

  DECISIONS (\<open>Decisions\<close>, \<open>DecisionProtocol\<close>, \<open>JevProvider\<close>). \<open>decision_providers/\<close> and \<open>decision_protocol.py\<close>: what a
  typed decision may be asked and answered, and the one remote provider with its retry and its deadline. An
  accepted answer is an offered choice with a proper distribution. The locale of providers in \<open>Decisions\<close> states
  what a client of any provider may rely on; it is interpreted on the recorded, the deterministic and the
  Jev provider.

  POLICIES AND CONTRACTS (\<open>AutoPolicies\<close>, \<open>PolicySelection\<close>, \<open>PolicyTemplates\<close>, \<open>RouteContract\<close>). The workload policies and
  routing limits of \<open>auto_policies.py\<close>, automatic routes of \<open>policy_selection.py\<close>, the product intents that
  \<open>policy_templates.py\<close> compiles, and what \<open>route_contract.py\<close> lets a caller choose of a published route. The
  lemmas show that what runs was authorised, stays inside the price and reliability rails, and that the owner of
  a route decides its policy and limits.

  PROVIDER ADAPTERS (\<open>PyEffect\<close>, \<open>ProviderCommon\<close>, \<open>ProviderWire\<close>, \<open>AnthropicAdapter\<close>, \<open>GoogleAdapter\<close>, \<open>BedrockAdapter\<close>,
  \<open>ResponsesApi\<close>, \<open>CodexBackend\<close>, \<open>Diagnostics\<close>, \<open>OpenAIRequest\<close>, \<open>OpenAIAdapter\<close>). Each adapter turns the router's request
  into the provider's and the reply, complete or streamed, into the router's result. \<open>drive_http_sse\<close> folds the lines
  the client delivers; each line carries the clock before and after it, so the first-token deadline is decided as in the
  code. The client is a field of the record \<open>wire\<close> (or \<open>aws\<close>); it gives no trace events. In the OpenAI-compatible adapter
  the slot of the seller and the deadline of an attempt are arguments, and message content is a text or a list of parts.
  \<open>PyEffect\<close> is state that survives an exception. The lemmas show that streaming a message gives the very result of its
  complete response, however it was cut, that messages survive translation and back, and that a tenant's call uses the
  tenant's key and address only.

  THE INGRESS AND THE CONTROL PLANE (\<open>PyUrl\<close>, \<open>KeyResolver\<close>, \<open>RouteScope\<close>, \<open>CallerAuth\<close>, \<open>IngressStream\<close>, \<open>Capacity\<close>, \<open>Ingress\<close>). \<open>PyUrl\<close> is
  what the code uses of \<open>urllib.parse\<close>. \<open>KeyResolver\<close> is the key cache of \<open>control_plane_client.py\<close>: \<open>resolve_key\<close> is cut at
  its await into \<open>resolve_begin\<close> and \<open>resolve_end\<close>, and \<open>resolver_run\<close> lets any tasks run between them. \<open>RouteScope\<close> holds the
  credentials, routes and key limits the plane hands out. \<open>CallerAuth\<close> is the authentication of \<open>auth_proxy.py\<close>, the
  records behind it, the path and the route. \<open>IngressStream\<close> is the task that reads a stream, the tail it keeps (at most
  4 MiB) and what is booked from it. \<open>Capacity\<close> is the semaphore of permits with its queue, as a relation over steps of
  tasks. \<open>Ingress\<close> is the handler \<open>proxy\<close>, one stage per admission step: a stage lists its
  effects and then raises, replies or goes on, and what the stores, the plane, the queue for permits and the router
  answer is the record \<open>answers\<close>. The lemmas show that a forwarded request passed every gate, that its identity is the
  authenticated one, that permits and reservations are given back, and that a stream is booked at its reported cost.

  THE STORE (\<open>StoreTransaction\<close>, \<open>Budgets\<close>, \<open>RateBucket\<close>, \<open>PeerLeases\<close>, \<open>PeerGates\<close>, \<open>LedgerQueue\<close>). Tables of \<open>host_store.py\<close> as
  lists of rows in insertion order. A function of the store is one transaction, serialised by a row or an advisory
  lock, so the calls of all replicas are a sequence: \<open>transact\<close> runs it or, when it fails, leaves the tables as
  they were. \<open>Budgets\<close> compares the tables with the history of admitted and booked calls; \<open>RateBucket\<close> bounds what
  is admitted in a window with a stated rounding allowance; \<open>PeerLeases\<close> and \<open>PeerGates\<close> (with
  \<open>openai_compatible.py\<close>) bound the calls in flight to a seller across and inside processes; \<open>LedgerQueue\<close>
  interleaves the request threads with the writer thread.

  THE WALLET (\<open>WalletLedger\<close>, \<open>WalletKeeper\<close>, \<open>WalletSafety\<close>, \<open>WalletGuarantees\<close>, \<open>WalletDeposits\<close>, \<open>WalletDemo\<close>). The ledger
  table \<open>wallet_ops\<close> and every method of the keeper as programs over a world: the ledger, the requests sent so far and
  a counter of ticks, at which the clock, the store and the sidecar are read. \<open>keeper_reaches\<close> is the loop of \<open>run\<close>.
  \<open>WalletSafety\<close> holds the locales of what each step keeps, interpreted once per guarantee in \<open>WalletGuarantees\<close>;
  \<open>WalletDeposits\<close> states the guards of a deposit at the tick that reads them.

  SETTINGS AND INVITES (\<open>Settings\<close>, \<open>KnobSchema\<close>, \<open>CodexInvites\<close>). The operator's knobs with types and bounds
  (\<open>settings.py\<close>, \<open>env_coerce.py\<close>, the knobs of \<open>providers.py\<close>) and how they bind the keeper's deposits; the file of
  single-use invites as an implementation of a store of named invites.

  WHAT THE MODEL ABSTRACTS. The Lua core, the HTTP client, boto3, the sidecar, libm's logarithm, SHA-256, random ids
  and clocks are arguments. Request and response bodies are UTF-8. Lone surrogates do not occur in strings, and case mapping, digits and name patterns
  are ASCII. \<open>json.loads\<close> has no recursion limit. A sum in SQL adds in the order of insertion (of the id for
  \<open>wallet_ops\<close>). The order of a Python set is not used. Log lines and counters of metrics are left out.

  NOT MODELLED. The Lua core is a submodule that is not here, and with it the ranking, the fallback and the
  algebra of policies; \<open>llm_router_host.py\<close> converts values for it. The dashboard half of \<open>auth_proxy.py\<close> (pages, sessions,
  key administration, statistics), the facade (\<open>shim.py\<close>, \<open>serve.py\<close>), the SaaS routes and the metering API are HTTP
  handlers; the analytics of \<open>host_store.py\<close> are SQL text read by the dashboard; \<open>codex_auth.py\<close> and the Codex broker are
  files, locks and HTTP; \<open>sources/\<close> scrapes prices off the request path. Scripts and tests are left out.
\<close>

end
